(* ===== verification/Dbt2_Prelude.thy ===== *)
theory Dbt2_Prelude
  imports Main "HOL-Library.State_Monad" "HOL-Library.Multiset"
begin

text \<open>
  Shared vocabulary of the development.
  \<^item> C integer arithmetic: division and remainder that truncate towards zero and the casts that
    keep the low bits of a two's complement value.
  \<^item> The integer conversions of \<open>printf\<close> that the sources use (\<open>%d\<close>, \<open>%04d\<close>, \<open>%02d\<close>).
  \<^item> A small logic for the state monad, in which the code that threads a generator state through
    many calls is written: \<open>advances\<close> says how a computation moves the state, \<open>yields\<close> what
    its result satisfies, and \<open>for_range\<close> is a C counting loop that concatenates what its body
    returns.
\<close>

section \<open>C integers\<close>

type_synonym bytes = "char list"

definition c_div :: "int \<Rightarrow> int \<Rightarrow> int" where
  "c_div a b = sgn a * sgn b * (\<bar>a\<bar> div \<bar>b\<bar>)"

definition c_mod :: "int \<Rightarrow> int \<Rightarrow> int" where
  "c_mod a b = a - b * c_div a b"

text \<open>The conversion of a wider integer to \<open>int\<close> keeps its 32 low bits.\<close>

definition cast_int :: "int \<Rightarrow> int" where
  "cast_int x = (x + 2 ^ 31) mod 2 ^ 32 - 2 ^ 31"

lemma cast_int_id [simp]: "- (2 ^ 31) \<le> x \<Longrightarrow> x < 2 ^ 31 \<Longrightarrow> cast_int x = x"
  by (simp add: cast_int_def)

lemma cast_int_range: "- (2 ^ 31) \<le> cast_int x \<and> cast_int x < 2 ^ 31"
proof -
  have "0 \<le> (x + 2 ^ 31) mod 2 ^ 32" "(x + 2 ^ 31) mod 2 ^ 32 < 2 ^ 32"
    by (rule pos_mod_sign, simp) (rule pos_mod_bound, simp)
  then show ?thesis unfolding cast_int_def by auto
qed

lemma c_div_nonneg: "0 \<le> a \<Longrightarrow> 0 < b \<Longrightarrow> c_div a b = a div b"
  by (auto simp: c_div_def sgn_if)

lemma c_mod_nonneg: "0 \<le> a \<Longrightarrow> 0 < b \<Longrightarrow> c_mod a b = a mod b"
  by (simp add: c_mod_def c_div_nonneg minus_mult_div_eq_mod)

section \<open>Integer conversions of printf\<close>

definition digit :: "nat \<Rightarrow> char" where
  "digit n = char_of (48 + n)"

fun digits :: "nat \<Rightarrow> bytes" where
  "digits n = (if n < 10 then [digit n] else digits (n div 10) @ [digit (n mod 10)])"

declare digits.simps [simp del]

text \<open>\<open>%d\<close>, and \<open>%0wd\<close> for a field of width \<open>w\<close> filled with zeros.\<close>

definition fmt_d :: "int \<Rightarrow> bytes" where
  "fmt_d n = (if n < 0 then CHR ''-'' # digits (nat (- n)) else digits (nat n))"

definition zero_fill :: "nat \<Rightarrow> bytes \<Rightarrow> bytes" where
  "zero_fill w ds = replicate (w - length ds) (CHR ''0'') @ ds"

definition fmt_0d :: "nat \<Rightarrow> int \<Rightarrow> bytes" where
  "fmt_0d w n = (if n < 0 then CHR ''-'' # zero_fill (w - 1) (digits (nat (- n)))
     else zero_fill w (digits (nat n)))"

text \<open>The characters such a conversion can print.\<close>

definition decimal_chars :: "char set" where
  "decimal_chars = set ''-.0123456789''"

lemma digit_mod_decimal: "digit (n mod 10) \<in> decimal_chars"
proof -
  have "list_all (\<lambda>k. digit k \<in> set ''-.0123456789'') [0..<10]" by code_simp
  then show ?thesis by (simp add: list_all_iff decimal_chars_def)
qed

lemma digits_decimal: "set (digits n) \<subseteq> decimal_chars"
proof (induction n rule: digits.induct)
  case (1 n)
  show ?case
  proof (cases "n < 10")
    case True
    then show ?thesis using digit_mod_decimal [of n] by (simp add: digits.simps)
  next
    case False
    then show ?thesis using "1" digit_mod_decimal [of n] by (simp add: digits.simps [of n])
  qed
qed

lemma digits_nonempty [simp]: "digits n \<noteq> []"
  by (subst digits.simps) simp

lemma zero_fill_decimal: "set (zero_fill w (digits n)) \<subseteq> decimal_chars"
  using digits_decimal [of n] by (auto simp: zero_fill_def decimal_chars_def)

lemma fmt_d_decimal: "set (fmt_d n) \<subseteq> decimal_chars"
  using digits_decimal by (auto simp: fmt_d_def decimal_chars_def)

lemma fmt_0d_decimal: "set (fmt_0d w n) \<subseteq> decimal_chars"
  using zero_fill_decimal by (auto simp: fmt_0d_def decimal_chars_def)

lemma length_digits_le:
  assumes "n < 10 ^ w" "0 < w"
  shows "length (digits n) \<le> w"
  using assms
proof (induction n arbitrary: w rule: digits.induct)
  case (1 n)
  show ?case
  proof (cases "n < 10")
    case True
    then show ?thesis using "1.prems" by (simp add: digits.simps)
  next
    case False
    have w: "1 < w" using False "1.prems"(1) by (cases w; cases "w - 1") auto
    then have "n div 10 < 10 ^ (w - 1)"
      using "1.prems"(1) by (cases w) (auto simp: less_mult_imp_div_less)
    then have "length (digits (n div 10)) \<le> w - 1" using "1.IH" [OF False] w by simp
    then show ?thesis using False w by (simp add: digits.simps [of n])
  qed
qed

section \<open>Reasoning about the state monad\<close>

named_theorems advances_intro "how computations move the state"
named_theorems yields_intro "what computations return"

text \<open>
  \<open>advances f m\<close>: whatever \<open>m\<close> returns, it leaves the state \<open>f s\<close> behind. For the
  generators \<open>f\<close> is a power of the generator's step, so this says how many numbers are drawn.
\<close>

definition advances :: "('s \<Rightarrow> 's) \<Rightarrow> ('s, 'a) state \<Rightarrow> bool" where
  "advances f m \<longleftrightarrow> (\<forall>s. snd (run_state m s) = f s)"

definition yields :: "('a \<Rightarrow> bool) \<Rightarrow> ('s, 'a) state \<Rightarrow> bool" where
  "yields P m \<longleftrightarrow> (\<forall>s. P (fst (run_state m s)))"

lemma advancesD: "advances f m \<Longrightarrow> run_state m s = (fst (run_state m s), f s)"
  by (metis advances_def prod.collapse)

lemma yieldsD: "yields P m \<Longrightarrow> P (fst (run_state m s))"
  by (simp add: yields_def)

lemma yields_mono: "yields P m \<Longrightarrow> (\<And>x. P x \<Longrightarrow> Q x) \<Longrightarrow> yields Q m"
  by (simp add: yields_def)

lemma yields_return: "P x \<Longrightarrow> yields P (State_Monad.return x)"
  by (simp add: yields_def)

lemma yields_bind:
  "yields P m \<Longrightarrow> (\<And>x. P x \<Longrightarrow> yields Q (f x)) \<Longrightarrow> yields Q (State_Monad.bind m f)"
  by (simp add: yields_def split: prod.split) (metis fst_conv)

text \<open>Counting steps: \<open>draws step n m\<close> says that \<open>m\<close> moves the state by \<open>n\<close> steps.\<close>

definition draws :: "('s \<Rightarrow> 's) \<Rightarrow> nat \<Rightarrow> ('s, 'a) state \<Rightarrow> bool" where
  "draws step n m \<longleftrightarrow> advances (step ^^ n) m"

lemma drawsD: "draws step n m \<Longrightarrow> snd (run_state m s) = (step ^^ n) s"
  by (simp add: draws_def advances_def)

lemma draws_return [advances_intro]: "draws step 0 (State_Monad.return x)"
  by (simp add: draws_def advances_def)

lemma draws_bind:
  "draws step a m \<Longrightarrow> (\<And>x. draws step b (f x)) \<Longrightarrow> draws step (a + b) (State_Monad.bind m f)"
  by (auto simp: draws_def advances_def funpow_add add.commute [of a b] split: prod.split)
     (metis snd_conv)+

text \<open>The number that the rest draws may depend on what the first part returns.\<close>

lemma draws_bind_yields:
  "draws step a m \<Longrightarrow> yields P m \<Longrightarrow> (\<And>x. P x \<Longrightarrow> draws step b (f x)) \<Longrightarrow>
    draws step (a + b) (State_Monad.bind m f)"
  by (auto simp: draws_def advances_def yields_def funpow_add add.commute [of a b] split: prod.split)
     (metis fst_conv snd_conv)+

text \<open>The form in which the rule is applied: the total is computed while the rules fire.\<close>

lemma draws_bind_minus [advances_intro]:
  "draws step a m \<Longrightarrow> a \<le> n \<Longrightarrow> (\<And>x. draws step (n - a) (f x))
    \<Longrightarrow> draws step n (State_Monad.bind m f)"
  using draws_bind [of step a m "n - a" f] by simp

lemma draws_if [advances_intro]:
  "(b \<Longrightarrow> draws step n m) \<Longrightarrow> (\<not> b \<Longrightarrow> draws step n m') \<Longrightarrow> draws step n (if b then m else m')"
  by simp

lemma draws_case_prod [advances_intro]:
  "(\<And>a b. draws step n (f a b)) \<Longrightarrow> draws step n (case x of (a, b) \<Rightarrow> f a b)"
  by (cases x) simp

lemma draws_bind_return: "draws step n m \<Longrightarrow> draws step n (State_Monad.bind m (\<lambda>x. State_Monad.return (f x)))"
  using draws_bind [of step n m 0, OF _ draws_return] by simp

section \<open>Counting loops\<close>

text \<open>
  \<open>for_range a b body\<close> is \<open>for (i = a; i < b; i++) body(i)\<close>, where each round of the body
  returns the text it writes; the loop returns all of it in order.
\<close>

fun for_list :: "('i \<Rightarrow> ('s, 'x list) state) \<Rightarrow> 'i list \<Rightarrow> ('s, 'x list) state" where
  "for_list body [] = State_Monad.return []"
| "for_list body (i # is) = do {
     x \<leftarrow> body i;
     xs \<leftarrow> for_list body is;
     State_Monad.return (x @ xs)
   }"

definition for_range :: "int \<Rightarrow> int \<Rightarrow> (int \<Rightarrow> ('s, 'x list) state) \<Rightarrow> ('s, 'x list) state" where
  "for_range a b body = for_list body [a..b - 1]"

lemma for_list_append:
  "for_list body (xs @ ys) = do {
     x \<leftarrow> for_list body xs;
     y \<leftarrow> for_list body ys;
     State_Monad.return (x @ y)
   }"
  by (induction xs) simp_all

lemma for_range_empty: "b \<le> a \<Longrightarrow> for_range a b body = State_Monad.return []"
  by (simp add: for_range_def)

lemma for_range_split:
  assumes "a \<le> b" "b \<le> c"
  shows "for_range a c body = do {
     x \<leftarrow> for_range a b body;
     y \<leftarrow> for_range b c body;
     State_Monad.return (x @ y)
   }"
proof -
  have "[a..c - 1] = [a..b - 1] @ [b..c - 1]"
    using assms upto_split1 [of a b "c - 1"] by (cases "b = c") auto
  then show ?thesis by (simp add: for_range_def for_list_append)
qed

lemma draws_for_list:
  "(\<And>i. i \<in> set is \<Longrightarrow> draws step n (body i)) \<Longrightarrow> draws step (length is * n) (for_list body is)"
proof (induction "is")
  case Nil
  show ?case by (simp add: draws_return)
next
  case (Cons i "is")
  have "draws step (n + (length is * n + 0)) (for_list body (i # is))"
    unfolding for_list.simps using Cons by (intro draws_bind draws_return) simp_all
  then show ?case by simp
qed

lemma draws_for_range:
  "(\<And>i. a \<le> i \<Longrightarrow> i < b \<Longrightarrow> draws step n (body i)) \<Longrightarrow>
    draws step (nat (b - a) * n) (for_range a b body)"
  using draws_for_list [of "[a..b - 1]" step n body] by (simp add: for_range_def)

text \<open>A loop whose rounds draw different numbers: the total is the sum.\<close>

lemma draws_for_list_sum:
  "(\<And>i. i \<in> set is \<Longrightarrow> draws step (n i) (body i)) \<Longrightarrow>
    draws step (sum_list (map n is)) (for_list body is)"
proof (induction "is")
  case Nil
  show ?case by (simp add: draws_return)
next
  case (Cons i "is")
  have "draws step (n i + (sum_list (map n is) + 0)) (for_list body (i # is))"
    unfolding for_list.simps using Cons by (intro draws_bind draws_return) simp_all
  then show ?case by simp
qed

lemma yields_for_list:
  assumes "\<And>i. i \<in> set is \<Longrightarrow> yields P (body i)" "P []" "\<And>x y. P x \<Longrightarrow> P y \<Longrightarrow> P (x @ y)"
  shows "yields P (for_list body is)"
  using assms(1)
proof (induction "is")
  case Nil
  show ?case using assms(2) by (simp add: yields_return)
next
  case (Cons i "is")
  then show ?case unfolding for_list.simps
    by (intro yields_bind [where P = P] yields_return assms(3)) simp_all
qed

lemma yields_for_range:
  assumes "\<And>i. a \<le> i \<Longrightarrow> i < b \<Longrightarrow> yields P (body i)" "P []" "\<And>x y. P x \<Longrightarrow> P y \<Longrightarrow> P (x @ y)"
  shows "yields P (for_range a b body)"
  unfolding for_range_def by (rule yields_for_list) (use assms in auto)

text \<open>What the rounds are related to accumulates as their results do.\<close>

lemma yields_collect:
  assumes "\<And>i. i \<in> set is \<Longrightarrow> yields (R (ks i)) (body i)" "R [] []"
    and "\<And>a b x y. R a x \<Longrightarrow> R b y \<Longrightarrow> R (a @ b) (x @ y)"
  shows "yields (R (concat (map ks is))) (for_list body is)"
  using assms(1)
proof (induction "is")
  case Nil
  show ?case using assms(2) by (simp add: yields_return)
next
  case (Cons i "is")
  have "yields (R (ks i)) (body i)" "yields (R (concat (map ks is))) (for_list body is)"
    using Cons by simp_all
  then show ?case unfolding for_list.simps list.map concat.simps
    by (elim yields_bind) (intro yields_return assms(3))
qed

text \<open>A loop that runs the body a fixed number of times and collects what it returns.\<close>

fun repeat_m :: "nat \<Rightarrow> ('s, 'a) state \<Rightarrow> ('s, 'a list) state" where
  "repeat_m 0 m = State_Monad.return []"
| "repeat_m (Suc n) m = do { x \<leftarrow> m; xs \<leftarrow> repeat_m n m; State_Monad.return (x # xs) }"

lemma yields_repeat_m: "yields P m \<Longrightarrow> yields (\<lambda>xs. length xs = n \<and> list_all P xs) (repeat_m n m)"
proof (induction n)
  case 0
  show ?case by (simp add: yields_return)
next
  case (Suc n)
  have "yields (\<lambda>xs. length xs = n \<and> list_all P xs) (repeat_m n m)" using Suc by simp
  then show ?case unfolding repeat_m.simps
    by (intro yields_bind [OF Suc.prems] yields_bind yields_return) simp_all
qed

end
