(* ===== verification/Float64.thy ===== *)
theory Float64
  imports Complex_Main "HOL-Library.Log_Nat" Dbt2_Prelude
begin

text \<open>
  The C type \<open>double\<close>. A finite double is modelled by the rational number it stands for, and
  every arithmetic operation by the exact operation on rationals followed by \<open>fl\<close>, the rounding of
  IEEE 754 binary64: to the nearest multiple of the quantum of the result, ties to even, with the
  quantum of the subnormal range as its lower bound. No value of the program comes near the
  overflow threshold, so infinities and NaNs are left out; the sign of a zero is not kept.

  The lemmas are the ones numerical code is verified with: \<open>fl\<close> is monotone, it leaves doubles
  (in particular integers up to \<open>2\<^sup>5\<^sup>3\<close>) alone, and its relative error is at most \<open>2\<^sup>-\<^sup>5\<^sup>3\<close>.
\<close>

section \<open>Rounding to nearest, ties to even\<close>

definition rne :: "rat \<Rightarrow> int" where
  "rne q = (let f = \<lfloor>q\<rfloor>; r = q - of_int f in
     if r < 1/2 then f else if 1/2 < r then f + 1 else if even f then f else f + 1)"

definition ilog2 :: "rat \<Rightarrow> int" where
  "ilog2 x = (let (n, d) = quotient_of x; a = bitlen n - bitlen d
     in if 2 powi a \<le> x then a else a - 1)"

definition quantum :: "rat \<Rightarrow> int" where
  "quantum x = max (ilog2 \<bar>x\<bar> - 52) (- 1074)"

definition rnd :: "int \<Rightarrow> rat \<Rightarrow> rat" where
  "rnd k x = of_int (rne (x / 2 powi k)) * 2 powi k"

definition fl :: "rat \<Rightarrow> rat" where
  "fl x = (if x = 0 then 0 else rnd (quantum x) x)"

lemma rne_err: "\<bar>of_int (rne q) - q\<bar> \<le> 1/2"
proof -
  have "of_int \<lfloor>q\<rfloor> \<le> q" "q < of_int \<lfloor>q\<rfloor> + 1" by linarith+
  then show ?thesis
    unfolding rne_def Let_def abs_le_iff by (simp split: if_split) linarith
qed

lemma rne_ge: "of_int m \<le> q \<Longrightarrow> m \<le> rne q"
  unfolding rne_def Let_def by (auto simp: le_floor_iff intro: le_floor_iff[THEN iffD2] add_increasing2)

lemma rne_le: "q \<le> of_int m \<Longrightarrow> rne q \<le> m"
proof -
  assume "q \<le> of_int m"
  then have "q = of_int m \<or> \<lfloor>q\<rfloor> + 1 \<le> m" by (smt (verit) floor_less_iff of_int_floor_le less_le)
  then show ?thesis unfolding rne_def Let_def by auto
qed

lemma rne_of_int [simp]: "rne (of_int m) = m"
  by (simp add: rne_def)

lemma rne_minus: "rne (- q) = - rne q"
proof (cases "q \<in> \<int>")
  case True
  then obtain m where "q = of_int m" by (auto elim: Ints_cases)
  then show ?thesis by (metis of_int_minus rne_of_int)
next
  case False
  then have "\<lfloor>- q\<rfloor> = - \<lfloor>q\<rfloor> - 1"
    using ceiling_altdef[of q] by (simp add: floor_minus Ints_def) (metis Ints_def False Ints_of_int)
  then show ?thesis unfolding rne_def Let_def by auto
qed

lemma rne_mono: "p \<le> q \<Longrightarrow> rne p \<le> rne q"
proof (cases "\<lfloor>p\<rfloor> = \<lfloor>q\<rfloor>")
  case True
  assume "p \<le> q"
  with True show ?thesis unfolding rne_def Let_def by auto
next
  case False
  assume "p \<le> q"
  then have "\<lfloor>p\<rfloor> + 1 \<le> \<lfloor>q\<rfloor>" using False floor_mono by force
  moreover have "rne p \<le> \<lfloor>p\<rfloor> + 1" unfolding rne_def Let_def by auto
  moreover have "\<lfloor>q\<rfloor> \<le> rne q" unfolding rne_def Let_def by auto
  ultimately show ?thesis by linarith
qed

lemma powi2_mono: "a \<le> b \<Longrightarrow> (2::rat) powi a \<le> 2 powi b"
  by (rule power_int_increasing) simp_all

lemma powi2_lessD: "(2::rat) powi a < 2 powi b \<Longrightarrow> a < b"
  using powi2_mono [of b a] by (meson not_le)

lemma powi2_split: "b \<le> a \<Longrightarrow> (2::rat) powi a = of_int (2 ^ nat (a - b)) * 2 powi b"
proof -
  assume "b \<le> a"
  then have "(2::rat) powi (a - b) = of_int (2 ^ nat (a - b))" by (simp add: power_int_def)
  moreover have "(2::rat) powi a = 2 powi (a - b) * 2 powi b"
    by (simp flip: power_int_add)
  ultimately show ?thesis by simp
qed

lemma powi2_diff: "(2::rat) powi (a - b) = 2 powi a / 2 powi b"
  by (simp add: power_int_diff)

lemma powi2_nat: "0 \<le> a \<Longrightarrow> (2::rat) powi a = of_int (2 ^ nat a)"
  by (simp add: power_int_def)

section \<open>The binary exponent\<close>

lemma ilog2_bounds:
  assumes "0 < x"
  shows "2 powi ilog2 x \<le> x" and "x < 2 powi (ilog2 x + 1)"
proof -
  obtain n d where nd: "quotient_of x = (n, d)" by (cases "quotient_of x") auto
  then have d: "0 < d" and x: "x = of_int n / of_int d"
    by (auto simp: quotient_of_denom_pos quotient_of_div)
  with assms have n: "0 < n" by (simp add: zero_less_divide_iff)
  have bl: "2 powi (bitlen m - 1) \<le> (of_int m :: rat) \<and> of_int m < (2::rat) powi bitlen m" if "0 < m" for m
  proof -
    have b: "0 \<le> bitlen m - 1" using that by (simp add: bitlen_def floorlog_def)
    have "(2::int) ^ nat (bitlen m - 1) \<le> m" "m < 2 ^ nat (bitlen m)"
      using bitlen_bounds [OF that] by auto
    then have "(of_int (2 ^ nat (bitlen m - 1)) :: rat) \<le> of_int m"
      "(of_int m :: rat) < of_int (2 ^ nat (bitlen m))"
      by (simp_all only: of_int_le_iff of_int_less_iff)
    then show ?thesis using b by (simp only: powi2_nat)
  qed
  let ?a = "bitlen n - bitlen d"
  have lo: "2 powi (?a - 1) \<le> x"
  proof -
    have "(2::rat) powi (?a - 1) = 2 powi (bitlen n - 1) / 2 powi bitlen d"
      by (simp add: algebra_simps flip: powi2_diff)
    also have "\<dots> \<le> x"
      unfolding x using bl [OF n] bl [OF d] d n by (intro frac_le) auto
    finally show ?thesis .
  qed
  have hi: "x < 2 powi (?a + 1)"
  proof -
    have "x < 2 powi bitlen n / 2 powi (bitlen d - 1)"
      unfolding x using bl [OF n] bl [OF d] n by (intro frac_less) auto
    also have "\<dots> = 2 powi (?a + 1)"
      by (simp add: algebra_simps flip: powi2_diff)
    finally show ?thesis .
  qed
  show "2 powi ilog2 x \<le> x" "x < 2 powi (ilog2 x + 1)"
    using lo hi by (auto simp: ilog2_def nd Let_def)
qed

lemma ilog2_unique: "2 powi e \<le> x \<Longrightarrow> x < 2 powi (e + 1) \<Longrightarrow> ilog2 x = e"
proof -
  assume a: "2 powi e \<le> x" "x < 2 powi (e + 1)"
  have x: "0 < x" using a(1) by (metis less_le_trans zero_less_power_int zero_less_numeral)
  have "2 powi e < (2::rat) powi (ilog2 x + 1)" "2 powi ilog2 x < (2::rat) powi (e + 1)"
    using a ilog2_bounds [OF x] by linarith+
  then have "e < ilog2 x + 1" "ilog2 x < e + 1" by (blast dest: powi2_lessD)+
  then show ?thesis by simp
qed

lemma ilog2_mono: "0 < x \<Longrightarrow> x \<le> y \<Longrightarrow> ilog2 x \<le> ilog2 y"
proof -
  assume a: "0 < x" "x \<le> y"
  then have "2 powi ilog2 x < (2::rat) powi (ilog2 y + 1)"
    using ilog2_bounds(1) [of x] ilog2_bounds(2) [of y] by linarith
  then have "ilog2 x < ilog2 y + 1" by (rule powi2_lessD)
  then show ?thesis by simp
qed

section \<open>Rounding to a multiple of a power of two\<close>

lemma rnd_err: "\<bar>rnd k x - x\<bar> \<le> 2 powi k / 2"
proof -
  have "\<bar>rnd k x - x\<bar> = \<bar>of_int (rne (x / 2 powi k)) - x / 2 powi k\<bar> * 2 powi k"
  proof -
    have "rnd k x - x = (of_int (rne (x / 2 powi k)) - x / 2 powi k) * 2 powi k"
      by (simp add: rnd_def left_diff_distrib)
    then show ?thesis by (simp add: abs_mult)
  qed
  also have "\<dots> \<le> (1/2) * 2 powi k"
    by (intro mult_right_mono rne_err) simp
  finally show ?thesis by simp
qed

lemma rnd_le: "x \<le> of_int m * 2 powi k \<Longrightarrow> rnd k x \<le> of_int m * 2 powi k"
  unfolding rnd_def by (intro mult_right_mono) (simp_all add: rne_le pos_divide_le_eq)

lemma rnd_ge: "of_int m * 2 powi k \<le> x \<Longrightarrow> of_int m * 2 powi k \<le> rnd k x"
  unfolding rnd_def by (intro mult_right_mono) (simp_all add: rne_ge pos_le_divide_eq)

lemma rnd_exact: "rnd k (of_int m * 2 powi k) = of_int m * 2 powi k"
  by (simp add: rnd_def)

lemma rnd_minus: "rnd k (- x) = - rnd k x"
  by (simp add: rnd_def rne_minus)

lemma rnd_mono: "x \<le> y \<Longrightarrow> rnd k x \<le> rnd k y"
  unfolding rnd_def by (intro mult_right_mono) (simp_all add: rne_mono divide_right_mono)

section \<open>The rounding of binary64\<close>

lemma quantum_minus [simp]: "quantum (- x) = quantum x"
  by (simp add: quantum_def)

lemma quantum_abs [simp]: "quantum \<bar>x\<bar> = quantum x"
  by (simp add: quantum_def)

lemma fl_minus: "fl (- x) = - fl x"
  by (simp add: fl_def rnd_minus)

lemma fl_0 [simp]: "fl 0 = 0"
  by (simp add: fl_def)

lemma quantum_mono: "0 < x \<Longrightarrow> x \<le> y \<Longrightarrow> quantum x \<le> quantum y"
  using ilog2_mono [of x y] by (simp add: quantum_def)

lemma fl_nonneg: "0 \<le> x \<Longrightarrow> 0 \<le> fl x"
  using rnd_ge [of 0 "quantum x" x] by (auto simp: fl_def)

lemma fl_nonpos: "x \<le> 0 \<Longrightarrow> fl x \<le> 0"
  using rnd_le [of x 0 "quantum x"] by (auto simp: fl_def)

lemma fl_mono_pos:
  assumes "0 < x" "x \<le> y"
  shows "fl x \<le> fl y"
proof (cases "quantum x = quantum y")
  case True
  then show ?thesis using assms rnd_mono [of x y] by (simp add: fl_def)
next
  case False
  then have lt: "quantum x < quantum y" using quantum_mono [OF assms] by simp
  let ?e = "ilog2 y"
  have y: "0 < y" using assms by simp
  have ky: "quantum y = ?e - 52" using lt y by (auto simp: quantum_def)
  have "ilog2 x < ?e" using lt assms y by (auto simp: quantum_def)
  then have "x < 2 powi ?e"
    using ilog2_bounds(2) [OF assms(1)] powi2_mono [of "ilog2 x + 1" ?e] by simp
  moreover have "(2::rat) powi ?e = of_int (2 ^ nat (?e - quantum x)) * 2 powi quantum x"
    using lt ky by (intro powi2_split) simp
  ultimately have "fl x \<le> 2 powi ?e"
    using rnd_le [of x "2 ^ nat (?e - quantum x)" "quantum x"] assms by (simp add: fl_def)
  also have "2 powi ?e = of_int (2 ^ 52) * (2::rat) powi quantum y"
    using ky by (simp add: power_int_diff)
  then have "2 powi ?e \<le> fl y"
    using rnd_ge [of "2 ^ 52" "quantum y" y] ilog2_bounds(1) [OF y] y by (simp add: fl_def)
  finally show ?thesis .
qed

lemma fl_mono: "x \<le> y \<Longrightarrow> fl x \<le> fl y"
proof -
  assume xy: "x \<le> y"
  consider "0 < x" | "x \<le> 0" "0 \<le> y" | "y < 0" by linarith
  then show ?thesis
  proof cases
    case 1
    then show ?thesis using xy by (rule fl_mono_pos)
  next
    case 2
    then show ?thesis using fl_nonpos [of x] fl_nonneg [of y] by simp
  next
    case 3
    then show ?thesis using fl_mono_pos [of "- y" "- x"] xy by (simp add: fl_minus)
  qed
qed

text \<open>The relative error in the range of the normal numbers.\<close>

lemma fl_rel_err:
  assumes "2 powi (- 1022) \<le> \<bar>x\<bar>"
  shows "\<bar>fl x - x\<bar> \<le> \<bar>x\<bar> / 2 ^ 53"
proof -
  have x: "0 < \<bar>x\<bar>" using assms by (metis less_le_trans zero_less_power_int zero_less_numeral)
  have "2 powi (- 1022) < (2::rat) powi (ilog2 \<bar>x\<bar> + 1)"
    using assms ilog2_bounds(2) [OF x] by linarith
  then have "- 1022 < ilog2 \<bar>x\<bar> + 1" by (rule powi2_lessD)
  then have q: "quantum x = ilog2 \<bar>x\<bar> - 52" by (simp add: quantum_def)
  have "\<bar>fl x - x\<bar> \<le> 2 powi quantum x / 2"
    using x rnd_err [of "quantum x" x] by (simp add: fl_def)
  also have "\<dots> = 2 powi ilog2 \<bar>x\<bar> / 2 ^ 53"
    by (simp add: q power_int_diff)
  also have "\<dots> \<le> \<bar>x\<bar> / 2 ^ 53"
    using ilog2_bounds(1) [OF x] by (intro divide_right_mono) simp_all
  finally show ?thesis .
qed

section \<open>Doubles\<close>

definition is_double :: "rat \<Rightarrow> bool" where
  "is_double x \<longleftrightarrow> fl x = x"

lemma is_double_scaled:
  assumes "x = of_int m * 2 powi k" "\<bar>m\<bar> < 2 ^ 53" "- 1074 \<le> k"
  shows "is_double x"
proof (cases "x = 0")
  case False
  then have x: "0 < \<bar>x\<bar>" by simp
  have "(of_int \<bar>m\<bar> :: rat) < of_int (2 ^ 53)"
    using assms(2) by (simp only: of_int_less_iff)
  then have "of_int \<bar>m\<bar> * (2::rat) powi k < of_int (2 ^ 53) * 2 powi k"
    by (rule mult_strict_right_mono) simp
  also have "of_int (2 ^ 53) * (2::rat) powi k = 2 powi (k + 53)"
    by (simp add: power_int_add)
  finally have "\<bar>x\<bar> < 2 powi (k + 53)" unfolding assms(1) by (simp only: abs_mult) simp
  then have "2 powi ilog2 \<bar>x\<bar> < (2::rat) powi (k + 53)" using ilog2_bounds(1) [OF x] by (rule order.strict_trans1 [rotated])
  then have "ilog2 \<bar>x\<bar> < k + 53" by (rule powi2_lessD)
  then have q: "quantum x \<le> k" using assms(3) by (simp add: quantum_def)
  have "of_int m * (2::rat) powi k = of_int (m * 2 ^ nat (k - quantum x)) * 2 powi quantum x"
    by (simp only: powi2_split [OF q] of_int_mult mult.assoc)
  then have "x = of_int (m * 2 ^ nat (k - quantum x)) * 2 powi quantum x"
    using assms(1) by (rule trans [rotated])
  then have "rnd (quantum x) x = x" using rnd_exact [of "quantum x"] by metis
  then show ?thesis by (simp add: is_double_def fl_def)
qed (simp add: is_double_def)

lemma is_double_of_int:
  assumes "\<bar>m\<bar> \<le> 2 ^ 53"
  shows "is_double (of_int m)"
proof (cases "\<bar>m\<bar> < 2 ^ 53")
  case True
  then show ?thesis by (intro is_double_scaled [where m = m and k = 0]) simp_all
next
  case False
  then have "m = 2 ^ 53 \<or> m = - (2 ^ 53)" using assms by linarith
  then show ?thesis
    by (intro is_double_scaled [where m = "sgn m" and k = 53]) auto
qed

lemma fl_of_int [simp]: "\<bar>m\<bar> \<le> 2 ^ 53 \<Longrightarrow> fl (of_int m) = of_int m"
  using is_double_of_int by (simp add: is_double_def)

lemma fl_1 [simp]: "fl 1 = 1"
  using fl_of_int [of 1] by simp

lemma is_double_0 [simp]: "is_double 0"
  and is_double_1 [simp]: "is_double 1"
  by (simp_all add: is_double_def)

lemma is_double_fl [simp]: "is_double (fl x)"
proof (cases "x = 0")
  case False
  let ?q = "quantum x" and ?m = "rne (x / 2 powi quantum x)"
  have x: "0 < \<bar>x\<bar>" using False by simp
  have "\<bar>x\<bar> < 2 powi (ilog2 \<bar>x\<bar> + 1)" by (rule ilog2_bounds(2) [OF x])
  also have "\<dots> \<le> 2 powi (?q + 53)" by (rule powi2_mono) (simp add: quantum_def)
  finally have "\<bar>x / 2 powi ?q\<bar> \<le> of_int (2 ^ 53)"
    by (simp add: power_int_add pos_divide_le_eq)
  then have "x / 2 powi ?q \<le> of_int (2 ^ 53)" "of_int (- (2 ^ 53)) \<le> x / 2 powi ?q"
    by (simp_all only: abs_le_iff of_int_minus minus_le_iff)
  then have "?m \<le> 2 ^ 53" "- (2 ^ 53) \<le> ?m"
    by (blast intro: rne_le rne_ge)+
  then consider "\<bar>?m\<bar> < 2 ^ 53" | "\<bar>?m\<bar> = 2 ^ 53" by linarith
  then show ?thesis
  proof cases
    case 1
    have q: "- 1074 \<le> ?q" by (simp add: quantum_def)
    have "fl x = of_int ?m * 2 powi ?q" using False by (simp add: fl_def rnd_def)
    then show ?thesis using 1 q by (rule is_double_scaled)
  next
    case 2
    then have m: "?m = 2 ^ 53 \<or> ?m = - (2 ^ 53)" by linarith
    have q: "- 1074 \<le> ?q + 53" by (simp add: quantum_def)
    have "fl x = of_int (sgn ?m) * 2 powi (?q + 53)"
      using False m by (auto simp: fl_def rnd_def power_int_add)
    moreover have "\<bar>sgn ?m\<bar> < 2 ^ 53" using m by auto
    ultimately show ?thesis using q by (rule is_double_scaled)
  qed
qed simp

lemma fl_fl [simp]: "fl (fl x) = fl x"
  using is_double_fl [of x] by (simp add: is_double_def)

lemma fl_le_double: "is_double y \<Longrightarrow> x \<le> y \<Longrightarrow> fl x \<le> y"
  using fl_mono [of x y] by (simp add: is_double_def)

lemma fl_ge_double: "is_double y \<Longrightarrow> y \<le> x \<Longrightarrow> y \<le> fl x"
  using fl_mono [of y x] by (simp add: is_double_def)

section \<open>Conversions\<close>

text \<open>
  The cast of a double to an integer type truncates; \<open>round\<close> of \<open>math.h\<close> rounds halves away
  from zero; \<open>%.nf\<close> prints the exact value rounded to \<open>n\<close> decimals.
\<close>

definition c_trunc :: "rat \<Rightarrow> int" where
  "c_trunc x = (if 0 \<le> x then \<lfloor>x\<rfloor> else - \<lfloor>- x\<rfloor>)"

definition c_round :: "rat \<Rightarrow> int" where
  "c_round x = (if 0 \<le> x then \<lfloor>x + 1/2\<rfloor> else - \<lfloor>- x + 1/2\<rfloor>)"

definition fmt_f :: "nat \<Rightarrow> rat \<Rightarrow> bytes" where
  "fmt_f n x = (let v = nat (rne (\<bar>x\<bar> * 10 ^ n)) in
     (if x < 0 then ''-'' else []) @ digits (v div 10 ^ n) @ ''.'' @ zero_fill n (digits (v mod 10 ^ n)))"

lemma fmt_f_decimal: "set (fmt_f n x) \<subseteq> decimal_chars"
  using digits_decimal zero_fill_decimal
  by (auto simp: fmt_f_def Let_def decimal_chars_def)

lemma c_round_mono: "0 \<le> x \<Longrightarrow> x \<le> y \<Longrightarrow> c_round x \<le> c_round y"
  by (simp add: c_round_def floor_mono)

lemma c_round_near: "\<bar>x - of_int m\<bar> < 1/2 \<Longrightarrow> 0 \<le> x \<Longrightarrow> c_round x = m"
  unfolding c_round_def abs_less_iff by (auto simp: floor_eq_iff)

lemma c_round_0 [simp]: "c_round 0 = 0"
  by (rule c_round_near) simp_all

lemma c_trunc_nonneg: "0 \<le> x \<Longrightarrow> 0 \<le> c_trunc x"
  by (simp add: c_trunc_def)

lemma c_trunc_less: "0 \<le> x \<Longrightarrow> x < of_int m \<Longrightarrow> c_trunc x < m"
  by (simp add: c_trunc_def floor_less_iff)

end
