(* ===== verification/Pcg.thy ===== *)
theory Pcg
  imports Dbt2_Prelude "HOL-Library.Word"
begin

unbundle bit_operations_syntax

text \<open>
  The generator behind every random choice of the kit: \<open>pcg64f\<close>, that is PCG's multiplicative
  congruential generator on 128 bits with the XSL-RR output function (\<open>src/src/pcg\<close>). The state is
  a \<open>128 word\<close>; reading a number steps the state and permutes it into 64 bits. Also modelled is
  \<open>pcg_advance_lcg_128\<close>, which jumps ahead in logarithmic time and which the data generator uses to
  start in the middle of a sequence. The main facts: the jump is the same as that many single
  steps, the jumps compose, and a seeded state stays odd, so the generator never reaches zero.
\<close>

type_synonym rng = "128 word"

section \<open>The generator\<close>

definition PCG_DEFAULT_MULTIPLIER_128 :: "128 word" where
  "PCG_DEFAULT_MULTIPLIER_128 = push_bit 64 2549297995355413924 + 4865540595714422341"

definition pcg_rotr_64 :: "64 word \<Rightarrow> 32 word \<Rightarrow> 64 word" where
  "pcg_rotr_64 value rot =
     drop_bit (unat rot) value OR push_bit (unat ((- rot) AND 63)) value"

definition pcg_output_xsl_rr_128_64 :: "128 word \<Rightarrow> 64 word" where
  "pcg_output_xsl_rr_128_64 state =
     pcg_rotr_64 (ucast (drop_bit 64 state) XOR ucast state) (ucast (drop_bit 122 state))"

definition pcg_mcg_128_step_r :: "rng \<Rightarrow> rng" where
  "pcg_mcg_128_step_r state = state * PCG_DEFAULT_MULTIPLIER_128"

definition pcg64f_srandom_r :: "128 word \<Rightarrow> rng" where
  "pcg64f_srandom_r initstate = initstate OR 1"

definition pcg64f_random_r :: "(rng, 64 word) state" where
  "pcg64f_random_r = do {
     _ \<leftarrow> State_Monad.update pcg_mcg_128_step_r;
     s \<leftarrow> State_Monad.get;
     State_Monad.return (pcg_output_xsl_rr_128_64 s)
   }"

lemma word_half_less: "0 < (d :: 'a::len word) \<Longrightarrow> unat (d div 2) < unat d"
  by (simp add: unat_div word_less_nat_alt)

text \<open>The loop of \<open>pcg_advance_lcg_128\<close> halves \<open>delta\<close> until it is zero.\<close>

function advance_loop ::
    "128 word \<Rightarrow> 128 word \<Rightarrow> 128 word \<Rightarrow> 128 word \<Rightarrow> 128 word \<Rightarrow> 128 word \<times> 128 word" where
  "advance_loop delta cur_mult cur_plus acc_mult acc_plus =
     (if 0 < delta then
        (let (am, ap) = (if delta AND 1 \<noteq> 0
               then (acc_mult * cur_mult, acc_plus * cur_mult + cur_plus)
               else (acc_mult, acc_plus))
         in advance_loop (delta div 2) (cur_mult * cur_mult) ((cur_mult + 1) * cur_plus) am ap)
      else (acc_mult, acc_plus))"
  by pat_completeness auto

termination
  by (relation "measure (\<lambda>(delta, _). unat delta)") (auto simp: word_half_less)

declare advance_loop.simps [simp del]

definition pcg_advance_lcg_128 ::
    "128 word \<Rightarrow> 128 word \<Rightarrow> 128 word \<Rightarrow> 128 word \<Rightarrow> 128 word" where
  "pcg_advance_lcg_128 state delta cur_mult cur_plus =
     (let (acc_mult, acc_plus) = advance_loop delta cur_mult cur_plus 1 0
      in acc_mult * state + acc_plus)"

definition pcg64f_advance_r :: "128 word \<Rightarrow> rng \<Rightarrow> rng" where
  "pcg64f_advance_r delta state = pcg_advance_lcg_128 state delta PCG_DEFAULT_MULTIPLIER_128 0"

section \<open>Jumping ahead equals stepping\<close>

text \<open>One step of the general congruential generator, the specification of the jump.\<close>

definition lcg_step :: "128 word \<Rightarrow> 128 word \<Rightarrow> 128 word \<Rightarrow> 128 word" where
  "lcg_step m p s = m * s + p"

text \<open>The closed form of \<open>n\<close> steps: a multiplier and an offset.\<close>

fun lcg_pow :: "128 word \<Rightarrow> 128 word \<Rightarrow> nat \<Rightarrow> 128 word \<times> 128 word" where
  "lcg_pow m p 0 = (1, 0)"
| "lcg_pow m p (Suc n) = (m * fst (lcg_pow m p n), m * snd (lcg_pow m p n) + p)"

lemma lcg_pow_funpow: "(lcg_step m p ^^ n) s = fst (lcg_pow m p n) * s + snd (lcg_pow m p n)"
  by (induction n) (simp_all add: lcg_step_def algebra_simps)

lemma lcg_pow_add:
  "lcg_pow m p (a + b) = (fst (lcg_pow m p a) * fst (lcg_pow m p b),
     fst (lcg_pow m p a) * snd (lcg_pow m p b) + snd (lcg_pow m p a))"
  by (induction a) (simp_all add: algebra_simps)

lemma lcg_pow_square: "lcg_pow (m * m) ((m + 1) * p) n = lcg_pow m p (2 * n)"
  by (induction n) (simp_all add: algebra_simps prod_eq_iff)

lemma advance_loop_correct:
  "advance_loop d m p am ap =
     (am * fst (lcg_pow m p (unat d)), ap * fst (lcg_pow m p (unat d)) + snd (lcg_pow m p (unat d)))"
proof (induction d m p am ap rule: advance_loop.induct)
  case (1 d m p am ap)
  show ?case
  proof (cases "0 < d")
    case False
    then show ?thesis by (simp add: advance_loop.simps word_gt_0)
  next
    case True
    let ?h = "unat (d div 2)"
    have h: "?h = unat d div 2" by (simp add: unat_div)
    have odd: "(d AND 1 \<noteq> 0) = odd (unat d)"
    proof -
      have "(d AND 1 = 0) = even d" by (simp add: and_one_eq even_iff_mod_2_eq_zero)
      also have "even d = even (unat d)" by transfer (auto simp: even_nat_iff)
      finally show ?thesis by simp
    qed
    show ?thesis
    proof (cases "odd (unat d)")
      case True
      then have d: "unat d = 2 * ?h + 1" using h by simp
      have pow: "lcg_pow m p (unat d) = (fst (lcg_pow m p (2 * ?h)) * m,
          fst (lcg_pow m p (2 * ?h)) * p + snd (lcg_pow m p (2 * ?h)))"
        unfolding d lcg_pow_add by simp
      have "advance_loop d m p am ap =
          advance_loop (d div 2) (m * m) ((m + 1) * p) (am * m) (ap * m + p)"
        using True odd \<open>0 < d\<close> by (subst advance_loop.simps) simp
      also have "\<dots> = (am * m * fst (lcg_pow m p (2 * ?h)),
          (ap * m + p) * fst (lcg_pow m p (2 * ?h)) + snd (lcg_pow m p (2 * ?h)))"
        using "1.IH" [OF \<open>0 < d\<close> refl] True odd by (simp add: lcg_pow_square)
      finally show ?thesis unfolding pow by (simp add: algebra_simps)
    next
      case False
      then have d: "unat d = 2 * ?h" using h by simp
      show ?thesis
        using "1.IH" [OF \<open>0 < d\<close>] False odd
        by (subst advance_loop.simps) (simp add: \<open>0 < d\<close> lcg_pow_square d)
    qed
  qed
qed

text \<open>The jump of the generic routine is \<open>delta\<close> single steps.\<close>

lemma pcg_advance_lcg_128_correct:
  "pcg_advance_lcg_128 s d m p = (lcg_step m p ^^ unat d) s"
  by (simp add: pcg_advance_lcg_128_def advance_loop_correct lcg_pow_funpow case_prod_beta)

lemma mcg_step_lcg: "pcg_mcg_128_step_r = lcg_step PCG_DEFAULT_MULTIPLIER_128 0"
  by (simp add: pcg_mcg_128_step_r_def lcg_step_def fun_eq_iff mult.commute)

lemma pcg64f_advance_r_steps: "pcg64f_advance_r d s = (pcg_mcg_128_step_r ^^ unat d) s"
  by (simp add: pcg64f_advance_r_def pcg_advance_lcg_128_correct mcg_step_lcg)

section \<open>Drawing a number is one step\<close>

lemma run_random: "run_state pcg64f_random_r s =
    (pcg_output_xsl_rr_128_64 (pcg_mcg_128_step_r s), pcg_mcg_128_step_r s)"
  by (simp add: pcg64f_random_r_def State_Monad.update_def)

lemma draws_random [advances_intro]: "draws pcg_mcg_128_step_r 1 pcg64f_random_r"
  by (simp add: draws_def advances_def run_random)

section \<open>The state stays odd\<close>

text \<open>
  A multiplicative generator keeps its period only on odd states: an even state loses a low bit
  for good with every factor of two.
\<close>

definition seeded :: "rng \<Rightarrow> bool" where
  "seeded s \<longleftrightarrow> odd s"

lemma seeded_srandom: "seeded (pcg64f_srandom_r x)"
  by (simp add: seeded_def pcg64f_srandom_r_def even_or_iff)

lemma odd_multiplier: "odd PCG_DEFAULT_MULTIPLIER_128"
  by (simp add: PCG_DEFAULT_MULTIPLIER_128_def)

lemma seeded_step: "seeded s \<Longrightarrow> seeded (pcg_mcg_128_step_r s)"
  using odd_multiplier by (simp add: seeded_def pcg_mcg_128_step_r_def)

lemma seeded_steps: "seeded s \<Longrightarrow> seeded ((pcg_mcg_128_step_r ^^ n) s)"
  by (induction n) (simp_all add: seeded_step)

lemma seeded_nonzero: "seeded s \<Longrightarrow> s \<noteq> 0"
  by (auto simp: seeded_def)

section \<open>The period divides the number of words\<close>

lemma odd_power_two_power: "odd (a::int) \<Longrightarrow> 2 ^ Suc k dvd a ^ (2 ^ k) - 1"
proof (induction k)
  case 0
  then show ?case by simp
next
  case (Suc k)
  have "even (a ^ (2 ^ k) + 1)" using Suc.prems by simp
  moreover have "2 ^ Suc k dvd a ^ (2 ^ k) - 1" using Suc by simp
  ultimately have "2 * 2 ^ Suc k dvd (a ^ (2 ^ k) + 1) * (a ^ (2 ^ k) - 1)" by (rule mult_dvd_mono)
  also have "(a ^ (2 ^ k) + 1) * (a ^ (2 ^ k) - 1) = a ^ (2 ^ Suc k) - 1"
    unfolding power_Suc [of 2] power_even_eq power2_eq_square by (simp add: algebra_simps)
  finally show ?case by simp
qed

lemma odd_word_power:
  fixes m :: "'a::len word"
  assumes "odd m"
  shows "m ^ (2 ^ LENGTH('a)) = 1"
proof -
  have "odd (uint m)" using assms by transfer simp
  then have "2 ^ Suc LENGTH('a) dvd uint m ^ (2 ^ LENGTH('a)) - 1" by (rule odd_power_two_power)
  then have "2 ^ LENGTH('a) dvd uint m ^ (2 ^ LENGTH('a)) - 1" by (rule power_le_dvd) simp
  then have "(of_int (uint m ^ (2 ^ LENGTH('a)) - 1) :: 'a word) = 0"
    by (simp only: word_of_int_eq_0_iff)
  then show ?thesis by simp
qed

lemma mcg_steps: "(pcg_mcg_128_step_r ^^ n) s = s * PCG_DEFAULT_MULTIPLIER_128 ^ n"
  by (induction n) (simp_all add: pcg_mcg_128_step_r_def ac_simps)

lemma multiplier_power_mod:
  "PCG_DEFAULT_MULTIPLIER_128 ^ (n mod 2 ^ LENGTH(128)) = PCG_DEFAULT_MULTIPLIER_128 ^ n"
proof -
  let ?N = "2 ^ LENGTH(128) :: nat"
  have "PCG_DEFAULT_MULTIPLIER_128 ^ n
      = PCG_DEFAULT_MULTIPLIER_128 ^ (?N * (n div ?N) + n mod ?N)"
    by (simp only: mult_div_mod_eq)
  also have "\<dots> = (PCG_DEFAULT_MULTIPLIER_128 ^ ?N) ^ (n div ?N)
      * PCG_DEFAULT_MULTIPLIER_128 ^ (n mod ?N)"
    by (simp only: power_add power_mult)
  also have "PCG_DEFAULT_MULTIPLIER_128 ^ ?N = 1" by (rule odd_word_power [OF odd_multiplier])
  finally show ?thesis by (simp only: power_one mult_1)
qed

text \<open>
  Hence a jump by a number computed in 128 bit arithmetic is right even where that arithmetic
  wraps around.
\<close>

lemma pcg64f_advance_r_of_nat:
  "pcg64f_advance_r (of_nat n) s = (pcg_mcg_128_step_r ^^ n) s"
proof -
  have "unat (of_nat n :: 128 word) = n mod 2 ^ LENGTH(128)" by (rule unat_of_nat)
  then show ?thesis
    unfolding pcg64f_advance_r_steps mcg_steps by (simp only: multiplier_power_mod)
qed

lemma repeated_draws: "snd (run_state (repeat_m n pcg64f_random_r) s) = (pcg_mcg_128_step_r ^^ n) s"
  by (induction n arbitrary: s) (simp_all add: run_random run_state_bind case_prod_beta funpow_swap1)

text \<open>C39: Jumping ahead is the same as drawing: the logarithmic routine of the library moves the state
  of any such generator by exactly \<open>delta\<close> single steps, and jumping by a number computed modulo
  2^128 leaves the generator in the state in which drawing that many numbers leaves it.\<close>
theorem jump_ahead:
  "pcg_advance_lcg_128 s delta m p = (lcg_step m p ^^ unat delta) s \<and>
   pcg64f_advance_r (of_nat n) r = snd (run_state (repeat_m n pcg64f_random_r) r)"
  by (simp add: pcg_advance_lcg_128_correct pcg64f_advance_r_of_nat repeated_draws)

end
