(* ===== verification/Common.thy ===== *)
theory Common
  imports Float64 Pcg
begin

unbundle bit_operations_syntax

text \<open>
  The helpers of \<open>src/src/common.c\<close> and the constants of \<open>src/src/include/common.h\<close>: random
  numbers from ranges, random strings, customer last names, the non-uniform distribution of TPC-C
  clause 2.1.6, think times, the table cardinalities and the byte order conversion. Functions that
  draw from a generator are computations over the generator state; a \<open>wchar_t\<close> string is the list
  of its code points up to the terminating zero. Shown: every number lies in the range its caller
  relies on although it is computed in floating point, strings have the length asked for and fit
  the callers' buffers, and how many numbers each helper draws from its caller's generator.
\<close>

section \<open>Status codes and cardinalities\<close>

definition ERROR :: int where "ERROR = 0"
definition OK :: int where "OK = 1"
definition EXIT_CODE :: int where "EXIT_CODE = 2"
definition ERROR_SOCKET_CLOSED :: int where "ERROR_SOCKET_CLOSED = 3"
definition STATUS_ROLLBACK :: int where "STATUS_ROLLBACK = 4"

definition DELIVERY :: int where "DELIVERY = 0"
definition NEW_ORDER :: int where "NEW_ORDER = 1"
definition ORDER_STATUS :: int where "ORDER_STATUS = 2"
definition PAYMENT :: int where "PAYMENT = 3"
definition STOCK_LEVEL :: int where "STOCK_LEVEL = 4"
definition INTEGRITY :: int where "INTEGRITY = 10"

definition TABLE_WAREHOUSE :: int where "TABLE_WAREHOUSE = 0"
definition TABLE_DISTRICT :: int where "TABLE_DISTRICT = 1"
definition TABLE_CUSTOMER :: int where "TABLE_CUSTOMER = 2"
definition TABLE_ITEM :: int where "TABLE_ITEM = 3"
definition TABLE_ORDER :: int where "TABLE_ORDER = 4"
definition TABLE_STOCK :: int where "TABLE_STOCK = 5"
definition TABLE_NEW_ORDER :: int where "TABLE_NEW_ORDER = 6"
definition TABLE_HISTORY :: int where "TABLE_HISTORY = 7"
definition TABLE_ALL :: int where "TABLE_ALL = 9"

definition CUSTOMER_CARDINALITY :: int where "CUSTOMER_CARDINALITY = 3000"
definition DISTRICT_CARDINALITY :: int where "DISTRICT_CARDINALITY = 10"
definition ITEM_CARDINALITY :: int where "ITEM_CARDINALITY = 100000"
definition ORDER_CARDINALITY :: int where "ORDER_CARDINALITY = 3000"
definition NEW_ORDER_CARDINALITY :: int where "NEW_ORDER_CARDINALITY = 900"

lemmas status_defs = ERROR_def OK_def EXIT_CODE_def ERROR_SOCKET_CLOSED_def STATUS_ROLLBACK_def
lemmas transaction_defs = DELIVERY_def NEW_ORDER_def ORDER_STATUS_def PAYMENT_def STOCK_LEVEL_def
  INTEGRITY_def
lemmas table_defs = TABLE_WAREHOUSE_def TABLE_DISTRICT_def TABLE_CUSTOMER_def TABLE_ITEM_def
  TABLE_ORDER_def TABLE_STOCK_def TABLE_NEW_ORDER_def TABLE_HISTORY_def TABLE_ALL_def

record table_cardinality_t =
  warehouses :: int
  districts :: int
  customers :: int
  items :: int
  orders :: int
  new_orders :: int

text \<open>\<open>init_common\<close> sets the default cardinalities and returns OK whatever the locale.\<close>

definition init_common :: "int \<times> table_cardinality_t" where
  "init_common = (OK, \<lparr>warehouses = 1, districts = DISTRICT_CARDINALITY,
     customers = CUSTOMER_CARDINALITY, items = ITEM_CARDINALITY, orders = ORDER_CARDINALITY,
     new_orders = NEW_ORDER_CARDINALITY\<rparr>)"

section \<open>Character sets\<close>

type_synonym wchar_t = nat

definition wide :: "string \<Rightarrow> wchar_t list" where
  "wide s = map of_char s"

definition a_string_char :: "wchar_t list" where
  "a_string_char = wide ''A!#$%&()*+,-./'' @
     wide ''0123456789:;<=>?@ABCDEFGHIJKLMNOPQRSTUVWXYZ[]^_`abcdef'' @
     wide ''ghijklmnopqrstuvwxyz{|}~'' @
     [0x20AC, 0x201A, 0x192, 0x201E, 0x2026, 0x2020, 0x2021, 0x2C6, 0x2030, 0x160, 0x2039, 0x152,
      0x17D, 0x2018, 0x2019, 0x201C, 0x201D, 0x2022, 0x2013, 0x2014, 0x2DC, 0x2122, 0x161, 0x203A,
      0x153, 0x17E, 0x178, 0xA1, 0xA2, 0xA3, 0xA4, 0xA5, 0xA6, 0xA7, 0xA8, 0xA9]"

definition n_string_char :: "wchar_t list" where
  "n_string_char = wide ''0123456789''"

definition l_string_char :: "wchar_t list" where
  "l_string_char = wide ''ABCDEFGHIJKLMNOPQRSTUVWXYZabcdefghijklmnopqrstuvwxyz''"

definition c_last_syl :: "wchar_t list list" where
  "c_last_syl = map wide [''BAR'', ''OUGHT'', ''ABLE'', ''PRI'', ''PRES'',
     ''ESE'', ''ANTI'', ''CALLY'', ''ATION'', ''EING'']"

definition A_STRING_CHAR_LEN :: int where "A_STRING_CHAR_LEN = 128"
definition L_STRING_CHAR_LEN :: int where "L_STRING_CHAR_LEN = 52"
definition N_STRING_CHAR_LEN :: int where "N_STRING_CHAR_LEN = 10"

section \<open>Random numbers\<close>

definition genrand64_real2 :: "(rng, rat) state" where
  "genrand64_real2 = do {
     r \<leftarrow> pcg64f_random_r;
     State_Monad.return (fl (fl (of_nat (unat (drop_bit 11 r))) * fl (1 / 9007199254740992)))
   }"

definition get_percentage :: "(rng, rat) state" where
  "get_percentage = do {
     r \<leftarrow> pcg64f_random_r;
     State_Monad.return (fl (fl (of_nat (unat (drop_bit 11 r))) * fl (1 / 9007199254740991)))
   }"

definition get_random :: "int \<Rightarrow> (rng, int) state" where
  "get_random mx = do {
     u \<leftarrow> genrand64_real2;
     State_Monad.return (c_trunc (fl (fl (of_int mx) * u)))
   }"

text \<open>
  The order in which C evaluates the two draws of the disjunction is unspecified; the model takes
  the left one first. Neither the range of the result nor the number of draws depends on it.
\<close>

definition get_nurand :: "int \<Rightarrow> int \<Rightarrow> int \<Rightarrow> (rng, int) state" where
  "get_nurand a x y = do {
     r1 \<leftarrow> get_random (a + 1);
     r2 \<leftarrow> get_random (y - x + 1);
     State_Monad.return (cast_int (c_mod (r1 OR (x + r2)) (y - x + 1) + x))
   }"

section \<open>Random strings\<close>

text \<open>
  The common body of \<open>get_a_string\<close>, \<open>get_l_string\<close> and \<open>get_n_string\<close>, run on a generator of
  its own: a length, then that many characters. The C code stores the characters and a terminating
  zero into the caller's buffer, \<open>length\<close> wide characters in all.
\<close>

definition fill_string :: "wchar_t list \<Rightarrow> int \<Rightarrow> int \<Rightarrow> int \<Rightarrow> (rng, wchar_t list) state" where
  "fill_string chars n x y = do {
     l \<leftarrow> get_random (y - x + 1);
     repeat_m (nat (x + cast_int l + 1 - 1))
       (do { r \<leftarrow> get_random n; State_Monad.return (chars ! nat r) })
   }"

definition local_string ::
    "wchar_t list \<Rightarrow> int \<Rightarrow> int \<Rightarrow> int \<Rightarrow> (rng, wchar_t list) state" where
  "local_string chars n x y = do {
     seed \<leftarrow> pcg64f_random_r;
     State_Monad.return (fst (run_state (fill_string chars n x y) (pcg64f_srandom_r (ucast seed))))
   }"

definition get_a_string :: "int \<Rightarrow> int \<Rightarrow> (rng, wchar_t list) state" where
  "get_a_string x y = local_string a_string_char A_STRING_CHAR_LEN x y"

definition get_l_string :: "int \<Rightarrow> int \<Rightarrow> (rng, wchar_t list) state" where
  "get_l_string x y = local_string l_string_char L_STRING_CHAR_LEN x y"

definition get_n_string :: "int \<Rightarrow> int \<Rightarrow> (rng, wchar_t list) state" where
  "get_n_string x y = local_string n_string_char N_STRING_CHAR_LEN x y"

text \<open>Clause 4.3.2.3: a last name from the three digits of a number.\<close>

definition get_c_last :: "int \<Rightarrow> int \<times> wchar_t list" where
  "get_c_last i = (if i < 0 \<or> 999 < i then (ERROR, [])
     else let tmp = fmt_0d 3 i in
       (OK, c_last_syl ! (of_char (tmp ! 0) - 48) @ c_last_syl ! (of_char (tmp ! 1) - 48) @
            c_last_syl ! (of_char (tmp ! 2) - 48)))"

section \<open>Times and byte order\<close>

record timeval =
  tv_sec :: int
  tv_usec :: int

definition difftimeval :: "timeval \<Rightarrow> timeval \<Rightarrow> rat" where
  "difftimeval rt1 rt0 =
     fl (fl (of_int (tv_sec rt1 - tv_sec rt0)) +
       fl (fl (of_int (tv_usec rt1 - tv_usec rt0)) / 1000000))"

text \<open>
  \<open>log\<close> is the logarithm of the C library on doubles, a parameter \<open>log_c\<close> here.
\<close>

definition get_think_time :: "(rat \<Rightarrow> rat) \<Rightarrow> int \<Rightarrow> (rng, int) state" where
  "get_think_time log_c mean_think_time = do {
     p \<leftarrow> get_percentage;
     State_Monad.return
       (cast_int (c_trunc (fl (fl (- 1 * log_c (fl (p + fl (1 / 1000000)))) * of_int mean_think_time))))
   }"

definition bswap32 :: "32 word \<Rightarrow> 32 word" where
  "bswap32 x = push_bit 24 (x AND 0xFF) OR push_bit 8 (x AND 0xFF00) OR
     (drop_bit 8 x AND 0xFF00) OR (drop_bit 24 x AND 0xFF)"

text \<open>\<open>ntohl\<close> on a host of either byte order, and the 64 bit conversion built on it.\<close>

definition ntohl :: "bool \<Rightarrow> 32 word \<Rightarrow> 32 word" where
  "ntohl big_endian x = (if big_endian then x else bswap32 x)"

definition ntohll :: "bool \<Rightarrow> 64 word \<Rightarrow> 64 word" where
  "ntohll big_endian x =
     (if ntohl big_endian 1 = 1 then x
      else push_bit 32 (ucast (ntohl big_endian (ucast (signed_drop_bit 32 (push_bit 32 x))))) OR
           ucast (ntohl big_endian (ucast (signed_drop_bit 32 x))))"

section \<open>Multibyte strings\<close>

text \<open>
  \<open>wcstombs\<close> of the C library in a UTF-8 locale, which \<open>init_common\<close> selects: characters are
  encoded until the next one would not fit into the \<open>n\<close> bytes of the destination.
\<close>

definition utf8_char :: "wchar_t \<Rightarrow> bytes" where
  "utf8_char c = map char_of (
     if c < 0x80 then [c]
     else if c < 0x800 then [0xC0 + c div 0x40, 0x80 + c mod 0x40]
     else if c < 0x10000 then [0xE0 + c div 0x1000, 0x80 + c div 0x40 mod 0x40, 0x80 + c mod 0x40]
     else [0xF0 + c div 0x40000, 0x80 + c div 0x1000 mod 0x40, 0x80 + c div 0x40 mod 0x40,
           0x80 + c mod 0x40])"

fun wcstombs :: "nat \<Rightarrow> wchar_t list \<Rightarrow> bytes" where
  "wcstombs n [] = []"
| "wcstombs n (c # cs) = (let b = utf8_char c in
     if length b \<le> n then b @ wcstombs (n - length b) cs else [])"

section \<open>Numbers drawn stay in range\<close>

lemma drop_bit_11_less: "unat (drop_bit 11 (r :: 64 word)) < 2 ^ 53"
proof -
  have "unat r < 2 ^ 64" using unsigned_less [of r, where 'a = nat] by simp
  then show ?thesis by (simp add: drop_bit_eq_div unat_div less_mult_imp_div_less)
qed

lemma fl_of_nat53: "k < 2 ^ 53 \<Longrightarrow> fl (of_nat k) = of_nat k"
  using fl_of_int [of "int k"] by simp

lemma fl_pow_m53: "fl (1 / 9007199254740992) = 1 / 9007199254740992"
  using is_double_scaled [of "1 / 9007199254740992" 1 "- 53"]
  by (simp add: is_double_def power_int_minus field_simps)

lemma fl_unit: "k < 2 ^ 53 \<Longrightarrow> fl (of_nat k * (1 / 9007199254740992)) = of_nat k / 2 ^ 53"
  using is_double_scaled [of "of_nat k / 2 ^ 53" "int k" "- 53"]
  by (simp add: is_double_def power_int_minus field_simps)

lemma genrand64_real2_value:
  "yields (\<lambda>u. \<exists>k. k < 2 ^ 53 \<and> u = of_nat k / 2 ^ 53) genrand64_real2"
proof -
  have "\<exists>k. k < 2 ^ 53 \<and>
      fl (fl (of_nat (unat (drop_bit 11 r))) * fl (1 / 9007199254740992)) = of_nat k / 2 ^ 53"
    for r :: "64 word"
  proof (intro exI conjI)
    show b: "unat (drop_bit 11 r) < 2 ^ 53" by (rule drop_bit_11_less)
    show "fl (fl (of_nat (unat (drop_bit 11 r))) * fl (1 / 9007199254740992)) =
        of_nat (unat (drop_bit 11 r)) / 2 ^ 53"
      unfolding fl_of_nat53 [OF b] fl_pow_m53 by (rule fl_unit [OF b])
  qed
  then show ?thesis
    unfolding genrand64_real2_def
    by (intro yields_bind [where P = "\<lambda>_. True"] yields_return) (simp_all add: yields_def)
qed

lemma fl_rel_err_unit: "1 / 2 ^ 53 \<le> \<bar>x\<bar> \<Longrightarrow> \<bar>fl x - x\<bar> \<le> \<bar>x\<bar> / 2 ^ 53"
proof (rule fl_rel_err, erule order_trans [rotated])
  have eq: "(1 / 2 ^ 53 :: rat) = 2 powi (- 53)" by (simp add: power_int_minus field_simps)
  show "2 powi (- 1022) \<le> (1 / 2 ^ 53 :: rat)"
    unfolding eq by (rule powi2_mono) simp
qed

lemma scaled_below:
  assumes "0 < mx" "mx \<le> 2 ^ 53" "k < 2 ^ 53"
  shows "0 \<le> fl (of_int mx * (of_nat k / 2 ^ 53))" "fl (of_int mx * (of_nat k / 2 ^ 53)) < of_int mx"
proof -
  let ?x = "of_int mx * (of_nat k / 2 ^ 53) :: rat"
  have x0: "0 \<le> ?x" using assms by simp
  then show "0 \<le> fl ?x" by (rule fl_nonneg)
  have "of_nat (k + 1) \<le> (of_nat (2 ^ 53) :: rat)"
    using assms(3) by (simp only: of_nat_le_iff)
  then have "of_nat k \<le> (2 ^ 53 - 1 :: rat)" by simp
  then have "?x \<le> of_int mx * ((2 ^ 53 - 1) / 2 ^ 53)"
    using assms(1) by (intro mult_left_mono divide_right_mono) simp_all
  then have hi: "?x \<le> of_int mx * (1 - 1 / 2 ^ 53)" by (simp add: diff_divide_distrib)
  show "fl ?x < of_int mx"
  proof (cases "k = 0")
    case True
    then show ?thesis using assms(1) by simp
  next
    case False
    have "1 * (1 / 2 ^ 53) \<le> ?x"
      using assms(1) False by (intro mult_mono divide_right_mono) auto
    then have "\<bar>fl ?x - ?x\<bar> \<le> ?x / 2 ^ 53"
      using fl_rel_err_unit [of ?x] unfolding abs_of_nonneg [OF x0] mult_1 by blast
    then have "fl ?x \<le> ?x + ?x / 2 ^ 53" unfolding abs_le_iff by linarith
    also have "\<dots> = ?x * (1 + 1 / 2 ^ 53)" by (simp add: distrib_left)
    also have "\<dots> \<le> of_int mx * (1 - 1 / 2 ^ 53) * (1 + 1 / 2 ^ 53)"
      using hi by (rule mult_right_mono) simp
    also have "\<dots> < of_int mx" using assms(1) by (simp add: mult.assoc)
    finally show ?thesis .
  qed
qed

lemma get_random_range:
  assumes "0 < mx" "mx \<le> 2 ^ 53"
  shows "yields (\<lambda>r. 0 \<le> r \<and> r < mx) (get_random mx)"
proof -
  have "fl (of_int mx) = of_int mx" using assms by (intro fl_of_int) simp
  then show ?thesis
    unfolding get_random_def
    by (intro yields_bind [OF genrand64_real2_value] yields_return)
       (metis c_trunc_nonneg c_trunc_less scaled_below [OF assms])
qed

lemma draws_genrand [advances_intro]: "draws pcg_mcg_128_step_r 1 genrand64_real2"
  unfolding genrand64_real2_def by (rule advances_intro order_refl | simp)+

lemma draws_get_random [advances_intro]: "draws pcg_mcg_128_step_r 1 (get_random mx)"
  unfolding get_random_def by (rule advances_intro order_refl | simp)+

lemma draws_get_percentage [advances_intro]: "draws pcg_mcg_128_step_r 1 get_percentage"
  unfolding get_percentage_def by (rule advances_intro order_refl | simp)+

lemma draws_get_nurand [advances_intro]: "draws pcg_mcg_128_step_r 2 (get_nurand a x y)"
  unfolding get_nurand_def by (rule advances_intro order_refl | simp)+

lemma draws_local_string [advances_intro]: "draws pcg_mcg_128_step_r 1 (local_string chars n x y)"
  unfolding local_string_def by (rule advances_intro order_refl | simp)+

lemma draws_get_strings [advances_intro]:
  "draws pcg_mcg_128_step_r 1 (get_a_string x y)"
  "draws pcg_mcg_128_step_r 1 (get_l_string x y)"
  "draws pcg_mcg_128_step_r 1 (get_n_string x y)"
  by (simp_all add: get_a_string_def get_l_string_def get_n_string_def draws_local_string del: One_nat_def)

text \<open>
  The factor of \<open>get_percentage\<close> is a little more than \<open>2\<^sup>-\<^sup>5\<^sup>3\<close>, so that the largest draws round
  to 1: its range is the closed interval from 0 to 1.
\<close>

lemma fl_percent_unit: "fl (1 / 9007199254740991) = 4503599627370497 / 2 ^ 105"
proof -
  have "ilog2 (1 / 9007199254740991) = - 53"
    by (rule ilog2_unique) (simp_all add: power_int_minus field_simps)
  then have q: "quantum (1 / 9007199254740991) = - 105" by (simp add: quantum_def)
  have "(1 / 9007199254740991) / 2 powi (- 105) = (of_int (2 ^ 105) / of_int 9007199254740991 :: rat)"
    by (simp add: power_int_minus field_simps)
  moreover have "\<lfloor>of_int (2 ^ 105) / of_int 9007199254740991 :: rat\<rfloor> = 4503599627370496"
    unfolding floor_divide_of_int_eq by simp
  ultimately have "rne ((1 / 9007199254740991) / 2 powi (- 105)) = 4503599627370497"
    by (simp add: rne_def Let_def)
  then show ?thesis by (simp add: fl_def rnd_def q power_int_minus field_simps)
qed

lemma fl_percent_max: "fl (9007199254740991 * (4503599627370497 / 2 ^ 105)) = 1"
proof -
  let ?x = "9007199254740991 * (4503599627370497 / 2 ^ 105) :: rat"
  have "ilog2 ?x = 0" by (rule ilog2_unique) (simp_all add: field_simps)
  then have q: "quantum ?x = - 52" by (simp add: quantum_def)
  have "?x / 2 powi (- 52) = (of_int (9007199254740991 * 4503599627370497) / of_int (2 ^ 53) :: rat)"
    by (simp add: power_int_minus field_simps)
  moreover have "\<lfloor>of_int (9007199254740991 * 4503599627370497) / of_int (2 ^ 53) :: rat\<rfloor> = 2 ^ 52"
    unfolding floor_divide_of_int_eq by simp
  ultimately have r: "rne (?x / 2 powi (- 52)) = 2 ^ 52"
    by (simp add: rne_def Let_def)
  have "fl ?x = rnd (quantum ?x) ?x" by (simp add: fl_def)
  also have "\<dots> = of_int (2 ^ 52) * 2 powi (- 52)" unfolding q rnd_def r ..
  also have "\<dots> = 1" by (simp add: power_int_minus)
  finally show ?thesis .
qed

lemma get_percentage_range: "yields (\<lambda>p. 0 \<le> p \<and> p \<le> 1) get_percentage"
proof -
  have "0 \<le> fl (fl (of_nat (unat (drop_bit 11 r))) * fl (1 / 9007199254740991)) \<and>
      fl (fl (of_nat (unat (drop_bit 11 r))) * fl (1 / 9007199254740991)) \<le> 1" for r :: "64 word"
  proof -
    have b: "unat (drop_bit 11 r) < 2 ^ 53" by (rule drop_bit_11_less)
    then have "of_nat (unat (drop_bit 11 r)) \<le> (of_nat 9007199254740991 :: rat)"
      by (simp only: of_nat_le_iff) simp
    then have "of_nat (unat (drop_bit 11 r)) * (4503599627370497 / 2 ^ 105)
        \<le> (9007199254740991 * (4503599627370497 / 2 ^ 105) :: rat)"
      by (intro mult_right_mono) (simp_all only: of_nat_numeral, simp)
    then show ?thesis
      unfolding fl_of_nat53 [OF b] fl_percent_unit
      using fl_mono fl_percent_max by (metis fl_nonneg mult_nonneg_nonneg of_nat_0_le_iff
          divide_nonneg_nonneg zero_le_numeral zero_le_power)
  qed
  then show ?thesis
    unfolding get_percentage_def
    by (intro yields_bind [where P = "\<lambda>_. True"] yields_return) (simp_all add: yields_def)
qed

text \<open>TPC-C clause 2.1.6: the result lies in \<open>[x, y]\<close>.\<close>

lemma get_nurand_range:
  assumes "0 \<le> a" "a < 2 ^ 31" "0 \<le> x" "x \<le> y" "y < 2 ^ 31"
  shows "yields (\<lambda>r. x \<le> r \<and> r \<le> y) (get_nurand a x y)"
  unfolding get_nurand_def
proof (intro yields_bind [OF get_random_range] yields_return)
  fix r1 r2
  assume r1: "0 \<le> r1 \<and> r1 < a + 1" and r2: "0 \<le> r2 \<and> r2 < y - x + 1"
  let ?v = "r1 OR (x + r2)"
  have v: "0 \<le> ?v" using r1 r2 assms by (simp add: or_nonnegative_int_iff)
  have n: "0 < y - x + 1" using assms by simp
  have "0 \<le> c_mod ?v (y - x + 1)" "c_mod ?v (y - x + 1) < y - x + 1"
    unfolding c_mod_nonneg [OF v n] by (rule pos_mod_sign [OF n], rule pos_mod_bound [OF n])
  moreover from this have "cast_int (c_mod ?v (y - x + 1) + x) = c_mod ?v (y - x + 1) + x"
    using assms by (intro cast_int_id) linarith+
  ultimately show "x \<le> cast_int (c_mod ?v (y - x + 1) + x) \<and>
      cast_int (c_mod ?v (y - x + 1) + x) \<le> y"
    by linarith
qed (use assms in simp_all)

section \<open>Strings have the length and the characters asked for\<close>

lemma fill_string_spec:
  assumes "0 \<le> x" "x \<le> y" "y < 2 ^ 30" "n = int (length chars)" "0 < n" "n \<le> 2 ^ 53"
  shows "yields (\<lambda>s. x \<le> int (length s) \<and> int (length s) \<le> y \<and> set s \<subseteq> set chars)
    (fill_string chars n x y)"
proof -
  have ch: "yields (\<lambda>c. c \<in> set chars) (do { r \<leftarrow> get_random n; State_Monad.return (chars ! nat r) })"
    using assms by (intro yields_bind [OF get_random_range] yields_return) auto
  have "yields (\<lambda>s. x \<le> int (length s) \<and> int (length s) \<le> y \<and> set s \<subseteq> set chars)
      (repeat_m (nat (x + cast_int l + 1 - 1))
        (do { r \<leftarrow> get_random n; State_Monad.return (chars ! nat r) }))"
    if "0 \<le> l \<and> l < y - x + 1" for l
    using that assms
    by (intro yields_mono [OF yields_repeat_m [OF ch]]) (auto simp: list_all_iff)
  then show ?thesis
    unfolding fill_string_def using assms
    by (intro yields_bind [OF get_random_range]) simp_all
qed

lemma local_string_spec:
  assumes "0 \<le> x" "x \<le> y" "y < 2 ^ 30" "n = int (length chars)" "0 < n" "n \<le> 2 ^ 53"
  shows "yields (\<lambda>s. x \<le> int (length s) \<and> int (length s) \<le> y \<and> set s \<subseteq> set chars)
    (local_string chars n x y)"
  unfolding local_string_def
  by (intro yields_bind [where P = "\<lambda>_. True"] yields_return)
     (simp add: yields_def, rule yieldsD [OF fill_string_spec [OF assms]])

lemma string_char_lengths [simp]:
  "length a_string_char = 128" "length l_string_char = 52" "length n_string_char = 10"
  by (simp_all add: a_string_char_def l_string_char_def n_string_char_def wide_def)

lemma get_a_string_spec:
  assumes "0 \<le> x" "x \<le> y" "y < 2 ^ 30"
  shows "yields (\<lambda>s. x \<le> int (length s) \<and> int (length s) \<le> y \<and> set s \<subseteq> set a_string_char)
    (get_a_string x y)"
  unfolding get_a_string_def A_STRING_CHAR_LEN_def by (rule local_string_spec) (use assms in simp_all)

lemma get_l_string_spec:
  assumes "0 \<le> x" "x \<le> y" "y < 2 ^ 30"
  shows "yields (\<lambda>s. x \<le> int (length s) \<and> int (length s) \<le> y \<and> set s \<subseteq> set l_string_char)
    (get_l_string x y)"
  unfolding get_l_string_def L_STRING_CHAR_LEN_def by (rule local_string_spec) (use assms in simp_all)

lemma get_n_string_spec:
  assumes "0 \<le> x" "x \<le> y" "y < 2 ^ 30"
  shows "yields (\<lambda>s. x \<le> int (length s) \<and> int (length s) \<le> y \<and> set s \<subseteq> set n_string_char)
    (get_n_string x y)"
  unfolding get_n_string_def N_STRING_CHAR_LEN_def by (rule local_string_spec) (use assms in simp_all)

section \<open>Customer last names\<close>

lemma fmt_03d: "0 \<le> i \<Longrightarrow> i \<le> 999 \<Longrightarrow>
    fmt_0d 3 i = [digit (nat i div 100), digit (nat i div 10 mod 10), digit (nat i mod 10)]"
proof -
  assume i: "0 \<le> i" "i \<le> 999"
  define n where "n = nat i"
  have n: "n < 1000" using i by (simp add: n_def)
  have d0: "digit 0 = CHR ''0''" by code_simp
  consider "n < 10" | "10 \<le> n" "n < 100" | "100 \<le> n" by linarith
  then have "zero_fill 3 (digits n) = [digit (n div 100), digit (n div 10 mod 10), digit (n mod 10)]"
  proof cases
    case 1
    then show ?thesis by (simp add: zero_fill_def digits.simps [of n] d0 numeral_2_eq_2)
  next
    case 2
    then have "n div 10 < 10" by simp
    with 2 show ?thesis
      by (simp add: zero_fill_def digits.simps [of n] digits.simps [of "n div 10"] d0)
  next
    case 3
    then have "\<not> n div 10 < 10" "n div 10 div 10 < 10" using n by simp_all
    moreover from this have "digits (n div 100) = [digit (n div 100)]"
      by (subst digits.simps) simp
    ultimately show ?thesis using 3
      by (simp add: zero_fill_def digits.simps [of n] digits.simps [of "n div 10"]
          div_mult2_eq [symmetric])
  qed
  then show ?thesis using i by (simp add: fmt_0d_def n_def)
qed

lemma digit_value: "n < 10 \<Longrightarrow> of_char (digit n) - 48 = n"
  by (simp add: digit_def)

lemma get_c_last_value:
  assumes "0 \<le> i" "i \<le> 999"
  shows "get_c_last i = (OK, c_last_syl ! (nat i div 100) @ c_last_syl ! (nat i div 10 mod 10) @
    c_last_syl ! (nat i mod 10))"
proof -
  have "nat i div 100 < 10" using assms by simp
  then show ?thesis using assms by (simp add: get_c_last_def fmt_03d digit_value Let_def)
qed

lemma syl_length: "k < 10 \<Longrightarrow> 3 \<le> length (c_last_syl ! k) \<and> length (c_last_syl ! k) \<le> 5"
proof -
  assume "k < 10"
  moreover have "list_all (\<lambda>w. 3 \<le> length w \<and> length w \<le> 5) c_last_syl" "length c_last_syl = 10"
    by code_simp+
  ultimately show ?thesis by (simp add: list_all_length)
qed

lemma get_c_last_length:
  assumes "0 \<le> i" "i \<le> 999"
  shows "length (snd (get_c_last i)) \<le> 15"
proof -
  have k: "nat i div 100 < 10" "nat i div 10 mod 10 < 10" "nat i mod 10 < 10" using assms by simp_all
  show ?thesis
    using syl_length [OF k(1)] syl_length [OF k(2)] syl_length [OF k(3)]
    by (simp add: get_c_last_value [OF assms])
qed

text \<open>No syllable is the beginning of another one, so a name determines its number.\<close>

lemma syl_prefix_free:
  assumes "a < 10" "b < 10" "c_last_syl ! a @ u = c_last_syl ! b @ v"
  shows "a = b \<and> u = v"
proof -
  have len: "length c_last_syl = 10" by (simp add: c_last_syl_def)
  have "distinct (map (take 3) c_last_syl)" by code_simp
  moreover have "take 3 (c_last_syl ! a) = take 3 (c_last_syl ! b)"
    using arg_cong [OF assms(3), of "take 3"] syl_length [OF assms(1)] syl_length [OF assms(2)] by simp
  ultimately have "a = b"
    using nth_eq_iff_index_eq [of "map (take 3) c_last_syl" a b] assms(1,2) by (simp add: len)
  then show ?thesis using assms(3) by simp
qed

lemma decimal3: "(n::nat) = 100 * (n div 100) + 10 * (n div 10 mod 10) + n mod 10"
proof -
  have "n div 100 = n div 10 div 10" by (simp flip: div_mult2_eq)
  then show ?thesis using mult_div_mod_eq [of 10 n] mult_div_mod_eq [of 10 "n div 10"] by linarith
qed

lemma get_c_last_inj:
  assumes "0 \<le> i" "i \<le> 999" "0 \<le> j" "j \<le> 999" "get_c_last i = get_c_last j"
  shows "i = j"
proof -
  have k: "nat i div 100 < 10" "nat j div 100 < 10" using assms by simp_all
  have eq: "c_last_syl ! (nat i div 100) @ c_last_syl ! (nat i div 10 mod 10) @ c_last_syl ! (nat i mod 10)
      = c_last_syl ! (nat j div 100) @ c_last_syl ! (nat j div 10 mod 10) @ c_last_syl ! (nat j mod 10)"
    using assms(5) unfolding get_c_last_value [OF assms(1,2)] get_c_last_value [OF assms(3,4)] by simp
  have d1: "nat i div 100 = nat j div 100" and r1: "c_last_syl ! (nat i div 10 mod 10) @ c_last_syl ! (nat i mod 10)
      = c_last_syl ! (nat j div 10 mod 10) @ c_last_syl ! (nat j mod 10)"
    using syl_prefix_free [OF k eq] by simp_all
  have d2: "nat i div 10 mod 10 = nat j div 10 mod 10" and r2: "c_last_syl ! (nat i mod 10) = c_last_syl ! (nat j mod 10)"
    using syl_prefix_free [OF _ _ r1] by simp_all
  have d3: "nat i mod 10 = nat j mod 10"
    using syl_prefix_free [of "nat i mod 10" "nat j mod 10" "[]" "[]"] r2 by simp
  have "nat i = nat j" using d1 d2 d3 decimal3 [of "nat i"] decimal3 [of "nat j"] by simp
  then show ?thesis using assms by simp
qed

section \<open>Byte order\<close>

lemma ntohll_byte:
  assumes "n < 64"
  shows "bit (ntohll False x) n = bit x (8 * (7 - n div 8) + n mod 8)"
proof -
  have "n \<in> set [0..<64]" using assms by simp
  then show ?thesis
    by (simp add: upt_rec ntohll_def ntohl_def bswap32_def) (elim disjE; simp add: bit_simps flip: numeral_2_eq_2)
qed

lemma ntohll_twice: "ntohll False (ntohll False x) = x"
proof (rule bit_word_eqI)
  fix n assume "n < LENGTH(64)"
  then have n: "n < 64" by simp
  define k where "k = 8 * (7 - n div 8) + n mod 8"
  have d: "n div 8 < 8" using n by (simp add: less_mult_imp_div_less)
  have r: "n mod 8 < 8" by simp
  have k: "k < 64" "k div 8 = 7 - n div 8" "k mod 8 = n mod 8" using d r unfolding k_def by (linarith, simp_all)
  have "bit (ntohll False (ntohll False x)) n = bit (ntohll False x) k"
    unfolding k_def by (rule ntohll_byte [OF n])
  also have "\<dots> = bit x (8 * (7 - k div 8) + k mod 8)" by (rule ntohll_byte [OF k(1)])
  also have "8 * (7 - k div 8) + k mod 8 = n" using d unfolding k(2,3) by simp
  finally show "bit (ntohll False (ntohll False x)) n = bit x n" .
qed

section \<open>What the generators of values promise\<close>

text \<open>The random numbers lie where the callers expect them: a draw below \<open>mx\<close> in \<open>[0, mx)\<close> in spite
  of the multiplication of doubles, a non-uniform draw (clause 2.1.6) in \<open>[x, y]\<close>, and a percentage
  in \<open>[0, 1]\<close>, with both ends possible.\<close>
theorem draw_ranges:
  assumes "0 < mx" "mx \<le> 2 ^ 53" "0 \<le> a" "a < 2 ^ 31" "0 \<le> x" "x \<le> y" "y < 2 ^ 31"
  shows "yields (\<lambda>r. 0 \<le> r \<and> r < mx) (get_random mx) \<and>
    yields (\<lambda>r. x \<le> r \<and> r \<le> y) (get_nurand a x y) \<and>
    yields (\<lambda>p. 0 \<le> p \<and> p \<le> 1) get_percentage"
  using get_random_range [OF assms(1,2)] get_nurand_range [OF assms(3-7)] get_percentage_range by blast

theorem draw_ranges_witness:
  "yields (\<lambda>r. 0 \<le> r \<and> r < 100) (get_random 100) \<and>
   yields (\<lambda>r. 1 \<le> r \<and> r \<le> 3000) (get_nurand 1023 1 3000) \<and>
   yields (\<lambda>p. 0 \<le> p \<and> p \<le> 1) get_percentage"
  by (rule draw_ranges) simp_all

text \<open>The generated strings have a length between \<open>x\<close> and \<open>y\<close> and consist of characters of the
  alphabet asked for, and each of them costs exactly one number of the caller's generator however
  long it turns out, which is what makes the skipping of rows in the data generator possible.\<close>
theorem random_strings:
  assumes "0 \<le> x" "x \<le> y" "y < 2 ^ 30"
  shows "yields (\<lambda>s. x \<le> int (length s) \<and> int (length s) \<le> y \<and> set s \<subseteq> set a_string_char) (get_a_string x y) \<and>
    yields (\<lambda>s. x \<le> int (length s) \<and> int (length s) \<le> y \<and> set s \<subseteq> set l_string_char) (get_l_string x y) \<and>
    yields (\<lambda>s. x \<le> int (length s) \<and> int (length s) \<le> y \<and> set s \<subseteq> set n_string_char) (get_n_string x y) \<and>
    (snd (run_state (get_a_string x y) r), snd (run_state (get_l_string x y) r), snd (run_state (get_n_string x y) r)) =
      (pcg_mcg_128_step_r r, pcg_mcg_128_step_r r, pcg_mcg_128_step_r r)"
  using get_a_string_spec [OF assms] get_l_string_spec [OF assms] get_n_string_spec [OF assms] draws_get_strings
  by (simp add: draws_def advances_def)

theorem random_strings_witness:
  "yields (\<lambda>s. 26 \<le> int (length s) \<and> int (length s) \<le> 50 \<and> set s \<subseteq> set a_string_char) (get_a_string 26 50)"
  using random_strings [of 26 50] by simp

text \<open>Last names (clause 4.3.2.3) are built for exactly the numbers 0 to 999, fit their column of 16
  characters, and different numbers give different names; any other number is an error and leaves
  the name empty.\<close>
theorem last_names:
  "inj_on get_c_last {0..999} \<and> (fst (get_c_last i) = OK) = (0 \<le> i \<and> i \<le> 999) \<and>
   length (snd (get_c_last i)) \<le> 16 \<and> (fst (get_c_last i) = ERROR) = (snd (get_c_last i) = [])"
proof -
  have "inj_on get_c_last {0..999}" using get_c_last_inj by (auto intro: inj_onI)
  moreover have "(fst (get_c_last i) = OK) = (0 \<le> i \<and> i \<le> 999) \<and>
    length (snd (get_c_last i)) \<le> 16 \<and> (fst (get_c_last i) = ERROR) = (snd (get_c_last i) = [])"
  proof (cases "0 \<le> i \<and> i \<le> 999")
    case True
    then have "nat i < 1000" by linarith
    then have "nat i div 100 < 10" by (simp add: less_mult_imp_div_less)
    with syl_length [OF this] have "c_last_syl ! (nat i div 100) \<noteq> []" by auto
    then show ?thesis using True get_c_last_length [of i] get_c_last_value [of i] by (simp add: status_defs)
  next
    case False
    then show ?thesis by (auto simp: get_c_last_def status_defs)
  qed
  ultimately show ?thesis by blast
qed

text \<open>On a little endian machine \<open>ntohll\<close> reverses the eight bytes of its argument and so is its own
  inverse; on a big endian machine it changes nothing.\<close>
theorem ntohll_reverses:
  "bit (ntohll False x) (n mod 64) = bit x (8 * (7 - n mod 64 div 8) + n mod 64 mod 8) \<and>
   ntohll False (ntohll False x) = x \<and> ntohll True x = x"
  by (simp add: ntohll_byte ntohll_twice) (simp add: ntohll_def ntohl_def)

end
