(* ===== verification/Datagen_Base.thy ===== *)
theory Datagen_Base
  imports Common
begin

text \<open>
  What the table generators of \<open>src/src/datagen.c\<close> share: the global settings, the range of
  warehouses (or items) of a partition, the output stream with its name and its COPY commands, the
  periodic commits of a direct load, time stamps and fields. The file system, the pipe to
  \<open>psql\<close> and the clock are parameters of the model: whether opening a stream succeeds, and the
  local time read in the loop round with the given indices. A stream is represented by all text
  written to it.

  Every generator repeats this code with its own table name; the definitions here translate it once
  and the generators apply them. Reading back from the pipe (\<open>fgetc\<close> on a stream that was opened
  for writing) returns EOF at once and has no effect.
\<close>

section \<open>Settings and environment\<close>

record datagen =
  dg_warehouses :: int
  dg_customers :: int
  dg_items :: int
  dg_orders :: int
  dg_new_orders :: int
  mode_load :: int
  mode_string :: int
  delimiter :: char
  null_str :: bytes
  quoter :: bytes
  seed :: "64 word"
  rows_per_commit :: "64 word"
  table :: int
  part :: int
  partitions :: int
  output_path :: "bytes option"

record tm =
  tm_year :: int
  tm_mon :: int
  tm_mday :: int
  tm_hour :: int
  tm_min :: int
  tm_sec :: int

record env =
  fopen_ok :: "bytes \<Rightarrow> bool"
  popen_ok :: "nat \<Rightarrow> bool"
  clock :: "int list \<Rightarrow> tm"

definition MODE_PGSQL :: int where "MODE_PGSQL = 1"
definition MODE_MYSQL :: int where "MODE_MYSQL = 2"
definition MODE_FLAT :: int where "MODE_FLAT = 0"
definition MODE_DIRECT :: int where "MODE_DIRECT = 1"
definition MAX_PARTITIONS :: int where "MAX_PARTITIONS = 9999"

lemmas mode_defs = MODE_PGSQL_def MODE_MYSQL_def MODE_FLAT_def MODE_DIRECT_def

text \<open>
  What a generator leaves behind: what it printed and the streams it wrote; or undefined
  behaviour, where the code writes through a stream it never opened; or an early exit.
\<close>

datatype sink = File bytes | Pipe bytes

datatype outcome =
    Done (console: bytes) (streams: "(sink \<times> bytes) list")
  | Undefined
  | Exit int

section \<open>Partitions\<close>

text \<open>
  The half open range \<open>[start, end)\<close> of the partition, computed with doubles as in the code. The
  conversion of an \<open>int\<close> to \<open>double\<close> is exact.
\<close>

definition part_bound :: "int \<Rightarrow> int \<Rightarrow> int \<Rightarrow> int" where
  "part_bound n ps p = cast_int (c_round (fl (fl (of_int n / of_int ps) * of_int p)))"

definition partition_range :: "int \<Rightarrow> datagen \<Rightarrow> int \<times> int" where
  "partition_range n g =
     (let start = part_bound n (partitions g) (part g - 1);
          end' = part_bound n (partitions g) (part g)
      in (start, if end' > n then n else end'))"

section \<open>Streams\<close>

definition newline :: bytes where "newline = [char_of (10 :: nat)]"
definition tab :: char where "tab = char_of (9 :: nat)"
definition backslash :: char where "backslash = char_of (92 :: nat)"
definition quote :: bytes where "quote = [char_of (39 :: nat)]"

text \<open>\<open>strncat(filename, s, 1023 - strlen(filename))\<close> on the 1024 byte buffer of the name.\<close>

definition strncat_name :: "bytes \<Rightarrow> bytes \<Rightarrow> bytes" where
  "strncat_name filename s = filename @ take (1023 - length filename) s"

definition data_filename :: "datagen \<Rightarrow> bytes \<Rightarrow> bytes" where
  "data_filename g base =
     (let f0 = (case output_path g of None \<Rightarrow> []
                | Some p \<Rightarrow> strncat_name (take 1023 p) ''/'');
          f1 = strncat_name f0 base
      in if 1 < partitions g
         then strncat_name (strncat_name f1 ''.'') (take 4 (fmt_d (part g)))
         else f1)"

definition copy_command :: "datagen \<Rightarrow> bytes \<Rightarrow> bytes" where
  "copy_command g tbl = ''COPY '' @ tbl @ '' FROM STDIN DELIMITER '' @ quote @ [delimiter g] @
     quote @ '' NULL '' @ quote @ null_str g @ quote @ '';'' @ newline"

text \<open>
  Opening the output. A flat file may fail to open; so may the pipe. A direct load into anything
  but PostgreSQL, or an unknown load mode, leaves the stream variable without a value.
\<close>

datatype opened = Opened sink bytes | OpenFailed bytes | NoStream bytes

definition direct_prefix :: "datagen \<Rightarrow> bytes \<Rightarrow> bytes" where
  "direct_prefix g tbl = ''BEGIN;'' @ newline @
     (if partitions g = 1 then ''TRUNCATE '' @ tbl @ '';'' @ newline else []) @
     copy_command g tbl"

definition open_output :: "env \<Rightarrow> datagen \<Rightarrow> nat \<Rightarrow> bytes \<Rightarrow> bytes \<Rightarrow> opened" where
  "open_output e g call base tbl =
     (if mode_load g = MODE_FLAT then
        (let filename = data_filename g base in
         if fopen_ok e filename then Opened (File filename) []
         else OpenFailed (''cannot open '' @ base @ newline))
      else if mode_load g = MODE_DIRECT then
        (if mode_string g = MODE_PGSQL then
           (if popen_ok e call then Opened (Pipe ''psql'') (direct_prefix g tbl)
            else OpenFailed (''error cannot open pipe for direct load'' @ newline))
         else NoStream [])
      else NoStream (''error unknown load mode: '' @ fmt_d (mode_load g) @ newline))"

text \<open>The end of data marker and the commit, between batches and at the end of a direct load.\<close>

definition end_of_data :: bytes where
  "end_of_data = [backslash] @ ''.'' @ newline"

definition commit_text :: "datagen \<Rightarrow> bytes \<Rightarrow> bytes" where
  "commit_text g tbl = (if mode_string g = MODE_PGSQL
     then end_of_data @ ''COMMIT;'' @ newline @ ''BEGIN;'' @ newline @ copy_command g tbl
     else [])"

definition close_text :: "datagen \<Rightarrow> bytes" where
  "close_text g = (if mode_load g = MODE_FLAT then []
     else if mode_string g = MODE_PGSQL then end_of_data @ ''COMMIT;'' @ newline
     else [])"

section \<open>Rows\<close>

text \<open>
  A row is written, and with \<open>--rows-per-commit\<close> every so many rows a commit follows. The counter
  is only incremented when that option is used.
\<close>

definition counted :: "datagen \<Rightarrow> bytes \<Rightarrow> nat \<Rightarrow> bytes \<Rightarrow> bytes \<times> nat" where
  "counted g tbl rows text =
     (if rows_per_commit g \<noteq> 0 then
        (text @ (if Suc rows mod unat (rows_per_commit g) = 0 then commit_text g tbl else []), Suc rows)
      else (text, rows))"

definition put_row :: "datagen \<Rightarrow> bytes \<Rightarrow> (rng, bytes) state \<Rightarrow> (rng \<times> nat, bytes) state" where
  "put_row g tbl row = State (\<lambda>(r, rows).
     case run_state row r of (text, r') \<Rightarrow>
       (case counted g tbl rows text of (text', rows') \<Rightarrow> (text', (r', rows'))))"

text \<open>
  One field with the quoter around it and the delimiter after it, \<open>fprintf(output, "%s...%s")\<close>
  and \<open>metaprintf(output, "%c", delimiter)\<close>; and a constant field, which is not quoted.
\<close>

definition quoted :: "datagen \<Rightarrow> bytes \<Rightarrow> bytes" where
  "quoted g s = quoter g @ s @ quoter g"

definition field :: "datagen \<Rightarrow> bytes \<Rightarrow> bytes" where
  "field g s = quoted g s @ [delimiter g]"

definition literal :: "datagen \<Rightarrow> bytes \<Rightarrow> bytes" where
  "literal g s = s @ [delimiter g]"

definition print_timestamp_pgsql :: "tm \<Rightarrow> bytes" where
  "print_timestamp_pgsql date = fmt_0d 4 (tm_year date + 1900) @ ''-'' @ fmt_0d 2 (tm_mon date + 1) @
     ''-'' @ fmt_0d 2 (tm_mday date) @ '' '' @ fmt_0d 2 (tm_hour date) @ '':'' @
     fmt_0d 2 (tm_min date) @ '':'' @ fmt_0d 2 (tm_sec date)"

text \<open>
  The generator as each table starts it: seeded, and for every part but the first moved ahead by
  \<open>delta\<close> numbers.
\<close>

definition start_rng :: "datagen \<Rightarrow> 128 word \<Rightarrow> rng" where
  "start_rng g delta =
     (let r = pcg64f_srandom_r (ucast (seed g)) in
      if 1 < part g then pcg64f_advance_r delta r else r)"

text \<open>The frame of a generator with one output stream: open, write the rows, close.\<close>

definition write_table ::
    "opened \<Rightarrow> datagen \<Rightarrow> bytes \<Rightarrow> (rng \<times> nat, bytes) state \<Rightarrow> rng \<Rightarrow> bytes \<Rightarrow> outcome" where
  "write_table out g banner rows r finished =
     (let text = fst (run_state rows (r, 0)) @ close_text g in
      case out of
        OpenFailed msg \<Rightarrow> Done (banner @ msg) []
      | NoStream msg \<Rightarrow> if text = [] then Done (banner @ msg @ finished) [] else Undefined
      | Opened snk pre \<Rightarrow> Done (banner @ finished) [(snk, pre @ text)])"

section \<open>Partitions tile the whole range\<close>

lemma part_bound_nonneg:
  assumes "0 \<le> n" "0 < ps" "0 \<le> p"
  shows "0 \<le> fl (fl (of_int n / of_int ps) * of_int p)"
  using assms by (intro fl_nonneg mult_nonneg_nonneg) simp_all

text \<open>The last bound is exact in spite of two roundings.\<close>

lemma part_bound_error:
  assumes "0 < n" "n < 2 ^ 31" "0 < ps" "ps < 2 ^ 31"
  shows "\<bar>fl (fl (of_int n / of_int ps) * of_int ps) - of_int n\<bar> < 1/2"
proof -
  let ?q = "of_int n / of_int ps :: rat" and ?P = "of_int ps :: rat"
  let ?s = "fl ?q"
  have P: "1 \<le> ?P" "?P < 2 ^ 31" using assms by simp_all
  have n1: "1 \<le> (of_int n :: rat)" "(of_int n :: rat) < 2 ^ 31" using assms by simp_all
  have q0: "0 < ?q" using assms by simp
  have "1 / 2 ^ 53 \<le> 1 / ?P" using P by (intro divide_left_mono) simp_all
  also have "\<dots> \<le> ?q" using n1 P by (intro divide_right_mono) simp_all
  finally have ql: "1 / 2 ^ 53 \<le> \<bar>?q\<bar>" unfolding abs_of_pos [OF q0] .
  have e1: "\<bar>?s - ?q\<bar> \<le> ?q / 2 ^ 53" using fl_rel_err_unit [OF ql] unfolding abs_of_pos [OF q0] .
  then have "\<bar>?s - ?q\<bar> * ?P \<le> ?q / 2 ^ 53 * ?P" using P by (intro mult_right_mono) simp_all
  moreover have "\<bar>?s - ?q\<bar> * ?P = \<bar>?s * ?P - of_int n\<bar>"
  proof -
    have "(?s - ?q) * ?P = ?s * ?P - of_int n" using P by (simp add: left_diff_distrib)
    then show ?thesis using P by (metis abs_mult abs_of_nonneg order_trans zero_le_one)
  qed
  moreover have "?q / 2 ^ 53 * ?P = of_int n / 2 ^ 53" using P by simp
  ultimately have e2: "\<bar>?s * ?P - of_int n\<bar> \<le> of_int n / 2 ^ 53" by simp
  then have x: "?s * ?P \<le> of_int n + of_int n / 2 ^ 53" "of_int n - of_int n / 2 ^ 53 \<le> ?s * ?P"
    unfolding abs_le_iff by linarith+
  then have "1 / 2 ^ 53 \<le> \<bar>?s * ?P\<bar>" using n1 by simp
  then have "\<bar>fl (?s * ?P) - ?s * ?P\<bar> \<le> \<bar>?s * ?P\<bar> / 2 ^ 53" by (rule fl_rel_err_unit)
  moreover have "\<bar>?s * ?P\<bar> \<le> 2 ^ 32" using x n1 by (simp add: abs_le_iff)
  moreover have "\<bar>fl (?s * ?P) - of_int n\<bar> \<le> \<bar>fl (?s * ?P) - ?s * ?P\<bar> + \<bar>?s * ?P - of_int n\<bar>"
    using abs_triangle_ineq [of "fl (?s * ?P) - ?s * ?P" "?s * ?P - of_int n"] by simp
  ultimately show ?thesis using e2 n1(2) by (auto simp: field_simps)
qed

lemma part_bound_last:
  assumes "0 \<le> n" "n < 2 ^ 31" "0 < ps" "ps < 2 ^ 31"
  shows "part_bound n ps ps = n"
proof (cases "n = 0")
  case True
  then show ?thesis by (simp add: part_bound_def)
next
  case False
  then have "c_round (fl (fl (of_int n / of_int ps) * of_int ps)) = n"
    using assms part_bound_error [of n ps] part_bound_nonneg [of n ps ps] by (intro c_round_near) simp_all
  then show ?thesis using assms by (simp add: part_bound_def)
qed

lemma part_bound_first: "part_bound n ps 0 = 0"
  by (simp add: part_bound_def)

lemma part_bound_mono:
  assumes "0 \<le> n" "n < 2 ^ 31" "0 < ps" "ps < 2 ^ 31" "0 \<le> p" "p \<le> p'" "p' \<le> ps"
  shows "part_bound n ps p \<le> part_bound n ps p'"
proof -
  let ?c = "\<lambda>p. c_round (fl (fl (of_int n / of_int ps) * of_int p))"
  have m: "?c a \<le> ?c b" if "0 \<le> a" "a \<le> b" for a b
    using that assms by (intro c_round_mono part_bound_nonneg fl_mono mult_left_mono fl_nonneg) simp_all
  have top: "?c ps \<le> n"
  proof (cases "n = 0")
    case True
    then show ?thesis by simp
  next
    case False
    then have "?c ps = n"
      using assms part_bound_error [of n ps] part_bound_nonneg [of n ps ps]
      by (intro c_round_near) simp_all
    then show ?thesis by simp
  qed
  have bot: "0 \<le> ?c p" using m [of 0 p] assms by simp
  have "?c p' \<le> n" using m [of p' ps] top assms by simp
  moreover have "?c p \<le> ?c p'" using m assms by simp
  ultimately show ?thesis using bot assms by (simp add: part_bound_def)
qed

lemma part_bound_range:
  assumes "0 \<le> n" "n < 2 ^ 31" "0 < ps" "ps < 2 ^ 31" "0 \<le> p" "p \<le> ps"
  shows "0 \<le> part_bound n ps p" "part_bound n ps p \<le> n"
  using part_bound_mono [OF assms(1-4), of 0 p] part_bound_mono [OF assms(1-4), of p ps]
    part_bound_first [of n ps] part_bound_last [OF assms(1-4)] assms by simp_all

section \<open>Generators that can start anywhere\<close>

text \<open>
  What a generator relies on in order to work in parts: a random sequence that can be entered at
  any position, and a body that consumes the same number of random numbers for every unit it
  writes. Then the parts, written one after the other, are the text of a single run.
\<close>

locale seekable_sequence =
  fixes step :: "'s \<Rightarrow> 's"
    and seek :: "128 word \<Rightarrow> 's \<Rightarrow> 's"
  assumes seek_steps: "seek (of_nat n) s = (step ^^ n) s"

locale partitioned_body = seekable_sequence +
  fixes body :: "int \<Rightarrow> ('s, 'x list) state"
    and cost :: nat
  assumes draws_body: "draws step cost (body i)"
begin

lemma draws_range: "draws step (nat (b - a) * cost) (for_range a b body)"
  by (intro draws_for_range draws_body)

lemma segment_append:
  assumes "0 \<le> a" "a \<le> b" "b \<le> c"
  shows "fst (run_state (for_range a b body) (seek (of_nat (nat a * cost)) s)) @
    fst (run_state (for_range b c body) (seek (of_nat (nat b * cost)) s)) =
    fst (run_state (for_range a c body) (seek (of_nat (nat a * cost)) s))"
proof -
  let ?s = "(step ^^ (nat a * cost)) s"
  have "snd (run_state (for_range a b body) ?s) = (step ^^ (nat (b - a) * cost)) ?s"
    by (rule drawsD [OF draws_range])
  also have "\<dots> = (step ^^ (nat (b - a) * cost + nat a * cost)) s" by (simp add: funpow_add)
  also have "nat (b - a) * cost + nat a * cost = nat b * cost"
    using assms by (simp add: nat_diff_distrib flip: add_mult_distrib)
  finally show ?thesis
    unfolding seek_steps for_range_split [OF assms(2,3)]
    by (auto split: prod.split)
qed

lemma segments_concat:
  assumes "b 0 = 0" "\<And>p q. 0 \<le> p \<Longrightarrow> p \<le> q \<Longrightarrow> q \<le> int m \<Longrightarrow> b p \<le> b q"
  shows "concat (map (\<lambda>p. fst (run_state (for_range (b (p - 1)) (b p) body)
      (seek (of_nat (nat (b (p - 1)) * cost)) s))) [1..int m]) =
    fst (run_state (for_range 0 (b (int m)) body) s)"
  using assms
proof (induction m)
  case 0
  then show ?case by (simp add: for_range_empty)
next
  case (Suc m)
  have split: "[1..int (Suc m)] = [1..int m] @ [int (Suc m)]"
    using upto_rec2 [of 1 "int (Suc m)"] by simp
  have bm: "0 \<le> b (int m)" "b (int m) \<le> b (int (Suc m))"
    using Suc.prems(2) [of 0 "int m"] Suc.prems(2) [of "int m" "int (Suc m)"] Suc.prems(1) by simp_all
  have "seek (of_nat (nat 0 * cost)) s = s" unfolding seek_steps by simp
  then show ?case
    using Suc.IH [OF Suc.prems(1)] Suc.prems(2) segment_append [of 0 "b (int m)" "b (int (Suc m))" s] bm
    unfolding split by simp
qed

text \<open>The form used for the tables: \<open>gen P p\<close> is what part \<open>p\<close> of \<open>P\<close> writes.\<close>

lemma parts_concat:
  assumes gen: "\<And>P p. 1 \<le> p \<Longrightarrow> p \<le> P \<Longrightarrow> P < 2 ^ 31 \<Longrightarrow>
      gen P p = fst (run_state (for_range (part_bound n P (p - 1)) (min n (part_bound n P p)) body)
        (seek (of_nat (nat (part_bound n P (p - 1)) * cost)) s))"
    and n: "0 \<le> n" "n < 2 ^ 31" and P: "1 \<le> P" "P < 2 ^ 31"
  shows "concat (map (gen P) [1..P]) = gen 1 1"
proof -
  have P0: "0 < P" using P by simp
  have "map (gen P) [1..P] = map (\<lambda>p. fst (run_state
      (for_range (part_bound n P (p - 1)) (part_bound n P p) body)
      (seek (of_nat (nat (part_bound n P (p - 1)) * cost)) s))) [1..P]"
    using n P part_bound_range(2) [OF n P0 P(2)] by (intro map_cong refl) (simp add: gen min_absorb2)
  also have "concat \<dots> = fst (run_state (for_range 0 (part_bound n P P) body) s)"
    using segments_concat [of "part_bound n P" "nat P" s] part_bound_mono [OF n P0 P(2)] P
    by (simp add: part_bound_first)
  finally have "concat (map (gen P) [1..P]) = fst (run_state (for_range 0 (part_bound n P P) body) s)" .
  moreover have "seek (of_nat (nat 0 * cost)) s = s" unfolding seek_steps by simp
  ultimately show ?thesis
    using n by (simp add: gen part_bound_first part_bound_last [OF n P0 P(2)] part_bound_last)
qed

end

interpretation pcg: seekable_sequence pcg_mcg_128_step_r pcg64f_advance_r
  by unfold_locales (rule pcg64f_advance_r_of_nat)

section \<open>Rows without commits\<close>

text \<open>Without \<open>--rows-per-commit\<close> the row counter is idle and only the generator state matters.\<close>

definition with_counter :: "('r, 'a) state \<Rightarrow> ('r \<times> 'n, 'a) state" where
  "with_counter m = State (\<lambda>(r, n). case run_state m r of (x, r') \<Rightarrow> (x, (r', n)))"

lemma run_with_counter:
  "run_state (with_counter m) (r, n) = (fst (run_state m r), (snd (run_state m r), n))"
  by (simp add: with_counter_def split: prod.split)

lemma put_row_plain: "rows_per_commit g = 0 \<Longrightarrow> put_row g tbl row = with_counter row"
  by (simp add: put_row_def counted_def with_counter_def)

lemma for_range_with_counter:
  "for_range a b (\<lambda>i. with_counter (f i)) = with_counter (for_range a b f)"
proof -
  have "for_list (\<lambda>i. with_counter (f i)) is = with_counter (for_list f is)" for "is"
    by (induction "is") (auto intro!: state_ext simp: with_counter_def split: prod.splits)
  then show ?thesis by (simp add: for_range_def)
qed

definition written :: "outcome \<Rightarrow> bytes" where
  "written out = (case out of Done _ ss \<Rightarrow> concat (map snd ss) | _ \<Rightarrow> [])"

text \<open>A generator that writes a flat file and finds it can be opened.\<close>

definition flat_run :: "env \<Rightarrow> datagen \<Rightarrow> bool" where
  "flat_run e g \<longleftrightarrow> mode_load g = MODE_FLAT \<and> rows_per_commit g = 0 \<and> fopen_ok e = (\<lambda>_. True)"

lemma written_flat:
  "flat_run e g \<Longrightarrow> written (write_table (open_output e g c base tbl) g banner (with_counter m) r fin)
    = fst (run_state m r)"
  by (simp add: flat_run_def written_def write_table_def open_output_def close_text_def Let_def
      run_with_counter)

lemma start_rng_seek:
  assumes "1 \<le> part g" "part g = 1 \<Longrightarrow> delta = 0"
  shows "start_rng g delta = pcg64f_advance_r delta (pcg64f_srandom_r (ucast (seed g)))"
  using assms pcg.seek_steps [of 0] by (cases "part g = 1") (simp_all add: start_rng_def Let_def)

lemma partition_range_min:
  "partition_range n g = (part_bound n (partitions g) (part g - 1),
     min n (part_bound n (partitions g) (part g)))"
  by (simp add: partition_range_def Let_def min_def)

section \<open>Tables generated in parts\<close>

text \<open>
  The contract of a table generator: \<open>units\<close> is what it divides among the parts (warehouses or
  items), \<open>block\<close> what it writes for one unit, \<open>cost\<close> how many random numbers that takes, and
  \<open>fits\<close> the sizes for which the jump is computed without overflow. \<open>view\<close> selects a stream
  from what the blocks return.
\<close>

abbreviation (input) in_part :: "int \<Rightarrow> int \<Rightarrow> datagen \<Rightarrow> datagen" where
  "in_part p P g \<equiv> g\<lparr>part := p, partitions := P\<rparr>"

locale table_generator =
  fixes gen :: "env \<Rightarrow> datagen \<Rightarrow> bytes"
    and units :: "datagen \<Rightarrow> int"
    and block :: "env \<Rightarrow> datagen \<Rightarrow> int \<Rightarrow> (rng, 'x list) state"
    and view :: "'x list \<Rightarrow> bytes"
    and cost :: "datagen \<Rightarrow> nat"
    and fits :: "datagen \<Rightarrow> bool"
  assumes block_draws: "fits g \<Longrightarrow> draws pcg_mcg_128_step_r (cost g) (block e g i)"
    and view_append: "view (xs @ ys) = view xs @ view ys"
    and same_units: "units (in_part p P g) = units g"
    and same_block: "block e (in_part p P g) = block e g"
    and same_cost: "cost (in_part p P g) = cost g"
    and same_fits: "fits (in_part p P g) = fits g"
    and gen_text: "flat_run e g \<Longrightarrow> fits g \<Longrightarrow> 1 \<le> part g \<Longrightarrow>
      0 \<le> part_bound (units g) (partitions g) (part g - 1) \<Longrightarrow>
      gen e g = view (fst (run_state
        (for_range (part_bound (units g) (partitions g) (part g - 1))
           (min (units g) (part_bound (units g) (partitions g) (part g))) (block e g))
        (pcg64f_advance_r (of_nat (nat (part_bound (units g) (partitions g) (part g - 1)) * cost g))
           (pcg64f_srandom_r (ucast (seed g))))))"
begin

lemma view_Nil: "view [] = []"
  using view_append [of "[]" "[]"] by simp

lemma view_concat: "view (concat xss) = concat (map view xss)"
  by (induction xss) (simp_all add: view_Nil view_append)

text \<open>The parts of a run, one after the other, are the file of the run that is not divided.\<close>

lemma parts:
  assumes run: "flat_run e g" "fits g" and n: "0 \<le> units g" "units g < 2 ^ 31"
    and P: "1 \<le> P" "P < 2 ^ 31"
  shows "concat (map (\<lambda>p. gen e (in_part p P g)) [1..P]) = gen e (in_part 1 1 g)"
proof -
  let ?raw = "\<lambda>P p. fst (run_state
      (for_range (part_bound (units g) P (p - 1)) (min (units g) (part_bound (units g) P p)) (block e g))
      (pcg64f_advance_r (of_nat (nat (part_bound (units g) P (p - 1)) * cost g))
        (pcg64f_srandom_r (ucast (seed g)))))"
  have body: "partitioned_body pcg_mcg_128_step_r pcg64f_advance_r (block e g) (cost g)"
    using block_draws [OF run(2)] by unfold_locales
  have flat: "flat_run e (in_part p Q g)" for p Q using run(1) by (simp add: flat_run_def)
  have gen: "gen e (in_part p Q g) = view (?raw Q p)" if "1 \<le> p" "p \<le> Q" "Q < 2 ^ 31" for p Q
    using gen_text [OF flat [where p = p and Q = Q]] that run(2) part_bound_range(1) [OF n, of Q "p - 1"]
    by (simp add: same_units same_block same_cost same_fits)
  have "map (\<lambda>p. gen e (in_part p P g)) [1..P] = map view (map (?raw P) [1..P])"
    using gen P by simp
  then have "concat (map (\<lambda>p. gen e (in_part p P g)) [1..P]) = view (concat (map (?raw P) [1..P]))"
    by (simp only: view_concat)
  also have "\<dots> = view (?raw 1 1)"
    using partitioned_body.parts_concat [OF body, where gen = ?raw] n P by simp
  finally show ?thesis using gen [of 1 1] by simp
qed

end

text \<open>Settings and an environment for examples: every file opens, every clock reads the same.\<close>

definition sample_env :: env where
  "sample_env = \<lparr>fopen_ok = (\<lambda>_. True), popen_ok = (\<lambda>_. True), clock = (\<lambda>_.
     \<lparr>tm_year = 120, tm_mon = 1, tm_mday = 2, tm_hour = 3, tm_min = 4, tm_sec = 5\<rparr>)\<rparr>"

definition sample_settings :: datagen where
  "sample_settings = \<lparr>dg_warehouses = 7, dg_customers = 3, dg_items = 4, dg_orders = 3,
     dg_new_orders = 1, mode_load = MODE_FLAT, mode_string = MODE_PGSQL, delimiter = tab,
     null_str = [], quoter = [], seed = 42, rows_per_commit = 0, table = TABLE_ALL, part = 1,
     partitions = 1, output_path = None\<rparr>"

lemma sample_flat_run [simp]: "flat_run sample_env sample_settings"
  by (simp add: flat_run_def sample_env_def sample_settings_def)

lemma sample_sizes [simp]:
  "dg_warehouses sample_settings = 7" "dg_customers sample_settings = 3" "dg_items sample_settings = 4"
  "dg_orders sample_settings = 3" "dg_new_orders sample_settings = 1" "part sample_settings = 1"
  "partitions sample_settings = 1" "quoter sample_settings = []" "delimiter sample_settings = tab"
  by (simp_all add: sample_settings_def)

end
