(* ===== verification/Datagen_Tables.thy ===== *)
theory Datagen_Tables
  imports Datagen_Base
begin

text \<open>
  The generators of \<open>src/src/datagen.c\<close> for the tables with one output stream: warehouse,
  district, customer, history, item, stock and new-order. Per table: the text of one row, the loop
  over the rows, and the function itself. Each row draws a fixed number of random numbers, which
  is what the jump at the start of a partition counts on; for every table the parts of a
  partitioned run are shown to be, one after the other, the file of a single run.
\<close>

section \<open>Customers\<close>

definition CUSTOMER_DATA :: bytes where "CUSTOMER_DATA = ''customer.data''"
definition DISTRICT_DATA :: bytes where "DISTRICT_DATA = ''district.data''"
definition HISTORY_DATA :: bytes where "HISTORY_DATA = ''history.data''"
definition ITEM_DATA :: bytes where "ITEM_DATA = ''item.data''"
definition NEW_ORDER_DATA :: bytes where "NEW_ORDER_DATA = ''new_order.data''"
definition STOCK_DATA :: bytes where "STOCK_DATA = ''stock.data''"
definition WAREHOUSE_DATA :: bytes where "WAREHOUSE_DATA = ''warehouse.data''"

text \<open>Clause 4.3.2.7: the first thousand customers of a district get all last names in turn.\<close>

definition customer_last :: "int \<Rightarrow> (rng, wchar_t list) state" where
  "customer_last k = (if k < 1000 then State_Monad.return (snd (get_c_last k))
     else do {
       n \<leftarrow> get_nurand 255 0 999;
       State_Monad.return (snd (get_c_last n))
     })"

definition customer_row :: "env \<Rightarrow> datagen \<Rightarrow> int \<Rightarrow> int \<Rightarrow> int \<Rightarrow> (rng, bytes) state" where
  "customer_row e g i j k = do {
     c_first \<leftarrow> get_a_string 8 16;
     c_last \<leftarrow> customer_last k;
     c_street_1 \<leftarrow> get_a_string 10 20;
     c_street_2 \<leftarrow> get_a_string 10 20;
     c_city \<leftarrow> get_a_string 10 20;
     c_state \<leftarrow> get_a_string 2 2;
     c_zip \<leftarrow> get_n_string 4 4;
     c_phone \<leftarrow> get_n_string 16 16;
     credit \<leftarrow> get_percentage;
     c_discount \<leftarrow> get_random 5001;
     c_data \<leftarrow> get_a_string 300 500;
     State_Monad.return (
       field g (fmt_d (k + 1)) @
       field g (fmt_d (j + 1)) @
       field g (fmt_d (i + 1)) @
       field g (wcstombs 4096 c_first) @
       literal g ''OE'' @
       field g (wcstombs 4096 c_last) @
       field g (wcstombs 4096 c_street_1) @
       field g (wcstombs 4096 c_street_2) @
       field g (wcstombs 4096 c_city) @
       field g (wcstombs 4096 c_state) @
       field g (wcstombs 4096 c_zip @ ''11111'') @
       field g (wcstombs 4096 c_phone) @
       literal g (print_timestamp_pgsql (clock e [i, j, k])) @
       literal g (if credit < fl (1 / 10) then ''BC'' else ''GC'') @
       literal g ''50000.00'' @
       field g (''0.'' @ fmt_0d 4 (cast_int c_discount)) @
       literal g ''-10.00'' @
       literal g ''10.00'' @
       literal g ''1'' @
       literal g ''0'' @
       quoted g (wcstombs 4096 c_data) @ newline)
   }"

definition customers_loop :: "env \<Rightarrow> datagen \<Rightarrow> int \<Rightarrow> int \<Rightarrow> (rng \<times> nat, bytes) state" where
  "customers_loop e g start end' =
     for_range start end' (\<lambda>i. for_range 0 DISTRICT_CARDINALITY (\<lambda>j.
       for_range 0 (dg_customers g) (\<lambda>k. put_row g ''customer'' (customer_row e g i j k))))"

definition gen_customers :: "env \<Rightarrow> datagen \<Rightarrow> outcome" where
  "gen_customers e g =
     (let (start, end') = partition_range (dg_warehouses g) g
      in write_table (open_output e g 0 CUSTOMER_DATA ''customer'') g
           (''Generating customer table data for warehouse '' @ fmt_d (start + 1) @ '' to '' @
            fmt_d end' @ ''...'' @ newline)
           (customers_loop e g start end')
           (start_rng g (of_int start * of_int DISTRICT_CARDINALITY *
              of_int (cast_int (dg_customers g * 10 +
                (if dg_customers g > 1000 then 2 * (dg_customers g - 1000) else 0)))))
           (''Finished customer table data for warehouse '' @ fmt_d (start + 1) @ '' to '' @
            fmt_d end' @ ''...'' @ newline))"

section \<open>Districts\<close>

definition district_row :: "datagen \<Rightarrow> int \<Rightarrow> int \<Rightarrow> (rng, bytes) state" where
  "district_row g i j = do {
     d_name \<leftarrow> get_a_string 6 10;
     d_street_1 \<leftarrow> get_a_string 10 20;
     d_street_2 \<leftarrow> get_a_string 10 20;
     d_city \<leftarrow> get_a_string 10 20;
     d_state \<leftarrow> get_a_string 2 2;
     d_zip \<leftarrow> get_n_string 4 4;
     d_tax \<leftarrow> get_random 2001;
     State_Monad.return (
       field g (fmt_d (j + 1)) @
       field g (fmt_d (i + 1)) @
       field g (wcstombs 192 d_name) @
       field g (wcstombs 192 d_street_1) @
       field g (wcstombs 192 d_street_2) @
       field g (wcstombs 192 d_city) @
       field g (wcstombs 192 d_state) @
       field g (wcstombs 192 d_zip @ ''11111'') @
       field g (''0.'' @ fmt_0d 4 (cast_int d_tax)) @
       literal g ''30000.00'' @
       ''3001'' @ newline)
   }"

definition districts_loop :: "datagen \<Rightarrow> int \<Rightarrow> int \<Rightarrow> (rng \<times> nat, bytes) state" where
  "districts_loop g start end' =
     for_range start end' (\<lambda>i. for_range 0 DISTRICT_CARDINALITY (\<lambda>j.
       put_row g ''district'' (district_row g i j)))"

definition gen_districts :: "env \<Rightarrow> datagen \<Rightarrow> outcome" where
  "gen_districts e g =
     (let (start, end') = partition_range (dg_warehouses g) g
      in write_table (open_output e g 0 DISTRICT_DATA ''district'') g
           (''Generating district table data for warehouse '' @ fmt_d (start + 1) @ '' to '' @
            fmt_d end' @ ''...'' @ newline)
           (districts_loop g start end')
           (start_rng g (of_int start * of_int DISTRICT_CARDINALITY * 7))
           (''Finished district table data for warehouse '' @ fmt_d (start + 1) @ '' to '' @
            fmt_d end' @ ''...'' @ newline))"

section \<open>History\<close>

definition history_row :: "env \<Rightarrow> datagen \<Rightarrow> int \<Rightarrow> int \<Rightarrow> int \<Rightarrow> (rng, bytes) state" where
  "history_row e g i j k = do {
     h_data \<leftarrow> get_a_string 12 24;
     State_Monad.return (
       field g (fmt_d (k + 1)) @
       field g (fmt_d (j + 1)) @
       field g (fmt_d (i + 1)) @
       field g (fmt_d (j + 1)) @
       field g (fmt_d (i + 1)) @
       literal g (print_timestamp_pgsql (clock e [i, j, k])) @
       literal g ''10.00'' @
       quoted g (wcstombs 256 h_data) @ newline)
   }"

definition history_loop :: "env \<Rightarrow> datagen \<Rightarrow> int \<Rightarrow> int \<Rightarrow> (rng \<times> nat, bytes) state" where
  "history_loop e g start end' =
     for_range start end' (\<lambda>i. for_range 0 DISTRICT_CARDINALITY (\<lambda>j.
       for_range 0 (dg_customers g) (\<lambda>k. put_row g ''history'' (history_row e g i j k))))"

definition gen_history :: "env \<Rightarrow> datagen \<Rightarrow> outcome" where
  "gen_history e g =
     (let (start, end') = partition_range (dg_warehouses g) g
      in write_table (open_output e g 0 HISTORY_DATA ''history'') g
           (''Generating history table data from warehouse '' @ fmt_d (start + 1) @ '' to '' @
            fmt_d end' @ ''...'' @ newline)
           (history_loop e g start end')
           (start_rng g (of_int start * of_int DISTRICT_CARDINALITY * of_int (dg_customers g)))
           (''Finished history table data for warehouse '' @ fmt_d (start + 1) @ '' to '' @
            fmt_d end' @ ''...'' @ newline))"

section \<open>Items and stock\<close>

text \<open>
  A tenth of the descriptions get the word ORIGINAL at a random place. The choice and the place
  come from a generator of their own, so that both cases draw the same number from the main one.
\<close>

definition overwrite :: "'a list \<Rightarrow> nat \<Rightarrow> 'a list \<Rightarrow> 'a list" where
  "overwrite s j w = take j s @ w @ drop (j + length w) s"

definition mark_original :: "wchar_t list \<Rightarrow> (rng, wchar_t list) state" where
  "mark_original a = do {
     p \<leftarrow> get_percentage;
     if p < fl (1 / 10) then do {
       j \<leftarrow> get_random (int (length a) - 7);
       State_Monad.return (overwrite a (nat (cast_int j)) (wide ''ORIGINAL''))
     } else State_Monad.return a
   }"

definition random_data :: "(rng, wchar_t list) state" where
  "random_data = do {
     a_string \<leftarrow> get_a_string 26 50;
     temp \<leftarrow> pcg64f_random_r;
     State_Monad.return (fst (run_state (mark_original a_string) (pcg64f_srandom_r (ucast temp))))
   }"

definition item_row :: "datagen \<Rightarrow> int \<Rightarrow> (rng, bytes) state" where
  "item_row g i = do {
     i_im_id \<leftarrow> get_random 10000;
     i_name \<leftarrow> get_a_string 14 24;
     price \<leftarrow> get_random 9901;
     i_data \<leftarrow> random_data;
     State_Monad.return (
       field g (fmt_d (i + 1)) @
       field g (fmt_d (cast_int i_im_id + 1)) @
       field g (wcstombs 512 i_name) @
       field g (fmt_f 2 (fl (fl (fl (of_int price) + 100) / 100))) @
       quoted g (wcstombs 512 i_data) @ newline)
   }"

definition items_loop :: "datagen \<Rightarrow> int \<Rightarrow> int \<Rightarrow> (rng \<times> nat, bytes) state" where
  "items_loop g start end' = for_range start end' (\<lambda>i. put_row g ''item'' (item_row g i))"

definition gen_items :: "env \<Rightarrow> datagen \<Rightarrow> outcome" where
  "gen_items e g =
     (let (start, end') = partition_range (dg_items g) g
      in write_table (open_output e g 0 ITEM_DATA ''item'') g
           (''Generating item table data from '' @ fmt_d (start + 1) @ '' to '' @
            fmt_d end' @ ''...'' @ newline)
           (items_loop g start end')
           (start_rng g (of_int start * 5))
           (''Finished item table data from '' @ fmt_d (start + 1) @ '' to '' @
            fmt_d end' @ ''...'' @ newline))"

definition stock_dist :: "datagen \<Rightarrow> (rng, bytes) state" where
  "stock_dist g = do {
     a_string \<leftarrow> get_l_string 24 24;
     State_Monad.return (field g (wcstombs 512 a_string))
   }"

definition stock_row :: "datagen \<Rightarrow> int \<Rightarrow> int \<Rightarrow> (rng, bytes) state" where
  "stock_row g i j = do {
     s_quantity \<leftarrow> get_random 91;
     s_dist_01 \<leftarrow> stock_dist g;
     s_dist_02 \<leftarrow> stock_dist g;
     s_dist_03 \<leftarrow> stock_dist g;
     s_dist_04 \<leftarrow> stock_dist g;
     s_dist_05 \<leftarrow> stock_dist g;
     s_dist_06 \<leftarrow> stock_dist g;
     s_dist_07 \<leftarrow> stock_dist g;
     s_dist_08 \<leftarrow> stock_dist g;
     s_dist_09 \<leftarrow> stock_dist g;
     s_dist_10 \<leftarrow> stock_dist g;
     s_data \<leftarrow> random_data;
     State_Monad.return (
       field g (fmt_d (j + 1)) @
       field g (fmt_d (i + 1)) @
       field g (fmt_d (cast_int s_quantity + 10)) @
       s_dist_01 @ s_dist_02 @ s_dist_03 @ s_dist_04 @ s_dist_05 @
       s_dist_06 @ s_dist_07 @ s_dist_08 @ s_dist_09 @ s_dist_10 @
       literal g ''0'' @
       literal g ''0'' @
       literal g ''0'' @
       quoted g (wcstombs 512 s_data) @ newline)
   }"

definition stock_loop :: "datagen \<Rightarrow> int \<Rightarrow> int \<Rightarrow> (rng \<times> nat, bytes) state" where
  "stock_loop g start end' =
     for_range start end' (\<lambda>i. for_range 0 (dg_items g) (\<lambda>j.
       put_row g ''stock'' (stock_row g i j)))"

definition gen_stock :: "env \<Rightarrow> datagen \<Rightarrow> outcome" where
  "gen_stock e g =
     (let (start, end') = partition_range (dg_warehouses g) g
      in write_table (open_output e g 0 STOCK_DATA ''stock'') g
           (''Generating stock table data for warehouse '' @ fmt_d (start + 1) @ '' to '' @
            fmt_d end' @ ''...'' @ newline)
           (stock_loop g start end')
           (start_rng g (of_int start * of_int (dg_items g) * 13))
           (''Finished stock table data for warehouse '' @ fmt_d (start + 1) @ '' to '' @
            fmt_d end' @ ''...'' @ newline))"

section \<open>New orders\<close>

text \<open>The new-order table is not random; the generator is seeded and never used.\<close>

definition new_order_row :: "datagen \<Rightarrow> int \<Rightarrow> int \<Rightarrow> int \<Rightarrow> (rng, bytes) state" where
  "new_order_row g i j k = State_Monad.return (
     field g (fmt_d (k + 1)) @
     field g (fmt_d (j + 1)) @
     quoted g (fmt_d (i + 1)) @ newline)"

definition new_orders_loop :: "datagen \<Rightarrow> int \<Rightarrow> int \<Rightarrow> (rng \<times> nat, bytes) state" where
  "new_orders_loop g start end' =
     for_range start end' (\<lambda>i. for_range 0 DISTRICT_CARDINALITY (\<lambda>j.
       for_range (dg_orders g - dg_new_orders g) (dg_orders g) (\<lambda>k.
         put_row g ''new_order'' (new_order_row g i j k))))"

definition gen_new_orders :: "env \<Rightarrow> datagen \<Rightarrow> outcome" where
  "gen_new_orders e g =
     (let (start, end') = partition_range (dg_warehouses g) g
      in write_table (open_output e g 0 NEW_ORDER_DATA ''new_order'') g
           (''Generating new-order table data for warehouse '' @ fmt_d (start + 1) @ '' to '' @
            fmt_d end' @ ''...'' @ newline)
           (new_orders_loop g start end')
           (pcg64f_srandom_r (ucast (seed g)))
           (''Finished new-order table data for warehouse '' @ fmt_d (start + 1) @ '' to '' @
            fmt_d end' @ ''...'' @ newline))"

section \<open>Warehouses\<close>

definition warehouse_row :: "datagen \<Rightarrow> int \<Rightarrow> (rng, bytes) state" where
  "warehouse_row g i = do {
     w_name \<leftarrow> get_a_string 6 10;
     w_street_1 \<leftarrow> get_a_string 10 20;
     w_street_2 \<leftarrow> get_a_string 10 20;
     w_city \<leftarrow> get_a_string 10 20;
     w_state \<leftarrow> get_a_string 2 2;
     w_zip \<leftarrow> get_n_string 4 4;
     w_tax \<leftarrow> get_random 2001;
     State_Monad.return (
       field g (fmt_d (i + 1)) @
       field g (wcstombs 192 w_name) @
       field g (wcstombs 192 w_street_1) @
       field g (wcstombs 192 w_street_2) @
       field g (wcstombs 192 w_city) @
       field g (wcstombs 192 w_state) @
       field g (wcstombs 192 w_zip @ ''11111'') @
       field g (''0.'' @ fmt_0d 4 (cast_int w_tax)) @
       ''300000.00'' @ newline)
   }"

definition warehouses_loop :: "datagen \<Rightarrow> int \<Rightarrow> int \<Rightarrow> (rng \<times> nat, bytes) state" where
  "warehouses_loop g start end' =
     for_range start end' (\<lambda>i. put_row g ''warehouse'' (warehouse_row g i))"

definition gen_warehouses :: "env \<Rightarrow> datagen \<Rightarrow> outcome" where
  "gen_warehouses e g =
     (let (start, end') = partition_range (dg_warehouses g) g
      in write_table (open_output e g 0 WAREHOUSE_DATA ''warehouse'') g
           (''Generating warehouse table data '' @ fmt_d (start + 1) @ '' to '' @
            fmt_d end' @ ''...'' @ newline)
           (warehouses_loop g start end')
           (start_rng g (of_int start * 7))
           (''Finished warehouse table data '' @ fmt_d (start + 1) @ '' to '' @
            fmt_d end' @ ''...'' @ newline))"

section \<open>What a row draws\<close>

lemma draws_customer_last [advances_intro]:
  "draws pcg_mcg_128_step_r (if k < 1000 then 0 else 2) (customer_last k)"
  unfolding customer_last_def
  by (cases "k < 1000") (simp_all, (rule advances_intro order_refl | simp)+)

lemma draws_random_data [advances_intro]: "draws pcg_mcg_128_step_r 2 random_data"
  unfolding random_data_def by (rule advances_intro order_refl | simp)+

lemma draws_stock_dist [advances_intro]: "draws pcg_mcg_128_step_r 1 (stock_dist g)"
  unfolding stock_dist_def by (rule advances_intro order_refl | simp)+

lemma draws_district_row: "draws pcg_mcg_128_step_r 7 (district_row g i j)"
  unfolding district_row_def by (rule advances_intro order_refl | simp)+

lemma draws_warehouse_row: "draws pcg_mcg_128_step_r 7 (warehouse_row g i)"
  unfolding warehouse_row_def by (rule advances_intro order_refl | simp)+

lemma draws_history_row: "draws pcg_mcg_128_step_r 1 (history_row e g i j k)"
  unfolding history_row_def by (rule advances_intro order_refl | simp)+

lemma draws_item_row: "draws pcg_mcg_128_step_r 5 (item_row g i)"
  unfolding item_row_def by (rule advances_intro order_refl | simp)+

lemma draws_stock_row: "draws pcg_mcg_128_step_r 13 (stock_row g i j)"
  unfolding stock_row_def by (rule advances_intro order_refl | simp)+

lemma draws_new_order_row: "draws pcg_mcg_128_step_r 0 (new_order_row g i j k)"
  unfolding new_order_row_def by (rule draws_return)

lemma draws_customer_row:
  "draws pcg_mcg_128_step_r (10 + (if k < 1000 then 0 else 2)) (customer_row e g i j k)"
  unfolding customer_row_def
  by (cases "k < 1000"; (simp only: if_True if_False)?;
      (rule advances_intro order_refl | simp split del: if_split)+)

section \<open>The text of a unit\<close>

text \<open>What a generator writes for one warehouse (or item), leaving out the commits.\<close>

definition customers_block :: "env \<Rightarrow> datagen \<Rightarrow> int \<Rightarrow> (rng, bytes) state" where
  "customers_block e g i = for_range 0 DISTRICT_CARDINALITY (\<lambda>j.
     for_range 0 (dg_customers g) (\<lambda>k. customer_row e g i j k))"

definition districts_block :: "datagen \<Rightarrow> int \<Rightarrow> (rng, bytes) state" where
  "districts_block g i = for_range 0 DISTRICT_CARDINALITY (\<lambda>j. district_row g i j)"

definition history_block :: "env \<Rightarrow> datagen \<Rightarrow> int \<Rightarrow> (rng, bytes) state" where
  "history_block e g i = for_range 0 DISTRICT_CARDINALITY (\<lambda>j.
     for_range 0 (dg_customers g) (\<lambda>k. history_row e g i j k))"

definition stock_block :: "datagen \<Rightarrow> int \<Rightarrow> (rng, bytes) state" where
  "stock_block g i = for_range 0 (dg_items g) (\<lambda>j. stock_row g i j)"

definition new_orders_block :: "datagen \<Rightarrow> int \<Rightarrow> (rng, bytes) state" where
  "new_orders_block g i = for_range 0 DISTRICT_CARDINALITY (\<lambda>j.
     for_range (dg_orders g - dg_new_orders g) (dg_orders g) (\<lambda>k. new_order_row g i j k))"

lemmas loop_defs = customers_loop_def districts_loop_def history_loop_def items_loop_def
  stock_loop_def new_orders_loop_def warehouses_loop_def
lemmas block_defs = customers_block_def districts_block_def history_block_def stock_block_def
  new_orders_block_def
lemmas row_defs = customer_row_def district_row_def history_row_def item_row_def stock_row_def
  stock_dist_def new_order_row_def warehouse_row_def

lemma loops_plain:
  assumes "rows_per_commit g = 0"
  shows "customers_loop e g a b = with_counter (for_range a b (customers_block e g))"
    "districts_loop g a b = with_counter (for_range a b (districts_block g))"
    "history_loop e g a b = with_counter (for_range a b (history_block e g))"
    "items_loop g a b = with_counter (for_range a b (item_row g))"
    "stock_loop g a b = with_counter (for_range a b (stock_block g))"
    "new_orders_loop g a b = with_counter (for_range a b (new_orders_block g))"
    "warehouses_loop g a b = with_counter (for_range a b (warehouse_row g))"
  by (simp_all add: loop_defs block_defs [abs_def] put_row_plain [OF assms] for_range_with_counter)

lemma sum_customer_draws:
  "sum_list (map (\<lambda>k. 10 + (if k < 1000 then 0 else 2)) [0..c - 1]) = 10 * nat c + 2 * nat (c - 1000)"
proof (cases "0 \<le> c")
  case True
  then show ?thesis
  proof (induction c rule: int_ge_induct)
    case base
    then show ?case by simp
  next
    case (step c)
    have "[0..c + 1 - 1] = [0..c - 1] @ [c]" using step.hyps upto_rec2 [of 0 c] by simp
    then show ?case using step by (auto simp: nat_add_distrib nat_diff_distrib')
  qed
qed simp

lemma draws_customers_block:
  "draws pcg_mcg_128_step_r (10 * (10 * nat (dg_customers g) + 2 * nat (dg_customers g - 1000)))
    (customers_block e g i)"
proof -
  have "draws pcg_mcg_128_step_r (10 * nat (dg_customers g) + 2 * nat (dg_customers g - 1000))
      (for_range 0 (dg_customers g) (\<lambda>k. customer_row e g i j k))" for j
    unfolding for_range_def
    using draws_for_list_sum [of "[0..dg_customers g - 1]" pcg_mcg_128_step_r
        "\<lambda>k. 10 + (if k < 1000 then 0 else 2)" "\<lambda>k. customer_row e g i j k"]
    by (simp add: draws_customer_row sum_customer_draws)
  from draws_for_range [of 0 10, OF this] show ?thesis
    by (simp add: customers_block_def DISTRICT_CARDINALITY_def)
qed

lemma draws_districts_block: "draws pcg_mcg_128_step_r 70 (districts_block g i)"
  using draws_for_range [of 0 10, OF draws_district_row]
  by (simp add: districts_block_def DISTRICT_CARDINALITY_def)

lemma draws_history_block: "draws pcg_mcg_128_step_r (10 * nat (dg_customers g)) (history_block e g i)"
  using draws_for_range [of 0 10, OF draws_for_range [of 0 "dg_customers g", OF draws_history_row]]
  by (simp add: history_block_def DISTRICT_CARDINALITY_def)

lemma draws_stock_block: "draws pcg_mcg_128_step_r (nat (dg_items g) * 13) (stock_block g i)"
  using draws_for_range [of 0 "dg_items g", OF draws_stock_row] by (simp add: stock_block_def)

lemma draws_new_orders_block: "draws pcg_mcg_128_step_r 0 (new_orders_block g i)"
  using draws_for_range [of 0 10, OF draws_for_range [of "dg_orders g - dg_new_orders g"
      "dg_orders g", OF draws_new_order_row]]
  by (simp add: new_orders_block_def DISTRICT_CARDINALITY_def)

lemma draws_units:
  "draws pcg_mcg_128_step_r 5 (item_row g i)" "draws pcg_mcg_128_step_r 7 (warehouse_row g i)"
  by (rule draws_item_row draws_warehouse_row)+

section \<open>Parts\<close>

lemma flat_table:
  assumes gen: "out = (let (start, end') = partition_range n g in
      write_table (open_output e g c base tbl) g (banner start end') (loop start end')
        (start_rng g (delta start)) (fin start end'))"
    and loop: "\<And>a b. rows_per_commit g = 0 \<Longrightarrow> loop a b = with_counter (for_range a b block)"
    and delta: "\<And>s. delta s = of_int s * of_nat cost"
    and run: "flat_run e g" "1 \<le> part g" "0 \<le> part_bound n (partitions g) (part g - 1)"
  shows "written out = id (fst (run_state
      (for_range (part_bound n (partitions g) (part g - 1))
        (min n (part_bound n (partitions g) (part g))) block)
      (pcg64f_advance_r (of_nat (nat (part_bound n (partitions g) (part g - 1)) * cost))
        (pcg64f_srandom_r (ucast (seed g))))))"
proof -
  let ?s = "part_bound n (partitions g) (part g - 1)"
  have "start_rng g (delta ?s) = pcg64f_advance_r (delta ?s) (pcg64f_srandom_r (ucast (seed g)))"
    using run by (intro start_rng_seek) (auto simp: delta part_bound_first)
  moreover have "delta ?s = of_nat (nat ?s * cost)" using run(3) by (simp add: delta)
  moreover have "rows_per_commit g = 0" using run(1) by (simp add: flat_run_def)
  ultimately show ?thesis
    unfolding gen partition_range_min Let_def prod.case by (simp add: loop written_flat [OF run(1)])
qed

lemma rows_unpartitioned:
  "item_row (in_part p P g) = item_row g" "warehouse_row (in_part p P g) = warehouse_row g"
  "customers_block e (in_part p P g) = customers_block e g"
  "districts_block (in_part p P g) = districts_block g"
  "history_block e (in_part p P g) = history_block e g"
  "stock_block (in_part p P g) = stock_block g"
  "new_orders_block (in_part p P g) = new_orders_block g"
  by (simp_all add: fun_eq_iff block_defs row_defs field_def literal_def quoted_def)

interpretation warehouses: table_generator "\<lambda>e g. written (gen_warehouses e g)" dg_warehouses
    "\<lambda>e. warehouse_row" id "\<lambda>g. 7" "\<lambda>g. True"
  by unfold_locales (simp_all add: draws_units rows_unpartitioned
    flat_table [OF gen_warehouses_def loops_plain(7), where cost = 7])

interpretation districts: table_generator "\<lambda>e g. written (gen_districts e g)" dg_warehouses
    "\<lambda>e. districts_block" id "\<lambda>g. 70" "\<lambda>g. True"
  by unfold_locales (simp_all add: draws_districts_block rows_unpartitioned DISTRICT_CARDINALITY_def
    flat_table [OF gen_districts_def loops_plain(2), where cost = 70])

interpretation items: table_generator "\<lambda>e g. written (gen_items e g)" dg_items
    "\<lambda>e. item_row" id "\<lambda>g. 5" "\<lambda>g. True"
  by unfold_locales (simp_all add: draws_units rows_unpartitioned
    flat_table [OF gen_items_def loops_plain(4), where cost = 5])

text \<open>For these tables the size of a block depends on the settings.\<close>

lemma history_text:
  assumes "0 \<le> dg_customers g"
  shows "of_int s * of_int DISTRICT_CARDINALITY * of_int (dg_customers g) =
    (of_int s * of_nat (10 * nat (dg_customers g)) :: 128 word)"
  using assms by (simp add: DISTRICT_CARDINALITY_def)

lemma stock_text:
  assumes "0 \<le> dg_items g"
  shows "of_int s * of_int (dg_items g) * 13 = (of_int s * of_nat (nat (dg_items g) * 13) :: 128 word)"
  using assms by simp

lemma customers_text:
  assumes "0 \<le> dg_customers g \<and> dg_customers g < 2 ^ 27"
  shows "of_int s * of_int DISTRICT_CARDINALITY * of_int (cast_int (dg_customers g * 10 +
      (if dg_customers g > 1000 then 2 * (dg_customers g - 1000) else 0))) =
    (of_int s * of_nat (10 * (10 * nat (dg_customers g) + 2 * nat (dg_customers g - 1000))) :: 128 word)"
proof -
  let ?c = "dg_customers g"
  have "cast_int (?c * 10 + (if ?c > 1000 then 2 * (?c - 1000) else 0)) =
      int (10 * nat ?c + 2 * nat (?c - 1000))"
    using assms by (subst cast_int_id) auto
  then have "of_int (cast_int (?c * 10 + (if ?c > 1000 then 2 * (?c - 1000) else 0))) =
      (of_nat (10 * nat ?c + 2 * nat (?c - 1000)) :: 128 word)"
    by (simp only: of_int_of_nat_eq)
  then show ?thesis by (simp only: DISTRICT_CARDINALITY_def of_nat_mult mult.assoc) simp
qed

interpretation history: table_generator "\<lambda>e g. written (gen_history e g)" dg_warehouses
    history_block id "\<lambda>g. 10 * nat (dg_customers g)" "\<lambda>g. 0 \<le> dg_customers g"
  by unfold_locales
    (blast intro: flat_table [OF gen_history_def loops_plain(3) history_text] draws_history_block
     | simp add: rows_unpartitioned)+

interpretation stock: table_generator "\<lambda>e g. written (gen_stock e g)" dg_warehouses
    "\<lambda>e. stock_block" id "\<lambda>g. nat (dg_items g) * 13" "\<lambda>g. 0 \<le> dg_items g"
  by unfold_locales
    (blast intro: flat_table [OF gen_stock_def loops_plain(5) stock_text] draws_stock_block
     | simp add: rows_unpartitioned)+

interpretation customers: table_generator "\<lambda>e g. written (gen_customers e g)" dg_warehouses
    customers_block id "\<lambda>g. 10 * (10 * nat (dg_customers g) + 2 * nat (dg_customers g - 1000))"
    "\<lambda>g. 0 \<le> dg_customers g \<and> dg_customers g < 2 ^ 27"
  by unfold_locales
    (blast intro: flat_table [OF gen_customers_def loops_plain(1) customers_text] draws_customers_block
     | simp add: rows_unpartitioned)+

lemma new_orders_text:
  assumes "flat_run e g" "1 \<le> part g" "0 \<le> part_bound n (partitions g) (part g - 1)"
    and n: "n = dg_warehouses g"
  shows "written (gen_new_orders e g) = id (fst (run_state
      (for_range (part_bound n (partitions g) (part g - 1))
        (min n (part_bound n (partitions g) (part g))) (new_orders_block g))
      (pcg64f_advance_r (of_nat (nat (part_bound n (partitions g) (part g - 1)) * 0))
        (pcg64f_srandom_r (ucast (seed g))))))"
proof -
  have "pcg64f_srandom_r (ucast (seed g)) = start_rng g (of_int s * of_nat 0)" for s
    using assms(2) pcg.seek_steps [of 0] by (simp add: start_rng_def Let_def)
  then show ?thesis
    using gen_new_orders_def [of e g] unfolding n
    by (intro flat_table [OF _ loops_plain(6) refl assms(1,2) assms(3) [unfolded n]])
       (simp split: prod.split)
qed

interpretation new_orders: table_generator "\<lambda>e g. written (gen_new_orders e g)" dg_warehouses
    "\<lambda>e. new_orders_block" id "\<lambda>g. 0" "\<lambda>g. True"
  by unfold_locales
    (blast intro: new_orders_text draws_new_orders_block | simp add: rows_unpartitioned)+

text \<open>C29: The customer table can be generated in any number of parts on different machines: the
  files of the parts, one after the other, are byte for byte the file of a run that is not divided.
  This rests on the rounding of the part bounds, on the number of random numbers every row draws,
  with its two cases of last names, and on the jump ahead of the generator. The bound on the number
  of customers is where the product that the jump uses overflows an \<open>int\<close>.\<close>
theorem customer_parts:
  assumes "flat_run e g" "0 \<le> dg_customers g" "dg_customers g < 2 ^ 27"
    and "0 \<le> dg_warehouses g" "dg_warehouses g < 2 ^ 31" "1 \<le> P" "P \<le> MAX_PARTITIONS"
  shows "concat (map (\<lambda>p. written (gen_customers e (g\<lparr>part := p, partitions := P\<rparr>))) [1..P]) =
    written (gen_customers e (g\<lparr>part := 1, partitions := 1\<rparr>))"
  using assms by (intro customers.parts) (simp_all add: MAX_PARTITIONS_def)

theorem customer_parts_witness:
  "concat (map (\<lambda>p. written (gen_customers sample_env (sample_settings\<lparr>part := p, partitions := 3\<rparr>)))
     [1..3]) = written (gen_customers sample_env (sample_settings\<lparr>part := 1, partitions := 1\<rparr>))"
  by (rule customer_parts) (simp_all add: MAX_PARTITIONS_def)

text \<open>The same for the six other tables with one output: warehouse, district, history, item
  (which is divided by items), stock and new-order.\<close>
theorem table_parts:
  assumes "flat_run e g" "0 \<le> dg_customers g" "0 \<le> dg_items g" "dg_items g < 2 ^ 31"
    and "0 \<le> dg_warehouses g" "dg_warehouses g < 2 ^ 31" "1 \<le> P" "P \<le> MAX_PARTITIONS"
    and "gen \<in> {gen_warehouses, gen_districts, gen_history, gen_items, gen_stock, gen_new_orders}"
  shows "concat (map (\<lambda>p. written (gen e (g\<lparr>part := p, partitions := P\<rparr>))) [1..P]) =
    written (gen e (g\<lparr>part := 1, partitions := 1\<rparr>))"
proof -
  have P: "P < 2 ^ 31" using assms(8) by (simp add: MAX_PARTITIONS_def)
  note sizes = assms(5,6,7) P
  have "?thesis" if "gen = gen_warehouses" using warehouses.parts [OF assms(1) _ sizes] that by simp
  moreover have "?thesis" if "gen = gen_districts" using districts.parts [OF assms(1) _ sizes] that by simp
  moreover have "?thesis" if "gen = gen_history" using history.parts [OF assms(1,2) sizes] that by simp
  moreover have "?thesis" if "gen = gen_items"
    using items.parts [OF assms(1) _ assms(3,4,7) P] that by simp
  moreover have "?thesis" if "gen = gen_stock" using stock.parts [OF assms(1,3) sizes] that by simp
  moreover have "?thesis" if "gen = gen_new_orders" using new_orders.parts [OF assms(1) _ sizes] that by simp
  ultimately show ?thesis using assms(9) by blast
qed

theorem table_parts_witness:
  "concat (map (\<lambda>p. written (gen_stock sample_env (sample_settings\<lparr>part := p, partitions := 3\<rparr>)))
     [1..3]) = written (gen_stock sample_env (sample_settings\<lparr>part := 1, partitions := 1\<rparr>))"
  by (rule table_parts) (simp_all add: MAX_PARTITIONS_def)

end
