(* ===== verification/Datagen_Format.thy ===== *)
theory Datagen_Format
  imports Datagen_Tables
begin

text \<open>
  The files that the generators write, read back. A reader splits a file at its line ends and a
  line at the delimiter; for every table the rows found that way have the number of columns of the
  table, and their leading columns are the keys, each once and in order. This is where it matters
  that no generated string contains the delimiter, a line end or a backslash.
\<close>

section \<open>Reading a file back\<close>

fun split_on :: "'a \<Rightarrow> 'a list \<Rightarrow> 'a list list" where
  "split_on d [] = [[]]"
| "split_on d (c # s) = (if c = d then [] # split_on d s
     else (c # hd (split_on d s)) # tl (split_on d s))"

definition nl :: char where "nl = char_of (10 :: nat)"
definition cr :: char where "cr = char_of (13 :: nat)"

lemma newline_nl: "newline = [nl]"
  by (simp add: newline_def nl_def)

definition file_rows :: "bytes \<Rightarrow> bytes list list" where
  "file_rows text = map (split_on tab) (butlast (split_on nl text))"

lemma split_on_nonempty [simp]: "split_on d s \<noteq> []"
  by (induction s) simp_all

lemma split_on_none [simp]: "d \<notin> set s \<Longrightarrow> split_on d s = [s]"
  by (induction s) auto

lemma split_on_sep [simp]: "d \<notin> set w \<Longrightarrow> split_on d (w @ d # s) = w # split_on d s"
  by (induction w) auto

text \<open>Text that needs no escape in a file that is loaded with COPY.\<close>

definition special :: "char set" where
  "special = {nl, cr, backslash}"

definition clean :: "bytes \<Rightarrow> bool" where
  "clean s \<longleftrightarrow> list_all (\<lambda>c. c \<notin> special \<and> c \<noteq> tab) s"

lemma clean_append [simp]: "clean (s @ t) \<longleftrightarrow> clean s \<and> clean t"
  by (simp add: clean_def)

lemma clean_Nil [simp]: "clean []"
  by (simp add: clean_def)

lemma clean_tab: "clean s \<Longrightarrow> tab \<notin> set s"
  by (auto simp: clean_def list_all_iff)

lemma clean_special: "clean s \<Longrightarrow> set s \<inter> special = {}"
  by (auto simp: clean_def list_all_iff)

lemma tab_not_special [simp]: "tab \<notin> special"
  by code_simp

lemma nl_special [simp]: "nl \<in> special"
  by (simp add: special_def)

section \<open>Rows and tables\<close>

text \<open>
  \<open>row_cells fs s\<close>: the text \<open>s\<close> is one line with the columns \<open>fs\<close>.
  \<open>table_text n f kss s\<close>: it is a sequence of lines of \<open>n\<close> columns, of which \<open>f\<close> selects \<open>kss\<close>.
\<close>

definition row_cells :: "bytes list \<Rightarrow> bytes \<Rightarrow> bool" where
  "row_cells fs s \<longleftrightarrow> (\<exists>l. s = l @ newline \<and> set l \<inter> special = {} \<and> split_on tab l = fs)"

definition table_text :: "nat \<Rightarrow> (bytes list \<Rightarrow> 'k) \<Rightarrow> 'k list \<Rightarrow> bytes \<Rightarrow> bool" where
  "table_text n f kss s \<longleftrightarrow> (\<exists>ls. s = concat (map (\<lambda>l. l @ newline) ls) \<and>
     (\<forall>l \<in> set ls. set l \<inter> special = {} \<and> length (split_on tab l) = n) \<and>
     map (\<lambda>l. f (split_on tab l)) ls = kss)"

definition plain_format :: "datagen \<Rightarrow> bool" where
  "plain_format g \<longleftrightarrow> delimiter g = tab \<and> quoter g = []"

lemma row_cells_cell:
  assumes "clean s" "row_cells fs t"
  shows "row_cells (s # fs) (s @ tab # t)"
proof -
  from assms(2) obtain l where l: "t = l @ newline" "set l \<inter> special = {}" "split_on tab l = fs"
    by (auto simp: row_cells_def)
  have "s @ tab # t = (s @ tab # l) @ newline" "set (s @ tab # l) \<inter> special = {}"
    using l clean_special [OF assms(1)] by auto
  moreover have "split_on tab (s @ tab # l) = s # split_on tab l" using clean_tab [OF assms(1)] by simp
  ultimately show ?thesis unfolding row_cells_def using l(3) by metis
qed

lemma row_cells_last: "clean s \<Longrightarrow> row_cells [s] (s @ newline)"
  using clean_special [of s] clean_tab [of s] by (auto simp: row_cells_def)

lemma row_cells_intros:
  assumes "plain_format g" "clean s"
  shows "row_cells [s] (quoted g s @ newline)"
    "row_cells fs t \<Longrightarrow> row_cells (s # fs) (field g s @ t)"
    "row_cells fs t \<Longrightarrow> row_cells (s # fs) (literal g s @ t)"
  using row_cells_last [OF assms(2)] row_cells_cell [OF assms(2)] assms(1)
  by (simp_all add: field_def literal_def quoted_def plain_format_def)

lemma table_text_row:
  "row_cells fs s \<Longrightarrow> length fs = n \<Longrightarrow> f fs = ks \<Longrightarrow> table_text n f [ks] s"
  unfolding row_cells_def table_text_def by (elim exE, rule_tac x = "[l]" in exI) auto

lemma table_text_Nil: "table_text n f [] []"
  by (simp add: table_text_def)

lemma table_text_append:
  "table_text n f ks s \<Longrightarrow> table_text n f ks' s' \<Longrightarrow> table_text n f (ks @ ks') (s @ s')"
  unfolding table_text_def
proof (elim exE conjE)
  fix xs ys
  assume "s = concat (map (\<lambda>l. l @ newline) xs)" "s' = concat (map (\<lambda>l. l @ newline) ys)"
    "\<forall>l \<in> set xs. set l \<inter> special = {} \<and> length (split_on tab l) = n"
    "\<forall>l \<in> set ys. set l \<inter> special = {} \<and> length (split_on tab l) = n"
    "map (\<lambda>l. f (split_on tab l)) xs = ks" "map (\<lambda>l. f (split_on tab l)) ys = ks'"
  then show "\<exists>ls. s @ s' = concat (map (\<lambda>l. l @ newline) ls) \<and>
      (\<forall>l \<in> set ls. set l \<inter> special = {} \<and> length (split_on tab l) = n) \<and>
      map (\<lambda>l. f (split_on tab l)) ls = ks @ ks'"
    by (intro exI [of _ "xs @ ys"]) auto
qed

text \<open>What a table text promises to a reader.\<close>

lemma file_rows_table:
  assumes "table_text n f kss s"
  shows "map f (file_rows s) = kss" "list_all (\<lambda>r. length r = n) (file_rows s)"
proof -
  from assms obtain ls where ls: "s = concat (map (\<lambda>l. l @ newline) ls)"
      "\<forall>l \<in> set ls. set l \<inter> special = {} \<and> length (split_on tab l) = n"
      "map (\<lambda>l. f (split_on tab l)) ls = kss"
    unfolding table_text_def by auto
  have "split_on nl (concat (map (\<lambda>l. l @ newline) ls)) = ls @ [[]]"
    using ls(2)
  proof (induction ls)
    case (Cons l ls)
    then have "nl \<notin> set l" using nl_special by auto
    then show ?case using Cons by (simp add: newline_nl)
  qed simp
  then have "file_rows s = map (split_on tab) ls" by (simp add: file_rows_def ls(1))
  then show "map f (file_rows s) = kss" "list_all (\<lambda>r. length r = n) (file_rows s)"
    using ls by (auto simp: list_all_iff)
qed

lemma yields_table_range:
  assumes "\<And>i. a \<le> i \<Longrightarrow> i < b \<Longrightarrow> yields (table_text n f (ks i)) (body i)"
  shows "yields (table_text n f (concat (map ks [a..b - 1]))) (for_range a b body)"
  unfolding for_range_def
  by (rule yields_collect) (use assms in \<open>auto intro: table_text_Nil table_text_append\<close>)

lemma yields_table_rows:
  assumes "\<And>i. a \<le> i \<Longrightarrow> i < b \<Longrightarrow> yields (table_text n f [ks i]) (body i)"
  shows "yields (table_text n f (map ks [a..b - 1])) (for_range a b body)"
  using yields_table_range [OF assms] by (simp add: concat_map_singleton)

section \<open>Clean fields\<close>

lemma clean_decimal: "set s \<subseteq> decimal_chars \<Longrightarrow> clean s"
proof -
  have "list_all (\<lambda>c. c \<notin> special \<and> c \<noteq> tab) ''-.0123456789''" by code_simp
  then show "set s \<subseteq> decimal_chars \<Longrightarrow> clean s"
    by (auto simp: clean_def list_all_iff decimal_chars_def)
qed

lemma clean_numbers [simp]: "clean (fmt_d n)" "clean (fmt_0d w n)" "clean (fmt_f p x)"
  by (rule clean_decimal, rule fmt_d_decimal fmt_0d_decimal fmt_f_decimal)+

lemma clean_constants [simp]:
  "clean ''OE''" "clean ''11111''" "clean ''BC''" "clean ''GC''" "clean ''0.''" "clean ''50000.00''"
  "clean ''-10.00''" "clean ''10.00''" "clean ''1''" "clean ''0''" "clean ''30000.00''"
  "clean ''3001''" "clean ''300000.00''" "clean ''-''" "clean '':''" "clean '' ''" "clean ''5''"
  "clean ''0.00''"
  by code_simp+

lemma clean_print_timestamp [simp]: "clean (print_timestamp_pgsql t)"
  unfolding print_timestamp_pgsql_def by (simp only: clean_append clean_numbers clean_constants)

text \<open>All strings the generators draw consist of such characters.\<close>

definition plain_char :: "wchar_t \<Rightarrow> bool" where
  "plain_char c \<longleftrightarrow> c \<noteq> 9 \<and> c \<noteq> 10 \<and> c \<noteq> 13 \<and> c \<noteq> 92 \<and> c < 0x110000"

abbreviation plain :: "wchar_t list \<Rightarrow> bool" where
  "plain \<equiv> list_all plain_char"

lemma special_code: "c \<in> special \<or> c = tab \<longleftrightarrow> of_char c \<in> {9, 10, 13, 92 :: nat}"
proof -
  have "c = char_of n \<longleftrightarrow> of_char c = n" if "n < 256" for n :: nat
    using that by (metis of_char_of char_of_char mod_less)
  then show ?thesis by (auto simp: special_def nl_def cr_def backslash_def tab_def)
qed

lemma clean_code: "clean s \<longleftrightarrow> list_all (\<lambda>c. of_char c \<notin> {9, 10, 13, 92 :: nat}) s"
  unfolding clean_def special_code [symmetric] by simp

lemma clean_utf8_char: "plain_char c \<Longrightarrow> clean (utf8_char c)"
  by (auto simp: plain_char_def clean_code utf8_char_def)

lemma clean_wcstombs: "plain s \<Longrightarrow> clean (wcstombs n s)"
  by (induction s arbitrary: n) (simp_all add: Let_def clean_utf8_char)

lemma plain_alphabets: "plain a_string_char" "plain l_string_char" "plain n_string_char"
  "list_all plain c_last_syl" "plain (wide ''ORIGINAL'')"
  by (simp_all add: plain_char_def a_string_char_def l_string_char_def n_string_char_def
      c_last_syl_def wide_def)

lemma plain_subset: "set s \<subseteq> set t \<Longrightarrow> plain t \<Longrightarrow> plain s"
  by (auto simp: list_all_iff)

lemma plain_strings:
  assumes "0 \<le> x" "x \<le> y" "y < 2 ^ 30"
  shows "yields plain (get_a_string x y)" "yields plain (get_l_string x y)"
    "yields plain (get_n_string x y)"
  by (rule yields_mono [OF get_a_string_spec [OF assms]] yields_mono [OF get_l_string_spec [OF assms]]
      yields_mono [OF get_n_string_spec [OF assms]]; use plain_subset plain_alphabets in blast)+

lemma plain_c_last: "0 \<le> k \<Longrightarrow> k \<le> 999 \<Longrightarrow> plain (snd (get_c_last k))"
proof -
  assume k: "0 \<le> k" "k \<le> 999"
  have "plain (c_last_syl ! n)" if "n < 10" for n
  proof -
    have "length c_last_syl = 10" by code_simp
    then show ?thesis using that plain_alphabets(4) by (simp add: list_all_length)
  qed
  then show ?thesis using k by (simp add: get_c_last_value)
qed

lemma yields_any: "yields (\<lambda>_. True) m"
  by (simp add: yields_def)

lemma plain_customer_last:
  assumes "0 \<le> k"
  shows "yields plain (customer_last k)"
proof -
  have "yields plain (do { n \<leftarrow> get_nurand 255 0 999; State_Monad.return (snd (get_c_last n)) })"
    by (rule yields_bind [OF get_nurand_range]) (auto intro: yields_return plain_c_last)
  then show ?thesis using assms by (simp add: customer_last_def yields_return plain_c_last)
qed

lemma plain_overwrite: "plain s \<Longrightarrow> plain w \<Longrightarrow> plain (overwrite s j w)"
  by (auto simp: overwrite_def list_all_iff dest: in_set_takeD in_set_dropD)

lemma plain_mark_original: "plain s \<Longrightarrow> yields plain (mark_original s)"
  unfolding mark_original_def
  by (rule yields_bind [OF yields_any])
     (auto intro!: yields_bind [OF yields_any] yields_return plain_overwrite plain_alphabets(5))

lemma plain_random_data: "yields plain random_data"
  unfolding random_data_def
  by (rule yields_bind [OF plain_strings(1)], simp_all, rule yields_bind [OF yields_any])
     (rule yields_return, rule yieldsD, erule plain_mark_original)

lemma clean_stock_dist:
  assumes "plain_format g"
  shows "yields (\<lambda>s. \<exists>w. clean w \<and> s = field g w) (stock_dist g)"
  unfolding stock_dist_def
  by (rule yields_bind [OF plain_strings(2)]) (auto intro!: yields_return clean_wcstombs)

section \<open>Rows\<close>

lemma row_strings:
  "yields plain (get_a_string 8 16)" "yields plain (get_a_string 10 20)" "yields plain (get_a_string 2 2)"
  "yields plain (get_n_string 4 4)" "yields plain (get_n_string 16 16)"
  "yields plain (get_a_string 300 500)" "yields plain (get_a_string 6 10)"
  "yields plain (get_a_string 12 24)" "yields plain (get_a_string 14 24)"
  "yields plain (get_l_string 24 24)"
  by (rule plain_strings; simp)+

lemmas clean_rules = clean_append clean_numbers clean_constants clean_print_timestamp clean_wcstombs

lemmas draw_binds = row_strings [THEN yields_bind] plain_random_data [THEN yields_bind]
  yields_any [THEN yields_bind]

lemmas row_build = yields_return table_text_row row_cells_intros row_cells_last

lemma row_customer:
  assumes "plain_format g" "0 \<le> k"
  shows "yields (table_text 21 (take 3) [[fmt_d (k + 1), fmt_d (j + 1), fmt_d (i + 1)]]) (customer_row e g i j k)"
  unfolding customer_row_def
  by (rule plain_customer_last [OF assms(2), THEN yields_bind] draw_binds)+
     ((rule row_build assms(1) | (simp only: clean_rules simp_thms split: if_split; fail))+, simp_all)

lemma row_district:
  assumes "plain_format g"
  shows "yields (table_text 11 (take 2) [[fmt_d (j + 1), fmt_d (i + 1)]]) (district_row g i j)"
  unfolding district_row_def
  by (rule draw_binds)+ ((rule row_build assms(1) | (simp only: clean_rules; fail))+, simp_all)

lemma row_warehouse:
  assumes "plain_format g"
  shows "yields (table_text 9 (take 1) [[fmt_d (i + 1)]]) (warehouse_row g i)"
  unfolding warehouse_row_def
  by (rule draw_binds)+ ((rule row_build assms(1) | (simp only: clean_rules; fail))+, simp_all)

lemma row_history:
  assumes "plain_format g"
  shows "yields (table_text 8 (take 5) [[fmt_d (k + 1), fmt_d (j + 1), fmt_d (i + 1), fmt_d (j + 1), fmt_d (i + 1)]])
    (history_row e g i j k)"
  unfolding history_row_def
  by (rule draw_binds)+ ((rule row_build assms(1) | (simp only: clean_rules; fail))+, simp_all)

lemma row_item:
  assumes "plain_format g"
  shows "yields (table_text 5 (take 1) [[fmt_d (i + 1)]]) (item_row g i)"
  unfolding item_row_def
  by (rule draw_binds)+ ((rule row_build assms(1) | (simp only: clean_rules; fail))+, simp_all)

lemma row_new_order:
  assumes "plain_format g"
  shows "yields (table_text 3 (take 3) [[fmt_d (k + 1), fmt_d (j + 1), fmt_d (i + 1)]]) (new_order_row g i j k)"
  unfolding new_order_row_def
  by ((rule row_build assms(1) | (simp only: clean_rules; fail))+, simp_all)

lemma row_stock:
  assumes "plain_format g"
  shows "yields (table_text 17 (take 2) [[fmt_d (j + 1), fmt_d (i + 1)]]) (stock_row g i j)"
  unfolding stock_row_def stock_dist_def State_Monad.bind_assoc State_Monad.bind_left_identity
  by (rule draw_binds)+ ((rule row_build assms(1) | (simp only: clean_rules; fail))+, simp_all)
section \<open>Files\<close>

text \<open>The rows of a flat file, from those of the block of a warehouse or item.\<close>

lemma flat_rows:
  assumes gen: "gen = fst (run_state (for_range a b block) r)"
    and block: "\<And>i. a \<le> i \<Longrightarrow> i < b \<Longrightarrow> yields (table_text n f (ks i)) (block i)"
  shows "map f (file_rows gen) = concat (map ks [a..b - 1])"
    "list_all (\<lambda>r. length r = n) (file_rows gen)"
proof -
  have "table_text n f (concat (map ks [a..b - 1])) gen"
    unfolding gen by (rule yieldsD [OF yields_table_range [OF block]])
  from file_rows_table [OF this] show "map f (file_rows gen) = concat (map ks [a..b - 1])"
    "list_all (\<lambda>r. length r = n) (file_rows gen)" .
qed

text \<open>Settings for which the sizes are not negative and nothing overflows.\<close>

definition valid_settings :: "datagen \<Rightarrow> bool" where
  "valid_settings g \<longleftrightarrow> plain_format g \<and> 1 \<le> part g \<and> part g \<le> partitions g \<and>
     partitions g \<le> MAX_PARTITIONS \<and> 0 \<le> dg_warehouses g \<and> dg_warehouses g < 2 ^ 31 \<and>
     0 \<le> dg_customers g \<and> dg_customers g < 2 ^ 27 \<and> 0 \<le> dg_items g \<and> dg_items g < 2 ^ 31"

lemma valid_start:
  assumes "valid_settings g" "0 \<le> n" "n < 2 ^ 31"
  shows "0 \<le> part_bound n (partitions g) (part g - 1)"
  using assms by (intro part_bound_range(1)) (simp_all add: valid_settings_def MAX_PARTITIONS_def)

lemma valid_settingsD:
  assumes "valid_settings g"
  shows "plain_format g" "1 \<le> part g" "0 \<le> dg_items g"
    "0 \<le> dg_customers g \<and> dg_customers g < 2 ^ 27" "0 \<le> dg_customers g"
    "0 \<le> part_bound (dg_warehouses g) (partitions g) (part g - 1)"
    "0 \<le> part_bound (dg_items g) (partitions g) (part g - 1)"
  using assms by (auto simp: valid_settings_def intro!: valid_start)

text \<open>C36: The customer file of a part, read back by splitting lines and columns, has one row of 21
  columns for every customer of every district of the warehouses of the part, in order, and the
  first three columns are customer, district and warehouse number. No row is split or merged by a
  character of a generated string.\<close>
theorem customer_file_rows:
  assumes "flat_run e g" "valid_settings g" "partition_range (dg_warehouses g) g = (start, end')"
  shows "map (take 3) (file_rows (written (gen_customers e g))) =
      [[fmt_d (k + 1), fmt_d (j + 1), fmt_d (i + 1)].
        i \<leftarrow> [start..end' - 1], j \<leftarrow> [0..9], k \<leftarrow> [0..dg_customers g - 1]] \<and>
    list_all (\<lambda>r. length r = 21) (file_rows (written (gen_customers e g)))"
proof -
  note v = valid_settingsD [OF assms(2)]
  have range: "start = part_bound (dg_warehouses g) (partitions g) (part g - 1)"
    "end' = min (dg_warehouses g) (part_bound (dg_warehouses g) (partitions g) (part g))"
    using assms(3) by (simp_all add: partition_range_min)
  have "yields (table_text 21 (take 3) [[fmt_d (k + 1), fmt_d (j + 1), fmt_d (i + 1)].
      j \<leftarrow> [0..10 - 1], k \<leftarrow> [0..dg_customers g - 1]]) (customers_block e g i)" for i
    unfolding customers_block_def DISTRICT_CARDINALITY_def
    by (intro yields_table_range yields_table_rows row_customer v)
  from flat_rows [OF customers.gen_text [OF assms(1) v(4,2,6), unfolded id_apply] this] show ?thesis
    by (simp add: range)
qed

theorem customer_file_rows_witness:
  "map (take 3) (file_rows (written (gen_customers sample_env sample_settings))) =
      [[fmt_d (k + 1), fmt_d (j + 1), fmt_d (i + 1)].
        i \<leftarrow> [fst (partition_range 7 sample_settings)..snd (partition_range 7 sample_settings) - 1],
        j \<leftarrow> [0..9], k \<leftarrow> [0..2]] \<and>
    list_all (\<lambda>r. length r = 21) (file_rows (written (gen_customers sample_env sample_settings)))"
  using customer_file_rows [of sample_env sample_settings "fst (partition_range 7 sample_settings)"
      "snd (partition_range 7 sample_settings)"]
  by (simp add: valid_settings_def plain_format_def MAX_PARTITIONS_def)

lemma block_rows:
  assumes "plain_format g"
  shows "yields (table_text 11 (take 2) [[fmt_d (j + 1), fmt_d (i + 1)]. j \<leftarrow> [0..10 - 1]]) (districts_block g i)"
    "yields (table_text 17 (take 2) [[fmt_d (j + 1), fmt_d (i + 1)]. j \<leftarrow> [0..dg_items g - 1]]) (stock_block g i)"
    "yields (table_text 8 (take 5) [[fmt_d (k + 1), fmt_d (j + 1), fmt_d (i + 1), fmt_d (j + 1), fmt_d (i + 1)].
       j \<leftarrow> [0..10 - 1], k \<leftarrow> [0..dg_customers g - 1]]) (history_block e g i)"
    "yields (table_text 3 (take 3) [[fmt_d (k + 1), fmt_d (j + 1), fmt_d (i + 1)].
       j \<leftarrow> [0..10 - 1], k \<leftarrow> [dg_orders g - dg_new_orders g..dg_orders g - 1]]) (new_orders_block g i)"
  unfolding block_defs DISTRICT_CARDINALITY_def
  by (intro yields_table_range yields_table_rows row_district row_stock row_history row_new_order assms)+

text \<open>The files of the six other tables with one output likewise have one row per key, in order
  and each of the number of columns of its table. For history the keys are those of the customer and
  of the district that took the payment, and for new-order they are the last \<open>new_orders\<close> orders.\<close>
theorem table_file_rows:
  assumes "flat_run e g" "valid_settings g" "partition_range (dg_warehouses g) g = (start, end')"
    and "partition_range (dg_items g) g = (low, high)"
  shows "(let rs = file_rows (written (gen_warehouses e g)) in
      map (take 1) rs = [[fmt_d (i + 1)]. i \<leftarrow> [start..end' - 1]] \<and> list_all (\<lambda>r. length r = 9) rs) \<and>
    (let rs = file_rows (written (gen_districts e g)) in
      map (take 2) rs = [[fmt_d (j + 1), fmt_d (i + 1)]. i \<leftarrow> [start..end' - 1], j \<leftarrow> [0..9]] \<and>
      list_all (\<lambda>r. length r = 11) rs) \<and>
    (let rs = file_rows (written (gen_history e g)) in
      map (take 5) rs = [[fmt_d (k + 1), fmt_d (j + 1), fmt_d (i + 1), fmt_d (j + 1), fmt_d (i + 1)].
        i \<leftarrow> [start..end' - 1], j \<leftarrow> [0..9], k \<leftarrow> [0..dg_customers g - 1]] \<and>
      list_all (\<lambda>r. length r = 8) rs) \<and>
    (let rs = file_rows (written (gen_items e g)) in
      map (take 1) rs = [[fmt_d (i + 1)]. i \<leftarrow> [low..high - 1]] \<and> list_all (\<lambda>r. length r = 5) rs) \<and>
    (let rs = file_rows (written (gen_stock e g)) in
      map (take 2) rs = [[fmt_d (j + 1), fmt_d (i + 1)]. i \<leftarrow> [start..end' - 1], j \<leftarrow> [0..dg_items g - 1]] \<and>
      list_all (\<lambda>r. length r = 17) rs) \<and>
    (let rs = file_rows (written (gen_new_orders e g)) in
      map (take 3) rs = [[fmt_d (k + 1), fmt_d (j + 1), fmt_d (i + 1)].
        i \<leftarrow> [start..end' - 1], j \<leftarrow> [0..9], k \<leftarrow> [dg_orders g - dg_new_orders g..dg_orders g - 1]] \<and>
      list_all (\<lambda>r. length r = 3) rs)"
proof -
  note v = valid_settingsD [OF assms(2)]
  have range: "start = part_bound (dg_warehouses g) (partitions g) (part g - 1)"
    "end' = min (dg_warehouses g) (part_bound (dg_warehouses g) (partitions g) (part g))"
    "low = part_bound (dg_items g) (partitions g) (part g - 1)"
    "high = min (dg_items g) (part_bound (dg_items g) (partitions g) (part g))"
    using assms(3,4) by (simp_all add: partition_range_min)
  note rows = row_warehouse [OF v(1)] row_item [OF v(1)] block_rows [OF v(1)]
  show ?thesis
    using flat_rows [OF warehouses.gen_text [OF assms(1) TrueI v(2,6), unfolded id_apply] rows(1)]
      flat_rows [OF districts.gen_text [OF assms(1) TrueI v(2,6), unfolded id_apply] rows(3)]
      flat_rows [OF history.gen_text [OF assms(1) v(5,2,6), unfolded id_apply] rows(5)]
      flat_rows [OF items.gen_text [OF assms(1) TrueI v(2,7), unfolded id_apply] rows(2)]
      flat_rows [OF stock.gen_text [OF assms(1) v(3,2,6), unfolded id_apply] rows(4)]
      flat_rows [OF new_orders.gen_text [OF assms(1) TrueI v(2,6), unfolded id_apply] rows(6)]
    unfolding Let_def range by (simp add: concat_map_singleton)
qed

theorem table_file_rows_witness:
  "map (take 2) (file_rows (written (gen_stock sample_env sample_settings))) =
    [[fmt_d (j + 1), fmt_d (i + 1)].
       i \<leftarrow> [fst (partition_range 7 sample_settings)..snd (partition_range 7 sample_settings) - 1],
       j \<leftarrow> [0..3]]"
  using table_file_rows [of sample_env sample_settings "fst (partition_range 7 sample_settings)"
      "snd (partition_range 7 sample_settings)" "fst (partition_range 4 sample_settings)"
      "snd (partition_range 4 sample_settings)"]
  by (simp add: valid_settings_def plain_format_def MAX_PARTITIONS_def Let_def)

end
