(* ===== verification/Linked_List.thy ===== *)
theory Linked_List
  imports Dbt2_Prelude
begin

text \<open>
  Singly linked lists in memory, as the order generator and the transaction queue build them: a
  pointer is an address or NULL, a heap of nodes maps addresses to a value and a next pointer, and
  \<open>malloc\<close> returns an address that is not in use. \<open>Path\<close> relates a pointer to the list of
  addresses that is reached by following the next pointers.
\<close>

type_synonym ptr = "nat option"

record 'v heap =
  val :: "nat \<Rightarrow> 'v"
  next_of :: "nat \<Rightarrow> ptr"
  live :: "nat set"
  brk :: nat

primrec Path :: "(nat \<Rightarrow> ptr) \<Rightarrow> ptr \<Rightarrow> nat list \<Rightarrow> ptr \<Rightarrow> bool" where
  "Path nx p [] q \<longleftrightarrow> p = q"
| "Path nx p (a # as) q \<longleftrightarrow> p = Some a \<and> Path nx (nx a) as q"

abbreviation Chain :: "(nat \<Rightarrow> ptr) \<Rightarrow> ptr \<Rightarrow> nat list \<Rightarrow> bool" where
  "Chain nx p as \<equiv> Path nx p as None"

lemma Path_append [simp]: "Path nx p (as @ bs) q \<longleftrightarrow> (\<exists>r. Path nx p as r \<and> Path nx r bs q)"
  by (induction as arbitrary: p) auto

lemma Path_upd [simp]: "a \<notin> set as \<Longrightarrow> Path (nx(a := q)) p as r \<longleftrightarrow> Path nx p as r"
  by (induction as arbitrary: p) auto

lemma Chain_None [simp]: "Chain nx None as \<longleftrightarrow> as = []"
  by (cases as) auto

lemma Chain_Some: "Chain nx (Some a) as \<longleftrightarrow> (\<exists>bs. as = a # bs \<and> Chain nx (nx a) bs)"
  by (cases as) auto

lemma Path_unique: "Path nx p as q \<Longrightarrow> Path nx p as r \<Longrightarrow> q = r"
  by (induction as arbitrary: p) auto

lemma Chain_unique: "Chain nx p as \<Longrightarrow> Chain nx p bs \<Longrightarrow> as = bs"
  by (induction as arbitrary: p bs) (auto simp: Chain_Some)

text \<open>A chain that ends has no cycle.\<close>

lemma Chain_distinct: "Chain nx p as \<Longrightarrow> distinct as"
proof (induction as arbitrary: p)
  case (Cons a as)
  have "a \<notin> set as"
  proof
    assume "a \<in> set as"
    then obtain bs cs where as: "as = bs @ a # cs" by (meson split_list)
    have "Chain nx (Some a) (a # as)" "Chain nx (Some a) (a # cs)" using Cons.prems as by auto
    then have "a # as = a # cs" by (rule Chain_unique)
    then show False using as by (metis append_Cons_eq_iff length_append length_Cons list.inject
          add_Suc_right less_add_Suc2 less_not_refl)
  qed
  then show ?case using Cons by auto
qed simp

lemma Path_nth:
  assumes "Path nx p as q" "i < length as"
  shows "Path nx p (take i as) (Some (as ! i))" "Path nx (Some (as ! i)) (drop i as) q"
  using assms id_take_nth_drop [OF assms(2)] by (metis (no_types, lifting) Path.simps(2) Path_append
      append_take_drop_id Cons_nth_drop_Suc)+

section \<open>Allocation\<close>

text \<open>
  The heap is well formed: all live nodes lie below the break. The value of a node that was just
  allocated is not determined; the code sets it before it is read.
\<close>

definition heap_ok :: "'v heap \<Rightarrow> bool" where
  "heap_ok h \<longleftrightarrow> (\<forall>a \<in> live h. a < brk h)"

definition malloc :: "'v heap \<Rightarrow> nat \<times> 'v heap" where
  "malloc h = (brk h, h\<lparr>live := insert (brk h) (live h), brk := Suc (brk h)\<rparr>)"

definition free :: "nat \<Rightarrow> 'v heap \<Rightarrow> 'v heap" where
  "free a h = h\<lparr>live := live h - {a}\<rparr>"

definition set_next :: "nat \<Rightarrow> ptr \<Rightarrow> 'v heap \<Rightarrow> 'v heap" where
  "set_next a q h = h\<lparr>next_of := (next_of h)(a := q)\<rparr>"

definition set_val :: "nat \<Rightarrow> 'v \<Rightarrow> 'v heap \<Rightarrow> 'v heap" where
  "set_val a v h = h\<lparr>val := (val h)(a := v)\<rparr>"

lemmas heap_defs = malloc_def free_def set_next_def set_val_def

lemma heap_ok_ops [simp]:
  "heap_ok (set_next a q h) = heap_ok h" "heap_ok (set_val a v h) = heap_ok h"
  by (simp_all add: heap_ok_def heap_defs)

lemma heap_ok_malloc: "heap_ok h \<Longrightarrow> malloc h = (a, h') \<Longrightarrow> heap_ok h'"
  by (auto simp: heap_ok_def malloc_def less_Suc_eq)

lemma heap_ok_free: "heap_ok h \<Longrightarrow> heap_ok (free a h)"
  by (simp add: heap_ok_def free_def)

text \<open>\<open>holds h p vs\<close>: the list at \<open>p\<close> is live and has the values \<open>vs\<close>.\<close>

definition holds :: "'v heap \<Rightarrow> ptr \<Rightarrow> 'v list \<Rightarrow> bool" where
  "holds h p vs \<longleftrightarrow> (\<exists>as. Chain (next_of h) p as \<and> set as \<subseteq> live h \<and> map (val h) as = vs)"

lemma holds_None [simp]: "holds h None vs \<longleftrightarrow> vs = []"
  by (auto simp: holds_def)

lemma holds_Some: "holds h (Some a) vs \<longleftrightarrow>
    (\<exists>ws. vs = val h a # ws \<and> a \<in> live h \<and> holds h (next_of h a) ws)"
  by (auto simp: holds_def Chain_Some) (rule_tac x = "a # as" in exI, simp)

text \<open>\<open>owns h p vs\<close>: moreover the list is all that is allocated.\<close>

definition owns :: "'v heap \<Rightarrow> ptr \<Rightarrow> 'v list \<Rightarrow> bool" where
  "owns h p vs \<longleftrightarrow> (\<exists>as. Chain (next_of h) p as \<and> set as = live h \<and> map (val h) as = vs)"

lemma owns_holds: "owns h p vs \<Longrightarrow> holds h p vs"
  by (auto simp: owns_def holds_def)

end
