(* ===== verification/Datagen_Orders.thy ===== *)
theory Datagen_Orders
  imports Datagen_Format Linked_List
begin

text \<open>
  \<open>gen_orders\<close> of \<open>src/src/datagen.c\<close>: the orders and order-line tables, which are written to two
  streams in one pass. For every district a linked list of the customer numbers is built, each new
  number at a random place, and the orders take the customers in the order of that list. What the
  loop writes is a list of chunks, each for one of the streams; a chunk of its own stands for the
  call of \<open>exit\<close> when the list of customers ends before the orders do.
\<close>

section \<open>The random list of customers\<close>

type_synonym node_heap = "int heap"

text \<open>\<open>current = prev = head; while (iter > 0) { ... }\<close>\<close>

fun find_place :: "node_heap \<Rightarrow> nat \<Rightarrow> ptr \<Rightarrow> ptr \<Rightarrow> ptr \<times> ptr" where
  "find_place h 0 current prev = (current, prev)"
| "find_place h (Suc iter) current prev =
     find_place h iter (case current of None \<Rightarrow> None | Some a \<Rightarrow> next_of h a) current"

definition insert_number :: "int \<Rightarrow> int \<Rightarrow> ptr \<times> node_heap \<Rightarrow> ptr \<times> node_heap" where
  "insert_number k iter hd_h =
     (let (head, h0) = hd_h;
          (current, prev) = find_place h0 (nat iter) head head;
          (new_node, h) = malloc h0
      in if current = prev then (Some new_node, set_val new_node k (set_next new_node head h))
         else case prev of
           None \<Rightarrow> (head, set_val new_node k h)
         | Some p \<Rightarrow> (head, set_val new_node k (set_next new_node current
                         (set_next p (Some new_node) h))))"

fun insert_numbers :: "int list \<Rightarrow> ptr \<times> node_heap \<Rightarrow> (rng, ptr \<times> node_heap) state" where
  "insert_numbers [] hd_h = State_Monad.return hd_h"
| "insert_numbers (k # ks) hd_h = do {
     iter \<leftarrow> get_random k;
     insert_numbers ks (insert_number k (cast_int iter) hd_h)
   }"

definition empty_heap :: node_heap where
  "empty_heap = \<lparr>val = (\<lambda>_. 0), next_of = (\<lambda>_. None), live = {}, brk = 0\<rparr>"

definition customer_list :: "datagen \<Rightarrow> (rng, ptr \<times> node_heap) state" where
  "customer_list g =
     (let (head, h) = malloc empty_heap
      in insert_numbers [2..dg_customers g] (Some head, set_next head None (set_val head 1 h)))"

text \<open>\<open>while (head != NULL) { current = head; head = head->next; free(current); }\<close>\<close>

fun free_list :: "nat \<Rightarrow> ptr \<Rightarrow> node_heap \<Rightarrow> node_heap option" where
  "free_list fuel None h = Some h"
| "free_list 0 (Some a) h = None"
| "free_list (Suc fuel) (Some a) h = free_list fuel (next_of h a) (free a h)"

section \<open>Rows\<close>

datatype chunk = To_order bytes | To_line bytes | Abort

definition ORDER_DATA :: bytes where "ORDER_DATA = ''order.data''"
definition ORDER_LINE_DATA :: bytes where "ORDER_LINE_DATA = ''order_line.data''"

text \<open>
  One order: its row, the number of its lines and the generator that the lines draw from, which is
  seeded from the main one.
\<close>

definition order_row :: "env \<Rightarrow> datagen \<Rightarrow> int \<Rightarrow> int \<Rightarrow> int \<Rightarrow> int \<Rightarrow> (rng, bytes \<times> int \<times> rng) state" where
  "order_row e g i j k o_c_id = do {
     o_carrier_id \<leftarrow> (if k < 2101 then do {
         c \<leftarrow> get_random 10;
         State_Monad.return (quoted g (fmt_d (cast_int c + 1)))
       } else State_Monad.return (null_str g));
     ol_seed \<leftarrow> pcg64f_random_r;
     let (cnt, ol_rng) = run_state (get_random 11) (pcg64f_srandom_r (ucast ol_seed));
         o_ol_cnt = cast_int cnt + 5;
         row = field g (fmt_d (k + 1)) @
               field g (fmt_d (j + 1)) @
               field g (fmt_d (i + 1)) @
               field g (fmt_d o_c_id) @
               literal g (print_timestamp_pgsql (clock e [i, j, k])) @
               literal g o_carrier_id @
               field g (fmt_d o_ol_cnt) @
               ''1'' @ newline
     in State_Monad.return (row, o_ol_cnt, ol_rng)
   }"

definition order_line_row :: "env \<Rightarrow> datagen \<Rightarrow> int \<Rightarrow> int \<Rightarrow> int \<Rightarrow> int \<Rightarrow> (rng, bytes) state" where
  "order_line_row e g i j k l = do {
     ol_i_id \<leftarrow> get_random (dg_items g);
     ol_amount \<leftarrow> (if k < 2101 then State_Monad.return ''0.00''
       else do {
         a \<leftarrow> get_random 999999;
         State_Monad.return (quoted g (fmt_f 6 (fl (fl (of_int (a + 1)) / 100))))
       });
     ol_dist_info \<leftarrow> get_l_string 24 24;
     State_Monad.return (
       field g (fmt_d (k + 1)) @
       field g (fmt_d (j + 1)) @
       field g (fmt_d (i + 1)) @
       field g (fmt_d (l + 1)) @
       field g (fmt_d (cast_int ol_i_id + 1)) @
       field g (fmt_d (i + 1)) @
       literal g (if k < 2101 then print_timestamp_pgsql (clock e [i, j, k, l]) else null_str g) @
       literal g ''5'' @
       literal g ol_amount @
       quoted g (wcstombs 256 ol_dist_info) @ newline)
   }"

definition order_lines :: "env \<Rightarrow> datagen \<Rightarrow> int \<Rightarrow> int \<Rightarrow> int \<Rightarrow> int \<Rightarrow> (rng \<times> nat, bytes) state" where
  "order_lines e g i j k o_ol_cnt =
     for_range 0 o_ol_cnt (\<lambda>l. put_row g ''order_line'' (order_line_row e g i j k l))"

text \<open>An order with its lines. The state carries the counters of both streams.\<close>

definition order_chunks ::
    "env \<Rightarrow> datagen \<Rightarrow> int \<Rightarrow> int \<Rightarrow> int \<Rightarrow> int \<Rightarrow> (rng \<times> nat \<times> nat, chunk list) state" where
  "order_chunks e g i j k o_c_id = State (\<lambda>(r, rowso, rowsol).
     let ((row, o_ol_cnt, ol_rng), r') = run_state (order_row e g i j k o_c_id) r;
         (order, rowso') = counted g ''orders'' rowso row;
         (lines, _, rowsol') = run_state (order_lines e g i j k o_ol_cnt) (ol_rng, rowsol)
     in ([To_order order, To_line lines], (r', rowso', rowsol')))"

section \<open>The loop\<close>

fun orders_walk ::
    "env \<Rightarrow> datagen \<Rightarrow> int \<Rightarrow> int \<Rightarrow> node_heap \<Rightarrow> ptr \<Rightarrow> int list \<Rightarrow>
     (rng \<times> nat \<times> nat, chunk list) state" where
  "orders_walk e g i j h current [] = State_Monad.return []"
| "orders_walk e g i j h None (k # ks) = State_Monad.return [Abort]"
| "orders_walk e g i j h (Some a) (k # ks) = do {
     cs \<leftarrow> order_chunks e g i j k (val h a);
     cs' \<leftarrow> orders_walk e g i j h (next_of h a) ks;
     State_Monad.return (cs @ cs')
   }"

definition orders_district ::
    "env \<Rightarrow> datagen \<Rightarrow> int \<Rightarrow> int \<Rightarrow> (rng \<times> nat \<times> nat, chunk list) state" where
  "orders_district e g i j = do {
     hd_h \<leftarrow> with_counter (customer_list g);
     orders_walk e g i j (snd hd_h) (fst hd_h) [0..dg_orders g - 1]
   }"

definition orders_loop ::
    "env \<Rightarrow> datagen \<Rightarrow> int \<Rightarrow> int \<Rightarrow> (rng \<times> nat \<times> nat, chunk list) state" where
  "orders_loop e g start end' =
     for_range start end' (\<lambda>i. for_range 0 DISTRICT_CARDINALITY (\<lambda>j. orders_district e g i j))"

fun order_part :: "chunk \<Rightarrow> bytes" where
  "order_part (To_order s) = s"
| "order_part _ = []"

fun line_part :: "chunk \<Rightarrow> bytes" where
  "line_part (To_line s) = s"
| "line_part _ = []"

definition order_text :: "chunk list \<Rightarrow> bytes" where
  "order_text cs = concat (map order_part cs)"

definition line_text :: "chunk list \<Rightarrow> bytes" where
  "line_text cs = concat (map line_part cs)"

definition gen_orders :: "env \<Rightarrow> datagen \<Rightarrow> outcome" where
  "gen_orders e g =
     (let (start, end') = partition_range (dg_warehouses g) g;
          banner = ''Generating order and order-line table data for warehouse '' @
            fmt_d (start + 1) @ '' to '' @ fmt_d end' @ ''...'' @ newline;
          finished = ''Finished order and order-line table data for warehouse '' @
            fmt_d (start + 1) @ '' to '' @ fmt_d end' @ ''...'' @ newline;
          r = start_rng g (of_int start * of_int DISTRICT_CARDINALITY *
            of_int (cast_int ((dg_customers g - 1) +
              (if dg_orders g < 2101 then dg_orders g else 2101) + dg_orders g)));
          chunks = fst (run_state (orders_loop e g start end') (r, 0, 0))
      in case open_output e g 0 ORDER_DATA ''orders'' of
           OpenFailed msg \<Rightarrow> Done (banner @ msg) []
         | NoStream msg \<Rightarrow>
             if chunks = [] \<and> close_text g = [] then Done (banner @ msg @ finished) []
             else Undefined
         | Opened order pre \<Rightarrow>
             (case open_output e g 1 ORDER_LINE_DATA ''order_line'' of
                Opened order_line pre' \<Rightarrow>
                  if Abort \<in> set chunks then Exit 1
                  else Done (banner @ finished)
                    [(order, pre @ order_text chunks @ close_text g),
                     (order_line, pre' @ line_text chunks @ close_text g)]
              | OpenFailed msg \<Rightarrow> Done (banner @ msg) [(order, pre)]
              | NoStream msg \<Rightarrow> Undefined))"

section \<open>The list is a random permutation of the customers\<close>

lemma find_place_path:
  assumes "Chain (next_of h) current as" "n < length as"
  shows "find_place h (Suc n) current prev =
    (if Suc n < length as then Some (as ! Suc n) else None, Some (as ! n))"
  using assms
proof (induction n arbitrary: current prev as)
  case 0
  then obtain a bs where "as = a # bs" "current = Some a" "Chain (next_of h) (next_of h a) bs"
    by (cases as) auto
  then show ?case by (cases bs) auto
next
  case (Suc n)
  then obtain a bs where as: "as = a # bs" "current = Some a" "Chain (next_of h) (next_of h a) bs"
    by (cases as) auto
  then show ?case using Suc.IH [OF as(3)] Suc.prems(2) by simp
qed

lemma owns_insert_number:
  assumes "owns h head vs" "heap_ok h" "0 \<le> iter" "iter \<le> int (length vs)"
    and "insert_number k iter (head, h) = (head', h')"
  shows "owns h' head' (take (nat iter) vs @ k # drop (nat iter) vs) \<and> heap_ok h'"
proof -
  from assms(1) obtain as where as: "Chain (next_of h) head as" "set as = live h" "map (val h) as = vs"
    by (auto simp: owns_def)
  let ?n = "brk h"
  have fresh: "?n \<notin> set as" using assms(2) as(2) by (auto simp: heap_ok_def)
  have ok: "heap_ok h'" using assms(2,5)
    by (auto simp: insert_number_def Let_def dest: heap_ok_malloc split: prod.splits if_splits option.splits)
  show ?thesis
  proof (cases "nat iter")
    case 0
    then have "head' = Some ?n" "next_of h' = (next_of h)(?n := head)" "val h' = (val h)(?n := k)"
      "live h' = insert ?n (live h)"
      using assms(5) by (auto simp: insert_number_def heap_defs)
    then show ?thesis using ok 0 as fresh
      by (auto simp: owns_def intro!: exI [of _ "?n # as"])
  next
    case (Suc n)
    then have n: "n < length as" using assms(4) as(3) by auto
    let ?cur = "if Suc n < length as then Some (as ! Suc n) else None"
    have ne: "?cur \<noteq> Some (as ! n)"
      using Chain_distinct [OF as(1)] n by (auto simp: nth_eq_iff_index_eq)
    have eqs: "head' = head" "next_of h' = (next_of h)(as ! n := Some ?n, ?n := ?cur)"
      "val h' = (val h)(?n := k)" "live h' = insert ?n (live h)"
      using assms(5) ne unfolding insert_number_def Let_def prod.case Suc find_place_path [OF as(1) n]
      by (auto simp: heap_defs split: if_splits)
    let ?l = "take n as" and ?r = "drop (Suc n) as"
    have split: "as = ?l @ as ! n # ?r" using n by (simp add: id_take_nth_drop)
    have d: "distinct (?l @ as ! n # ?r)" using Chain_distinct [OF as(1)] split by simp
    have l: "Path (next_of h) head ?l (Some (as ! n))" by (rule Path_nth(1) [OF as(1) n])
    have r: "Chain (next_of h) ?cur ?r"
      using Path_nth(2) [OF as(1), of "Suc n"] by auto
    have notin: "?n \<notin> set ?l" "?n \<notin> set ?r" "?n \<noteq> as ! n" "as ! n \<notin> set ?l" "as ! n \<notin> set ?r"
      using fresh d n by (auto dest: in_set_takeD in_set_dropD)
    have "Chain (next_of h') head (?l @ as ! n # ?n # ?r)"
      using l r notin by (auto simp: eqs(2))
    moreover have "set (?l @ as ! n # ?n # ?r) = live h'"
      using arg_cong [OF split, of set] as(2) by (auto simp: eqs(4))
    moreover have "map (val h') (?l @ as ! n # ?n # ?r) = take (Suc n) vs @ k # drop (Suc n) vs"
      using notin n as(3) by (auto simp: eqs(3) take_map drop_map take_Suc_conv_app_nth map_fun_upd)
    ultimately show ?thesis using ok eqs(1) Suc unfolding owns_def by metis
  qed
qed

lemma insert_numbers_perm:
  assumes "owns h head vs" "heap_ok h" "length vs + 1 = k" "int k + int n \<le> 2 ^ 31"
  shows "yields (\<lambda>(head', h'). \<exists>ws. owns h' head' ws \<and> heap_ok h' \<and>
      mset ws = mset vs + mset (map int [k..<k + n]))
    (insert_numbers (map int [k..<k + n]) (head, h))"
  using assms
proof (induction n arbitrary: h head vs k)
  case 0
  then show ?case by (auto intro!: yields_return)
next
  case (Suc n)
  have upt: "[k..<k + Suc n] = k # [Suc k..<Suc k + n]" by (simp add: upt_conv_Cons)
  have k0: "0 < int k" "int k \<le> 2 ^ 53" using Suc.prems(3,4) by auto
  have "yields (\<lambda>(head', h'). \<exists>ws. owns h' head' ws \<and> heap_ok h' \<and>
      mset ws = mset vs + mset (map int [k..<k + Suc n]))
      (insert_numbers (map int [Suc k..<Suc k + n]) (insert_number (int k) (cast_int iter) (head, h)))"
    if iter: "0 \<le> iter \<and> iter < int k" for iter
  proof -
    have c: "cast_int iter = iter" using iter Suc.prems(4) by (intro cast_int_id) auto
    obtain head' h' where i: "insert_number (int k) (cast_int iter) (head, h) = (head', h')"
      by fastforce
    let ?vs = "take (nat iter) vs @ int k # drop (nat iter) vs"
    have "owns h' head' ?vs \<and> heap_ok h'"
      using owns_insert_number [OF Suc.prems(1,2) _ _ i] iter c Suc.prems(3) by auto
    moreover have "length ?vs + 1 = Suc k" using Suc.prems(3) iter by auto
    moreover have m: "mset ?vs = mset vs + {#int k#}"
      by (metis add_mset_add_single append_take_drop_id mset.simps(2) mset_append union_mset_add_mset_right)
    ultimately show ?thesis
      using Suc.IH [of h' head' ?vs "Suc k"] Suc.prems(4) i unfolding upt
      by (auto elim!: yields_mono simp: ac_simps)
  qed
  then show ?case unfolding upt list.map insert_numbers.simps
    by (intro yields_bind [OF get_random_range [OF k0]]) auto
qed

lemma upto_map_int: "[2..int n + 1] = map int [2..<2 + n]"
proof (induction n)
  case (Suc n)
  have "[2..int (Suc n) + 1] = [2..int n + 1] @ [int (2 + n)]"
    using upto_rec2 [of 2 "int (Suc n) + 1"] by (simp add: algebra_simps)
  moreover have "[2..<2 + Suc n] = [2..<2 + n] @ [2 + n]" by (simp only: add_Suc_right upt_Suc_append)
  ultimately show ?case unfolding Suc by simp
qed simp

lemma customer_list_perm:
  assumes "1 \<le> dg_customers g" "dg_customers g < 2 ^ 31"
  shows "yields (\<lambda>(head, h). \<exists>ws. owns h head ws \<and> heap_ok h \<and> mset ws = mset [1..dg_customers g])
    (customer_list g)"
proof -
  let ?c = "nat (dg_customers g)"
  have upto: "[2..dg_customers g] = map int [2..<2 + (?c - 1)]"
    using upto_map_int [of "?c - 1"] assms by (simp only: of_nat_diff) simp
  have "[1..dg_customers g] = 1 # [2..dg_customers g]" using assms upto_rec1 [of 1] by simp
  then have m: "mset [1..dg_customers g] = mset [1] + mset (map int [2..<2 + (?c - 1)])"
    unfolding upto [symmetric] by simp
  show ?thesis
    unfolding customer_list_def malloc_def Let_def prod.case upto m
    by (rule insert_numbers_perm)
       (use assms in \<open>auto simp: owns_def heap_defs heap_ok_def empty_heap_def intro!: exI [of _ "[0]"]\<close>)
qed

lemma free_list_chain:
  assumes "Chain (next_of h) p as" "set as = live h"
  shows "\<exists>h'. free_list (length as) p h = Some h' \<and> live h' = {}"
  using assms
proof (induction as arbitrary: h p)
  case (Cons a as)
  then have "Chain (next_of (free a h)) (next_of h a) as" "p = Some a" by (simp_all add: free_def)
  moreover have "set as = live (free a h)"
    using Chain_distinct [OF Cons.prems(1)] Cons.prems(2) by (auto simp: free_def)
  ultimately show ?case using Cons.IH by simp
qed auto

section \<open>Without commits\<close>

definition order_chunk :: "env \<Rightarrow> datagen \<Rightarrow> int \<Rightarrow> int \<Rightarrow> int \<Rightarrow> int \<Rightarrow> (rng, chunk list) state" where
  "order_chunk e g i j k o_c_id = do {
     x \<leftarrow> order_row e g i j k o_c_id;
     State_Monad.return [To_order (fst x), To_line (fst (run_state
       (for_range 0 (fst (snd x)) (order_line_row e g i j k)) (snd (snd x))))]
   }"

fun orders_chunk ::
    "env \<Rightarrow> datagen \<Rightarrow> int \<Rightarrow> int \<Rightarrow> node_heap \<Rightarrow> ptr \<Rightarrow> int list \<Rightarrow> (rng, chunk list) state" where
  "orders_chunk e g i j h current [] = State_Monad.return []"
| "orders_chunk e g i j h None (k # ks) = State_Monad.return [Abort]"
| "orders_chunk e g i j h (Some a) (k # ks) = do {
     cs \<leftarrow> order_chunk e g i j k (val h a);
     cs' \<leftarrow> orders_chunk e g i j h (next_of h a) ks;
     State_Monad.return (cs @ cs')
   }"

definition orders_block :: "env \<Rightarrow> datagen \<Rightarrow> int \<Rightarrow> (rng, chunk list) state" where
  "orders_block e g i = for_range 0 DISTRICT_CARDINALITY (\<lambda>j. do {
     hd_h \<leftarrow> customer_list g;
     orders_chunk e g i j (snd hd_h) (fst hd_h) [0..dg_orders g - 1]
   })"

lemma with_counter_bind:
  "State_Monad.bind (with_counter m) (\<lambda>x. with_counter (f x)) = with_counter (State_Monad.bind m f)"
  by (auto intro!: state_ext simp: with_counter_def split: prod.splits)

lemma with_counter_return: "with_counter (State_Monad.return x) = State_Monad.return x"
  by (auto intro!: state_ext simp: with_counter_def)

lemma order_chunks_plain:
  assumes "rows_per_commit g = 0"
  shows "order_chunks e g i j k c = with_counter (order_chunk e g i j k c)"
proof (rule state_ext)
  fix s :: "rng \<times> nat \<times> nat"
  have "order_lines e g i j k cnt = with_counter (for_range 0 cnt (order_line_row e g i j k))" for cnt
    by (simp add: order_lines_def put_row_plain [OF assms] for_range_with_counter)
  then show "run_state (order_chunks e g i j k c) s =
      run_state (with_counter (order_chunk e g i j k c)) s"
    by (cases s) (simp add: order_chunks_def order_chunk_def counted_def assms run_with_counter Let_def
        split: prod.split)
qed

lemma orders_walk_plain:
  assumes "rows_per_commit g = 0"
  shows "orders_walk e g i j h p ks = with_counter (orders_chunk e g i j h p ks)"
proof (induction ks arbitrary: p)
  case (Cons k ks)
  show ?case by (cases p)
    (simp_all add: order_chunks_plain [OF assms] Cons with_counter_return flip: with_counter_bind)
qed (simp add: with_counter_return)

lemma orders_loop_plain:
  assumes "rows_per_commit g = 0"
  shows "orders_loop e g a b = with_counter (for_range a b (orders_block e g))"
  unfolding orders_loop_def orders_district_def orders_block_def [abs_def]
  by (simp add: orders_walk_plain [OF assms] with_counter_bind for_range_with_counter)

section \<open>What an order draws\<close>

lemma draws_order_row:
  "draws pcg_mcg_128_step_r (if k < 2101 then 2 else 1) (order_row e g i j k c)"
  unfolding order_row_def Let_def
  by (cases "k < 2101"; (simp only: if_True if_False); (rule advances_intro order_refl | simp)+)

lemma draws_order_chunk:
  "draws pcg_mcg_128_step_r (if k < 2101 then 2 else 1) (order_chunk e g i j k c)"
  unfolding order_chunk_def by (rule draws_bind_return [OF draws_order_row])

lemma draws_orders_chunk:
  assumes "holds h p vs" "length ks \<le> length vs"
  shows "draws pcg_mcg_128_step_r (sum_list (map (\<lambda>k. if k < 2101 then 2 else 1) ks))
    (orders_chunk e g i j h p ks)"
  using assms
proof (induction ks arbitrary: p vs)
  case (Cons k ks)
  then obtain a ws where p: "p = Some a" "holds h (next_of h a) ws" "length ks \<le> length ws"
    by (cases p) (auto simp: holds_Some)
  show ?case unfolding p orders_chunk.simps list.map sum_list.Cons
    by (rule draws_bind [OF draws_order_chunk draws_bind_return [OF Cons.IH [OF p(2,3)]]])
qed (simp add: draws_return)

lemma draws_insert_numbers: "draws pcg_mcg_128_step_r (length ks) (insert_numbers ks x)"
proof (induction ks arbitrary: x)
  case (Cons k ks)
  then show ?case using draws_bind [OF draws_get_random Cons.IH] by simp
qed (simp add: draws_return)

lemma draws_customer_list: "draws pcg_mcg_128_step_r (nat (dg_customers g - 1)) (customer_list g)"
  unfolding customer_list_def Let_def malloc_def prod.case
  using draws_insert_numbers [of "[2..dg_customers g]"] by simp

lemma sum_order_draws:
  assumes "0 \<le> n"
  shows "sum_list (map (\<lambda>k. if k < 2101 then 2 else 1) [0..n - 1]) = nat (min n 2101 + n)"
  using assms
proof (induction n rule: int_ge_induct)
  case (step n)
  have "[0..n + 1 - 1] = [0..n - 1] @ [n]" using step.hyps upto_rec2 [of 0 n] by simp
  then show ?case using step by auto
qed simp

text \<open>The sizes for which every order finds a customer.\<close>

definition orders_fit :: "datagen \<Rightarrow> bool" where
  "orders_fit g \<longleftrightarrow> 1 \<le> dg_customers g \<and> dg_customers g < 2 ^ 27 \<and> 0 \<le> dg_orders g \<and>
     dg_orders g \<le> dg_customers g"

definition orders_cost :: "datagen \<Rightarrow> nat" where
  "orders_cost g = 10 * nat ((dg_customers g - 1) + min (dg_orders g) 2101 + dg_orders g)"

lemma customer_list_holds:
  assumes "orders_fit g"
  shows "yields (\<lambda>(head, h). \<exists>vs. holds h head vs \<and> length [0..dg_orders g - 1] \<le> length vs)
    (customer_list g)"
proof -
  have "yields (\<lambda>(head, h). \<exists>ws. owns h head ws \<and> heap_ok h \<and> mset ws = mset [1..dg_customers g])
      (customer_list g)"
    using assms by (intro customer_list_perm) (auto simp: orders_fit_def)
  then show ?thesis
  proof (rule yields_mono, clarify)
    fix head h ws
    assume "owns h head ws" "mset ws = mset [1..dg_customers g]"
    then have "holds h head ws" "length ws = nat (dg_customers g)"
      using owns_holds mset_eq_length [of ws "[1..dg_customers g]"] by auto
    then show "\<exists>vs. holds h head vs \<and> length [0..dg_orders g - 1] \<le> length vs"
      using assms by (intro exI [of _ ws]) (auto simp: orders_fit_def)
  qed
qed

lemma draws_orders_block:
  assumes "orders_fit g"
  shows "draws pcg_mcg_128_step_r (orders_cost g) (orders_block e g i)"
proof -
  have *: "draws pcg_mcg_128_step_r (nat (dg_customers g - 1) + nat (min (dg_orders g) 2101 + dg_orders g))
      (do { hd_h \<leftarrow> customer_list g; orders_chunk e g i j (snd hd_h) (fst hd_h) [0..dg_orders g - 1] })"
    for j
  proof (rule draws_bind_yields [OF draws_customer_list customer_list_holds [OF assms]], clarify)
    fix head and h :: node_heap and vs
    assume "holds h head vs" "length [0..dg_orders g - 1] \<le> length vs"
    from draws_orders_chunk [OF this]
    show "draws pcg_mcg_128_step_r (nat (min (dg_orders g) 2101 + dg_orders g))
        (orders_chunk e g i j (snd (head, h)) (fst (head, h)) [0..dg_orders g - 1])"
      using assms sum_order_draws [of "dg_orders g"] by (simp add: orders_fit_def)
  qed
  have "nat (dg_customers g - 1) + nat (min (dg_orders g) 2101 + dg_orders g) =
      nat ((dg_customers g - 1) + min (dg_orders g) 2101 + dg_orders g)"
    using assms by (auto simp: orders_fit_def)
  then show ?thesis unfolding orders_block_def orders_cost_def DISTRICT_CARDINALITY_def
    using draws_for_range [of 0 10, OF *] by simp
qed

lemma orders_chunk_no_abort:
  assumes "holds h p vs" "length ks \<le> length vs"
  shows "yields (\<lambda>cs. Abort \<notin> set cs) (orders_chunk e g i j h p ks)"
  using assms
proof (induction ks arbitrary: p vs)
  case (Cons k ks)
  then obtain a ws where p: "p = Some a" "holds h (next_of h a) ws" "length ks \<le> length ws"
    by (cases p) (auto simp: holds_Some)
  have "yields (\<lambda>cs. Abort \<notin> set cs) (order_chunk e g i j k c)" for c
    unfolding order_chunk_def by (intro yields_bind [OF yields_any] yields_return) simp
  then show ?case unfolding p orders_chunk.simps
    by (rule yields_bind) (rule yields_bind [OF Cons.IH [OF p(2,3)]], auto intro: yields_return)
qed (simp add: yields_return)

lemma orders_block_no_abort:
  assumes "orders_fit g"
  shows "yields (\<lambda>cs. Abort \<notin> set cs) (for_range a b (orders_block e g))"
  unfolding orders_block_def
  by (intro yields_for_range yields_bind [OF customer_list_holds [OF assms]])
     (auto intro: orders_chunk_no_abort)

section \<open>Parts\<close>

definition orders_file :: "outcome \<Rightarrow> bytes" where
  "orders_file out = (case out of Done _ [(_, os), (_, ls)] \<Rightarrow> os | _ \<Rightarrow> [])"

definition order_lines_file :: "outcome \<Rightarrow> bytes" where
  "order_lines_file out = (case out of Done _ [(_, os), (_, ls)] \<Rightarrow> ls | _ \<Rightarrow> [])"

lemma orders_delta:
  assumes "orders_fit g"
  shows "of_int s * of_int DISTRICT_CARDINALITY * of_int (cast_int ((dg_customers g - 1) +
      (if dg_orders g < 2101 then dg_orders g else 2101) + dg_orders g)) =
    (of_int s * of_nat (orders_cost g) :: 128 word)"
proof -
  let ?n = "(dg_customers g - 1) + min (dg_orders g) 2101 + dg_orders g"
  have n: "0 \<le> ?n" "?n < 2 ^ 31" using assms by (auto simp: orders_fit_def)
  have "(dg_customers g - 1) + (if dg_orders g < 2101 then dg_orders g else 2101) + dg_orders g = ?n"
    by (simp add: min_def)
  then have "cast_int ((dg_customers g - 1) + (if dg_orders g < 2101 then dg_orders g else 2101) +
      dg_orders g) = int (nat ?n)"
    using n by simp
  then show ?thesis unfolding orders_cost_def DISTRICT_CARDINALITY_def
    by (simp only: of_int_of_nat_eq of_nat_mult mult.assoc) simp
qed

lemma gen_orders_flat:
  fixes g :: datagen
  defines "s \<equiv> part_bound (dg_warehouses g) (partitions g) (part g - 1)"
  defines "cs \<equiv> \<lambda>e. fst (run_state (for_range s
      (min (dg_warehouses g) (part_bound (dg_warehouses g) (partitions g) (part g))) (orders_block e g))
      (pcg64f_advance_r (of_nat (nat s * orders_cost g)) (pcg64f_srandom_r (ucast (seed g)))))"
  assumes run: "flat_run e g" "orders_fit g" "1 \<le> part g" "0 \<le> s"
  shows "orders_file (gen_orders e g) = order_text (cs e)"
    "order_lines_file (gen_orders e g) = line_text (cs e)"
proof -
  let ?delta = "of_int s * of_nat (orders_cost g) :: 128 word"
  have "start_rng g ?delta = pcg64f_advance_r ?delta (pcg64f_srandom_r (ucast (seed g)))"
    using run(3) by (intro start_rng_seek) (auto simp: s_def part_bound_first)
  moreover have "?delta = of_nat (nat s * orders_cost g)" using run(4) by simp
  ultimately have r: "start_rng g ?delta =
      pcg64f_advance_r (of_nat (nat s * orders_cost g)) (pcg64f_srandom_r (ucast (seed g)))" by simp
  have "Abort \<notin> set (cs e)" unfolding cs_def by (rule yieldsD [OF orders_block_no_abort [OF run(2)]])
  moreover have "rows_per_commit g = 0" using run(1) by (simp add: flat_run_def)
  moreover have "open_output e g c base tbl = Opened (File (data_filename g base)) []" for c base tbl
    using run(1) by (simp add: open_output_def flat_run_def Let_def)
  moreover have "close_text g = []" using run(1) by (simp add: close_text_def flat_run_def)
  ultimately have "\<exists>c f f'. gen_orders e g = Done c [(f, order_text (cs e)), (f', line_text (cs e))]"
    unfolding gen_orders_def orders_delta [OF run(2)] partition_range_min Let_def prod.case
      s_def [symmetric] r
    by (simp add: orders_loop_plain run_with_counter cs_def)
  then show "orders_file (gen_orders e g) = order_text (cs e)"
    "order_lines_file (gen_orders e g) = line_text (cs e)"
    by (auto simp: orders_file_def order_lines_file_def)
qed

lemma orders_unpartitioned: "orders_block e (in_part p P g) = orders_block e g"
proof -
  have row: "order_row e (in_part p P g) = order_row e g"
    "order_line_row e (in_part p P g) = order_line_row e g"
    "customer_list (in_part p P g) = customer_list g"
    by (simp_all add: fun_eq_iff order_row_def order_line_row_def customer_list_def field_def literal_def
        quoted_def)
  have "orders_chunk e (in_part p P g) i j h q ks = orders_chunk e g i j h q ks" for i j h q ks
  proof (induction ks arbitrary: q)
    case (Cons k ks)
    then show ?case by (cases q) (simp_all add: order_chunk_def row)
  qed simp
  then show ?thesis by (simp add: orders_block_def fun_eq_iff row)
qed

lemma orders_sizes_unpartitioned:
  "orders_cost (in_part p P g) = orders_cost g" "orders_fit (in_part p P g) = orders_fit g"
  by (simp_all add: orders_cost_def orders_fit_def)

interpretation orders: table_generator "\<lambda>e g. orders_file (gen_orders e g)" dg_warehouses
    orders_block order_text orders_cost orders_fit
  by unfold_locales (simp_all add: draws_orders_block gen_orders_flat(1) orders_unpartitioned
      order_text_def orders_sizes_unpartitioned)

interpretation order_lines: table_generator "\<lambda>e g. order_lines_file (gen_orders e g)" dg_warehouses
    orders_block line_text orders_cost orders_fit
  by unfold_locales (simp_all add: draws_orders_block gen_orders_flat(2) orders_unpartitioned
      line_text_def orders_sizes_unpartitioned)

text \<open>C30: The orders and order-line tables can be generated in any number of parts: for each of the
  two files, the parts one after the other are the file of a run that is not divided. Here the jump
  counts the insertions into the random list of customers, the carriers, which only the first 2100
  orders of a district have, and one seed per order; the lines draw from a generator of their own.\<close>
theorem order_parts:
  assumes "flat_run e g" "orders_fit g"
    and "0 \<le> dg_warehouses g" "dg_warehouses g < 2 ^ 31" "1 \<le> P" "P \<le> MAX_PARTITIONS"
  shows "concat (map (\<lambda>p. orders_file (gen_orders e (g\<lparr>part := p, partitions := P\<rparr>))) [1..P]) =
      orders_file (gen_orders e (g\<lparr>part := 1, partitions := 1\<rparr>)) \<and>
    concat (map (\<lambda>p. order_lines_file (gen_orders e (g\<lparr>part := p, partitions := P\<rparr>))) [1..P]) =
      order_lines_file (gen_orders e (g\<lparr>part := 1, partitions := 1\<rparr>))"
proof -
  have P: "P < 2 ^ 31" using assms(6) by (simp add: MAX_PARTITIONS_def)
  show ?thesis
    using orders.parts [OF assms(1-5) P] order_lines.parts [OF assms(1-5) P] by blast
qed

theorem order_parts_witness:
  "concat (map (\<lambda>p. orders_file (gen_orders sample_env (sample_settings\<lparr>part := p, partitions := 3\<rparr>)))
     [1..3]) = orders_file (gen_orders sample_env (sample_settings\<lparr>part := 1, partitions := 1\<rparr>))"
  using order_parts [of sample_env sample_settings 3] by (simp add: MAX_PARTITIONS_def orders_fit_def)

text \<open>C33: The linked list that assigns customers to the orders of a district holds every customer
  number exactly once, whatever the generator draws: all insertions, at the head, in the middle and
  at the tail, keep the list connected and no node is lost. No other memory is allocated.\<close>
theorem customer_list_permutation:
  assumes "1 \<le> dg_customers g" "dg_customers g < 2 ^ 31" "run_state (customer_list g) r = ((head, h), r')"
  shows "\<exists>ws. owns h head ws \<and> mset ws = mset [1..dg_customers g]"
  using yieldsD [OF customer_list_perm [OF assms(1,2)], of r] assms(3) by auto

theorem customer_list_permutation_witness:
  "\<exists>ws. owns (snd (fst (run_state (customer_list sample_settings) 9)))
      (fst (fst (run_state (customer_list sample_settings) 9))) ws \<and> mset ws = mset [1..3]"
  using customer_list_permutation [of sample_settings 9] by (simp add: prod_eq_iff)

text \<open>After the orders of a district are written the list is freed: the loop ends, every node is
  freed and nothing remains allocated.\<close>
theorem customer_list_freed:
  assumes "1 \<le> dg_customers g" "dg_customers g < 2 ^ 31" "run_state (customer_list g) r = ((head, h), r')"
  shows "\<exists>h'. free_list (nat (dg_customers g)) head h = Some h' \<and> live h' = {}"
proof -
  obtain ws where "owns h head ws" "mset ws = mset [1..dg_customers g]"
    using yieldsD [OF customer_list_perm [OF assms(1,2)], of r] assms(3) by auto
  moreover from this obtain as where as: "Chain (next_of h) head as" "set as = live h" "map (val h) as = ws"
    by (auto simp: owns_def)
  ultimately have "length as = nat (dg_customers g)"
    using assms(1) mset_eq_length [of ws "[1..dg_customers g]"] by auto
  then show ?thesis using free_list_chain [OF as(1,2)] by simp
qed

theorem customer_list_freed_witness:
  "\<exists>h'. free_list 3 (fst (fst (run_state (customer_list sample_settings) 9)))
      (snd (fst (run_state (customer_list sample_settings) 9))) = Some h' \<and> live h' = {}"
  using customer_list_freed [of sample_settings 9] by (simp add: prod_eq_iff)

section \<open>The two files fit together\<close>

text \<open>
  \<open>orders_text kss cs\<close>: the chunks write one order row for each of the keys \<open>kss\<close>, and for each
  order as many numbered lines as its row says, between 5 and 15.
\<close>

definition order_key :: "bytes list \<Rightarrow> bytes list \<times> bytes" where
  "order_key r = (take 3 r, r ! 6)"

definition line_keys :: "bytes list \<Rightarrow> int \<Rightarrow> bytes list list" where
  "line_keys ks cnt = map (\<lambda>l. ks @ [fmt_d (l + 1)]) [0..cnt - 1]"

definition orders_text :: "bytes list list \<Rightarrow> chunk list \<Rightarrow> bool" where
  "orders_text kss cs \<longleftrightarrow> (\<exists>cnts. length cnts = length kss \<and> (\<forall>c \<in> set cnts. 5 \<le> c \<and> c \<le> 15) \<and>
     table_text 8 order_key (zip kss (map fmt_d cnts)) (order_text cs) \<and>
     table_text 10 (take 4) (concat (map2 line_keys kss cnts)) (line_text cs))"

lemma orders_text_Nil: "orders_text [] []"
  by (auto simp: orders_text_def order_text_def line_text_def table_text_Nil)

lemma orders_text_append:
  assumes "orders_text a x" "orders_text b y"
  shows "orders_text (a @ b) (x @ y)"
proof -
  from assms obtain c d where
    c: "length c = length a" "\<forall>n \<in> set c. 5 \<le> n \<and> n \<le> 15" "table_text 8 order_key (zip a (map fmt_d c)) (order_text x)"
      "table_text 10 (take 4) (concat (map2 line_keys a c)) (line_text x)"
    and d: "length d = length b" "\<forall>n \<in> set d. 5 \<le> n \<and> n \<le> 15" "table_text 8 order_key (zip b (map fmt_d d)) (order_text y)"
      "table_text 10 (take 4) (concat (map2 line_keys b d)) (line_text y)"
    by (auto simp: orders_text_def)
  have "order_text (x @ y) = order_text x @ order_text y" "line_text (x @ y) = line_text x @ line_text y"
    by (simp_all add: order_text_def line_text_def)
  then show ?thesis unfolding orders_text_def
    using c d table_text_append [OF c(3) d(3)] table_text_append [OF c(4) d(4)]
    by (intro exI [of _ "c @ d"]) auto
qed

lemma row_order_line:
  assumes "plain_format g" "clean (null_str g)"
  shows "yields (table_text 10 (take 4) [[fmt_d (k + 1), fmt_d (j + 1), fmt_d (i + 1)] @ [fmt_d (l + 1)]])
    (order_line_row e g i j k l)"
proof -
  have amount: "yields clean (if k < 2101 then State_Monad.return ''0.00'' else do {
      a \<leftarrow> get_random 999999;
      State_Monad.return (quoted g (fmt_f 6 (fl (fl (of_int (a + 1)) / 100)))) })"
    using assms(1) by (auto intro!: yields_return yields_bind [OF yields_any] simp: quoted_def plain_format_def)
  show ?thesis
    unfolding order_line_row_def
    by (rule amount [THEN yields_bind] draw_binds)+
       ((rule row_build assms(1) | (simp only: clean_rules assms(2) simp_thms split: if_split; fail))+, simp_all)
qed

lemma row_order:
  assumes "plain_format g" "clean (null_str g)"
  shows "yields (\<lambda>(row, cnt, ol_rng). 5 \<le> cnt \<and> cnt \<le> 15 \<and>
      table_text 8 order_key [([fmt_d (k + 1), fmt_d (j + 1), fmt_d (i + 1)], fmt_d cnt)] row)
    (order_row e g i j k c)"
proof -
  have carrier: "yields clean (if k < 2101 then do {
      c \<leftarrow> get_random 10; State_Monad.return (quoted g (fmt_d (cast_int c + 1))) }
      else State_Monad.return (null_str g))"
    using assms by (auto intro!: yields_return yields_bind [OF yields_any] simp: quoted_def plain_format_def)
  have cnt: "0 \<le> cast_int n \<and> cast_int n \<le> 10" if "run_state (get_random 11) r = (n, r')" for n r r'
    using yieldsD [OF get_random_range [of 11], of r] that by simp
  have row: "table_text 8 order_key [([fmt_d (k + 1), fmt_d (j + 1), fmt_d (i + 1)], fmt_d n)]
    (field g (fmt_d (k + 1)) @ field g (fmt_d (j + 1)) @ field g (fmt_d (i + 1)) @ field g (fmt_d c) @
     literal g (print_timestamp_pgsql t) @ literal g x @ field g (fmt_d n) @ ''1'' @ newline)"
    if "clean x" for t x n
    by (rule table_text_row, (rule row_build assms(1) | (simp only: clean_rules that; fail))+)
       (simp_all add: order_key_def)
  show ?thesis
    unfolding order_row_def Let_def
    by (rule yields_bind [OF carrier], rule yields_bind [OF yields_any])
       (auto intro!: yields_return row [simplified] dest: cnt split: prod.split)
qed

lemma orders_chunk_text:
  assumes "plain_format g" "clean (null_str g)" "holds h p vs" "length ks \<le> length vs"
  shows "yields (orders_text (map (\<lambda>k. [fmt_d (k + 1), fmt_d (j + 1), fmt_d (i + 1)]) ks))
    (orders_chunk e g i j h p ks)"
  using assms(3,4)
proof (induction ks arbitrary: p vs)
  case (Cons k ks)
  then obtain a ws where p: "p = Some a" "holds h (next_of h a) ws" "length ks \<le> length ws"
    by (cases p) (auto simp: holds_Some)
  let ?k = "[fmt_d (k + 1), fmt_d (j + 1), fmt_d (i + 1)]"
  have "yields (orders_text [?k]) (order_chunk e g i j k (val h a))"
    unfolding order_chunk_def
  proof (rule yields_bind [OF row_order [OF assms(1,2)]], clarify, rule yields_return)
    fix row cnt ol_rng
    assume row: "5 \<le> cnt" "cnt \<le> 15" "table_text 8 order_key [(?k, fmt_d cnt)] row"
    have "table_text 10 (take 4) (line_keys ?k cnt)
        (fst (run_state (for_range 0 cnt (order_line_row e g i j k)) ol_rng))"
      unfolding line_keys_def
      by (rule yieldsD [OF yields_table_rows [OF row_order_line [OF assms(1,2)]]])
    then show "orders_text [?k] [To_order (fst (row, cnt, ol_rng)), To_line (fst (run_state
        (for_range 0 (fst (snd (row, cnt, ol_rng))) (order_line_row e g i j k)) (snd (snd (row, cnt, ol_rng)))))]"
      using row by (auto simp: orders_text_def order_text_def line_text_def intro!: exI [of _ "[cnt]"])
  qed
  then have "yields (orders_text ([?k] @ map (\<lambda>k. [fmt_d (k + 1), fmt_d (j + 1), fmt_d (i + 1)]) ks))
      (orders_chunk e g i j h (Some a) (k # ks))"
    unfolding orders_chunk.simps
    by (rule yields_bind) (rule yields_bind [OF Cons.IH [OF p(2,3)]], intro yields_return orders_text_append)
  then show ?case by (simp add: p(1))
qed (simp add: yields_return orders_text_Nil)

lemma orders_block_text:
  assumes "plain_format g" "clean (null_str g)" "orders_fit g"
  shows "yields (orders_text [[fmt_d (k + 1), fmt_d (j + 1), fmt_d (i + 1)].
      i \<leftarrow> [a..b - 1], j \<leftarrow> [0..9], k \<leftarrow> [0..dg_orders g - 1]]) (for_range a b (orders_block e g))"
proof -
  have "yields (orders_text [[fmt_d (k + 1), fmt_d (j + 1), fmt_d (i + 1)]. k \<leftarrow> [0..dg_orders g - 1]])
      (do { hd_h \<leftarrow> customer_list g; orders_chunk e g i j (snd hd_h) (fst hd_h) [0..dg_orders g - 1] })" for i j
    by (rule yields_bind [OF customer_list_holds [OF assms(3)]]) (auto intro: orders_chunk_text assms)
  then have "yields (orders_text [[fmt_d (k + 1), fmt_d (j + 1), fmt_d (i + 1)].
      j \<leftarrow> [0..9], k \<leftarrow> [0..dg_orders g - 1]]) (orders_block e g i)" for i
    unfolding orders_block_def for_range_def DISTRICT_CARDINALITY_def
    by (simp, intro yields_collect [where R = orders_text] orders_text_Nil orders_text_append)
  then show ?thesis
    unfolding for_range_def by (intro yields_collect [where R = orders_text] orders_text_Nil orders_text_append)
qed

text \<open>C28: The orders and order-line files of a part, read back, fit together: there is one order of
  8 columns for each order number of each district, in order; its seventh column is a number of lines
  between 5 and 15, and the order-line file has exactly that many rows of 10 columns for it,
  numbered from 1.\<close>
theorem orders_files_match:
  assumes "flat_run e g" "valid_settings g" "orders_fit g" "clean (null_str g)"
    and "partition_range (dg_warehouses g) g = (start, end')"
  shows "\<exists>cnts. (\<forall>c \<in> set cnts. 5 \<le> c \<and> c \<le> 15) \<and>
    (let kss = [[fmt_d (k + 1), fmt_d (j + 1), fmt_d (i + 1)].
           i \<leftarrow> [start..end' - 1], j \<leftarrow> [0..9], k \<leftarrow> [0..dg_orders g - 1]];
         os = file_rows (orders_file (gen_orders e g));
         ls = file_rows (order_lines_file (gen_orders e g))
     in map order_key os = zip kss (map fmt_d cnts) \<and> length cnts = length kss \<and>
        map (take 4) ls = concat (map2 line_keys kss cnts) \<and>
        list_all (\<lambda>r. length r = 8) os \<and> list_all (\<lambda>r. length r = 10) ls)"
proof -
  note v = valid_settingsD [OF assms(2)]
  let ?s = "part_bound (dg_warehouses g) (partitions g) (part g - 1)"
  let ?cs = "fst (run_state (for_range ?s
      (min (dg_warehouses g) (part_bound (dg_warehouses g) (partitions g) (part g))) (orders_block e g))
      (pcg64f_advance_r (of_nat (nat ?s * orders_cost g)) (pcg64f_srandom_r (ucast (seed g)))))"
  have range: "start = ?s"
    "end' = min (dg_warehouses g) (part_bound (dg_warehouses g) (partitions g) (part g))"
    using assms(5) by (simp_all add: partition_range_min)
  have "orders_text [[fmt_d (k + 1), fmt_d (j + 1), fmt_d (i + 1)].
      i \<leftarrow> [start..end' - 1], j \<leftarrow> [0..9], k \<leftarrow> [0..dg_orders g - 1]] ?cs"
    unfolding range by (rule yieldsD [OF orders_block_text [OF v(1) assms(4,3)]])
  then obtain cnts where c: "length cnts = length [[fmt_d (k + 1), fmt_d (j + 1), fmt_d (i + 1)].
      i \<leftarrow> [start..end' - 1], j \<leftarrow> [0..9], k \<leftarrow> [0..dg_orders g - 1]]" "\<forall>c \<in> set cnts. 5 \<le> c \<and> c \<le> 15"
    "table_text 8 order_key (zip [[fmt_d (k + 1), fmt_d (j + 1), fmt_d (i + 1)].
      i \<leftarrow> [start..end' - 1], j \<leftarrow> [0..9], k \<leftarrow> [0..dg_orders g - 1]] (map fmt_d cnts)) (order_text ?cs)"
    "table_text 10 (take 4) (concat (map2 line_keys [[fmt_d (k + 1), fmt_d (j + 1), fmt_d (i + 1)].
      i \<leftarrow> [start..end' - 1], j \<leftarrow> [0..9], k \<leftarrow> [0..dg_orders g - 1]] cnts)) (line_text ?cs)"
    unfolding orders_text_def by blast
  note flat = gen_orders_flat [OF assms(1,3) v(2,6)]
  show ?thesis unfolding flat Let_def
    using c file_rows_table [OF c(3)] file_rows_table [OF c(4)] by blast
qed

theorem orders_files_match_witness:
  "\<exists>cnts. (\<forall>c \<in> set cnts. 5 \<le> c \<and> c \<le> (15 :: int)) \<and>
     map order_key (file_rows (orders_file (gen_orders sample_env sample_settings))) =
       zip [[fmt_d (k + 1), fmt_d (j + 1), fmt_d (i + 1)].
           i \<leftarrow> [fst (partition_range 7 sample_settings)..snd (partition_range 7 sample_settings) - 1],
           j \<leftarrow> [0..9], k \<leftarrow> [0..2]] (map fmt_d cnts)"
proof -
  have "flat_run sample_env sample_settings" "valid_settings sample_settings" "orders_fit sample_settings"
    "clean (null_str sample_settings)" "partition_range (dg_warehouses sample_settings) sample_settings =
      (fst (partition_range 7 sample_settings), snd (partition_range 7 sample_settings))"
    by (simp_all add: valid_settings_def plain_format_def MAX_PARTITIONS_def orders_fit_def)
       (simp add: sample_settings_def)
  from orders_files_match [OF this] show ?thesis by (auto simp: Let_def)
qed

section \<open>Too few customers\<close>

lemma orders_walk_abort:
  assumes "holds h p vs" "length vs < length ks"
  shows "yields (\<lambda>cs. Abort \<in> set cs) (orders_walk e g i j h p ks)"
  using assms
proof (induction ks arbitrary: p vs)
  case (Cons k ks)
  show ?case
  proof (cases p)
    case None
    then show ?thesis by (simp add: yields_return)
  next
    case (Some a)
    then obtain ws where ws: "holds h (next_of h a) ws" "length ws < length ks"
      using Cons.prems by (auto simp: holds_Some)
    show ?thesis unfolding Some orders_walk.simps
      by (rule yields_bind [OF yields_any], rule yields_bind [OF Cons.IH [OF ws]]) (simp add: yields_return)
  qed
qed simp

lemma yields_for_range_first:
  assumes "a < b" "yields (\<lambda>xs. x \<in> set xs) (body a)"
  shows "yields (\<lambda>xs. x \<in> set xs) (for_range a b body)"
proof -
  have "[a..b - 1] = a # [a + 1..b - 1]" using assms(1) upto_rec1 [of a "b - 1"] by simp
  then show ?thesis unfolding for_range_def
    by (simp only: for_list.simps)
       (rule yields_bind [OF assms(2)], rule yields_bind [OF yields_any], simp add: yields_return)
qed

lemma yields_with_counter: "yields P m \<Longrightarrow> yields P (with_counter m)"
  by (auto simp: yields_def run_with_counter)

lemma orders_loop_abort:
  assumes "1 \<le> dg_customers g" "dg_customers g < dg_orders g" "dg_orders g < 2 ^ 31" "a < b"
  shows "yields (\<lambda>cs. Abort \<in> set cs) (orders_loop e g a b)"
proof -
  have "yields (\<lambda>(head, h). \<exists>ws. owns h head ws \<and> heap_ok h \<and> mset ws = mset [1..dg_customers g])
      (with_counter (customer_list g))"
    using assms by (intro yields_with_counter customer_list_perm) simp_all
  then have "yields (\<lambda>cs. Abort \<in> set cs) (orders_district e g i j)" for i j
    unfolding orders_district_def
  proof (rule yields_bind, clarify)
    fix head and h :: node_heap and ws
    assume "owns h head ws" "mset ws = mset [1..dg_customers g]"
    then have "holds h head ws" "length ws = nat (dg_customers g)"
      using owns_holds mset_eq_length [of ws "[1..dg_customers g]"] by auto
    then show "yields (\<lambda>cs. Abort \<in> set cs)
        (orders_walk e g i j (snd (head, h)) (fst (head, h)) [0..dg_orders g - 1])"
      using assms orders_walk_abort [of h head ws "[0..dg_orders g - 1]"] by simp
  qed
  then show ?thesis unfolding orders_loop_def
    by (intro yields_for_range_first assms(4)) (simp_all add: DISTRICT_CARDINALITY_def)
qed

text \<open>Asking for more orders than customers is an error that the program reports: the list of
  customers is exhausted in the first district and the program exits with status 1, in every load
  mode in which the streams open.\<close>
theorem too_many_orders_exit:
  assumes "1 \<le> dg_customers g" "dg_customers g < dg_orders g" "dg_orders g < 2 ^ 31"
    and "partition_range (dg_warehouses g) g = (start, end')" "start < end'"
    and "fopen_ok e = (\<lambda>_. True)" "popen_ok e = (\<lambda>_. True)"
    and "mode_load g = MODE_FLAT \<or> mode_load g = MODE_DIRECT \<and> mode_string g = MODE_PGSQL"
  shows "gen_orders e g = Exit 1"
proof -
  have "Abort \<in> set (fst (run_state (orders_loop e g start end') s))" for s
    by (rule yieldsD [OF orders_loop_abort [OF assms(1-3,5)]])
  moreover have "\<exists>snk pre. open_output e g c base tbl = Opened snk pre" for c base tbl
    using assms(6-8) by (auto simp: open_output_def mode_defs Let_def)
  ultimately show ?thesis using assms(4)
    by (simp add: gen_orders_def Let_def split: opened.split) (metis opened.distinct(1,3))
qed

theorem too_many_orders_exit_witness:
  "gen_orders sample_env (sample_settings\<lparr>dg_orders := 5, dg_customers := 2, dg_warehouses := 0\<rparr>) \<noteq> Exit 1 \<and>
   gen_orders sample_env (sample_settings\<lparr>dg_orders := 5, dg_customers := 2\<rparr>) = Exit 1"
proof
  have r0: "partition_range 0 (sample_settings\<lparr>dg_orders := 5, dg_customers := 2, dg_warehouses := 0\<rparr>) = (0, 0)"
    using part_bound_last [of 0 1] by (simp add: partition_range_min part_bound_first)
  then show "gen_orders sample_env (sample_settings\<lparr>dg_orders := 5, dg_customers := 2, dg_warehouses := 0\<rparr>) \<noteq> Exit 1"
    by (simp add: gen_orders_def orders_loop_def for_range_empty Let_def split: opened.split)
  have "partition_range 7 (sample_settings\<lparr>dg_orders := 5, dg_customers := 2\<rparr>) = (0, 7)"
    using part_bound_last [of 7 1] by (simp add: partition_range_min part_bound_first)
  then show "gen_orders sample_env (sample_settings\<lparr>dg_orders := 5, dg_customers := 2\<rparr>) = Exit 1"
    by (intro too_many_orders_exit [where start = 0 and end' = 7])
       (simp_all add: sample_env_def sample_settings_def)
qed

end
