(* ===== verification/Command_Line.thy ===== *)
theory Command_Line
  imports Common
begin

text \<open>
  The conversions of the C library that the programs apply to their arguments: \<open>atoi\<close> and
  \<open>strtoull\<close> on decimal numbers, with the truncation and clamping of the GNU library.
\<close>

text \<open>\<open>atoi\<close> and \<open>strtoull\<close> of the C library: blanks, a sign, digits; the rest is ignored.\<close>

definition is_digit :: "char \<Rightarrow> bool" where
  "is_digit c \<longleftrightarrow> 48 \<le> (of_char c :: nat) \<and> (of_char c :: nat) \<le> 57"

definition is_space :: "char \<Rightarrow> bool" where
  "is_space c \<longleftrightarrow> (of_char c :: nat) \<in> {9, 10, 11, 12, 13, 32}"

definition digits_value :: "bytes \<Rightarrow> int" where
  "digits_value s = foldl (\<lambda>n c. 10 * n + (of_char c - 48)) 0 (takeWhile is_digit s)"

definition signed_value :: "bytes \<Rightarrow> bool \<times> int" where
  "signed_value s = (case dropWhile is_space s of
     [] \<Rightarrow> (False, 0)
   | c # cs \<Rightarrow> if c = CHR ''-'' then (True, digits_value cs)
               else if c = CHR ''+'' then (False, digits_value cs)
               else (False, digits_value (c # cs)))"

definition atoi :: "bytes \<Rightarrow> int" where
  "atoi s = (let (neg, v) = signed_value s
     in cast_int (if neg then max (- v) (- (2 ^ 63)) else min v (2 ^ 63 - 1)))"

definition strtoull :: "bytes \<Rightarrow> 64 word" where
  "strtoull s = (let (neg, v) = signed_value s
     in if 2 ^ 64 \<le> v then of_int (2 ^ 64 - 1) else if neg then of_int (- v) else of_int v)"

text \<open>Numbers as they are usually written are read back.\<close>

lemma is_digit_digit: "n < 10 \<Longrightarrow> is_digit (digit n)"
  by (simp add: is_digit_def digit_def)

lemma digits_are_digits: "list_all is_digit (digits n)"
proof (induction n rule: digits.induct)
  case (1 n)
  show ?case
    by (cases "n < 10") (simp_all add: digits.simps [of n] is_digit_digit "1")
qed

lemma digit_code: "n < 10 \<Longrightarrow> of_char (digit n) - 48 = int n"
proof -
  assume "n < 10"
  then have "(of_char (digit n) :: nat) = 48 + n" by (simp add: digit_def)
  then have "(of_char (digit n) :: int) = int (48 + n)" by (metis of_nat_of_char)
  then show ?thesis by simp
qed

lemma foldl_digits: "foldl (\<lambda>n c. 10 * n + (of_char c - 48)) 0 (digits n) = int n"
proof (induction n rule: digits.induct)
  case (1 n)
  show ?case
  proof (cases "n < 10")
    case False
    have "10 * int (n div 10) + int (n mod 10) = int n" using mult_div_mod_eq [of 10 n] by linarith
    then show ?thesis using False by (simp add: digits.simps [of n] "1" digit_code)
  qed (simp add: digits.simps [of n] digit_code)
qed

lemma digits_value_digits: "digits_value (digits n) = int n"
  using digits_are_digits [of n] foldl_digits [of n]
  by (simp add: digits_value_def list_all_iff takeWhile_eq_all_conv [THEN iffD2])

lemma signed_value_fmt_d: "signed_value (fmt_d n) = (n < 0, \<bar>n\<bar>)"
proof (cases "n < 0")
  case True
  then show ?thesis
    by (simp add: signed_value_def fmt_d_def is_space_def digits_value_digits)
next
  case False
  obtain c cs where d: "digits (nat n) = c # cs" by (meson digits_nonempty list.exhaust)
  have "is_digit c" using digits_are_digits [of "nat n"] by (simp add: d)
  then have "\<not> is_space c" "c \<noteq> CHR ''-''" "c \<noteq> CHR ''+''" by (auto simp: is_digit_def is_space_def)
  then show ?thesis
    using False digits_value_digits [of "nat n"] by (simp add: signed_value_def fmt_d_def d)
qed

text \<open>Every 32 bit number in decimal notation, negative ones included, is read back as itself.\<close>

lemma atoi_fmt_d: "- (2 ^ 31) \<le> n \<Longrightarrow> n < 2 ^ 31 \<Longrightarrow> atoi (fmt_d n) = n"
  by (auto simp: atoi_def signed_value_fmt_d)

end
