(* ===== verification/Datagen_Main.thy ===== *)
theory Datagen_Main
  imports Datagen_Orders Command_Line
begin

text \<open>
  \<open>main\<close> of \<open>src/src/datagen.c\<close>: the command line, the checks on the settings, and the generators
  it calls. What \<open>getopt_long\<close> of the C library returns is the list of options, so that the model
  starts where the switch of the program does; whether a path is a directory and the random seed
  taken when none is given are parameters.
\<close>

section \<open>Options\<close>

text \<open>
  What \<open>getopt_long\<close> returns: a short option with its argument, a long option with its name and
  argument, or the character that stands for an error.
\<close>

datatype opt = Short char bytes | Long bytes bytes | Unknown

definition initial_settings :: datagen where
  "initial_settings = \<lparr>dg_warehouses = 0, dg_customers = CUSTOMER_CARDINALITY,
     dg_items = ITEM_CARDINALITY, dg_orders = ORDER_CARDINALITY,
     dg_new_orders = NEW_ORDER_CARDINALITY, mode_load = MODE_FLAT, mode_string = MODE_PGSQL,
     delimiter = CHR '','', null_str = [CHR 0x22] @ ''NULL'' @ [CHR 0x22], quoter = [],
     seed = 0, rows_per_commit = 0, table = TABLE_ALL, part = 1, partitions = 1,
     output_path = None\<rparr>"

definition table_of_name :: "bytes \<Rightarrow> int option" where
  "table_of_name s =
     (if s = ''warehouse'' then Some TABLE_WAREHOUSE
      else if s = ''district'' then Some TABLE_DISTRICT
      else if s = ''customer'' then Some TABLE_CUSTOMER
      else if s = ''item'' then Some TABLE_ITEM
      else if s = ''orders'' then Some TABLE_ORDER
      else if s = ''stock'' then Some TABLE_STOCK
      else if s = ''new_order'' then Some TABLE_NEW_ORDER
      else if s = ''history'' then Some TABLE_HISTORY
      else None)"

text \<open>
  A long option with a flag sets it in \<open>getopt_long\<close>. The code that follows looks at the names
  table, rows-per-commit and seed only.
\<close>

definition long_option :: "bytes \<Rightarrow> bytes \<Rightarrow> datagen \<Rightarrow> (int \<times> bytes) + datagen" where
  "long_option name optarg g0 =
     (let g = (if name = ''direct'' then g0\<lparr>mode_load := MODE_DIRECT\<rparr>
               else if name = ''pgsql'' then g0\<lparr>mode_string := MODE_PGSQL\<rparr>
               else if name = ''mysql'' then g0\<lparr>mode_string := MODE_MYSQL\<rparr>
               else g0)
      in if name = ''table'' then
           (case table_of_name optarg of
              Some t \<Rightarrow> Inr (g\<lparr>table := t\<rparr>)
            | None \<Rightarrow> Inl (2, ''unknown table: '' @ optarg @ newline))
         else if name = ''rows-per-commit'' then Inr (g\<lparr>rows_per_commit := strtoull optarg\<rparr>)
         else if name = ''seed'' then Inr (g\<lparr>seed := strtoull optarg\<rparr>)
         else Inr g)"

definition strip_slash :: "bytes \<Rightarrow> bytes" where
  "strip_slash s = (if s \<noteq> [] \<and> last s = CHR ''/'' then butlast s else s)"

definition short_option :: "char \<Rightarrow> bytes \<Rightarrow> datagen \<Rightarrow> (int \<times> bytes) + datagen" where
  "short_option c optarg g =
     (if c = CHR ''c'' then Inr (g\<lparr>dg_customers := atoi optarg\<rparr>)
      else if c = CHR ''d'' then Inr (g\<lparr>output_path := Some (strip_slash optarg)\<rparr>)
      else if c = CHR ''i'' then Inr (g\<lparr>dg_items := atoi optarg\<rparr>)
      else if c = CHR ''n'' then Inr (g\<lparr>dg_new_orders := atoi optarg\<rparr>)
      else if c = CHR ''o'' then Inr (g\<lparr>dg_orders := atoi optarg\<rparr>)
      else if c = CHR ''P'' then
        (let n = atoi optarg in
         if n < 1 then Inl (2, ''number of partitions must be at least 1'' @ newline)
         else if n > MAX_PARTITIONS then
           Inl (2, ''number of partitions must not be greater than '' @ fmt_d MAX_PARTITIONS @ newline)
         else Inr (g\<lparr>partitions := n\<rparr>))
      else if c = CHR ''p'' then
        (let n = atoi optarg in
         if n < 1 then Inl (2, ''the part to generate must start at 1'' @ newline)
         else Inr (g\<lparr>part := n\<rparr>))
      else if c = CHR ''w'' then Inr (g\<lparr>dg_warehouses := atoi optarg\<rparr>)
      else Inl (2, ''?? getopt returned character code 077 ??'' @ newline))"

fun parse_options :: "opt list \<Rightarrow> datagen \<Rightarrow> (int \<times> bytes) + datagen" where
  "parse_options [] g = Inr g"
| "parse_options (x # xs) g =
     (case (case x of Short c a \<Rightarrow> short_option c a g | Long n a \<Rightarrow> long_option n a g
            | Unknown \<Rightarrow> Inl (2, ''?? getopt returned character code 077 ??'' @ newline)) of
        Inl err \<Rightarrow> Inl err
      | Inr g' \<Rightarrow> parse_options xs g')"

section \<open>Checks\<close>

definition check_settings :: "(bytes \<Rightarrow> bool) \<Rightarrow> datagen \<Rightarrow> (int \<times> bytes) + datagen" where
  "check_settings is_dir g =
     (if mode_string g \<noteq> MODE_MYSQL \<and> mode_string g \<noteq> MODE_PGSQL then
        Inl (5, ''unknown string mode: '' @ fmt_d (mode_string g) @ newline)
      else if part g > partitions g then
        Inl (3, ''the part to generate must not be greater than the number of partitions: '' @
             fmt_d (partitions g) @ newline)
      else if dg_warehouses g = 0 then Inl (3, ''-w must be used'' @ newline)
      else if (case output_path g of None \<Rightarrow> False | Some p \<Rightarrow> \<not> is_dir p) then
        Inl (3, ''Output directory of data files '' @ quote @ the (output_path g) @ quote @
             '' not exists'' @ newline)
      else if mode_load g = MODE_DIRECT \<and> mode_string g = MODE_MYSQL then
        Inl (4, ''the rdbms select does not support direct loading'' @ newline)
      else if rows_per_commit g \<noteq> 0 \<and> mode_load g \<noteq> MODE_DIRECT then
        Inl (4, ''--rows-per-commit can only be used with --direct'' @ newline)
      else Inr (if mode_string g = MODE_PGSQL \<or> mode_string g = MODE_MYSQL
                then g\<lparr>delimiter := tab, null_str := []\<rparr> else g))"

section \<open>Running the generators\<close>

definition selected :: "datagen \<Rightarrow> int \<Rightarrow> bool" where
  "selected g t \<longleftrightarrow> table g = TABLE_ALL \<or> table g = t"

definition generators :: "datagen \<Rightarrow> (env \<Rightarrow> datagen \<Rightarrow> outcome) list" where
  "generators g =
     (if selected g TABLE_ITEM then [gen_items] else []) @
     (if selected g TABLE_WAREHOUSE then [gen_warehouses] else []) @
     (if selected g TABLE_STOCK then [gen_stock] else []) @
     (if selected g TABLE_DISTRICT then [gen_districts] else []) @
     (if selected g TABLE_CUSTOMER then [gen_customers] else []) @
     (if selected g TABLE_HISTORY then [gen_history] else []) @
     (if selected g TABLE_ORDER then [gen_orders] else []) @
     (if selected g TABLE_NEW_ORDER then [gen_new_orders] else [])"

text \<open>
  What the process does: its exit status, what it printed and the streams it wrote. Of a generator
  that exits only the status is represented.
\<close>

datatype process = Process (exit_status: int) (printed: bytes) (written_files: "(sink \<times> bytes) list")
  | Undefined_behaviour

fun run_generators :: "env \<Rightarrow> datagen \<Rightarrow> (env \<Rightarrow> datagen \<Rightarrow> outcome) list \<Rightarrow> bytes \<Rightarrow>
    (sink \<times> bytes) list \<Rightarrow> process" where
  "run_generators e g [] out fs = Process 0 out fs"
| "run_generators e g (f # rest) out fs = (case f e g of
     Done c ss \<Rightarrow> run_generators e g rest (out @ c) (fs @ ss)
   | Undefined \<Rightarrow> Undefined_behaviour
   | Exit n \<Rightarrow> Process n out fs)"

definition settings_text :: "datagen \<Rightarrow> bytes" where
  "settings_text g =
     ''seed = '' @ fmt_d (uint (seed g)) @ newline @
     ''total partitions = '' @ fmt_d (partitions g) @ newline @
     ''part = '' @ fmt_d (part g) @ newline @
     ''warehouses = '' @ fmt_d (dg_warehouses g) @ newline @
     ''districts = '' @ fmt_d DISTRICT_CARDINALITY @ newline @
     ''customers = '' @ fmt_d (dg_customers g) @ newline @
     ''items = '' @ fmt_d (dg_items g) @ newline @
     ''orders = '' @ fmt_d (dg_orders g) @ newline @
     ''stock = '' @ fmt_d (dg_items g) @ newline @
     ''new_orders = '' @ fmt_d (dg_new_orders g) @ newline @ newline @
     (if mode_load g \<noteq> MODE_DIRECT then
        (case output_path g of
           Some p \<Rightarrow> ''Output directory of data files: '' @ p @ newline
         | None \<Rightarrow> ''Output directory of data files: current directory'' @ newline) @ newline
      else []) @
     ''Generating data files for '' @ fmt_d (dg_warehouses g) @ '' warehouse(s)...'' @ newline"

text \<open>The text that \<open>usage\<close> prints when there are no arguments is a parameter here.\<close>

definition datagen_main ::
    "env \<Rightarrow> (bytes \<Rightarrow> bool) \<Rightarrow> 64 word \<Rightarrow> bytes \<Rightarrow> nat \<Rightarrow> opt list \<Rightarrow> process" where
  "datagen_main e is_dir entropy usage argc opts =
     (if argc < 2 then Process 1 usage []
      else case parse_options opts initial_settings of
        Inl (n, msg) \<Rightarrow> Process n msg []
      | Inr g0 \<Rightarrow> (case check_settings is_dir g0 of
            Inl (n, msg) \<Rightarrow> Process n msg []
          | Inr g1 \<Rightarrow>
              let g = (if seed g1 = 0 then g1\<lparr>seed := entropy\<rparr> else g1)
              in run_generators e g (generators g) (settings_text g) []))"

section \<open>Only complete settings reach the generators\<close>

text \<open>What holds throughout the parsing of the options.\<close>

definition parsed :: "datagen \<Rightarrow> bool" where
  "parsed g \<longleftrightarrow> mode_load g \<in> {MODE_FLAT, MODE_DIRECT} \<and> mode_string g \<in> {MODE_PGSQL, MODE_MYSQL} \<and>
     1 \<le> part g \<and> 1 \<le> partitions g \<and> partitions g \<le> MAX_PARTITIONS \<and> quoter g = []"

lemma parsed_initial: "parsed initial_settings"
  by (simp add: parsed_def initial_settings_def MAX_PARTITIONS_def)

lemma parsed_long: "parsed g \<Longrightarrow> long_option n a g = Inr g' \<Longrightarrow> parsed g'"
  by (auto simp: parsed_def long_option_def Let_def split: if_splits option.splits)

lemma parsed_short: "parsed g \<Longrightarrow> short_option c a g = Inr g' \<Longrightarrow> parsed g'"
  by (auto simp: parsed_def short_option_def Let_def split: if_splits)

lemma parsed_options: "parse_options opts g = Inr g' \<Longrightarrow> parsed g \<Longrightarrow> parsed g'"
proof (induction opts arbitrary: g)
  case (Cons x xs)
  then show ?case
    by (cases x) (auto intro: parsed_long parsed_short split: sum.splits)
qed simp

text \<open>What \<open>check_settings\<close> adds.\<close>

definition accepted :: "datagen \<Rightarrow> bool" where
  "accepted g \<longleftrightarrow> plain_format g \<and> null_str g = [] \<and> 1 \<le> part g \<and> part g \<le> partitions g \<and>
     partitions g \<le> MAX_PARTITIONS \<and> dg_warehouses g \<noteq> 0 \<and>
     (mode_load g = MODE_FLAT \<and> rows_per_commit g = 0 \<or> mode_load g = MODE_DIRECT \<and> mode_string g = MODE_PGSQL)"

lemma check_accepted: "check_settings is_dir g = Inr g' \<Longrightarrow> parsed g \<Longrightarrow> accepted g'"
  by (auto simp: check_settings_def parsed_def accepted_def plain_format_def mode_defs split: if_splits)

lemma open_output_stream: "accepted g \<Longrightarrow> open_output e g c base tbl \<noteq> NoStream msg"
  by (auto simp: accepted_def open_output_def mode_defs Let_def)

lemma write_table_defined: "(\<And>msg. out \<noteq> NoStream msg) \<Longrightarrow> write_table out g b m r f \<noteq> Undefined"
  by (auto simp: write_table_def Let_def split: opened.split)

lemma generators_defined:
  assumes "accepted g" "f \<in> set (generators g')"
  shows "f e g \<noteq> Undefined"
proof -
  note defined = write_table_defined [OF open_output_stream [OF assms(1)]]
  have "gen_orders e g \<noteq> Undefined"
    using open_output_stream [OF assms(1), of e] by (auto simp: gen_orders_def Let_def split: prod.split opened.split)
  moreover have "gen_items e g \<noteq> Undefined" "gen_warehouses e g \<noteq> Undefined" "gen_stock e g \<noteq> Undefined"
    "gen_districts e g \<noteq> Undefined" "gen_customers e g \<noteq> Undefined" "gen_history e g \<noteq> Undefined"
    "gen_new_orders e g \<noteq> Undefined"
    by (simp_all add: gen_items_def gen_warehouses_def gen_stock_def gen_districts_def gen_customers_def
        gen_history_def gen_new_orders_def Let_def defined split: prod.split)
  ultimately show ?thesis using assms(2) by (auto simp: generators_def split: if_splits)
qed

lemma run_generators_defined:
  "(\<And>f. f \<in> set fs \<Longrightarrow> f e g \<noteq> Undefined) \<Longrightarrow> run_generators e g fs out ss \<noteq> Undefined_behaviour"
  by (induction fs arbitrary: out ss) (auto split: outcome.split)

text \<open>The settings with which the generators run, whatever the command line: the delimiter is a
  tab, NULL is empty, the part lies within the partitions, a direct load is one into PostgreSQL and
  commits between rows only happen in a direct load.\<close>
theorem accepted_settings:
  assumes "parse_options opts initial_settings = Inr g0" "check_settings is_dir g0 = Inr g"
  shows "accepted g"
  using check_accepted [OF assms(2) parsed_options [OF assms(1) parsed_initial]] .

theorem accepted_settings_witness:
  "accepted (initial_settings\<lparr>dg_warehouses := 3, delimiter := tab, null_str := []\<rparr>)"
proof -
  have "atoi ''3'' = 3" by code_simp
  then have "parse_options [Short (CHR ''w'') ''3''] initial_settings = Inr (initial_settings\<lparr>dg_warehouses := 3\<rparr>)"
    by (simp add: short_option_def)
  moreover have "check_settings (\<lambda>_. True) (initial_settings\<lparr>dg_warehouses := 3\<rparr>) =
      Inr (initial_settings\<lparr>dg_warehouses := 3, delimiter := tab, null_str := []\<rparr>)"
    by (simp add: check_settings_def initial_settings_def mode_defs)
  ultimately show ?thesis by (rule accepted_settings)
qed

text \<open>C38: No command line makes the program write through a stream it has not opened: it either
  exits with a status or completes.\<close>
theorem datagen_defined: "datagen_main e is_dir entropy usage argc opts \<noteq> Undefined_behaviour"
proof -
  have "accepted g \<Longrightarrow> run_generators e g' (generators g') out ss \<noteq> Undefined_behaviour"
    if "g' = (if seed g = 0 then g\<lparr>seed := entropy\<rparr> else g)" for g g' out ss
  proof (rule run_generators_defined, rule generators_defined)
    assume "accepted g"
    then show "accepted g'" using that by (auto simp: accepted_def plain_format_def)
  qed
  then show ?thesis
    using check_accepted parsed_options [OF _ parsed_initial]
    by (auto simp: datagen_main_def Let_def split: sum.split)
qed

text \<open>The long options \<open>--part\<close> and \<open>--partitions\<close>, which the usage text lists beside \<open>-p\<close> and
  \<open>-P\<close>, are accepted and have no effect at all, whatever their argument.\<close>
theorem part_options_ignored:
  "parse_options (Long ''part'' p # Long ''partitions'' P # opts) g = parse_options opts g"
  by (simp add: long_option_def)

text \<open>The numeric options take every 32 bit number in decimal notation as it is written: the
  cardinalities accept any, also zero and negative ones, while a part must be positive and the
  number of partitions lie between 1 and 9999, so that the suffix of a file name has at most four
  digits.\<close>
theorem numeric_options:
  assumes "- (2 ^ 31) \<le> n" "n < 2 ^ 31"
  shows "parse_options [Short (CHR ''w'') (fmt_d n), Short (CHR ''c'') (fmt_d n), Short (CHR ''i'') (fmt_d n),
      Short (CHR ''o'') (fmt_d n), Short (CHR ''n'') (fmt_d n)] g =
      Inr (g\<lparr>dg_warehouses := n, dg_customers := n, dg_items := n, dg_orders := n, dg_new_orders := n\<rparr>) \<and>
    (parse_options [Short (CHR ''p'') (fmt_d n)] g = Inr (g\<lparr>part := n\<rparr>)) = (1 \<le> n) \<and>
    (parse_options [Short (CHR ''P'') (fmt_d n)] g = Inr (g\<lparr>partitions := n\<rparr>)) = (1 \<le> n \<and> n \<le> 9999)"
  by (simp add: short_option_def atoi_fmt_d [OF assms] MAX_PARTITIONS_def Let_def not_less)

theorem numeric_options_witness:
  "parse_options [Short (CHR ''P'') (fmt_d 12)] initial_settings = Inr (initial_settings\<lparr>partitions := 12\<rparr>)"
  using numeric_options [of 12 initial_settings] by simp

end
