(* ===== verification/Input_Data.thy ===== *)
theory Input_Data
  imports Common
begin

text \<open>
  \<open>src/src/input_data_generator.c\<close>: the input of the five transactions, as a terminal of the driver
  generates it from its own random numbers. A structure is represented by its input fields; the
  output fields are cleared by \<open>memset\<close> and written by the databases only. The table cardinalities
  and \<open>mode_altered\<close>, which are global variables of the driver, are arguments.
\<close>

section \<open>Structures\<close>

definition O_CARRIER_ID_MAX :: int where "O_CARRIER_ID_MAX = 10"
definition D_ID_MAX :: int where "D_ID_MAX = 10"
definition O_OL_CNT_MAX :: nat where "O_OL_CNT_MAX = 15"
definition C_ID_UNKNOWN :: int where "C_ID_UNKNOWN = 0"
definition C_LAST_LEN :: nat where "C_LAST_LEN = 16"

lemmas limit_defs = O_CARRIER_ID_MAX_def D_ID_MAX_def O_OL_CNT_MAX_def C_ID_UNKNOWN_def C_LAST_LEN_def

record delivery_t =
  dl_w_id :: int
  dl_o_carrier_id :: int

record no_order_line_t =
  ol_i_id :: int
  ol_supply_w_id :: int
  ol_quantity :: int

record new_order_t =
  no_w_id :: int
  no_d_id :: int
  no_c_id :: int
  no_o_ol_cnt :: int
  no_o_all_local :: int
  no_order_line :: "no_order_line_t list"

record payment_t =
  py_c_d_id :: int
  py_c_w_id :: int
  py_d_id :: int
  py_h_amount :: rat
  py_w_id :: int
  py_c_id :: int
  py_c_last :: "wchar_t list"

record order_status_t =
  os_c_d_id :: int
  os_c_w_id :: int
  os_c_id :: int
  os_c_last :: "wchar_t list"

record stock_level_t =
  sl_w_id :: int
  sl_d_id :: int
  sl_threshold :: int

record integrity_t =
  in_w_id :: int

datatype transaction_data_t =
    Delivery delivery_t
  | New_order new_order_t
  | Order_status order_status_t
  | Payment payment_t
  | Stock_level stock_level_t
  | Integrity integrity_t

section \<open>Generators\<close>

definition generate_delivery_data :: "int \<Rightarrow> (rng, delivery_t) state" where
  "generate_delivery_data w_id = do {
     r \<leftarrow> get_random O_CARRIER_ID_MAX;
     State_Monad.return \<lparr>dl_w_id = w_id, dl_o_carrier_id = cast_int r + 1\<rparr>
   }"

text \<open>
  A warehouse other than the home one, uniformly: a number from a range that is one smaller, moved
  up by one from the home warehouse on.
\<close>

definition other_warehouse :: "table_cardinality_t \<Rightarrow> int \<Rightarrow> (rng, int) state" where
  "other_warehouse tc w_id = do {
     r \<leftarrow> get_random (warehouses tc - 1);
     let w = cast_int (r + 1) in
     State_Monad.return (if w_id \<le> w then w + 1 else w)
   }"

definition order_line_data :: "table_cardinality_t \<Rightarrow> int \<Rightarrow> int \<Rightarrow> (rng, no_order_line_t) state" where
  "order_line_data tc mode_altered w_id = do {
     i_id \<leftarrow> get_nurand 8191 1 (items tc);
     supply \<leftarrow> (if warehouses tc > 1 then
         (if mode_altered = 1 then State_Monad.return w_id
          else do {
            r \<leftarrow> get_random 100;
            if r > 0 then State_Monad.return w_id else other_warehouse tc w_id
          })
       else State_Monad.return 1);
     q \<leftarrow> get_random 10;
     State_Monad.return \<lparr>ol_i_id = i_id, ol_supply_w_id = supply, ol_quantity = cast_int q + 1\<rparr>
   }"

fun order_lines_data ::
    "table_cardinality_t \<Rightarrow> int \<Rightarrow> int \<Rightarrow> nat list \<Rightarrow> no_order_line_t list \<Rightarrow>
     (rng, no_order_line_t list) state" where
  "order_lines_data tc mode_altered w_id [] lines = State_Monad.return lines"
| "order_lines_data tc mode_altered w_id (i # is) lines = do {
     x \<leftarrow> order_line_data tc mode_altered w_id;
     order_lines_data tc mode_altered w_id is (lines[i := x])
   }"

definition no_line :: no_order_line_t where
  "no_line = \<lparr>ol_i_id = 0, ol_supply_w_id = 0, ol_quantity = 0\<rparr>"

definition generate_new_order_data :: "table_cardinality_t \<Rightarrow> int \<Rightarrow> int \<Rightarrow> (rng, new_order_t) state" where
  "generate_new_order_data tc mode_altered w_id = do {
     d \<leftarrow> get_random D_ID_MAX;
     c \<leftarrow> get_nurand 1023 1 3000;
     n \<leftarrow> get_random 11;
     let cnt = cast_int n + 5 in do {
       lines \<leftarrow> order_lines_data tc mode_altered w_id [0..<nat cnt] (replicate O_OL_CNT_MAX no_line);
       bad \<leftarrow> get_random 100;
       State_Monad.return \<lparr>no_w_id = w_id, no_d_id = cast_int (d + 1), no_c_id = c,
         no_o_ol_cnt = cnt, no_o_all_local = 0,
         no_order_line = (if bad = 0
           then lines[nat (cnt - 1) := (lines ! nat (cnt - 1))\<lparr>ol_i_id := 0\<rparr>] else lines)\<rparr>
     }
   }"

text \<open>Customers are chosen by last name in 60 per cent of the cases.\<close>

definition select_customer :: "(rng, int \<times> wchar_t list) state" where
  "select_customer = do {
     r \<leftarrow> get_random 100;
     if r < 60 then do {
       n \<leftarrow> get_nurand 255 0 999;
       State_Monad.return (C_ID_UNKNOWN, snd (get_c_last n))
     } else do {
       c \<leftarrow> get_nurand 1023 1 3000;
       State_Monad.return (c, [])
     }
   }"

definition generate_order_status_data :: "int \<Rightarrow> (rng, order_status_t) state" where
  "generate_order_status_data w_id = do {
     d \<leftarrow> get_random D_ID_MAX;
     cust \<leftarrow> select_customer;
     State_Monad.return \<lparr>os_c_d_id = cast_int d + 1, os_c_w_id = w_id, os_c_id = fst cust,
       os_c_last = snd cust\<rparr>
   }"

definition generate_payment_data :: "table_cardinality_t \<Rightarrow> int \<Rightarrow> int \<Rightarrow> (rng, payment_t) state" where
  "generate_payment_data tc mode_altered w_id = do {
     d \<leftarrow> get_random D_ID_MAX;
     let d_id = cast_int d + 1 in do {
       cust \<leftarrow> select_customer;
       local \<leftarrow> (if mode_altered = 1 then State_Monad.return True
         else do { r \<leftarrow> get_random 100; State_Monad.return (r < 85) });
       home \<leftarrow> (if local then State_Monad.return (w_id, d_id)
         else do {
           c_d \<leftarrow> get_random D_ID_MAX;
           c_w \<leftarrow> (if warehouses tc > 1 then other_warehouse tc w_id else State_Monad.return 1);
           State_Monad.return (c_w, cast_int (c_d + 1))
         });
       h \<leftarrow> get_random 499901;
       State_Monad.return \<lparr>py_c_d_id = snd home, py_c_w_id = fst home, py_d_id = d_id,
         py_h_amount = fl (fl (of_int (h + 100)) / 100), py_w_id = w_id, py_c_id = fst cust,
         py_c_last = snd cust\<rparr>
     }
   }"

definition generate_stock_level_data :: "int \<Rightarrow> int \<Rightarrow> (rng, stock_level_t) state" where
  "generate_stock_level_data w_id d_id = do {
     t \<leftarrow> get_random 11;
     State_Monad.return \<lparr>sl_w_id = w_id, sl_d_id = d_id, sl_threshold = cast_int t + 10\<rparr>
   }"

definition generate_integrity_data :: "int \<Rightarrow> integrity_t" where
  "generate_integrity_data w_id = \<lparr>in_w_id = w_id\<rparr>"

text \<open>The status and, where it is OK, what the caller's buffer holds.\<close>

definition generate_input_data ::
    "table_cardinality_t \<Rightarrow> int \<Rightarrow> int \<Rightarrow> int \<Rightarrow> (rng, int \<times> transaction_data_t option) state" where
  "generate_input_data tc mode_altered type w_id =
     (if type = DELIVERY then do {
        d \<leftarrow> generate_delivery_data w_id; State_Monad.return (OK, Some (Delivery d)) }
      else if type = NEW_ORDER then do {
        d \<leftarrow> generate_new_order_data tc mode_altered w_id; State_Monad.return (OK, Some (New_order d)) }
      else if type = ORDER_STATUS then do {
        d \<leftarrow> generate_order_status_data w_id; State_Monad.return (OK, Some (Order_status d)) }
      else if type = PAYMENT then do {
        d \<leftarrow> generate_payment_data tc mode_altered w_id; State_Monad.return (OK, Some (Payment d)) }
      else if type = INTEGRITY then
        State_Monad.return (OK, Some (Integrity (generate_integrity_data w_id)))
      else State_Monad.return (ERROR, None))"

definition generate_input_data2 :: "int \<Rightarrow> int \<Rightarrow> int \<Rightarrow> (rng, int \<times> transaction_data_t option) state" where
  "generate_input_data2 type w_id d_id = do {
     d \<leftarrow> generate_stock_level_data w_id d_id;
     State_Monad.return (OK, Some (Stock_level d))
   }"

section \<open>What the databases may rely on\<close>

text \<open>The cardinalities of a database that the driver can be pointed at, and a home warehouse in it.\<close>

definition sane :: "table_cardinality_t \<Rightarrow> int \<Rightarrow> bool" where
  "sane tc w_id \<longleftrightarrow> 1 \<le> w_id \<and> w_id \<le> warehouses tc \<and> warehouses tc < 2 ^ 31 \<and>
     1 \<le> items tc \<and> items tc < 2 ^ 31"

definition customer_ok :: "int \<Rightarrow> wchar_t list \<Rightarrow> bool" where
  "customer_ok c_id c_last \<longleftrightarrow>
     c_id = C_ID_UNKNOWN \<and> (\<exists>n. 0 \<le> n \<and> n \<le> 999 \<and> c_last = snd (get_c_last n)) \<or>
     1 \<le> c_id \<and> c_id \<le> 3000 \<and> c_last = []"

definition line_ok :: "table_cardinality_t \<Rightarrow> int \<Rightarrow> no_order_line_t \<Rightarrow> bool" where
  "line_ok tc w_id l \<longleftrightarrow> 1 \<le> ol_i_id l \<and> ol_i_id l \<le> items tc \<and>
     1 \<le> ol_supply_w_id l \<and> ol_supply_w_id l \<le> warehouses tc \<and> 1 \<le> ol_quantity l \<and> ol_quantity l \<le> 10"

lemma other_warehouse_range:
  assumes "sane tc w_id" "1 < warehouses tc"
  shows "yields (\<lambda>w. 1 \<le> w \<and> w \<le> warehouses tc \<and> w \<noteq> w_id) (other_warehouse tc w_id)"
  unfolding other_warehouse_def Let_def
  by (rule yields_bind [OF get_random_range]) (use assms in \<open>auto simp: sane_def intro!: yields_return\<close>)

lemma order_line_data_ok:
  assumes "sane tc w_id"
  shows "yields (\<lambda>l. line_ok tc w_id l \<and> (mode_altered = 1 \<longrightarrow> ol_supply_w_id l = w_id))
    (order_line_data tc mode_altered w_id)"
proof -
  have supp: "yields (\<lambda>s. 1 \<le> s \<and> s \<le> warehouses tc \<and> (mode_altered = 1 \<longrightarrow> s = w_id))
      (if warehouses tc > 1 then
         (if mode_altered = 1 then State_Monad.return w_id
          else do {
            r \<leftarrow> get_random 100;
            if r > 0 then State_Monad.return w_id else other_warehouse tc w_id
          })
       else State_Monad.return 1)"
    using assms
    by (auto simp: sane_def intro!: yields_return yields_bind [OF get_random_range]
        yields_mono [OF other_warehouse_range [OF assms]])
  have its: "yields (\<lambda>i. 1 \<le> i \<and> i \<le> items tc) (get_nurand 8191 1 (items tc))"
    using assms by (intro get_nurand_range) (simp_all add: sane_def)
  show ?thesis unfolding order_line_data_def
    by (rule yields_bind [OF its], rule yields_bind [OF supp], rule yields_bind [OF get_random_range])
       (auto simp: line_ok_def intro!: yields_return)
qed

lemma order_lines_data_ok:
  assumes "sane tc w_id" "distinct is" "set is \<subseteq> {..<length lines}"
  shows "yields (\<lambda>ls. length ls = length lines \<and>
      (\<forall>i < length lines. if i \<in> set is then line_ok tc w_id (ls ! i) \<and>
         (mode_altered = 1 \<longrightarrow> ol_supply_w_id (ls ! i) = w_id) else ls ! i = lines ! i))
    (order_lines_data tc mode_altered w_id is lines)"
  using assms(2,3)
proof (induction "is" arbitrary: lines)
  case (Cons i "is")
  show ?case unfolding order_lines_data.simps
  proof (rule yields_bind [OF order_line_data_ok [OF assms(1)]])
    fix l
    assume l: "line_ok tc w_id l \<and> (mode_altered = 1 \<longrightarrow> ol_supply_w_id l = w_id)"
    have "i \<notin> set is" "i < length lines" "distinct is" "set is \<subseteq> {..<length (lines[i := l])}"
      using Cons.prems by auto
    with l show "yields (\<lambda>ls. length ls = length lines \<and>
      (\<forall>j < length lines. if j \<in> set (i # is) then line_ok tc w_id (ls ! j) \<and>
         (mode_altered = 1 \<longrightarrow> ol_supply_w_id (ls ! j) = w_id) else ls ! j = lines ! j))
      (order_lines_data tc mode_altered w_id is (lines[i := l]))"
      by (intro yields_mono [OF Cons.IH]) (auto simp: nth_list_update split: if_splits)
  qed
qed (simp add: yields_return)

definition new_order_ok :: "table_cardinality_t \<Rightarrow> int \<Rightarrow> int \<Rightarrow> new_order_t \<Rightarrow> bool" where
  "new_order_ok tc mode_altered w_id d \<longleftrightarrow>
     no_w_id d = w_id \<and> 1 \<le> no_d_id d \<and> no_d_id d \<le> 10 \<and> 1 \<le> no_c_id d \<and> no_c_id d \<le> 3000 \<and>
     5 \<le> no_o_ol_cnt d \<and> no_o_ol_cnt d \<le> 15 \<and> length (no_order_line d) = O_OL_CNT_MAX \<and>
     (\<forall>i < 15. let l = no_order_line d ! i in
        if int i < no_o_ol_cnt d then
          (line_ok tc w_id l \<or> int i = no_o_ol_cnt d - 1 \<and> ol_i_id l = 0 \<and> line_ok tc w_id (l\<lparr>ol_i_id := 1\<rparr>)) \<and>
          (mode_altered = 1 \<longrightarrow> ol_supply_w_id l = w_id)
        else l = no_line)"

definition payment_ok :: "table_cardinality_t \<Rightarrow> int \<Rightarrow> int \<Rightarrow> payment_t \<Rightarrow> bool" where
  "payment_ok tc mode_altered w_id d \<longleftrightarrow>
     py_w_id d = w_id \<and> 1 \<le> py_d_id d \<and> py_d_id d \<le> 10 \<and> 1 \<le> py_c_d_id d \<and> py_c_d_id d \<le> 10 \<and>
     1 \<le> py_c_w_id d \<and> py_c_w_id d \<le> warehouses tc \<and> 1 \<le> py_h_amount d \<and> py_h_amount d \<le> 5000 \<and>
     customer_ok (py_c_id d) (py_c_last d) \<and>
     (py_c_w_id d = w_id \<longrightarrow> py_c_d_id d = py_d_id d \<or> warehouses tc = 1) \<and>
     (mode_altered = 1 \<longrightarrow> py_c_w_id d = w_id \<and> py_c_d_id d = py_d_id d)"

definition order_status_ok :: "int \<Rightarrow> order_status_t \<Rightarrow> bool" where
  "order_status_ok w_id d \<longleftrightarrow> os_c_w_id d = w_id \<and> 1 \<le> os_c_d_id d \<and> os_c_d_id d \<le> 10 \<and>
     customer_ok (os_c_id d) (os_c_last d)"

definition transaction_ok :: "table_cardinality_t \<Rightarrow> int \<Rightarrow> int \<Rightarrow> transaction_data_t \<Rightarrow> bool" where
  "transaction_ok tc mode_altered w_id d = (case d of
     Delivery x \<Rightarrow> dl_w_id x = w_id \<and> 1 \<le> dl_o_carrier_id x \<and> dl_o_carrier_id x \<le> 10
   | New_order x \<Rightarrow> new_order_ok tc mode_altered w_id x
   | Order_status x \<Rightarrow> order_status_ok w_id x
   | Payment x \<Rightarrow> payment_ok tc mode_altered w_id x
   | Stock_level x \<Rightarrow> sl_w_id x = w_id \<and> 10 \<le> sl_threshold x \<and> sl_threshold x \<le> 20
   | Integrity x \<Rightarrow> in_w_id x = w_id)"

lemma delivery_data_ok:
  "yields (\<lambda>d. dl_w_id d = w_id \<and> 1 \<le> dl_o_carrier_id d \<and> dl_o_carrier_id d \<le> 10)
    (generate_delivery_data w_id)"
  unfolding generate_delivery_data_def limit_defs
  by (rule yields_bind [OF get_random_range]) (auto intro!: yields_return)

lemma new_order_data_ok:
  assumes "sane tc w_id"
  shows "yields (new_order_ok tc mode_altered w_id) (generate_new_order_data tc mode_altered w_id)"
proof -
  have lines: "yields (\<lambda>ls. length ls = 15 \<and> (\<forall>i < 15. if i < nat (cast_int n + 5) then
      line_ok tc w_id (ls ! i) \<and> (mode_altered = 1 \<longrightarrow> ol_supply_w_id (ls ! i) = w_id) else ls ! i = no_line))
      (order_lines_data tc mode_altered w_id [0..<nat (cast_int n + 5)] (replicate O_OL_CNT_MAX no_line))"
    if "0 \<le> n \<and> n < 11" for n
    using that by (intro yields_mono [OF order_lines_data_ok [OF assms]]) (auto simp: limit_defs)
  have c: "yields (\<lambda>r. 1 \<le> r \<and> r \<le> 3000) (get_nurand 1023 1 3000)" by (intro get_nurand_range) simp_all
  show ?thesis
    unfolding generate_new_order_data_def Let_def D_ID_MAX_def
  proof (rule yields_bind [OF get_random_range [of 10]], simp, simp, rule yields_bind [OF c],
      rule yields_bind [OF get_random_range [of 11]], simp, simp, rule yields_bind [OF lines], assumption,
      rule yields_bind [OF get_random_range [of 100]], simp, simp, rule yields_return)
    fix d c n ls bad
    let ?cnt = "cast_int n + 5"
    assume d: "0 \<le> d \<and> d < (10 :: int)" and c: "1 \<le> c \<and> c \<le> (3000 :: int)" and n: "0 \<le> n \<and> n < (11 :: int)"
      and ls: "length ls = 15 \<and> (\<forall>i < 15. if i < nat ?cnt then line_ok tc w_id (ls ! i) \<and>
        (mode_altered = 1 \<longrightarrow> ol_supply_w_id (ls ! i) = w_id) else ls ! i = no_line)"
    have cnt: "5 \<le> ?cnt" "?cnt \<le> 15" using n by auto
    let ?ls = "if bad = 0 then ls[nat (?cnt - 1) := (ls ! nat (?cnt - 1))\<lparr>ol_i_id := 0\<rparr>] else ls"
    have "let l = ?ls ! i in
        if int i < ?cnt then
          (line_ok tc w_id l \<or> int i = ?cnt - 1 \<and> ol_i_id l = 0 \<and> line_ok tc w_id (l\<lparr>ol_i_id := 1\<rparr>)) \<and>
          (mode_altered = 1 \<longrightarrow> ol_supply_w_id l = w_id)
        else l = no_line" if i: "i < 15" for i
    proof (cases "bad = 0 \<and> i = nat (?cnt - 1)")
      case True
      then have e: "?ls ! i = (ls ! i)\<lparr>ol_i_id := 0\<rparr>" "int i = ?cnt - 1" using ls i cnt by simp_all
      have "line_ok tc w_id (ls ! i) \<and> (mode_altered = 1 \<longrightarrow> ol_supply_w_id (ls ! i) = w_id)"
        using ls i e(2) by auto
      then show ?thesis unfolding e(1) Let_def using e(2) assms by (simp add: line_ok_def sane_def)
    next
      case False
      then have e: "?ls ! i = ls ! i" by auto
      have "i < nat ?cnt \<longleftrightarrow> int i < ?cnt" by linarith
      then show ?thesis unfolding e Let_def using ls i by simp
    qed
    moreover have "length ?ls = O_OL_CNT_MAX" using ls by (simp add: limit_defs)
    ultimately show "new_order_ok tc mode_altered w_id \<lparr>no_w_id = w_id, no_d_id = cast_int (d + 1), no_c_id = c,
         no_o_ol_cnt = ?cnt, no_o_all_local = 0, no_order_line = ?ls\<rparr>"
      unfolding new_order_ok_def new_order_t.select_convs using d c cnt by simp
  qed
qed

lemma select_customer_ok: "yields (\<lambda>(c, l). customer_ok c l) select_customer"
proof -
  have "yields (\<lambda>r. 0 \<le> r \<and> r \<le> 999) (get_nurand 255 0 999)"
    "yields (\<lambda>r. 1 \<le> r \<and> r \<le> 3000) (get_nurand 1023 1 3000)"
    by (intro get_nurand_range; simp)+
  then show ?thesis unfolding select_customer_def
    by (intro yields_bind [OF get_random_range])
       (auto elim!: yields_bind intro!: yields_return simp: customer_ok_def)
qed

lemma order_status_data_ok: "yields (order_status_ok w_id) (generate_order_status_data w_id)"
  unfolding generate_order_status_data_def limit_defs
  by (rule yields_bind [OF get_random_range], simp, simp, rule yields_bind [OF select_customer_ok])
     (auto intro!: yields_return simp: order_status_ok_def)

lemma amount_range: "0 \<le> h \<Longrightarrow> h < 499901 \<Longrightarrow> 1 \<le> fl (fl (of_int (h + 100)) / 100) \<and> fl (fl (of_int (h + 100)) / 100) \<le> 5000"
proof -
  assume h: "0 \<le> h" "h < 499901"
  have "fl (of_int (h + 100)) = of_int (h + 100)" using h by (intro fl_of_int) simp
  moreover have "1 \<le> (of_int (h + 100) :: rat) / 100" "(of_int (h + 100) :: rat) / 100 \<le> 5000"
    using h by (simp_all add: divide_simps)
  moreover have "is_double 1" "is_double 5000" using is_double_of_int [of 1] is_double_of_int [of 5000] by simp_all
  ultimately show ?thesis by (metis fl_ge_double fl_le_double)
qed

lemma payment_data_ok:
  assumes "sane tc w_id"
  shows "yields (payment_ok tc mode_altered w_id) (generate_payment_data tc mode_altered w_id)"
proof -
  have local: "yields (\<lambda>b. mode_altered = 1 \<longrightarrow> b) (if mode_altered = 1 then State_Monad.return True
      else do { r \<leftarrow> get_random 100; State_Monad.return (r < 85) })"
    by (auto intro!: yields_return yields_bind [OF get_random_range])
  have home: "yields (\<lambda>(w, d). if b then w = w_id \<and> d = d_id else 1 \<le> w \<and> w \<le> warehouses tc \<and>
        1 \<le> d \<and> d \<le> 10 \<and> (w = w_id \<longrightarrow> warehouses tc = 1))
      (if b then State_Monad.return (w_id, d_id)
       else do {
         c_d \<leftarrow> get_random D_ID_MAX;
         c_w \<leftarrow> (if warehouses tc > 1 then other_warehouse tc w_id else State_Monad.return 1);
         State_Monad.return (c_w, cast_int (c_d + 1))
       })" for b d_id
  proof -
    have w: "yields (\<lambda>w. 1 \<le> w \<and> w \<le> warehouses tc \<and> (w = w_id \<longrightarrow> warehouses tc = 1))
        (if warehouses tc > 1 then other_warehouse tc w_id else State_Monad.return 1)"
      using assms by (auto simp: sane_def intro!: yields_return yields_mono [OF other_warehouse_range [OF assms]])
    show ?thesis
    proof (cases b)
      case False
      show ?thesis unfolding D_ID_MAX_def if_not_P [OF False]
        by (rule yields_bind [OF get_random_range], simp, simp, rule yields_bind [OF w])
           (auto intro!: yields_return)
    qed (simp add: yields_return)
  qed
  show ?thesis
    unfolding generate_payment_data_def Let_def D_ID_MAX_def
    by (rule yields_bind [OF get_random_range], simp, simp, rule yields_bind [OF select_customer_ok],
        rule yields_bind [OF local], rule yields_bind [OF home [unfolded D_ID_MAX_def]],
        rule yields_bind [OF get_random_range], simp, simp, rule yields_return)
       (use assms in \<open>auto simp: payment_ok_def sane_def amount_range [simplified] split: if_splits\<close>)
qed

lemma stock_level_data_ok:
  "yields (\<lambda>d. sl_w_id d = w_id \<and> sl_d_id d = d_id \<and> 10 \<le> sl_threshold d \<and> sl_threshold d \<le> 20)
    (generate_stock_level_data w_id d_id)"
  unfolding generate_stock_level_data_def
  by (rule yields_bind [OF get_random_range]) (auto intro!: yields_return)

lemma generate_input_data_ok:
  assumes "sane tc w_id" "type \<in> {DELIVERY, NEW_ORDER, ORDER_STATUS, PAYMENT, INTEGRITY}"
  shows "yields (\<lambda>(rc, d). rc = OK \<and> (\<exists>x. d = Some x \<and> transaction_ok tc mode_altered w_id x))
    (generate_input_data tc mode_altered type w_id)"
proof -
  consider "type = DELIVERY" | "type = NEW_ORDER" | "type = ORDER_STATUS" | "type = PAYMENT" | "type = INTEGRITY"
    using assms(2) by blast
  then show ?thesis
    by cases
       (simp_all add: generate_input_data_def transaction_defs,
        auto intro!: yields_return yields_bind [OF delivery_data_ok] yields_bind [OF new_order_data_ok [OF assms(1)]]
          yields_bind [OF order_status_data_ok] yields_bind [OF payment_data_ok [OF assms(1)]]
          simp: transaction_ok_def generate_integrity_data_def)
qed



text \<open>Choosing a remote warehouse by drawing from one fewer and skipping over the home warehouse
  reaches every other warehouse, and none twice: the number drawn determines the warehouse.\<close>
theorem other_warehouse_bijection:
  assumes "1 \<le> w_id" "w_id \<le> n"
  shows "bij_betw (\<lambda>r. if w_id \<le> r + 1 then r + 1 + 1 else r + 1) {0..<n - 1} ({1..n} - {w_id}) \<and>
    (run_state (get_random (n - 1)) s = (r, s') \<longrightarrow> n < 2 ^ 31 \<longrightarrow> 1 < n \<longrightarrow>
      fst (run_state (other_warehouse \<lparr>warehouses = n, districts = d, customers = c, items = i, orders = ob,
        new_orders = nb\<rparr> w_id) s) = (if w_id \<le> r + 1 then r + 1 + 1 else r + 1))"
proof (intro conjI impI)
  show "bij_betw (\<lambda>r. if w_id \<le> r + 1 then r + 1 + 1 else r + 1) {0..<n - 1} ({1..n} - {w_id})"
    using assms by (intro bij_betw_byWitness [where f' = "\<lambda>w. if w_id < w then w - 2 else w - 1"]) auto
  assume run: "run_state (get_random (n - 1)) s = (r, s')" and n: "n < 2 ^ 31" "1 < n"
  then have "0 \<le> r \<and> r < n - 1" using yieldsD [OF get_random_range [of "n - 1"], of s] by simp
  then show "fst (run_state (other_warehouse \<lparr>warehouses = n, districts = d, customers = c, items = i,
      orders = ob, new_orders = nb\<rparr> w_id) s) = (if w_id \<le> r + 1 then r + 1 + 1 else r + 1)"
    using run n by (simp add: other_warehouse_def Let_def)
qed

theorem other_warehouse_bijection_witness:
  "bij_betw (\<lambda>r. if (2 :: int) \<le> r + 1 then r + 1 + 1 else r + 1) {0..<2} ({1..3} - {2})"
  using other_warehouse_bijection [of 2 3] by simp

end
