(* ===== verification/Driver.thy ===== *)
theory Driver
  imports Input_Data
begin

text \<open>
  The driver: its settings (\<open>src/src/driver_common.c\<close>), the emulated terminals and the threads that
  run them (\<open>src/src/driver.c\<close>). A terminal is a loop that chooses a transaction, generates its
  input, waits, sends it to the client and logs the outcome. What the environment does in each
  round, the clock readings and the status in the reply, is an argument, and so is whether each
  call that starts or joins a thread succeeds.
\<close>

section \<open>Settings\<close>

record transaction_mix_t =
  delivery_actual :: rat
  new_order_actual :: rat
  payment_actual :: rat
  order_status_actual :: rat
  stock_level_actual :: rat
  delivery_threshold :: rat
  new_order_threshold :: rat
  payment_threshold :: rat
  order_status_threshold :: rat
  stock_level_threshold :: rat

record per_transaction =
  pt_delivery :: int
  pt_new_order :: int
  pt_order_status :: int
  pt_payment :: int
  pt_stock_level :: int

record driver =
  dr_cardinality :: table_cardinality_t
  dr_mix :: transaction_mix_t
  key_time :: per_transaction
  think_time :: per_transaction
  client_port :: int
  hostname :: bytes
  terminals_per_warehouse :: int
  duration :: int
  stop_time :: int
  w_id_min :: int
  w_id_max :: int
  terminals_limit :: int
  mode_altered :: int
  client_conn_sleep :: int
  spread :: int

definition MIX_DELIVERY :: rat where "MIX_DELIVERY = fl (4 / 100)"
definition MIX_ORDER_STATUS :: rat where "MIX_ORDER_STATUS = fl (4 / 100)"
definition MIX_PAYMENT :: rat where "MIX_PAYMENT = fl (43 / 100)"
definition MIX_STOCK_LEVEL :: rat where "MIX_STOCK_LEVEL = fl (4 / 100)"

text \<open>The globals as they are defined, before \<open>init_driver\<close>.\<close>

definition driver_globals :: "table_cardinality_t \<Rightarrow> driver" where
  "driver_globals tc = \<lparr>dr_cardinality = tc,
     dr_mix = \<lparr>delivery_actual = 0, new_order_actual = 0, payment_actual = 0, order_status_actual = 0,
       stock_level_actual = 0, delivery_threshold = 0, new_order_threshold = 0, payment_threshold = 0,
       order_status_threshold = 0, stock_level_threshold = 0\<rparr>,
     key_time = \<lparr>pt_delivery = 0, pt_new_order = 0, pt_order_status = 0, pt_payment = 0, pt_stock_level = 0\<rparr>,
     think_time = \<lparr>pt_delivery = 0, pt_new_order = 0, pt_order_status = 0, pt_payment = 0, pt_stock_level = 0\<rparr>,
     client_port = 30000, hostname = [], terminals_per_warehouse = 0, duration = 0, stop_time = 0,
     w_id_min = 0, w_id_max = 0, terminals_limit = 0, mode_altered = 0, client_conn_sleep = 1000,
     spread = 1\<rparr>"

definition init_driver :: "driver \<Rightarrow> int \<times> driver" where
  "init_driver d = (OK, d\<lparr>terminals_per_warehouse := districts (dr_cardinality d),
     dr_mix := (dr_mix d)\<lparr>delivery_actual := MIX_DELIVERY, order_status_actual := MIX_ORDER_STATUS,
       payment_actual := MIX_PAYMENT, stock_level_actual := MIX_STOCK_LEVEL\<rparr>,
     key_time := \<lparr>pt_delivery = 2, pt_new_order = 18, pt_order_status = 2, pt_payment = 3,
       pt_stock_level = 2\<rparr>,
     think_time := \<lparr>pt_delivery = 5000, pt_new_order = 12000, pt_order_status = 10000,
       pt_payment = 12000, pt_stock_level = 5000\<rparr>\<rparr>)"

definition recalculate_mix :: "transaction_mix_t \<Rightarrow> int \<times> transaction_mix_t" where
  "recalculate_mix m =
     (let new_order = fl (1 - fl (fl (fl (delivery_actual m + order_status_actual m) +
            payment_actual m) + stock_level_actual m));
          m1 = m\<lparr>new_order_actual := new_order\<rparr>
      in if new_order < 0 then (ERROR, m1)
         else (let t_p = fl (new_order + payment_actual m);
                   t_o = fl (t_p + order_status_actual m);
                   t_d = fl (t_o + delivery_actual m);
                   t_s = fl (t_d + stock_level_actual m)
               in (OK, m1\<lparr>new_order_threshold := new_order, payment_threshold := t_p,
                     order_status_threshold := t_o, delivery_threshold := t_d,
                     stock_level_threshold := t_s\<rparr>)))"

definition HOSTNAMELEN :: nat where "HOSTNAMELEN = 255"

definition set_client_hostname :: "bytes \<Rightarrow> driver \<Rightarrow> int \<times> driver" where
  "set_client_hostname addr d = (OK, d\<lparr>hostname := take HOSTNAMELEN addr\<rparr>)"

definition set_client_port :: "int \<Rightarrow> driver \<Rightarrow> int \<times> driver" where
  "set_client_port port d = (OK, d\<lparr>client_port := port\<rparr>)"

definition set_duration :: "int \<Rightarrow> driver \<Rightarrow> int \<times> driver" where
  "set_duration seconds d = (OK, d\<lparr>duration := seconds\<rparr>)"

definition set_table_cardinality :: "int \<Rightarrow> int \<Rightarrow> table_cardinality_t \<Rightarrow> int \<times> table_cardinality_t" where
  "set_table_cardinality tbl n tc =
     (if tbl = TABLE_WAREHOUSE then (OK, tc\<lparr>warehouses := n\<rparr>)
      else if tbl = TABLE_CUSTOMER then (OK, tc\<lparr>customers := n\<rparr>)
      else if tbl = TABLE_ITEM then (OK, tc\<lparr>items := n\<rparr>)
      else if tbl = TABLE_ORDER then (OK, tc\<lparr>orders := n\<rparr>)
      else if tbl = TABLE_NEW_ORDER then (OK, tc\<lparr>new_orders := n\<rparr>)
      else (ERROR, tc))"

definition set_transaction_mix :: "int \<Rightarrow> rat \<Rightarrow> transaction_mix_t \<Rightarrow> int \<times> transaction_mix_t" where
  "set_transaction_mix transaction mix m =
     (if transaction = DELIVERY then (OK, m\<lparr>delivery_actual := mix\<rparr>)
      else if transaction = NEW_ORDER then (OK, m\<lparr>new_order_actual := mix\<rparr>)
      else if transaction = ORDER_STATUS then (OK, m\<lparr>order_status_actual := mix\<rparr>)
      else if transaction = PAYMENT then (OK, m\<lparr>payment_actual := mix\<rparr>)
      else if transaction = STOCK_LEVEL then (OK, m\<lparr>stock_level_actual := mix\<rparr>)
      else (ERROR, m))"

section \<open>Choosing a transaction\<close>

text \<open>The transaction, its keying time in seconds and its mean think time in milliseconds.\<close>

definition choose_transaction :: "driver \<Rightarrow> rat \<Rightarrow> int \<times> int \<times> int" where
  "choose_transaction d threshold =
     (if threshold < new_order_threshold (dr_mix d) then
        (NEW_ORDER, pt_new_order (key_time d), pt_new_order (think_time d))
      else if payment_actual (dr_mix d) \<noteq> 0 \<and> threshold < payment_threshold (dr_mix d) then
        (PAYMENT, pt_payment (key_time d), pt_payment (think_time d))
      else if order_status_actual (dr_mix d) \<noteq> 0 \<and> threshold < order_status_threshold (dr_mix d) then
        (ORDER_STATUS, pt_order_status (key_time d), pt_order_status (think_time d))
      else if delivery_actual (dr_mix d) \<noteq> 0 \<and> threshold < delivery_threshold (dr_mix d) then
        (DELIVERY, pt_delivery (key_time d), pt_delivery (think_time d))
      else (STOCK_LEVEL, pt_stock_level (key_time d), pt_stock_level (think_time d)))"

section \<open>A terminal\<close>

text \<open>
  What the environment does in one round: the four readings of the clock, the status that the
  exchange with the client leaves in \<open>client_data\<close> (None if it leaves it as it was, since the
  results of sending and receiving are not looked at) and the response time measured.
\<close>

record round =
  t_keying :: int
  reply :: "int option"
  response_time :: rat
  t_log :: int
  t_thinking :: int
  t_loop :: int

record terminal =
  t_rng :: rng
  t_w_id :: int
  t_d_id :: int
  t_status :: int
  t_code :: char

text \<open>
  The counters \<open>terminal_state\<close> of the states executing and thinking, by transaction. The code that
  counts the keying state and the start of the executing state is commented out in the source.
\<close>

record counters =
  executing :: "int \<Rightarrow> int"
  thinking :: "int \<Rightarrow> int"

datatype event =
    Key int
  | Send int transaction_data_t
  | Log_line int int char rat int int
  | Think int int
  | Terminated

definition log_code :: "int \<Rightarrow> char \<Rightarrow> char" where
  "log_code rc code = (if rc = OK then CHR ''C''
     else if rc = STATUS_ROLLBACK then CHR ''R''
     else if rc = ERROR then CHR ''E'' else code)"

definition transaction_short_name :: "int \<Rightarrow> char" where
  "transaction_short_name t = ''dnops'' ! nat t"

text \<open>The line of the mix log that a log event stands for.\<close>

fun log_text :: "int \<Rightarrow> event \<Rightarrow> bytes" where
  "log_text tid (Log_line time transaction code rt w_id d_id) =
     fmt_d time @ '','' @ [transaction_short_name transaction] @ '','' @ [code] @ '','' @ fmt_f 6 rt @
     '','' @ fmt_d tid @ '','' @ fmt_d w_id @ '','' @ fmt_d d_id @ [char_of (10 :: nat)]"
| "log_text tid _ = []"

text \<open>The home warehouse and district of the round, the transaction and its input.\<close>

definition round_input ::
    "driver \<Rightarrow> int \<Rightarrow> int \<Rightarrow> (rng, int \<times> int \<times> (int \<times> int \<times> int) \<times> transaction_data_t option) state" where
  "round_input d w_id d_id = do {
     home \<leftarrow> (if mode_altered d = 1 then do {
         w \<leftarrow> get_random (w_id_max d - w_id_min d + 1);
         n \<leftarrow> get_random (districts (dr_cardinality d));
         State_Monad.return (w_id_min d + cast_int w, cast_int n + 1)
       } else State_Monad.return (w_id, d_id));
     threshold \<leftarrow> get_percentage;
     let chosen = choose_transaction d threshold in do {
       x \<leftarrow> (if fst chosen \<noteq> STOCK_LEVEL
         then generate_input_data (dr_cardinality d) (mode_altered d) (fst chosen) (fst home)
         else generate_input_data2 (fst chosen) (fst home) (snd home));
       State_Monad.return (fst home, snd home, chosen, snd x)
     }
   }"

text \<open>
  One round of the loop: whether the loop goes on, the terminal, the counters and what happened.
  Milliseconds of thinking are split into seconds and nanoseconds.
\<close>

definition think_event :: "int \<Rightarrow> event" where
  "think_event ms = Think (c_div ms 1000) (c_mod ms 1000 * 1000000)"

definition worker_round ::
    "(rat \<Rightarrow> rat) \<Rightarrow> driver \<Rightarrow> round \<Rightarrow> terminal \<Rightarrow> counters \<Rightarrow> bool \<times> terminal \<times> counters \<times> event list" where
  "worker_round log_c d rd t cs =
     (case run_state (round_input d (t_w_id t) (t_d_id t)) (t_rng t) of
        ((w_id, d_id, (transaction, keying_time, mean_think_time), input), r) \<Rightarrow>
        if \<not> t_keying rd < stop_time d then
          (False, t\<lparr>t_rng := r, t_w_id := w_id, t_d_id := d_id\<rparr>, cs, [])
        else
          let rc = (case reply rd of Some st \<Rightarrow> st | None \<Rightarrow> t_status t);
              code = log_code rc (t_code t);
              cs1 = cs\<lparr>executing := (executing cs)(transaction := executing cs transaction - 1)\<rparr>;
              cs2 = cs1\<lparr>thinking := (thinking cs1)(transaction := thinking cs1 transaction + 1)\<rparr>;
              (naps, r') = (if t_thinking rd < stop_time d
                 then (case run_state (get_think_time log_c mean_think_time) r of
                         (ms, r') \<Rightarrow> ([think_event ms], r'))
                 else ([], r));
              cs3 = cs2\<lparr>thinking := (thinking cs2)(transaction := thinking cs2 transaction - 1)\<rparr>
          in (t_loop rd < stop_time d,
              \<lparr>t_rng = r', t_w_id = w_id, t_d_id = d_id, t_status = rc, t_code = code\<rparr>, cs3,
              [Key keying_time, Send transaction (the input),
               Log_line (t_log rd) transaction code (response_time rd) w_id d_id] @ naps))"

text \<open>The loop, over the rounds that the environment has in store; None if it needs more.\<close>

fun worker_loop ::
    "(rat \<Rightarrow> rat) \<Rightarrow> driver \<Rightarrow> round list \<Rightarrow> terminal \<Rightarrow> counters \<Rightarrow> (terminal \<times> counters \<times> event list) option" where
  "worker_loop log_c d [] t cs = None"
| "worker_loop log_c d (rd # rds) t cs =
     (case worker_round log_c d rd t cs of (go_on, t', cs', es) \<Rightarrow>
        if go_on then
          (case worker_loop log_c d rds t' cs' of
             None \<Rightarrow> None
           | Some (t'', cs'', es') \<Rightarrow> Some (t'', cs'', es @ es'))
        else Some (t', cs', es @ [Terminated]))"

text \<open>A terminal that cannot connect ends at once; otherwise its generator is seeded from entropy.\<close>

definition terminal_worker ::
    "(rat \<Rightarrow> rat) \<Rightarrow> driver \<Rightarrow> 64 word \<Rightarrow> int \<Rightarrow> int \<Rightarrow> int \<times> int \<Rightarrow> round list \<Rightarrow> counters \<Rightarrow>
     (counters \<times> event list) option" where
  "terminal_worker log_c d local_seed sockfd status0 tc rds cs =
     (if sockfd < 1 then Some (cs, [])
      else case worker_loop log_c d rds
          \<lparr>t_rng = pcg64f_srandom_r (ucast local_seed), t_w_id = fst tc, t_d_id = snd tc,
           t_status = status0, t_code = CHR '' ''\<rparr> cs of
        None \<Rightarrow> None
      | Some (_, cs', es) \<Rightarrow> Some (cs', es))"

section \<open>Starting and joining the threads\<close>

record thread_env =
  row_ok :: "int \<Rightarrow> int \<Rightarrow> bool"
  attr_ok :: "int \<Rightarrow> int \<Rightarrow> bool"
  create_ok :: "int \<Rightarrow> int \<Rightarrow> bool"
  join_ok :: "int \<Rightarrow> int \<Rightarrow> bool"

type_synonym slot = "int \<times> int"

definition limit_hit :: "int \<Rightarrow> int \<Rightarrow> bool" where
  "limit_hit limit cnt \<longleftrightarrow> limit \<noteq> 0 \<and> limit < cnt"

text \<open>
  The rows of thread ids, \<open>for (i = w_id_min; i < w_id_max + 1; i += spread)\<close>: the rows allocated, or
  those before \<open>malloc\<close> fails, or a write below the start of \<open>g_tid\<close>. The step comes from the
  command line unchecked, so this loop and the next two may not end; None says so.
\<close>

datatype alloc = Rows "int list" | No_memory "int list" | Below_array

fun add_row :: "int \<Rightarrow> alloc \<Rightarrow> alloc" where
  "add_row i (Rows is) = Rows (i # is)"
| "add_row i (No_memory is) = No_memory (i # is)"
| "add_row i Below_array = Below_array"

partial_function (option) alloc_rows :: "thread_env \<Rightarrow> int \<Rightarrow> int \<Rightarrow> int \<Rightarrow> int \<Rightarrow> int \<Rightarrow> alloc option" where
  "alloc_rows te limit step mx i cnt =
     (if i < mx + 1 then
        (if i < 0 then Some Below_array
         else if \<not> row_ok te i cnt then Some (No_memory [])
         else if limit_hit limit cnt then Some (Rows [i])
         else Option.bind (alloc_rows te limit step mx (i + step) (cnt + 1)) (\<lambda>a. Some (add_row i a)))
      else Some (Rows []))"

text \<open>
  One round of the outer loop over the terminals of a warehouse, and the outer loop; \<open>ok\<close> is what a
  slot needs to succeed. Starting and joining the threads have the same shape. Inl stands for an
  error return after the slots of the list.
\<close>

fun add_slot :: "slot \<Rightarrow> slot list + int \<times> slot list \<Rightarrow> slot list + int \<times> slot list" where
  "add_slot s (Inl ss) = Inl (s # ss)"
| "add_slot s (Inr (cnt, ss)) = Inr (cnt, s # ss)"

partial_function (option) slots_row ::
    "(int \<Rightarrow> int \<Rightarrow> bool) \<Rightarrow> int \<Rightarrow> int \<Rightarrow> int \<Rightarrow> int \<Rightarrow> int \<Rightarrow> int \<Rightarrow> (slot list + int \<times> slot list) option" where
  "slots_row ok limit step mx j i cnt =
     (if i < mx + 1 then
        (if limit_hit limit cnt then Some (Inr (cnt, []))
         else if \<not> ok i j then Some (Inl [])
         else Option.bind (slots_row ok limit step mx j (i + step) (cnt + 1)) (\<lambda>r. Some (add_slot (i, j) r)))
      else Some (Inr (cnt, [])))"

fun slots_loop ::
    "(int \<Rightarrow> int \<Rightarrow> bool) \<Rightarrow> int \<Rightarrow> int \<Rightarrow> int \<Rightarrow> int \<Rightarrow> int list \<Rightarrow> int \<Rightarrow> (slot list + slot list) option" where
  "slots_loop ok limit step mn mx [] cnt = Some (Inr [])"
| "slots_loop ok limit step mn mx (j # js) cnt =
     (case slots_row ok limit step mx j mn cnt of
        None \<Rightarrow> None
      | Some (Inl ss) \<Rightarrow> Some (Inl ss)
      | Some (Inr (cnt', ss)) \<Rightarrow>
          if limit_hit limit cnt' then Some (Inr ss)
          else (case slots_loop ok limit step mn mx js cnt' of
                  None \<Rightarrow> None
                | Some (Inl ss') \<Rightarrow> Some (Inl (ss @ ss'))
                | Some (Inr ss') \<Rightarrow> Some (Inr (ss @ ss'))))"

definition context_of :: "slot \<Rightarrow> int \<times> int" where
  "context_of s = (fst s, snd s + 1)"

text \<open>
  The status, the rows allocated, the slots of the threads started and of the threads joined; or a
  write outside the array of rows.
\<close>

datatype driver_run =
    Returned (run_status: int) (run_rows: "int list") (run_started: "slot list") (run_joined: "slot list")
  | Bad_write

definition start_driver :: "thread_env \<Rightarrow> driver \<Rightarrow> driver_run option" where
  "start_driver te d =
     (let limit = terminals_limit d; step = spread d; mn = w_id_min d; mx = w_id_max d;
          js = [0..terminals_per_warehouse d - 1]
      in case alloc_rows te limit step mx mn 1 of
           None \<Rightarrow> None
         | Some Below_array \<Rightarrow> Some Bad_write
         | Some (No_memory rows) \<Rightarrow> Some (Returned ERROR rows [] [])
         | Some (Rows rows) \<Rightarrow>
             (case slots_loop (\<lambda>i j. attr_ok te i j \<and> create_ok te i j) limit step mn mx js 1 of
                None \<Rightarrow> None
              | Some (Inl started) \<Rightarrow> Some (Returned ERROR rows started [])
              | Some (Inr started) \<Rightarrow>
                  (case slots_loop (join_ok te) limit step mn mx js 1 of
                     None \<Rightarrow> None
                   | Some (Inl joined) \<Rightarrow> Some (Returned ERROR rows started joined)
                   | Some (Inr joined) \<Rightarrow> Some (Returned OK rows started joined))))"

definition driver_start_times :: "driver \<Rightarrow> int \<Rightarrow> int \<times> int" where
  "driver_start_times d now =
     (let per = fl (of_int (client_conn_sleep d) / 1000);
          t = (if terminals_limit d \<noteq> 0 then c_trunc (fl (per * of_int (terminals_limit d)))
               else c_trunc (fl (fl (per * of_int (terminals_per_warehouse d)) *
                      of_int (w_id_max d - w_id_min d))))
      in (cast_int t, cast_int (now + duration d + cast_int t)))"

section \<open>The transaction mix\<close>

lemma recalculate_ok:
  assumes "recalculate_mix m = (OK, m')"
  shows "0 \<le> new_order_threshold m'" "new_order_threshold m' = new_order_actual m'"
    "payment_threshold m' = fl (new_order_threshold m' + payment_actual m')"
    "order_status_threshold m' = fl (payment_threshold m' + order_status_actual m')"
    "delivery_threshold m' = fl (order_status_threshold m' + delivery_actual m')"
    "stock_level_threshold m' = fl (delivery_threshold m' + stock_level_actual m')"
    "new_order_actual m' = fl (1 - fl (fl (fl (delivery_actual m + order_status_actual m) +
            payment_actual m) + stock_level_actual m))"
  using assms by (auto simp: recalculate_mix_def Let_def status_defs split: if_splits)

lemma recalculate_shares:
  "recalculate_mix m = (rc, m') \<Longrightarrow> delivery_actual m' = delivery_actual m \<and>
    payment_actual m' = payment_actual m \<and> order_status_actual m' = order_status_actual m \<and>
    stock_level_actual m' = stock_level_actual m"
  by (auto simp: recalculate_mix_def Let_def split: if_splits)

lemma fl_add_mono: "is_double x \<Longrightarrow> 0 \<le> y \<Longrightarrow> x \<le> fl (x + y)"
  by (rule fl_ge_double) simp_all

lemma thresholds_double:
  assumes "recalculate_mix m = (OK, m')"
  shows "is_double (new_order_threshold m')" "is_double (payment_threshold m')"
    "is_double (order_status_threshold m')" "is_double (delivery_threshold m')"
  unfolding recalculate_ok [OF assms] by (rule is_double_fl)+

text \<open>A transaction mix is refused exactly when it leaves less than nothing for New-Order. For an
  accepted one with shares that are not negative the thresholds are in the order in which a terminal
  compares with them, so each transaction has the interval between its neighbours, and the last of
  the five takes all that remains: a transaction whose share is zero is never chosen, Stock-Level
  excepted.\<close>
theorem mix_intervals:
  assumes "recalculate_mix m = (OK, m')" "dr_mix d = m'" "0 \<le> p"
    and "0 \<le> payment_actual m" "0 \<le> order_status_actual m" "0 \<le> delivery_actual m"
  shows "0 \<le> new_order_threshold m' \<and> new_order_threshold m' \<le> payment_threshold m' \<and>
    payment_threshold m' \<le> order_status_threshold m' \<and> order_status_threshold m' \<le> delivery_threshold m' \<and>
    (fst (choose_transaction d p) = NEW_ORDER \<longrightarrow> new_order_actual m' \<noteq> 0 \<and> p < new_order_threshold m') \<and>
    (fst (choose_transaction d p) = PAYMENT \<longrightarrow> payment_actual m \<noteq> 0 \<and>
       new_order_threshold m' \<le> p \<and> p < payment_threshold m') \<and>
    (fst (choose_transaction d p) = ORDER_STATUS \<longrightarrow> order_status_actual m \<noteq> 0 \<and>
       (payment_threshold m' \<le> p \<or> payment_actual m = 0) \<and> p < order_status_threshold m') \<and>
    (fst (choose_transaction d p) = DELIVERY \<longrightarrow> delivery_actual m \<noteq> 0 \<and>
       (order_status_threshold m' \<le> p \<or> order_status_actual m = 0) \<and> p < delivery_threshold m') \<and>
    (fst (choose_transaction d p) = STOCK_LEVEL \<longrightarrow> delivery_threshold m' \<le> p \<or> delivery_actual m = 0)"
proof -
  note r = recalculate_ok [OF assms(1)] and dbl = thresholds_double [OF assms(1)]
  have s: "delivery_actual m' = delivery_actual m" "payment_actual m' = payment_actual m"
    "order_status_actual m' = order_status_actual m"
    using recalculate_shares [OF assms(1)] by simp_all
  have "new_order_threshold m' \<le> payment_threshold m'" "payment_threshold m' \<le> order_status_threshold m'"
    "order_status_threshold m' \<le> delivery_threshold m'"
    using fl_add_mono [OF dbl(1)] fl_add_mono [OF dbl(2)] fl_add_mono [OF dbl(3)] assms(4-6)
    by (simp_all add: s r(3-5))
  then show ?thesis using r(1,2) assms(3)
    by (auto simp: choose_transaction_def assms(2) transaction_defs s split: if_splits)
qed

theorem mix_intervals_witness:
  "fst (choose_transaction (driver_globals (snd init_common)\<lparr>dr_mix := snd (recalculate_mix
      (dr_mix (driver_globals (snd init_common))\<lparr>payment_actual := 1\<rparr>))\<rparr>) 0) \<noteq> NEW_ORDER"
proof -
  let ?m = "dr_mix (driver_globals (snd init_common))\<lparr>payment_actual := 1\<rparr>"
  have ok: "recalculate_mix ?m = (OK, snd (recalculate_mix ?m))"
    and zero: "new_order_actual (snd (recalculate_mix ?m)) = 0"
    by (simp_all add: recalculate_mix_def driver_globals_def Let_def)
  have "0 \<le> payment_actual ?m" "0 \<le> order_status_actual ?m" "0 \<le> delivery_actual ?m"
    by (simp_all add: driver_globals_def)
  from mix_intervals [OF ok _ _ this, of "driver_globals (snd init_common)\<lparr>dr_mix := snd (recalculate_mix ?m)\<rparr>" 0]
  show ?thesis using zero by simp
qed

text \<open>The exception is real: from this state of its generator a terminal draws exactly 1, and
  with a mix of payments only it then executes a Stock-Level transaction.\<close>
theorem zero_share_chosen:
  "fst (run_state get_percentage 0xd68610cab0ba3f4698abc8b0716eac8d) = 1 \<and>
   fst (choose_transaction (driver_globals (snd init_common)\<lparr>dr_mix := snd (recalculate_mix
     \<lparr>delivery_actual = 0, new_order_actual = 0, payment_actual = 1, order_status_actual = 0,
      stock_level_actual = 0, delivery_threshold = 0, new_order_threshold = 0, payment_threshold = 0,
      order_status_threshold = 0, stock_level_threshold = 0\<rparr>)\<rparr>)
     (fst (run_state get_percentage 0xd68610cab0ba3f4698abc8b0716eac8d))) = STOCK_LEVEL"
proof
  have step: "pcg_mcg_128_step_r 0xd68610cab0ba3f4698abc8b0716eac8d = 0xfffffffffffffffe0000000000000001"
    by (simp add: pcg_mcg_128_step_r_def PCG_DEFAULT_MULTIPLIER_128_def)
  have out: "pcg_output_xsl_rr_128_64 0xfffffffffffffffe0000000000000001 = - 1"
    by (simp add: pcg_output_xsl_rr_128_64_def pcg_rotr_64_def)
  have top: "unat (drop_bit 11 (- 1 :: 64 word)) = 9007199254740991"
    by (simp add: mask_eq_exp_minus_1 unat_minus_one)
  have "fl (of_nat 9007199254740991) = (of_nat 9007199254740991 :: rat)" by (rule fl_of_nat53) simp
  then show p: "fst (run_state get_percentage 0xd68610cab0ba3f4698abc8b0716eac8d) = 1"
    unfolding get_percentage_def
    by (simp only: run_state_bind run_random step out top fl_percent_unit State_Monad.run_state_return
        prod.case fst_conv of_nat_numeral fl_percent_max)
  show "fst (choose_transaction (driver_globals (snd init_common)\<lparr>dr_mix := snd (recalculate_mix
     \<lparr>delivery_actual = 0, new_order_actual = 0, payment_actual = 1, order_status_actual = 0,
      stock_level_actual = 0, delivery_threshold = 0, new_order_threshold = 0, payment_threshold = 0,
      order_status_threshold = 0, stock_level_threshold = 0\<rparr>)\<rparr>)
     (fst (run_state get_percentage 0xd68610cab0ba3f4698abc8b0716eac8d))) = STOCK_LEVEL"
    unfolding p by (simp add: choose_transaction_def recalculate_mix_def)
qed

text \<open>The warehouses that a loop with a positive step visits.\<close>

definition warehouse_list :: "int \<Rightarrow> int \<Rightarrow> int \<Rightarrow> int list" where
  "warehouse_list step i mx = map (\<lambda>n. i + step * int n) [0..<nat ((mx - i) div step + 1)]"

lemma warehouse_list_Nil: "0 < step \<Longrightarrow> mx < i \<Longrightarrow> warehouse_list step i mx = []"
  using div_neg_pos_less0 [of "mx - i" step] by (simp add: warehouse_list_def)

lemma warehouse_list_Cons:
  assumes "0 < step" "i \<le> mx"
  shows "warehouse_list step i mx = i # warehouse_list step (i + step) mx"
proof -
  have "(mx - (i + step)) div step = (mx - i) div step - 1"
    using assms(1) div_add_self2 [of step "mx - (i + step)"] by (simp add: algebra_simps)
  moreover have "0 \<le> (mx - i) div step" using assms by (simp add: pos_imp_zdiv_nonneg_iff)
  ultimately have "nat ((mx - i) div step + 1) = Suc (nat ((mx - (i + step)) div step + 1))" by simp
  moreover have "map (\<lambda>n. i + step * int n) [0..<Suc k] = i # map (\<lambda>n. i + step + step * int n) [0..<k]" for k
    by (simp add: map_upt_Suc algebra_simps del: upt_Suc)
  ultimately show ?thesis by (simp only: warehouse_list_def)
qed

lemma warehouse_list_distinct: "0 < step \<Longrightarrow> distinct (warehouse_list step i mx)"
  by (simp add: warehouse_list_def distinct_map inj_on_def)

text \<open>How many of \<open>n\<close> slots the limit leaves when \<open>cnt - 1\<close> have been used.\<close>

definition quota :: "int \<Rightarrow> int \<Rightarrow> nat \<Rightarrow> nat" where
  "quota limit cnt n = (if limit = 0 then n else min n (nat (limit + 1 - cnt)))"

lemma quota_Suc:
  "\<not> limit_hit limit cnt \<Longrightarrow> quota limit cnt (Suc n) = Suc (quota limit (cnt + 1) n)"
proof -
  assume "\<not> limit_hit limit cnt"
  then have "limit = 0 \<or> nat (limit + 1 - cnt) = Suc (nat (limit + 1 - (cnt + 1)))"
    by (auto simp: limit_hit_def)
  then show ?thesis by (auto simp: quota_def)
qed

lemma quota_hit: "limit_hit limit cnt \<Longrightarrow> quota limit cnt n = 0"
  by (auto simp: quota_def limit_hit_def)

lemma quota_0 [simp]: "quota limit cnt 0 = 0"
  by (simp add: quota_def)

text \<open>The loops end when the step is positive: induction over the warehouses left.\<close>

lemma warehouse_induct [consumes 1, case_names End Step]:
  assumes "0 < (step :: int)"
    and "\<And>i cnt. mx < i \<Longrightarrow> P i cnt"
    and "\<And>i cnt. i \<le> mx \<Longrightarrow> (\<And>cnt. P (i + step) cnt) \<Longrightarrow> P i cnt"
  shows "P (i :: int) cnt"
proof (induction "nat (mx + 1 - i)" arbitrary: i cnt rule: less_induct)
  case less
  show ?case
  proof (cases "i \<le> mx")
    case True
    have "P (i + step) c" for c using assms(1) True by (intro less) simp
    then show ?thesis by (rule assms(3) [OF True])
  qed (use assms(2) in simp)
qed

lemma slots_row_ok:
  assumes "0 < step" "\<And>i j. ok i j"
  shows "slots_row ok limit step mx j i cnt =
    Some (Inr (cnt + int (quota limit cnt (length (warehouse_list step i mx))),
      map (\<lambda>i. (i, j)) (take (quota limit cnt (length (warehouse_list step i mx))) (warehouse_list step i mx))))"
  using assms(1)
proof (induction rule: warehouse_induct [where i = i and cnt = cnt and mx = mx])
  case (End i cnt)
  then show ?case by (subst slots_row.simps) (simp add: warehouse_list_Nil assms(1))
next
  case (Step i cnt)
  show ?case
    using Step(1) assms(1)
    by (subst slots_row.simps) (simp add: assms(2) Step(2) warehouse_list_Cons quota_Suc quota_hit)
qed

lemma quota_split:
  "quota limit cnt (m + n) = quota limit cnt m + quota limit (cnt + int (quota limit cnt m)) n"
  by (auto simp: quota_def min_def)

lemma slots_loop_ok:
  assumes "0 < step" "\<And>i j. ok i j"
  shows "slots_loop ok limit step mn mx js cnt =
    Some (Inr (take (quota limit cnt (length js * length (warehouse_list step mn mx)))
      [(i, j). j \<leftarrow> js, i \<leftarrow> warehouse_list step mn mx]))"
proof (induction js arbitrary: cnt)
  case (Cons j js)
  let ?is = "warehouse_list step mn mx"
  let ?q = "quota limit cnt (length ?is)"
  have q: "quota limit cnt (length (j # js) * length ?is) =
      ?q + quota limit (cnt + int ?q) (length js * length ?is)"
    by (simp add: quota_split)
  have "?q \<le> length ?is" by (simp add: quota_def)
  moreover have "limit_hit limit (cnt + int ?q) \<or> ?q = length ?is"
    by (auto simp: quota_def limit_hit_def min_def)
  ultimately show ?case unfolding q
    by (auto simp: slots_row_ok [OF assms] Cons quota_hit take_map)
qed simp

lemma alloc_rows_ok:
  assumes "0 < step" "\<And>i c. row_ok te i c"
  shows "0 \<le> i \<Longrightarrow> alloc_rows te limit step mx i cnt =
    Some (Rows (take (if limit = 0 then length (warehouse_list step i mx) else Suc (nat (limit + 1 - cnt)))
      (warehouse_list step i mx)))"
  using assms(1)
proof (induction rule: warehouse_induct [where i = i and cnt = cnt and mx = mx])
  case (End i cnt)
  then show ?case by (subst alloc_rows.simps) (simp add: warehouse_list_Nil assms(1))
next
  case (Step i cnt)
  have IH: "alloc_rows te limit step mx (i + step) (cnt + 1) =
      Some (Rows (take (if limit = 0 then length (warehouse_list step (i + step) mx) else Suc (nat (limit + 1 - (cnt + 1))))
        (warehouse_list step (i + step) mx)))"
    using Step assms(1) by simp
  show ?case
  proof (cases "limit_hit limit cnt")
    case True
    then show ?thesis using Step assms
      by (subst alloc_rows.simps) (simp add: warehouse_list_Cons limit_hit_def)
  next
    case False
    then have "limit = 0 \<or> nat (limit + 1 - cnt) = Suc (nat (limit + 1 - (cnt + 1)))"
      by (auto simp: limit_hit_def)
    then show ?thesis using False Step(1,3) assms
      by (subst alloc_rows.simps) (auto simp: warehouse_list_Cons IH)
  qed
qed

text \<open>With step zero and no limit the same row is allocated again and again.\<close>

lemma alloc_rows_stuck:
  assumes "\<And>i c. row_ok te i c" "0 \<le> i" "i \<le> mx"
  shows "alloc_rows te 0 0 mx i cnt = None"
proof (cases "alloc_rows te 0 0 mx i cnt")
  case (Some r)
  let ?P = "\<lambda>(te :: thread_env) (limit :: int) (step :: int) (mx :: int) (i :: int) (cnt :: int) (r :: alloc).
    \<not> ((\<forall>i c. row_ok te i c) \<and> limit = 0 \<and> step = 0 \<and> 0 \<le> i \<and> i \<le> mx)"
  have "?P te 0 0 mx i cnt r"
  proof (rule alloc_rows.raw_induct [where P = ?P, OF _ Some])
    fix f :: "thread_env \<Rightarrow> int \<Rightarrow> int \<Rightarrow> int \<Rightarrow> int \<Rightarrow> int \<Rightarrow> alloc option" and te :: thread_env and limit step mx i cnt :: int and r
    assume "\<And>te limit step mx i cnt r. f te limit step mx i cnt = Some r \<Longrightarrow> ?P te limit step mx i cnt r"
      and "(if i < mx + 1 then
        (if i < 0 then Some Below_array
         else if \<not> row_ok te i cnt then Some (No_memory [])
         else if limit_hit limit cnt then Some (Rows [i])
         else Option.bind (f te limit step mx (i + step) (cnt + 1)) (\<lambda>a. Some (add_row i a)))
      else Some (Rows [])) = Some r"
    then show "?P te limit step mx i cnt r"
      by (fastforce simp: limit_hit_def split: if_splits bind_splits)
  qed
  then show ?thesis using assms by simp
qed

lemma alloc_rows_below:
  assumes "step < 0" "\<And>i c. row_ok te i c"
  shows "i \<le> mx \<Longrightarrow> alloc_rows te 0 step mx i cnt = Some Below_array"
proof (induction "nat (i + 1)" arbitrary: i cnt rule: less_induct)
  case less
  show ?case
  proof (cases "i < 0")
    case False
    then have "alloc_rows te 0 step mx (i + step) (cnt + 1) = Some Below_array"
      using assms(1) less.prems by (intro less.hyps) simp_all
    then show ?thesis using False less.prems assms(2)
      by (subst alloc_rows.simps) (simp add: limit_hit_def)
  qed (use less.prems in \<open>subst alloc_rows.simps, simp\<close>)
qed

section \<open>Threads\<close>

text \<open>With a positive \<open>spread\<close> and no failing call the driver returns OK, having started one
  terminal for each district number and each of its warehouses, or the first \<open>terminals_limit\<close> of
  them, districts before warehouses. It joins exactly the threads it has started, and the row of
  thread ids of every warehouse it indexes has been allocated, also when the limit cuts the
  allocation short.\<close>
theorem start_driver_threads:
  assumes "0 < spread d" "0 \<le> w_id_min d" "row_ok te = (\<lambda>_ _. True)" "attr_ok te = (\<lambda>_ _. True)"
    "create_ok te = (\<lambda>_ _. True)" "join_ok te = (\<lambda>_ _. True)"
  defines "ws \<equiv> warehouse_list (spread d) (w_id_min d) (w_id_max d)"
  shows "\<exists>rows started. start_driver te d = Some (Returned OK rows started started) \<and>
    started = (let all = [(i, j). j \<leftarrow> [0..terminals_per_warehouse d - 1], i \<leftarrow> ws] in
      if terminals_limit d = 0 then all else take (nat (terminals_limit d)) all) \<and>
    distinct started \<and> fst ` set started \<subseteq> set rows"
proof -
  define js where "js = [0..terminals_per_warehouse d - 1]"
  define lim where "lim = terminals_limit d"
  define all where "all = [(i, j). j \<leftarrow> js, i \<leftarrow> ws]"
  define rows where "rows = take (if lim = 0 then length ws else Suc (nat lim)) ws"
  define started where "started = (if lim = 0 then all else take (nat lim) all)"
  have prod: "[(i, j). j \<leftarrow> js, i \<leftarrow> ws] = map prod.swap (List.product js ws)" for js ws :: "int list"
    by (induction js) (simp_all add: comp_def)
  have len: "length all = length js * length ws" unfolding all_def prod by (simp add: length_product)
  have dws: "distinct ws" using assms(1) by (simp add: ws_def warehouse_list_distinct)
  then have dist: "distinct all" unfolding all_def prod by (simp add: distinct_map distinct_product js_def)
  have n: "take (quota lim 1 (length js * length ws)) all = started"
    unfolding len [symmetric] started_def by (simp add: quota_def min_def)
  have rows: "fst ` set started \<subseteq> set rows"
  proof (cases "lim = 0 \<or> length ws \<le> Suc (nat lim)")
    case True
    then have "rows = ws" by (auto simp: rows_def)
    moreover have "set started \<subseteq> set all" using set_take_subset [of "nat lim" all] by (simp add: started_def)
    moreover have "fst ` set all \<subseteq> set ws" by (auto simp: all_def)
    ultimately show ?thesis by blast
  next
    case False
    then have "fst ` set (take (nat lim) all) \<subseteq> set (take (nat lim) ws)"
      by (cases js) (simp_all add: take_map image_image all_def)
    also have "\<dots> \<subseteq> set (take (Suc (nat lim)) ws)" by (rule set_take_subset_set_take) simp
    finally show ?thesis using False by (simp add: started_def rows_def)
  qed
  have "alloc_rows te lim (spread d) (w_id_max d) (w_id_min d) 1 = Some (Rows rows)"
    using alloc_rows_ok [OF assms(1), of te] assms(2,3) by (simp add: rows_def ws_def)
  moreover have "slots_loop ok lim (spread d) (w_id_min d) (w_id_max d) js 1 = Some (Inr started)"
    if "\<And>i j. ok i j" for ok
    using slots_loop_ok [OF assms(1) that, where cnt = 1 and limit = lim] n by (simp add: all_def ws_def)
  ultimately have "start_driver te d = Some (Returned OK rows started started)"
    using assms(4-6) by (simp add: start_driver_def Let_def flip: lim_def js_def)
  moreover have "distinct started" using dist by (simp add: started_def)
  ultimately show ?thesis using rows started_def unfolding all_def js_def lim_def Let_def by blast
qed

definition all_well :: thread_env where
  "all_well = \<lparr>row_ok = (\<lambda>_ _. True), attr_ok = (\<lambda>_ _. True), create_ok = (\<lambda>_ _. True), join_ok = (\<lambda>_ _. True)\<rparr>"

theorem start_driver_threads_witness:
  "\<exists>rows started. start_driver all_well
      ((driver_globals (snd init_common))\<lparr>w_id_min := 1, w_id_max := 5, spread := 2\<rparr>) =
    Some (Returned OK rows started started) \<and> distinct started"
  using start_driver_threads [of "(driver_globals (snd init_common))\<lparr>w_id_min := 1, w_id_max := 5, spread := 2\<rparr>" all_well]
  by (auto simp: driver_globals_def all_well_def)

text \<open>Without a limit on the terminals, and as long as memory lasts, a step of zero makes the driver
  allocate rows of thread ids for ever, and a negative step makes it write below the start of the
  array of rows.\<close>

lemma spread_not_positive:
  assumes "0 \<le> w_id_min d" "w_id_min d \<le> w_id_max d" "terminals_limit d = 0" "row_ok te = (\<lambda>_ _. True)"
  shows "(spread d = 0 \<longrightarrow> start_driver te d = None) \<and> (spread d < 0 \<longrightarrow> start_driver te d = Some Bad_write)"
  using assms by (simp add: start_driver_def Let_def alloc_rows_stuck alloc_rows_below)

section \<open>Terminals\<close>

text \<open>The settings with which a terminal stays inside the database.\<close>

definition driver_ok :: "driver \<Rightarrow> bool" where
  "driver_ok d \<longleftrightarrow> 1 \<le> w_id_min d \<and> w_id_min d \<le> w_id_max d \<and> w_id_max d \<le> warehouses (dr_cardinality d) \<and>
     warehouses (dr_cardinality d) < 2 ^ 31 \<and> 1 \<le> items (dr_cardinality d) \<and> items (dr_cardinality d) < 2 ^ 31 \<and>
     1 \<le> districts (dr_cardinality d) \<and> districts (dr_cardinality d) < 2 ^ 31"

definition home_ok :: "driver \<Rightarrow> int \<Rightarrow> int \<Rightarrow> bool" where
  "home_ok d w_id d_id \<longleftrightarrow> w_id_min d \<le> w_id \<and> w_id \<le> w_id_max d \<and>
     (mode_altered d = 1 \<longrightarrow> 1 \<le> d_id \<and> d_id \<le> districts (dr_cardinality d))"

lemma home_sane: "driver_ok d \<Longrightarrow> home_ok d w_id d_id \<Longrightarrow> sane (dr_cardinality d) w_id"
  by (auto simp: driver_ok_def home_ok_def sane_def)

lemma choose_known: "fst (choose_transaction d p) \<in> {DELIVERY, NEW_ORDER, ORDER_STATUS, PAYMENT, STOCK_LEVEL}"
  by (auto simp: choose_transaction_def)

lemma stock_input_ok:
  "yields (\<lambda>(rc, x). \<exists>y. x = Some y \<and> transaction_ok tc m w_id y) (generate_input_data2 type w_id d_id)"
  unfolding generate_input_data2_def
  by (rule yields_bind [OF stock_level_data_ok]) (auto intro!: yields_return simp: transaction_ok_def)

lemma round_input_ok:
  assumes "driver_ok d" "w_id_min d \<le> w_id" "w_id \<le> w_id_max d"
  shows "yields (\<lambda>(w, n, c, x). home_ok d w n \<and> (\<exists>y. x = Some y \<and>
      transaction_ok (dr_cardinality d) (mode_altered d) w y)) (round_input d w_id d_id)"
proof -
  have home: "yields (\<lambda>h. home_ok d (fst h) (snd h)) (if mode_altered d = 1 then do {
         w \<leftarrow> get_random (w_id_max d - w_id_min d + 1);
         n \<leftarrow> get_random (districts (dr_cardinality d));
         State_Monad.return (w_id_min d + cast_int w, cast_int n + 1)
       } else State_Monad.return (w_id, d_id))"
  proof (cases "mode_altered d = 1")
    case True
    show ?thesis unfolding if_P [OF True]
      by (rule yields_bind [OF get_random_range], use assms in \<open>simp add: driver_ok_def\<close>,
          use assms in \<open>simp add: driver_ok_def\<close>, rule yields_bind [OF get_random_range])
         (use assms in \<open>auto simp: driver_ok_def home_ok_def intro!: yields_return\<close>)
  qed (use assms in \<open>simp add: yields_return home_ok_def\<close>)
  have input: "yields (\<lambda>(rc, x). \<exists>y. x = Some y \<and> transaction_ok (dr_cardinality d) (mode_altered d) w y)
      (if fst c \<noteq> STOCK_LEVEL then generate_input_data (dr_cardinality d) (mode_altered d) (fst c) w
       else generate_input_data2 (fst c) w n)"
    if "home_ok d w n" "fst c \<in> {DELIVERY, NEW_ORDER, ORDER_STATUS, PAYMENT, STOCK_LEVEL}" for w n and c :: "int \<times> int \<times> int"
  proof (cases "fst c = STOCK_LEVEL")
    case False
    then have "fst c \<in> {DELIVERY, NEW_ORDER, ORDER_STATUS, PAYMENT, INTEGRITY}" using that(2) by auto
    from yields_mono [OF generate_input_data_ok [OF home_sane [OF assms(1) that(1)] this, of "driver.mode_altered d"],
        where Q = "\<lambda>(rc, x). \<exists>y. x = Some y \<and>
          transaction_ok (dr_cardinality d) (driver.mode_altered d) w y"] False
    show ?thesis by auto
  qed (simp add: stock_input_ok)
  show ?thesis unfolding round_input_def Let_def
    by (rule yields_bind [OF home], rule yields_bind [OF get_percentage_range],
        rule yields_bind [OF input [OF _ choose_known]])
       (auto intro!: yields_return)
qed

definition sends :: "int \<Rightarrow> event list \<Rightarrow> nat" where
  "sends tr es = length (filter (\<lambda>e. case e of Send tr' _ \<Rightarrow> tr' = tr | _ \<Rightarrow> False) es)"

definition logs :: "int \<Rightarrow> event list \<Rightarrow> nat" where
  "logs tr es = length (filter (\<lambda>e. case e of Log_line _ tr' _ _ _ _ \<Rightarrow> tr' = tr | _ \<Rightarrow> False) es)"

text \<open>What an event means for the settings.\<close>

definition event_ok :: "driver \<Rightarrow> event \<Rightarrow> bool" where
  "event_ok d e = (case e of
     Send tr x \<Rightarrow> \<exists>w. w_id_min d \<le> w \<and> w \<le> w_id_max d \<and> transaction_ok (dr_cardinality d) (mode_altered d) w x
   | Log_line time tr code rt w n \<Rightarrow> home_ok d w n
   | _ \<Rightarrow> True)"

lemma worker_round_ok:
  assumes "driver_ok d" "w_id_min d \<le> t_w_id t" "t_w_id t \<le> w_id_max d"
    and "worker_round log_c d rd t cs = (go_on, t', cs', es)"
  shows "w_id_min d \<le> t_w_id t'" "t_w_id t' \<le> w_id_max d" "list_all (event_ok d) es"
    "executing cs' tr = executing cs tr - int (sends tr es)" "thinking cs' = thinking cs"
    "logs tr es = sends tr es"
proof -
  obtain w n tr0 kt tt x r where run: "run_state (round_input d (t_w_id t) (t_d_id t)) (t_rng t) =
      ((w, n, (tr0, kt, tt), x), r)" by (metis surj_pair)
  have ok: "home_ok d w n" "\<exists>y. x = Some y \<and> transaction_ok (dr_cardinality d) (mode_altered d) w y"
    using yieldsD [OF round_input_ok [OF assms(1-3)], of "t_d_id t" "t_rng t"] run by simp_all
  have w: "w_id_min d \<le> w" "w \<le> w_id_max d" using ok(1) by (simp_all add: home_ok_def)
  show "w_id_min d \<le> t_w_id t'" "t_w_id t' \<le> w_id_max d" "list_all (event_ok d) es"
    "executing cs' tr = executing cs tr - int (sends tr es)" "thinking cs' = thinking cs"
    "logs tr es = sends tr es"
    using assms(4) ok w unfolding worker_round_def run
    by (auto simp: Let_def sends_def logs_def event_ok_def think_event_def fun_upd_def split: if_splits prod.splits)
qed

lemma sends_append [simp]: "sends tr (xs @ ys) = sends tr xs + sends tr ys"
  by (simp add: sends_def)

lemma logs_append [simp]: "logs tr (xs @ ys) = logs tr xs + logs tr ys"
  by (simp add: logs_def)

lemma worker_loop_ok:
  assumes "driver_ok d" "w_id_min d \<le> t_w_id t" "t_w_id t \<le> w_id_max d"
    and "worker_loop log_c d rds t cs = Some (t', cs', es)"
  shows "list_all (event_ok d) es \<and> (\<forall>tr. executing cs' tr = executing cs tr - int (sends tr es) \<and>
      logs tr es = sends tr es) \<and> thinking cs' = thinking cs"
  using assms(2-4)
proof (induction rds arbitrary: t cs t' cs' es)
  case (Cons rd rds)
  obtain go_on t1 cs1 es1 where r: "worker_round log_c d rd t cs = (go_on, t1, cs1, es1)"
    by (metis surj_pair)
  note one = worker_round_ok [OF assms(1) Cons.prems(1,2) r]
  show ?case
  proof (cases go_on)
    case False
    then have "cs' = cs1" "es = es1 @ [Terminated]" using Cons.prems(3) r by simp_all
    moreover have "event_ok d Terminated" "sends tr [Terminated] = 0" "logs tr [Terminated] = 0" for tr
      by (simp_all add: event_ok_def sends_def logs_def)
    ultimately show ?thesis using one by simp
  next
    case True
    then obtain t2 cs2 es2 where rest: "worker_loop log_c d rds t1 cs1 = Some (t2, cs2, es2)"
      "cs' = cs2" "es = es1 @ es2"
      using Cons.prems(3) r by (auto split: option.splits)
    show ?thesis using Cons.IH [OF one(1,2) rest(1)] one rest(2,3) by auto
  qed
qed simp

text \<open>C31: A terminal only ever sends input that is valid for a warehouse of the driver's range, logs
  each transaction it sends exactly once and with a home of that range, and leaves the counters of
  thinking terminals as they were. The counter of executing terminals is only ever decremented: it
  ends lower by the number of transactions sent, so it does not count executing terminals.\<close>
theorem terminal_run:
  assumes "driver_ok d" "w_id_min d \<le> fst tc" "fst tc \<le> w_id_max d"
    and "terminal_worker log_c d local_seed sockfd status0 tc rds cs = Some (cs', es)"
  shows "list_all (event_ok d) es \<and> (\<forall>tr. executing cs' tr = executing cs tr - int (sends tr es) \<and>
      logs tr es = sends tr es) \<and> thinking cs' = thinking cs"
proof (cases "sockfd < 1")
  case True
  then show ?thesis using assms(4) by (simp add: terminal_worker_def sends_def logs_def)
next
  case False
  then obtain t' where "worker_loop log_c d rds \<lparr>t_rng = pcg64f_srandom_r (ucast local_seed), t_w_id = fst tc,
      t_d_id = snd tc, t_status = status0, t_code = CHR '' ''\<rparr> cs = Some (t', cs', es)"
    using assms(4) by (auto simp: terminal_worker_def split: option.splits)
  from worker_loop_ok [OF assms(1) _ _ this] assms(2,3) show ?thesis by simp
qed

definition sample_driver :: driver where
  "sample_driver = (driver_globals (snd init_common))\<lparr>w_id_min := 1, w_id_max := 1, stop_time := 100\<rparr>"

definition sample_round :: round where
  "sample_round = \<lparr>t_keying = 1, reply = Some OK, response_time = 1, t_log = 2, t_thinking = 100, t_loop = 100\<rparr>"

lemma sample_driver_ok: "driver_ok sample_driver"
  by (simp add: sample_driver_def driver_globals_def driver_ok_def init_common_def DISTRICT_CARDINALITY_def
      CUSTOMER_CARDINALITY_def ITEM_CARDINALITY_def)

lemma sample_worker_ends: "\<exists>cs' es. terminal_worker id sample_driver 5 3 OK (1, 1) [sample_round] cs = Some (cs', es)"
  by (simp add: terminal_worker_def worker_round_def sample_driver_def driver_globals_def sample_round_def Let_def
      split: prod.split)

theorem terminal_run_witness:
  "\<exists>cs' es. terminal_worker id sample_driver 5 3 OK (1, 1) [sample_round]
       \<lparr>executing = (\<lambda>_. 0), thinking = (\<lambda>_. 0)\<rparr> = Some (cs', es) \<and>
     (\<forall>tr. executing cs' tr = - int (sends tr es) \<and> logs tr es = sends tr es)"
proof -
  obtain cs' es where run: "terminal_worker id sample_driver 5 3 OK (1, 1) [sample_round]
      \<lparr>executing = (\<lambda>_. 0), thinking = (\<lambda>_. 0)\<rparr> = Some (cs', es)"
    using sample_worker_ends by blast
  have "w_id_min sample_driver \<le> fst (1 :: int, 1 :: int)" "fst (1 :: int, 1 :: int) \<le> w_id_max sample_driver"
    by (simp_all add: sample_driver_def)
  from terminal_run [OF sample_driver_ok this run] run show ?thesis by auto
qed

text \<open>The terminal does not look at the results of sending and receiving: when the exchange fails,
  so that no new status arrives, the transaction is logged with the outcome of the previous one. After
  one completed transaction every further one is then logged as completed.\<close>
theorem lost_reply_logged_as_previous:
  assumes "reply rd = None" "t_status t = OK" "t_keying rd < stop_time d"
    and "worker_round log_c d rd t cs = (go_on, t', cs', es)"
  shows "t_status t' = OK \<and> (\<exists>tr w n. Log_line (t_log rd) tr (CHR ''C'') (response_time rd) w n \<in> set es)"
  using assms by (auto simp: worker_round_def Let_def log_code_def think_event_def split: prod.splits if_splits)

theorem lost_reply_logged_as_previous_witness:
  "\<exists>t' cs' es tr w n. worker_round id sample_driver (sample_round\<lparr>reply := None\<rparr>)
     \<lparr>t_rng = 1, t_w_id = 1, t_d_id = 1, t_status = OK, t_code = CHR ''C''\<rparr>
     \<lparr>executing = (\<lambda>_. 0), thinking = (\<lambda>_. 0)\<rparr> = (False, t', cs', es) \<and>
     Log_line 2 tr (CHR ''C'') 1 w n \<in> set es"
proof -
  obtain g t' cs' es where run: "worker_round id sample_driver (sample_round\<lparr>reply := None\<rparr>)
     \<lparr>t_rng = 1, t_w_id = 1, t_d_id = 1, t_status = OK, t_code = CHR ''C''\<rparr>
     \<lparr>executing = (\<lambda>_. 0), thinking = (\<lambda>_. 0)\<rparr> = (g, t', cs', es)"
    by (metis surj_pair)
  then have "\<not> g"
    by (auto simp: worker_round_def sample_round_def sample_driver_def driver_globals_def Let_def split: prod.splits)
  with run lost_reply_logged_as_previous [OF _ _ _ run] show ?thesis
    by (auto simp: sample_round_def sample_driver_def)
qed

end
