(* ===== verification/Transaction_Queue.thy ===== *)
theory Transaction_Queue
  imports Linked_List Input_Data
begin

text \<open>
  The two lists of the client: the queue of transactions that wait for a database connection
  (\<open>src/src/transaction_queue.c\<close>) and the pool of free nodes of the listener
  (\<open>get_node\<close> and \<open>recycle_node\<close> of \<open>src/src/listener.c\<close>). Both are singly linked lists of the
  same nodes with a head and a tail pointer, a mutex and a semaphore that counts their elements.
  The code between locking and unlocking a mutex is one operation of the model; an access outside
  an array is None.
\<close>

section \<open>Nodes and the state of the client\<close>

record node =
  nd_s :: int
  nd_id :: int
  nd_status :: int
  nd_transaction :: int
  nd_data :: "transaction_data_t option"

record fifo =
  ff_head :: ptr
  ff_tail :: ptr

record client =
  heap :: "node heap"
  queue :: fifo
  queue_length :: nat
  transaction_id :: int
  queued :: "int list"
  executing_now :: "int list"
  pool :: fifo
  free_count :: nat

definition TRANSACTION_MAX :: nat where "TRANSACTION_MAX = 5"

definition empty_fifo :: fifo where
  "empty_fifo = \<lparr>ff_head = None, ff_tail = None\<rparr>"

text \<open>Appending a node at the tail, and taking the one at the head.\<close>

definition put_tail :: "nat \<Rightarrow> fifo \<times> node heap \<Rightarrow> fifo \<times> node heap" where
  "put_tail a q_h =
     (let (q, h) = q_h; h1 = set_next a None h
      in case ff_tail q of
           Some t \<Rightarrow> (q\<lparr>ff_tail := Some a\<rparr>, set_next t (Some a) h1)
         | None \<Rightarrow> (\<lparr>ff_head = Some a, ff_tail = Some a\<rparr>, h1))"

definition take_head :: "fifo \<Rightarrow> node heap \<Rightarrow> nat option \<times> fifo" where
  "take_head q h = (case ff_head q of
     None \<Rightarrow> (None, q)
   | Some a \<Rightarrow> if next_of h a = None then (Some a, empty_fifo)
               else (Some a, q\<lparr>ff_head := next_of h a\<rparr>))"

text \<open>\<open>transaction_counter[k][t]\<close>, incremented or decremented under its mutex.\<close>

definition add_counter :: "int \<Rightarrow> int \<Rightarrow> int list \<Rightarrow> int list option" where
  "add_counter t delta cs =
     (if 0 \<le> t \<and> t < int (length cs) then Some (cs[nat t := cs ! nat t + delta]) else None)"

definition transaction_of :: "client \<Rightarrow> nat \<Rightarrow> int" where
  "transaction_of c a = nd_transaction (val (heap c) a)"

section \<open>The transaction queue\<close>

text \<open>The steps of \<open>enqueue_transaction\<close> and \<open>dequeue_transaction\<close>, one for each mutex they take.\<close>

definition count_queued :: "nat \<Rightarrow> int \<Rightarrow> client \<Rightarrow> client option" where
  "count_queued a delta c = map_option (\<lambda>cs. c\<lparr>queued := cs\<rparr>) (add_counter (transaction_of c a) delta (queued c))"

definition count_executing :: "nat \<Rightarrow> int \<Rightarrow> client \<Rightarrow> client option" where
  "count_executing a delta c =
     map_option (\<lambda>cs. c\<lparr>executing_now := cs\<rparr>) (add_counter (transaction_of c a) delta (executing_now c))"

definition queue_put :: "nat \<Rightarrow> client \<Rightarrow> client" where
  "queue_put a c =
     (let n = transaction_id c + 1;
          (q, h) = put_tail a (queue c, set_val a ((val (heap c) a)\<lparr>nd_id := n\<rparr>) (heap c))
      in c\<lparr>queue := q, heap := h, transaction_id := n, queue_length := queue_length c + 1\<rparr>)"

definition queue_take :: "client \<Rightarrow> nat option \<times> client" where
  "queue_take c = (case take_head (queue c) (heap c) of (a, q) \<Rightarrow> (a, c\<lparr>queue := q\<rparr>))"

definition enqueue_transaction :: "nat \<Rightarrow> client \<Rightarrow> client option" where
  "enqueue_transaction a c = map_option (queue_put a) (count_queued a 1 c)"

text \<open>
  \<open>sem_wait\<close> on an empty semaphore blocks; the operation is then not enabled, \<open>None\<close> on the
  outside. Inside, None is an access outside the counters.
\<close>

definition dequeue_transaction :: "client \<Rightarrow> (nat option \<times> client) option option" where
  "dequeue_transaction c =
     (if queue_length c = 0 then None
      else Some (case queue_take (c\<lparr>queue_length := queue_length c - 1\<rparr>) of
          (None, c1) \<Rightarrow> Some (None, c1)
        | (Some a, c1) \<Rightarrow> (case count_queued a (- 1) c1 of
              None \<Rightarrow> None
            | Some c2 \<Rightarrow> map_option (\<lambda>c3. (Some a, c3)) (count_executing a 1 c2))))"

definition init_transaction_queue :: "client \<Rightarrow> client" where
  "init_transaction_queue c = c\<lparr>transaction_id := 0, queue := empty_fifo, queue_length := 0\<rparr>"

section \<open>The pool of free nodes\<close>

definition pool_put :: "nat \<Rightarrow> client \<Rightarrow> client" where
  "pool_put a c = (let (q, h) = put_tail a (pool c, heap c)
     in c\<lparr>pool := q, heap := h, free_count := free_count c + 1\<rparr>)"

definition pool_take :: "client \<Rightarrow> nat option \<times> client" where
  "pool_take c = (case take_head (pool c) (heap c) of (a, q) \<Rightarrow> (a, c\<lparr>pool := q\<rparr>))"

definition recycle_node :: "nat \<Rightarrow> client \<Rightarrow> int \<times> client" where
  "recycle_node a c = (OK, pool_put a c)"

definition get_node :: "client \<Rightarrow> (nat option \<times> client) option" where
  "get_node c = (if free_count c = 0 then None
     else Some (pool_take (c\<lparr>free_count := free_count c - 1\<rparr>)))"

section \<open>The lists in memory\<close>

definition fifo_ok :: "node heap \<Rightarrow> fifo \<Rightarrow> nat list \<Rightarrow> bool" where
  "fifo_ok h q as \<longleftrightarrow> Chain (next_of h) (ff_head q) as \<and>
     ff_tail q = (if as = [] then None else Some (last as))"

lemma fifo_ok_empty: "fifo_ok h empty_fifo []"
  by (simp add: fifo_ok_def empty_fifo_def)

lemma fifo_ok_distinct: "fifo_ok h q as \<Longrightarrow> distinct as"
  by (auto simp: fifo_ok_def dest: Chain_distinct)

lemma put_tail_ok:
  assumes "fifo_ok h q as" "a \<notin> set as" "put_tail a (q, h) = (q', h')"
  shows "fifo_ok h' q' (as @ [a])"
proof (cases as rule: rev_cases)
  case Nil
  then show ?thesis using assms by (auto simp: fifo_ok_def put_tail_def set_next_def)
next
  case (snoc bs t)
  have d: "distinct (bs @ [t])" using fifo_ok_distinct [OF assms(1)] snoc by simp
  have h': "next_of h' = (next_of h)(a := None, t := Some a)" "ff_head q' = ff_head q" "ff_tail q' = Some a"
    using assms(1,3) snoc by (auto simp: fifo_ok_def put_tail_def set_next_def)
  have "t \<notin> set bs" "a \<notin> set bs" "t \<noteq> a" using d assms(2) snoc by auto
  then have "Path (next_of h') (ff_head q') (bs @ [t]) (Some a)" "next_of h' a = None"
    using assms(1) by (simp_all add: h' snoc fifo_ok_def)
  then show ?thesis by (simp add: fifo_ok_def h' snoc)
qed

lemma put_tail_frame:
  assumes "fifo_ok h q as" "fifo_ok h p bs" "set as \<inter> set bs = {}" "a \<notin> set bs" "put_tail a (q, h) = (q', h')"
  shows "fifo_ok h' p bs" "val h' = val h" "live h' = live h"
proof -
  have "next_of h' = (next_of h)(a := None) \<or> (\<exists>t \<in> set as. next_of h' = (next_of h)(a := None, t := Some a))"
    using assms(1,5) by (auto simp: fifo_ok_def put_tail_def set_next_def split: option.splits if_splits)
  then show "fifo_ok h' p bs"
  proof (elim disjE bexE)
    fix t
    assume "t \<in> set as" "next_of h' = (next_of h)(a := None, t := Some a)"
    moreover from this have "t \<notin> set bs" using assms(3) by auto
    ultimately show ?thesis using assms(2,4) by (simp add: fifo_ok_def)
  qed (use assms(2,4) in \<open>simp add: fifo_ok_def\<close>)
  show "val h' = val h" "live h' = live h"
    using assms(5) by (auto simp: put_tail_def set_next_def Let_def split: option.splits)
qed

lemma take_head_ok:
  assumes "fifo_ok h q as" "take_head q h = (x, q')"
  shows "(case as of [] \<Rightarrow> x = None \<and> fifo_ok h q' [] | a # bs \<Rightarrow> x = Some a \<and> fifo_ok h q' bs)"
proof (cases as)
  case Nil
  then show ?thesis using assms by (auto simp: fifo_ok_def take_head_def)
next
  case (Cons a bs)
  then show ?thesis using assms
    by (cases bs) (auto simp: fifo_ok_def take_head_def empty_fifo_def split: if_splits)
qed

lemma fifo_ok_set_val [simp]: "fifo_ok (set_val a v h) q as \<longleftrightarrow> fifo_ok h q as"
  by (simp add: fifo_ok_def set_val_def)

section \<open>First in, first out\<close>

text \<open>What a queue promises: its contents are a list, elements enter at the end and leave in front.\<close>

locale first_in_first_out =
  fixes put :: "'a \<Rightarrow> 's \<Rightarrow> 's"
    and take_out :: "'s \<Rightarrow> 'a option \<times> 's"
    and contents :: "'s \<Rightarrow> 'a list \<Rightarrow> bool"
  assumes put_contents: "contents s xs \<Longrightarrow> a \<notin> set xs \<Longrightarrow> contents (put a s) (xs @ [a])"
    and take_nothing: "contents s [] \<Longrightarrow> fst (take_out s) = None \<and> contents (snd (take_out s)) []"
    and take_first: "contents s (a # xs) \<Longrightarrow> fst (take_out s) = Some a \<and> contents (snd (take_out s)) xs"

datatype 'a fifo_op = Put 'a | Take

fun run_fifo :: "('a \<Rightarrow> 's \<Rightarrow> 's) \<Rightarrow> ('s \<Rightarrow> 'a option \<times> 's) \<Rightarrow> 'a fifo_op list \<Rightarrow> 's \<Rightarrow> 'a option list \<times> 's" where
  "run_fifo put take_out [] s = ([], s)"
| "run_fifo put take_out (Put a # ops) s = run_fifo put take_out ops (put a s)"
| "run_fifo put take_out (Take # ops) s =
     (case take_out s of (x, s') \<Rightarrow> case run_fifo put take_out ops s' of (xs, s'') \<Rightarrow> (x # xs, s''))"

fun puts :: "'a fifo_op list \<Rightarrow> 'a list" where
  "puts [] = []"
| "puts (Put a # ops) = a # puts ops"
| "puts (Take # ops) = puts ops"

text \<open>The same operations on a list.\<close>

fun spec_fifo :: "'a fifo_op list \<Rightarrow> 'a list \<Rightarrow> 'a option list \<times> 'a list" where
  "spec_fifo [] xs = ([], xs)"
| "spec_fifo (Put a # ops) xs = spec_fifo ops (xs @ [a])"
| "spec_fifo (Take # ops) [] = (case spec_fifo ops [] of (ys, zs) \<Rightarrow> (None # ys, zs))"
| "spec_fifo (Take # ops) (x # xs) = (case spec_fifo ops xs of (ys, zs) \<Rightarrow> (Some x # ys, zs))"

text \<open>On the list nothing is lost, duplicated or reordered.\<close>

lemma spec_fifo_order:
  "spec_fifo ops xs = (ys, zs) \<Longrightarrow> map the (filter (\<lambda>y. y \<noteq> None) ys) @ zs = xs @ puts ops"
  by (induction ops xs arbitrary: ys rule: spec_fifo.induct) (auto split: prod.splits)

context first_in_first_out
begin

lemma run_contents:
  assumes "contents s xs" "distinct (xs @ puts ops)" "run_fifo put take_out ops s = (ys, s')"
    "spec_fifo ops xs = (ys', zs)"
  shows "ys = ys' \<and> contents s' zs"
  using assms
proof (induction ops xs arbitrary: s ys ys' rule: spec_fifo.induct)
  case (2 a ops xs)
  then show ?case using put_contents [of s xs a] by auto
next
  case (3 ops)
  then show ?case using take_nothing [of s] by (auto split: prod.splits)
next
  case (4 ops x xs)
  then show ?case using take_first [of s x xs] by (auto split: prod.splits)
qed simp

lemma run_order:
  assumes "contents s xs" "distinct (xs @ puts ops)" "run_fifo put take_out ops s = (ys, s')"
  shows "\<exists>zs. contents s' zs \<and> map the (filter (\<lambda>y. y \<noteq> None) ys) @ zs = xs @ puts ops"
  using run_contents [OF assms] spec_fifo_order by (metis surj_pair)

end

definition queue_holds :: "client \<Rightarrow> nat list \<Rightarrow> bool" where
  "queue_holds c as \<longleftrightarrow> fifo_ok (heap c) (queue c) as"

definition pool_holds :: "client \<Rightarrow> nat list \<Rightarrow> bool" where
  "pool_holds c as \<longleftrightarrow> fifo_ok (heap c) (pool c) as"

interpretation tq: first_in_first_out queue_put queue_take queue_holds
proof
  fix c as and a :: nat
  assume "queue_holds c as" "a \<notin> set as"
  then show "queue_holds (queue_put a c) (as @ [a])"
    by (auto simp: queue_holds_def queue_put_def Let_def split: prod.split
        intro!: put_tail_ok [OF fifo_ok_set_val [THEN iffD2]])
qed (auto simp: queue_holds_def queue_take_def split: prod.split dest!: take_head_ok)

interpretation np: first_in_first_out pool_put pool_take pool_holds
proof
  fix c as and a :: nat
  assume "pool_holds c as" "a \<notin> set as"
  then show "pool_holds (pool_put a c) (as @ [a])"
    by (auto simp: pool_holds_def pool_put_def Let_def intro: put_tail_ok split: prod.split)
qed (auto simp: pool_holds_def pool_take_def split: prod.split dest!: take_head_ok)

text \<open>C27: The transaction queue is first in, first out: whatever sequence of enqueue and dequeue
  operations is run on it, the nodes that come out and then those that remain are, in order, the
  nodes that were there and then those that were put in. The pointer structure in memory, with its
  tail pointer and its case of a single node, implements the list.\<close>
theorem transaction_queue_order:
  assumes "queue_holds c as" "distinct (as @ puts ops)" "run_fifo queue_put queue_take ops c = (out, c')"
  shows "\<exists>left. queue_holds c' left \<and> map the (filter (\<lambda>y. y \<noteq> None) out) @ left = as @ puts ops"
  using assms by (rule tq.run_order)

definition empty_client :: client where
  "empty_client = \<lparr>heap = \<lparr>val = (\<lambda>_. \<lparr>nd_s = 0, nd_id = 0, nd_status = 0, nd_transaction = 0, nd_data = None\<rparr>),
       next_of = (\<lambda>_. None), live = {}, brk = 0\<rparr>,
     queue = empty_fifo, queue_length = 0, transaction_id = 0, queued = replicate TRANSACTION_MAX 0,
     executing_now = replicate TRANSACTION_MAX 0, pool = empty_fifo, free_count = 0\<rparr>"

theorem transaction_queue_order_witness:
  "\<exists>out c' left. run_fifo queue_put queue_take [Put 3, Put 5, Take, Put 4, Take] empty_client = (out, c') \<and>
     queue_holds c' left \<and> map the (filter (\<lambda>y. y \<noteq> None) out) @ left = [3, 5, 4]"
proof -
  obtain out c' where run: "run_fifo queue_put queue_take [Put 3, Put 5, Take, Put 4, Take] empty_client = (out, c')"
    by (metis surj_pair)
  have "queue_holds empty_client []" by (simp add: queue_holds_def empty_client_def fifo_ok_empty)
  from transaction_queue_order [OF this _ run] show ?thesis using run by auto
qed

text \<open>The pool of free nodes of the listener keeps the order, too: nodes are reused in the order in
  which they were recycled, and none is handed out twice before it comes back.\<close>
theorem node_pool_order:
  assumes "pool_holds c as" "distinct (as @ puts ops)" "run_fifo pool_put pool_take ops c = (out, c')"
  shows "\<exists>left. pool_holds c' left \<and> map the (filter (\<lambda>y. y \<noteq> None) out) @ left = as @ puts ops"
  using assms by (rule np.run_order)

theorem node_pool_order_witness:
  "\<exists>out c' left. run_fifo pool_put pool_take [Take, Put 3, Put 5, Take] empty_client = (out, c') \<and>
     pool_holds c' left \<and> map the (filter (\<lambda>y. y \<noteq> None) out) @ left = [3, 5]"
proof -
  obtain out c' where run: "run_fifo pool_put pool_take [Take, Put 3, Put 5, Take] empty_client = (out, c')"
    by (metis surj_pair)
  have "pool_holds empty_client []" by (simp add: pool_holds_def empty_client_def fifo_ok_empty)
  from node_pool_order [OF this _ run] show ?thesis using run by auto
qed

end
