(* ===== verification/Client_System.thy ===== *)
theory Client_System
  imports Transaction_Queue
begin

text \<open>
  The client at work: the threads of the listener (\<open>init_listener\<close> and \<open>listener_worker\<close> of
  \<open>src/src/listener.c\<close>), one for each terminal, and those of the database connections
  (\<open>db_worker\<close> of \<open>src/src/db_threadpool.c\<close>), which exchange nodes through the transaction queue
  and the pool of free nodes. The threads interleave at the calls that lock a mutex, wait on or post
  a semaphore, or use a socket; each of these is a step. What arrives on a socket, what the database
  answers and when a terminal hangs up is left open.
\<close>

section \<open>Threads\<close>

text \<open>Where a listener thread is in its loop, and the node it holds.\<close>

datatype listener =
    Reading nat \<comment> \<open>in \<open>receive_transaction_data\<close>\<close>
  | Received nat \<comment> \<open>at the start of \<open>enqueue_transaction\<close>\<close>
  | Counted nat \<comment> \<open>before locking the queue\<close>
  | Waiting \<comment> \<open>in \<open>sem_wait\<close> of \<open>get_node\<close>\<close>
  | Woken \<comment> \<open>after it\<close>
  | Exited

text \<open>The same for a database worker.\<close>

datatype db_worker =
    Idle \<comment> \<open>in \<open>sem_wait\<close> of \<open>dequeue_transaction\<close>\<close>
  | Signalled \<comment> \<open>after it\<close>
  | Taken nat \<comment> \<open>out of the queue, still counted as queued\<close>
  | Uncounted nat \<comment> \<open>no longer counted as queued\<close>
  | Executing nat \<comment> \<open>in \<open>process_transaction\<close>\<close>
  | Answered nat \<comment> \<open>after \<open>send_transaction_data\<close>\<close>
  | Finished nat \<comment> \<open>before \<open>recycle_node\<close>\<close>

record system =
  cl :: client
  listeners :: "listener list"
  db_workers :: "db_worker list"
  listener_worker_count :: nat
  worker_count :: "nat list"
  requests :: "(int \<times> int) list" \<comment> \<open>socket and transaction, as they arrived\<close>
  replies :: "(int \<times> int) list" \<comment> \<open>socket and transaction, as they were answered\<close>
  broken :: bool \<comment> \<open>an access outside an array, or \<open>exit(1)\<close>\<close>

text \<open>\<open>client_data\<close> is overwritten by what was received; the socket of the node stays.\<close>

definition store_request :: "nat \<Rightarrow> int \<Rightarrow> int \<Rightarrow> transaction_data_t option \<Rightarrow> client \<Rightarrow> client" where
  "store_request a st t d c = c\<lparr>heap := set_val a ((val (heap c) a)\<lparr>nd_status := st,
     nd_transaction := t, nd_data := d\<rparr>) (heap c)\<rparr>"

text \<open>The result of the transaction is stored in the node; its kind does not change.\<close>

definition store_result :: "nat \<Rightarrow> int \<Rightarrow> transaction_data_t option \<Rightarrow> client \<Rightarrow> client" where
  "store_result a st d c = c\<lparr>heap := set_val a ((val (heap c) a)\<lparr>nd_status := st, nd_data := d\<rparr>) (heap c)\<rparr>"

definition accept_node :: "int \<Rightarrow> client \<Rightarrow> nat \<times> client" where
  "accept_node sock c = (case malloc (heap c) of (a, h) \<Rightarrow>
     (a, c\<lparr>heap := set_val a ((val h a)\<lparr>nd_s := sock\<rparr>) h\<rparr>))"

definition free_node :: "nat \<Rightarrow> client \<Rightarrow> client" where
  "free_node a c = c\<lparr>heap := free a (heap c)\<rparr>"

section \<open>Steps\<close>

text \<open>
  The steps of the program on its own. Reaching \<open>count_outside\<close> is an access outside the arrays of
  counters, reaching \<open>get_null\<close> the call of \<open>exit(1)\<close>.
\<close>

inductive client_step :: "system \<Rightarrow> system \<Rightarrow> bool" where
  count:
  "listeners s = ls @ Received a # ls' \<Longrightarrow> count_queued a 1 (cl s) = Some c \<Longrightarrow>
   client_step s (s\<lparr>cl := c, listeners := ls @ Counted a # ls'\<rparr>)"
| count_outside:
  "listeners s = ls @ Received a # ls' \<Longrightarrow> count_queued a 1 (cl s) = None \<Longrightarrow>
   client_step s (s\<lparr>broken := True\<rparr>)"
| enqueue:
  "listeners s = ls @ Counted a # ls' \<Longrightarrow>
   client_step s (s\<lparr>cl := queue_put a (cl s), listeners := ls @ Waiting # ls'\<rparr>)"
| wait_free:
  "listeners s = ls @ Waiting # ls' \<Longrightarrow> 0 < free_count (cl s) \<Longrightarrow>
   client_step s (s\<lparr>cl := (cl s)\<lparr>free_count := free_count (cl s) - 1\<rparr>, listeners := ls @ Woken # ls'\<rparr>)"
| get:
  "listeners s = ls @ Woken # ls' \<Longrightarrow> pool_take (cl s) = (Some a, c) \<Longrightarrow>
   client_step s (s\<lparr>cl := c, listeners := ls @ Reading a # ls'\<rparr>)"
| get_null:
  "listeners s = ls @ Woken # ls' \<Longrightarrow> pool_take (cl s) = (None, c) \<Longrightarrow>
   client_step s (s\<lparr>broken := True\<rparr>)"
| wait_queue:
  "db_workers s = ws @ Idle # ws' \<Longrightarrow> 0 < queue_length (cl s) \<Longrightarrow>
   client_step s (s\<lparr>cl := (cl s)\<lparr>queue_length := queue_length (cl s) - 1\<rparr>, db_workers := ws @ Signalled # ws'\<rparr>)"
| dequeue:
  "db_workers s = ws @ Signalled # ws' \<Longrightarrow> queue_take (cl s) = (Some a, c) \<Longrightarrow>
   client_step s (s\<lparr>cl := c, db_workers := ws @ Taken a # ws'\<rparr>)"
| dequeue_null:
  "db_workers s = ws @ Signalled # ws' \<Longrightarrow> queue_take (cl s) = (None, c) \<Longrightarrow>
   client_step s (s\<lparr>cl := c, db_workers := ws @ Idle # ws'\<rparr>)"
| uncount:
  "db_workers s = ws @ Taken a # ws' \<Longrightarrow> count_queued a (- 1) (cl s) = Some c \<Longrightarrow>
   client_step s (s\<lparr>cl := c, db_workers := ws @ Uncounted a # ws'\<rparr>)"
| count_exec:
  "db_workers s = ws @ Uncounted a # ws' \<Longrightarrow> count_executing a 1 (cl s) = Some c \<Longrightarrow>
   client_step s (s\<lparr>cl := c, db_workers := ws @ Executing a # ws'\<rparr>)"
| answer:
  "db_workers s = ws @ Executing a # ws' \<Longrightarrow>
   client_step s (s\<lparr>cl := store_result a st d (cl s), db_workers := ws @ Answered a # ws',
     replies := replies s @ [(nd_s (val (heap (cl s)) a), nd_transaction (val (heap (cl s)) a))]\<rparr>)"
| uncount_exec:
  "db_workers s = ws @ Answered a # ws' \<Longrightarrow> count_executing a (- 1) (cl s) = Some c \<Longrightarrow>
   client_step s (s\<lparr>cl := c, db_workers := ws @ Finished a # ws'\<rparr>)"
| recycle:
  "db_workers s = ws @ Finished a # ws' \<Longrightarrow>
   client_step s (s\<lparr>cl := pool_put a (cl s), db_workers := ws @ Idle # ws',
     worker_count := (worker_count s)[length ws := worker_count s ! length ws + 1]\<rparr>)"

text \<open>
  With the terminals: connections, requests, errors and hanging up. \<open>T\<close> is the set of transactions
  that they may ask for.
\<close>

inductive sys_step :: "int set \<Rightarrow> system \<Rightarrow> system \<Rightarrow> bool" for T where
  accept:
  "accept_node sock (cl s) = (a, c) \<Longrightarrow>
   sys_step T s (s\<lparr>cl := c, listeners := listeners s @ [Reading a],
     listener_worker_count := listener_worker_count s + 1\<rparr>)"
| receive_error:
  "listeners s = ls @ Reading a # ls' \<Longrightarrow>
   sys_step T s (s\<lparr>cl := store_request a st t d (cl s)\<rparr>)"
| closed:
  "listeners s = ls @ Reading a # ls' \<Longrightarrow> 0 < listener_worker_count s \<Longrightarrow>
   sys_step T s (s\<lparr>cl := free_node a (cl s), listeners := ls @ Exited # ls',
     listener_worker_count := listener_worker_count s - 1\<rparr>)"
| receive:
  "listeners s = ls @ Reading a # ls' \<Longrightarrow> t \<in> T \<Longrightarrow>
   sys_step T s (s\<lparr>cl := store_request a st t d (cl s), listeners := ls @ Received a # ls',
     requests := requests s @ [(nd_s (val (heap (cl s)) a), t)]\<rparr>)"
| run:
  "client_step s s' \<Longrightarrow> sys_step T s s'"

definition initial_system :: "nat \<Rightarrow> system" where
  "initial_system connections = \<lparr>cl = empty_client, listeners = [], db_workers = replicate connections Idle,
     listener_worker_count = 0, worker_count = replicate connections 0, requests = [], replies = [],
     broken = False\<rparr>"

inductive reachable :: "int set \<Rightarrow> nat \<Rightarrow> system \<Rightarrow> bool" for T connections where
  start: "reachable T connections (initial_system connections)"
| step: "reachable T connections s \<Longrightarrow> sys_step T s s' \<Longrightarrow> reachable T connections s'"

end
