(* ===== verification/Client_Invariant.thy ===== *)
theory Client_Invariant
  imports Client_System
begin

text \<open>
  What holds in every reachable state of the client: every node is in exactly one place, the
  counters say how many are queued and executing, a thread let through by a semaphore finds a node,
  and requests are answered to the socket they came from, all of them if the client is left alone.
\<close>

section \<open>Who has the nodes\<close>

fun l_reading :: "listener \<Rightarrow> nat multiset" where
  "l_reading (Reading a) = {#a#}"
| "l_reading _ = {#}"

fun l_received :: "listener \<Rightarrow> nat multiset" where
  "l_received (Received a) = {#a#}"
| "l_received _ = {#}"

fun l_counted :: "listener \<Rightarrow> nat multiset" where
  "l_counted (Counted a) = {#a#}"
| "l_counted _ = {#}"

fun l_waiting :: "listener \<Rightarrow> nat" where
  "l_waiting Waiting = 1"
| "l_waiting Woken = 1"
| "l_waiting _ = 0"

fun l_woken :: "listener \<Rightarrow> nat" where
  "l_woken Woken = 1"
| "l_woken _ = 0"

fun l_alive :: "listener \<Rightarrow> nat" where
  "l_alive Exited = 0"
| "l_alive _ = 1"

fun w_counted :: "db_worker \<Rightarrow> nat multiset" where
  "w_counted (Taken a) = {#a#}"
| "w_counted _ = {#}"

fun w_executing :: "db_worker \<Rightarrow> nat multiset" where
  "w_executing (Executing a) = {#a#}"
| "w_executing (Answered a) = {#a#}"
| "w_executing _ = {#}"

fun w_between :: "db_worker \<Rightarrow> nat multiset" where
  "w_between (Uncounted a) = {#a#}"
| "w_between (Finished a) = {#a#}"
| "w_between _ = {#}"

fun w_signalled :: "db_worker \<Rightarrow> nat" where
  "w_signalled Signalled = 1"
| "w_signalled _ = 0"

definition total :: "('x \<Rightarrow> 'y::comm_monoid_add) \<Rightarrow> 'x list \<Rightarrow> 'y" where
  "total f xs = sum_list (map f xs)"

lemma total_simps [simp]:
  "total f [] = 0" "total f (x # xs) = f x + total f xs" "total f (xs @ ys) = total f xs + total f ys"
  by (simp_all add: total_def)

lemma total_replicate [simp]: "f x = 0 \<Longrightarrow> total f (replicate n x) = 0"
  by (induction n) simp_all

text \<open>The nodes that are counted as queued, and those counted as executing.\<close>

definition counted_nodes :: "system \<Rightarrow> nat list \<Rightarrow> nat multiset" where
  "counted_nodes s qs = mset qs + total l_counted (listeners s) + total w_counted (db_workers s)"

text \<open>The nodes whose transaction is settled, and all that some thread or list has.\<close>

definition typed_nodes :: "system \<Rightarrow> nat list \<Rightarrow> nat multiset" where
  "typed_nodes s qs = counted_nodes s qs + total w_executing (db_workers s) +
     total w_between (db_workers s) + total l_received (listeners s)"

definition all_nodes :: "system \<Rightarrow> nat list \<Rightarrow> nat list \<Rightarrow> nat multiset" where
  "all_nodes s qs fs = typed_nodes s qs + total l_reading (listeners s) + mset fs"

definition of_type :: "client \<Rightarrow> int \<Rightarrow> nat multiset \<Rightarrow> int" where
  "of_type c t N = int (size (filter_mset (\<lambda>a. transaction_of c a = t) N))"

definition in_range :: "client \<Rightarrow> nat \<Rightarrow> bool" where
  "in_range c a \<longleftrightarrow> 0 \<le> transaction_of c a \<and> transaction_of c a < int TRANSACTION_MAX"

definition lists_ok :: "client \<Rightarrow> nat list \<Rightarrow> nat list \<Rightarrow> bool" where
  "lists_ok c qs fs \<longleftrightarrow> queue_holds c qs \<and> pool_holds c fs \<and> heap_ok (heap c) \<and> finite (live (heap c))"

definition counters_ok :: "client \<Rightarrow> nat multiset \<Rightarrow> nat multiset \<Rightarrow> bool" where
  "counters_ok c N E \<longleftrightarrow> length (queued c) = TRANSACTION_MAX \<and> length (executing_now c) = TRANSACTION_MAX \<and>
     (\<forall>t < TRANSACTION_MAX. queued c ! t = of_type c (int t) N \<and> executing_now c ! t = of_type c (int t) E)"

definition sys_inv :: "system \<Rightarrow> nat list \<Rightarrow> nat list \<Rightarrow> bool" where
  "sys_inv s qs fs \<longleftrightarrow> lists_ok (cl s) qs fs \<and>
     all_nodes s qs fs = mset_set (live (heap (cl s))) \<and>
     counters_ok (cl s) (counted_nodes s qs) (total w_executing (db_workers s)) \<and>
     (\<forall>a \<in># typed_nodes s qs. in_range (cl s) a) \<and>
     queue_length (cl s) + total w_signalled (db_workers s) = length qs \<and>
     free_count (cl s) + total l_woken (listeners s) = length fs \<and>
     size (all_nodes s qs fs) = total l_alive (listeners s) \<and>
     listener_worker_count s = total l_alive (listeners s) \<and>
     length (worker_count s) = length (db_workers s) \<and> \<not> broken s"

lemmas node_defs = all_nodes_def typed_nodes_def counted_nodes_def

section \<open>The invariant\<close>

lemma mset_set_apart: "X + Y = mset_set A \<Longrightarrow> a \<in># X \<Longrightarrow> a \<notin># Y"
proof
  assume e: "X + Y = mset_set A" and x: "a \<in># X" and y: "a \<in># Y"
  have "0 < count X a" "0 < count Y a" using x y by simp_all
  then have "2 \<le> count (X + Y) a" unfolding count_union by linarith
  moreover have "count (mset_set A) a \<le> 1" by (cases "finite A"; cases "a \<in> A") simp_all
  ultimately show False unfolding e by simp
qed

lemma of_type_cong:
  assumes "\<And>a. a \<in># N \<Longrightarrow> transaction_of c' a = transaction_of c a"
  shows "of_type c' t N = of_type c t N"
proof -
  have "filter_mset (\<lambda>a. transaction_of c' a = t) N = filter_mset (\<lambda>a. transaction_of c a = t) N"
    using assms by (intro filter_mset_cong) auto
  then show ?thesis by (simp add: of_type_def)
qed

lemma of_type_add [simp]: "of_type c t (M + N) = of_type c t M + of_type c t N"
  by (simp add: of_type_def)

lemma of_type_empty [simp]: "of_type c t {#} = 0"
  by (simp add: of_type_def)

lemma of_type_single: "of_type c t {#a#} = (if transaction_of c a = t then 1 else 0)"
  by (simp add: of_type_def)

lemma of_type_add_mset: "of_type c t (add_mset a N) = of_type c t N + (if transaction_of c a = t then 1 else 0)"
  by (simp add: of_type_def)

text \<open>Counting a node in or out of one of the arrays.\<close>

lemma add_counter_nth:
  assumes "add_counter (transaction_of c a) d cs = Some cs'"
  shows "length cs' = length cs" "t < length cs \<Longrightarrow> cs' ! t = cs ! t + d * of_type c (int t) {#a#}"
  using assms by (auto simp: add_counter_def of_type_single nth_list_update split: if_splits)

lemma add_counter_some:
  "in_range c a \<Longrightarrow> length cs = TRANSACTION_MAX \<Longrightarrow> \<exists>cs'. add_counter (transaction_of c a) d cs = Some cs'"
  by (simp add: add_counter_def in_range_def)

lemma counters_cong:
  assumes "counters_ok c N E" "queued c' = queued c" "executing_now c' = executing_now c"
    "\<And>a. a \<in># N + E \<Longrightarrow> transaction_of c' a = transaction_of c a"
  shows "counters_ok c' N E"
proof -
  have "of_type c' t N = of_type c t N" "of_type c' t E = of_type c t E" for t
    using assms(4) by (auto intro!: of_type_cong)
  then show ?thesis using assms by (simp add: counters_ok_def)
qed

text \<open>What counting leaves alone.\<close>

definition same_lists :: "client \<Rightarrow> client \<Rightarrow> bool" where
  "same_lists c c' \<longleftrightarrow> heap c' = heap c \<and> queue c' = queue c \<and> pool c' = pool c \<and>
     queue_length c' = queue_length c \<and> free_count c' = free_count c"

lemma same_lists_ok: "same_lists c c' \<Longrightarrow> lists_ok c' qs fs = lists_ok c qs fs"
  by (simp add: same_lists_def lists_ok_def queue_holds_def pool_holds_def)

lemma same_lists_range: "same_lists c c' \<Longrightarrow> in_range c' a = in_range c a"
  by (simp add: same_lists_def in_range_def transaction_of_def)

lemma count_queued_ok:
  assumes "counters_ok c N E" "count_queued a d c = Some c'"
    and "\<And>t. of_type c t N' = of_type c t N + d * of_type c t {#a#}"
  shows "counters_ok c' N' E" "same_lists c c'"
proof -
  from assms(2) obtain cs' where cs: "add_counter (transaction_of c a) d (queued c) = Some cs'"
    "c' = c\<lparr>queued := cs'\<rparr>" by (auto simp: count_queued_def)
  have "of_type c' t M = of_type c t M" for t M by (simp add: of_type_def cs(2) transaction_of_def)
  then show "counters_ok c' N' E" using assms(1,3) add_counter_nth [OF cs(1)]
    by (simp add: counters_ok_def) (simp add: cs(2))
  show "same_lists c c'" by (simp add: cs(2) same_lists_def)
qed

lemma count_executing_ok:
  assumes "counters_ok c N E" "count_executing a d c = Some c'"
    and "\<And>t. of_type c t E' = of_type c t E + d * of_type c t {#a#}"
  shows "counters_ok c' N E'" "same_lists c c'"
proof -
  from assms(2) obtain cs' where cs: "add_counter (transaction_of c a) d (executing_now c) = Some cs'"
    "c' = c\<lparr>executing_now := cs'\<rparr>" by (auto simp: count_executing_def)
  have "of_type c' t M = of_type c t M" for t M by (simp add: of_type_def cs(2) transaction_of_def)
  then show "counters_ok c' N E'" using assms(1,3) add_counter_nth [OF cs(1)]
    by (simp add: counters_ok_def) (simp add: cs(2))
  show "same_lists c c'" by (simp add: cs(2) same_lists_def)
qed

text \<open>Overwriting a node that only a listener has.\<close>

lemma store_lists: "lists_ok (store_request a st t d c) qs fs = lists_ok c qs fs"
  "lists_ok (store_result a st d c) qs fs = lists_ok c qs fs"
  by (simp_all add: lists_ok_def store_request_def store_result_def queue_holds_def pool_holds_def)
     (simp_all add: set_val_def)

lemma store_transaction:
  "transaction_of (store_request a st t d c) b = (if b = a then t else transaction_of c b)"
  "transaction_of (store_result a st d c) b = transaction_of c b"
  by (simp_all add: transaction_of_def store_request_def store_result_def set_val_def)

lemma store_other:
  "live (heap (store_request a st t d c)) = live (heap c)" "live (heap (store_result a st d c)) = live (heap c)"
  "queued (store_request a st t d c) = queued c" "queued (store_result a st d c) = queued c"
  "executing_now (store_request a st t d c) = executing_now c" "executing_now (store_result a st d c) = executing_now c"
  "queue_length (store_request a st t d c) = queue_length c" "queue_length (store_result a st d c) = queue_length c"
  "free_count (store_request a st t d c) = free_count c" "free_count (store_result a st d c) = free_count c"
  by (simp_all add: store_request_def store_result_def set_val_def)

text \<open>The lists.\<close>

definition same_nodes :: "client \<Rightarrow> client \<Rightarrow> bool" where
  "same_nodes c c' \<longleftrightarrow> transaction_of c' = transaction_of c \<and> live (heap c') = live (heap c) \<and>
     brk (heap c') = brk (heap c) \<and> queued c' = queued c \<and> executing_now c' = executing_now c"

lemma same_nodes_counters: "same_nodes c c' \<Longrightarrow> counters_ok c' N E = counters_ok c N E"
  by (simp add: same_nodes_def counters_ok_def of_type_def)

lemma same_nodes_range: "same_nodes c c' \<Longrightarrow> in_range c' a = in_range c a"
  by (simp add: same_nodes_def in_range_def)

lemma put_tail_brk: "put_tail a (q, h) = (q', h') \<Longrightarrow> brk h' = brk h"
  by (auto simp: put_tail_def set_next_def Let_def split: option.splits)

lemma queue_put_ok:
  assumes "lists_ok c qs fs" "a \<notin> set qs" "a \<notin> set fs" "set qs \<inter> set fs = {}"
  shows "lists_ok (queue_put a c) (qs @ [a]) fs" "same_nodes c (queue_put a c)"
    "queue_length (queue_put a c) = queue_length c + 1" "free_count (queue_put a c) = free_count c"
proof -
  let ?h = "set_val a ((val (heap c) a)\<lparr>nd_id := transaction_id c + 1\<rparr>) (heap c)"
  obtain q h where p: "put_tail a (queue c, ?h) = (q, h)" by fastforce
  have c': "queue_put a c = c\<lparr>queue := q, heap := h, transaction_id := transaction_id c + 1,
      queue_length := queue_length c + 1\<rparr>"
    by (simp add: queue_put_def p Let_def)
  have q: "fifo_ok ?h (queue c) qs" "fifo_ok ?h (pool c) fs"
    using assms(1) by (simp_all add: lists_ok_def queue_holds_def pool_holds_def)
  note frame = put_tail_frame [OF q assms(4,3) p]
  show "lists_ok (queue_put a c) (qs @ [a]) fs"
    using assms(1) put_tail_ok [OF q(1) assms(2) p] frame put_tail_brk [OF p]
    by (simp add: lists_ok_def queue_holds_def pool_holds_def c' heap_ok_def set_val_def)
  show "same_nodes c (queue_put a c)"
    using frame put_tail_brk [OF p] by (simp add: same_nodes_def c' transaction_of_def set_val_def fun_eq_iff)
  show "queue_length (queue_put a c) = queue_length c + 1" "free_count (queue_put a c) = free_count c"
    by (simp_all add: c')
qed

lemma pool_put_ok:
  assumes "lists_ok c qs fs" "a \<notin> set qs" "a \<notin> set fs" "set qs \<inter> set fs = {}"
  shows "lists_ok (pool_put a c) qs (fs @ [a])" "same_nodes c (pool_put a c)"
    "queue_length (pool_put a c) = queue_length c" "free_count (pool_put a c) = free_count c + 1"
proof -
  obtain q h where p: "put_tail a (pool c, heap c) = (q, h)" by fastforce
  have c': "pool_put a c = c\<lparr>pool := q, heap := h, free_count := free_count c + 1\<rparr>"
    by (simp add: pool_put_def p)
  have q: "fifo_ok (heap c) (queue c) qs" "fifo_ok (heap c) (pool c) fs"
    using assms(1) by (simp_all add: lists_ok_def queue_holds_def pool_holds_def)
  have "set fs \<inter> set qs = {}" using assms(4) by blast
  note frame = put_tail_frame [OF q(2,1) this assms(2) p]
  show "lists_ok (pool_put a c) qs (fs @ [a])"
    using assms(1) put_tail_ok [OF q(2) assms(3) p] frame put_tail_brk [OF p]
    by (simp add: lists_ok_def queue_holds_def pool_holds_def c' heap_ok_def)
  show "same_nodes c (pool_put a c)"
    using frame put_tail_brk [OF p] by (simp add: same_nodes_def c' transaction_of_def fun_eq_iff)
  show "queue_length (pool_put a c) = queue_length c" "free_count (pool_put a c) = free_count c + 1"
    by (simp_all add: c')
qed

lemma queue_take_ok:
  assumes "lists_ok c qs fs" "queue_take c = (x, c')"
  shows "case qs of [] \<Rightarrow> x = None | a # as \<Rightarrow> x = Some a \<and> lists_ok c' as fs"
    "same_nodes c c'" "queue_length c' = queue_length c" "free_count c' = free_count c"
proof -
  obtain q where q: "take_head (queue c) (heap c) = (x, q)" "c' = c\<lparr>queue := q\<rparr>"
    using assms(2) by (auto simp: queue_take_def split: prod.splits)
  have "fifo_ok (heap c) (queue c) qs" using assms(1) by (simp add: lists_ok_def queue_holds_def)
  from take_head_ok [OF this q(1)] show "case qs of [] \<Rightarrow> x = None | a # as \<Rightarrow> x = Some a \<and> lists_ok c' as fs"
    using assms(1) by (cases qs) (simp_all add: lists_ok_def queue_holds_def pool_holds_def q(2))
  show "same_nodes c c'" "queue_length c' = queue_length c" "free_count c' = free_count c"
    by (simp_all add: q(2) same_nodes_def transaction_of_def fun_eq_iff)
qed

lemma pool_take_ok:
  assumes "lists_ok c qs fs" "pool_take c = (x, c')"
  shows "case fs of [] \<Rightarrow> x = None | a # as \<Rightarrow> x = Some a \<and> lists_ok c' qs as"
    "same_nodes c c'" "queue_length c' = queue_length c" "free_count c' = free_count c"
proof -
  obtain q where q: "take_head (pool c) (heap c) = (x, q)" "c' = c\<lparr>pool := q\<rparr>"
    using assms(2) by (auto simp: pool_take_def split: prod.splits)
  have "fifo_ok (heap c) (pool c) fs" using assms(1) by (simp add: lists_ok_def pool_holds_def)
  from take_head_ok [OF this q(1)] show "case fs of [] \<Rightarrow> x = None | a # as \<Rightarrow> x = Some a \<and> lists_ok c' qs as"
    using assms(1) by (cases fs) (simp_all add: lists_ok_def queue_holds_def pool_holds_def q(2))
  show "same_nodes c c'" "queue_length c' = queue_length c" "free_count c' = free_count c"
    by (simp_all add: q(2) same_nodes_def transaction_of_def fun_eq_iff)
qed

lemma accept_ok:
  assumes "lists_ok c qs fs" "accept_node sock c = (a, c')"
  shows "lists_ok c' qs fs" "a \<notin> live (heap c)" "live (heap c') = insert a (live (heap c))"
    "b \<noteq> a \<Longrightarrow> transaction_of c' b = transaction_of c b"
    "queued c' = queued c" "executing_now c' = executing_now c"
    "queue_length c' = queue_length c" "free_count c' = free_count c"
  using assms
  by (auto simp: accept_node_def malloc_def lists_ok_def queue_holds_def pool_holds_def heap_ok_def
      set_val_def fifo_ok_def transaction_of_def less_Suc_eq)

lemma free_node_ok:
  assumes "lists_ok c qs fs"
  shows "lists_ok (free_node a c) qs fs" "live (heap (free_node a c)) = live (heap c) - {a}"
    "transaction_of (free_node a c) = transaction_of c"
    "queued (free_node a c) = queued c" "executing_now (free_node a c) = executing_now c"
    "queue_length (free_node a c) = queue_length c" "free_count (free_node a c) = free_count c"
  using assms
  by (auto simp: free_node_def free_def lists_ok_def queue_holds_def pool_holds_def heap_ok_def fifo_ok_def
      transaction_of_def fun_eq_iff)

lemma sys_inv_apart:
  assumes "sys_inv s qs fs" "all_nodes s qs fs = X + Y" "a \<in># X"
  shows "a \<notin># Y"
  using assms by (auto simp: sys_inv_def dest: mset_set_apart)

lemma sys_inv_start: "sys_inv (initial_system n) [] []"
  by (simp add: sys_inv_def initial_system_def empty_client_def lists_ok_def queue_holds_def pool_holds_def
      fifo_ok_empty heap_ok_def node_defs counters_ok_def of_type_def)

lemma sys_invD:
  assumes "sys_inv s qs fs"
  shows "lists_ok (cl s) qs fs" "all_nodes s qs fs = mset_set (live (heap (cl s)))"
    "counters_ok (cl s) (counted_nodes s qs) (total w_executing (db_workers s))"
    "\<And>a. a \<in># typed_nodes s qs \<Longrightarrow> in_range (cl s) a"
    "queue_length (cl s) + total w_signalled (db_workers s) = length qs"
    "free_count (cl s) + total l_woken (listeners s) = length fs"
    "size (all_nodes s qs fs) = total l_alive (listeners s)"
    "listener_worker_count s = total l_alive (listeners s)"
    "length (worker_count s) = length (db_workers s)" "\<not> broken s"
  using assms unfolding sys_inv_def by blast+

lemma typed_sub: "b \<in># counted_nodes s qs + total w_executing (db_workers s) \<Longrightarrow> b \<in># typed_nodes s qs"
  by (auto simp: typed_nodes_def)

text \<open>A step that changes what is stored at a node without a settled transaction.\<close>

lemma other_transactions:
  assumes "counters_ok c (counted_nodes s qs) (total w_executing (db_workers s))"
    and "\<And>b. b \<in># typed_nodes s qs \<Longrightarrow> in_range c b"
    and "\<And>b. b \<noteq> a \<Longrightarrow> transaction_of c' b = transaction_of c b" "a \<notin># typed_nodes s qs"
    and "queued c' = queued c" "executing_now c' = executing_now c"
  shows "counters_ok c' (counted_nodes s qs) (total w_executing (db_workers s))"
    "b \<in># typed_nodes s qs \<Longrightarrow> in_range c' b"
proof -
  have same: "transaction_of c' b = transaction_of c b" if "b \<in># typed_nodes s qs" for b
    using assms(3) [of b] assms(4) that by blast
  show "counters_ok c' (counted_nodes s qs) (total w_executing (db_workers s))"
    by (rule counters_cong [OF assms(1,5,6)]) (rule same [OF typed_sub])
  show "b \<in># typed_nodes s qs \<Longrightarrow> in_range c' b"
    using assms(2) [of b] same [of b] by (simp add: in_range_def)
qed

lemma reading_apart:
  assumes inv: "sys_inv s qs fs" and l: "listeners s = ls @ Reading a # ls'"
  shows "a \<notin># typed_nodes s qs"
proof -
  have "all_nodes s qs fs = total l_reading (listeners s) + (typed_nodes s qs + mset fs)"
    by (simp add: all_nodes_def ac_simps)
  moreover have "a \<in># total l_reading (listeners s)" by (simp add: l)
  ultimately have "a \<notin># typed_nodes s qs + mset fs" by (rule sys_inv_apart [OF inv])
  then show ?thesis by simp
qed

lemma store_request_inv:
  assumes inv: "sys_inv s qs fs" and l: "listeners s = ls @ Reading a # ls'"
  shows "lists_ok (store_request a st t d (cl s)) qs fs"
    "counters_ok (store_request a st t d (cl s)) (counted_nodes s qs) (total w_executing (db_workers s))"
    "b \<in># typed_nodes s qs \<Longrightarrow> in_range (store_request a st t d (cl s)) b"
proof -
  note d = sys_invD [OF inv]
  show "lists_ok (store_request a st t d (cl s)) qs fs" using d(1) by (simp only: store_lists)
  note other = other_transactions [OF d(3,4) _ reading_apart [OF inv l], where c' = "store_request a st t d (cl s)"]
  show "counters_ok (store_request a st t d (cl s)) (counted_nodes s qs) (total w_executing (db_workers s))"
    by (rule other(1)) (simp_all add: store_transaction store_other)
  show "b \<in># typed_nodes s qs \<Longrightarrow> in_range (store_request a st t d (cl s)) b"
    by (rule other(2)) (simp_all add: store_transaction store_other)
qed

lemma sys_invI:
  assumes "lists_ok (cl s) qs fs" "all_nodes s qs fs = mset_set (live (heap (cl s)))"
    "counters_ok (cl s) (counted_nodes s qs) (total w_executing (db_workers s))"
    "\<And>a. a \<in># typed_nodes s qs \<Longrightarrow> in_range (cl s) a"
    "queue_length (cl s) + total w_signalled (db_workers s) = length qs"
    "free_count (cl s) + total l_woken (listeners s) = length fs"
    "size (all_nodes s qs fs) = total l_alive (listeners s)"
    "listener_worker_count s = total l_alive (listeners s)"
    "length (worker_count s) = length (db_workers s)" "\<not> broken s"
  shows "sys_inv s qs fs"
  using assms unfolding sys_inv_def by blast

text \<open>Most steps keep the nodes and the number of live listeners.\<close>

definition same_world :: "system \<Rightarrow> system \<Rightarrow> bool" where
  "same_world s s' \<longleftrightarrow> live (heap (cl s')) = live (heap (cl s)) \<and>
     total l_alive (listeners s') = total l_alive (listeners s) \<and>
     listener_worker_count s' = listener_worker_count s \<and>
     length (worker_count s') = length (worker_count s) \<and>
     length (db_workers s') = length (db_workers s) \<and> broken s' = broken s"

lemma inv_keep:
  assumes inv: "sys_inv s qs fs" and w: "same_world s s'"
    and "lists_ok (cl s') qs' fs'" "all_nodes s' qs' fs' = all_nodes s qs fs"
    and "counters_ok (cl s') (counted_nodes s' qs') (total w_executing (db_workers s'))"
    and "\<And>a. a \<in># typed_nodes s' qs' \<Longrightarrow> in_range (cl s') a"
    and "queue_length (cl s') + total w_signalled (db_workers s') = length qs'"
    and "free_count (cl s') + total l_woken (listeners s') = length fs'"
  shows "sys_inv s' qs' fs'"
proof -
  note d = sys_invD [OF inv]
  have "all_nodes s' qs' fs' = mset_set (live (heap (cl s')))"
    using assms(4) d(2) w unfolding same_world_def by simp
  moreover have "size (all_nodes s' qs' fs') = total l_alive (listeners s')"
    using assms(4) d(7) w unfolding same_world_def by simp
  moreover have "listener_worker_count s' = total l_alive (listeners s')"
    "length (worker_count s') = length (db_workers s')" "\<not> broken s'"
    using d(8-10) w unfolding same_world_def by simp_all
  ultimately show ?thesis using assms(3,5-8) by (intro sys_invI)
qed

text \<open>Counting, and storing in a node: the lists stay as they are.\<close>

lemma inv_counting:
  assumes inv: "sys_inv s qs fs" and w: "same_world s s'" and same: "same_lists (cl s) (cl s')"
    and "counters_ok (cl s') (counted_nodes s' qs) (total w_executing (db_workers s'))"
    and "all_nodes s' qs fs = all_nodes s qs fs" "typed_nodes s' qs \<subseteq># typed_nodes s qs"
    and "total w_signalled (db_workers s') = total w_signalled (db_workers s)"
    and "total l_woken (listeners s') = total l_woken (listeners s)"
  shows "sys_inv s' qs fs"
proof -
  note d = sys_invD [OF inv]
  show ?thesis
  proof (rule inv_keep [OF inv w _ assms(5,4)])
    show "lists_ok (cl s') qs fs" using d(1) same_lists_ok [OF same] by simp
    show "in_range (cl s') a" if "a \<in># typed_nodes s' qs" for a
      using d(4) [of a] same_lists_range [OF same] that assms(6) by (simp add: mset_subset_eqD)
    show "queue_length (cl s') + total w_signalled (db_workers s') = length qs"
      "free_count (cl s') + total l_woken (listeners s') = length fs"
      using d(5,6) assms(7,8) same by (simp_all add: same_lists_def)
  qed
qed

text \<open>Linking and unlinking: the contents of the nodes and the counters stay as they are.\<close>

lemma inv_linking:
  assumes inv: "sys_inv s qs fs" and w: "same_world s s'" and same: "same_nodes (cl s) (cl s')"
    and "lists_ok (cl s') qs' fs'" "all_nodes s' qs' fs' = all_nodes s qs fs"
    and "counted_nodes s' qs' = counted_nodes s qs" "total w_executing (db_workers s') = total w_executing (db_workers s)"
    and "typed_nodes s' qs' \<subseteq># typed_nodes s qs"
    and "queue_length (cl s') + total w_signalled (db_workers s') = length qs'"
    and "free_count (cl s') + total l_woken (listeners s') = length fs'"
  shows "sys_inv s' qs' fs'"
proof -
  note d = sys_invD [OF inv]
  show ?thesis
  proof (rule inv_keep [OF inv w assms(4,5) _ _ assms(9,10)])
    show "counters_ok (cl s') (counted_nodes s' qs') (total w_executing (db_workers s'))"
      using d(3) same_nodes_counters [OF same] by (simp add: assms(6,7))
    show "in_range (cl s') a" if "a \<in># typed_nodes s' qs'" for a
      using d(4) [of a] same_nodes_range [OF same] that assms(8) by (simp add: mset_subset_eqD)
  qed
qed

lemma inv_accept:
  assumes inv: "sys_inv s qs fs" and acc: "accept_node sock (cl s) = (a, c)"
  shows "sys_inv (s\<lparr>cl := c, listeners := listeners s @ [Reading a],
     listener_worker_count := listener_worker_count s + 1\<rparr>) qs fs" (is "sys_inv ?s qs fs")
proof -
  note d = sys_invD [OF inv] and ok = accept_ok [OF sys_invD(1) [OF inv] acc]
  have fin: "finite (live (heap (cl s)))" using d(1) by (simp add: lists_ok_def)
  have "a \<notin># all_nodes s qs fs" using ok(2) fin by (simp add: d(2))
  then have new: "a \<notin># typed_nodes s qs" by (simp add: all_nodes_def)
  have n: "typed_nodes ?s qs = typed_nodes s qs" "counted_nodes ?s qs = counted_nodes s qs"
    "all_nodes ?s qs fs = add_mset a (all_nodes s qs fs)"
    by (simp_all add: node_defs)
  note other = other_transactions [OF d(3,4) ok(4) new ok(5,6)]
  show ?thesis
  proof (rule sys_invI)
    show "lists_ok (cl ?s) qs fs" using ok(1) by simp
    show "all_nodes ?s qs fs = mset_set (live (heap (cl ?s)))" unfolding n using ok(2,3) fin d(2) by simp
    show "counters_ok (cl ?s) (counted_nodes ?s qs) (total w_executing (db_workers ?s))" unfolding n using other(1) by simp
    show "in_range (cl ?s) b" if "b \<in># typed_nodes ?s qs" for b using other(2) that unfolding n by simp
    show "size (all_nodes ?s qs fs) = total l_alive (listeners ?s)" unfolding n using d(7) by simp
  qed (use d(5-10) ok(7,8) in simp_all)
qed

lemma inv_receive_error:
  assumes inv: "sys_inv s qs fs" and l: "listeners s = ls @ Reading a # ls'"
  shows "sys_inv (s\<lparr>cl := store_request a st t d (cl s)\<rparr>) qs fs" (is "sys_inv ?s qs fs")
proof -
  note d = sys_invD [OF inv] and st = store_request_inv [OF inv l]
  have n: "typed_nodes ?s qs = typed_nodes s qs" "counted_nodes ?s qs = counted_nodes s qs"
    "all_nodes ?s qs fs = all_nodes s qs fs"
    by (simp_all add: node_defs)
  show ?thesis
    by (rule inv_keep [OF inv _ _ n(3)]) (use d(5,6) st in \<open>simp_all add: same_world_def store_other n\<close>)
qed

lemma inv_receive:
  assumes inv: "sys_inv s qs fs" and l: "listeners s = ls @ Reading a # ls'" and t: "0 \<le> t" "t < int TRANSACTION_MAX"
  shows "sys_inv (s\<lparr>cl := store_request a st t d (cl s), listeners := ls @ Received a # ls', requests := rs\<rparr>) qs fs"
    (is "sys_inv ?s qs fs")
proof -
  note d = sys_invD [OF inv] and st = store_request_inv [OF inv l]
  have n: "typed_nodes ?s qs = add_mset a (typed_nodes s qs)" "counted_nodes ?s qs = counted_nodes s qs"
    "all_nodes ?s qs fs = all_nodes s qs fs"
    by (simp_all add: node_defs l)
  have a: "in_range (store_request a st t d (cl s)) a" using t by (simp add: in_range_def store_transaction)
  show ?thesis
  proof (rule inv_keep [OF inv _ _ n(3)])
    show "in_range (cl ?s) b" if "b \<in># typed_nodes ?s qs" for b using a st(3) [of b] that by (auto simp: n)
  qed (use d(5,6) st(1,2) in \<open>simp_all add: same_world_def store_other n l\<close>)
qed

lemma inv_closed:
  assumes inv: "sys_inv s qs fs" and l: "listeners s = ls @ Reading a # ls'"
  shows "sys_inv (s\<lparr>cl := free_node a (cl s), listeners := ls @ Exited # ls',
     listener_worker_count := listener_worker_count s - 1\<rparr>) qs fs" (is "sys_inv ?s qs fs")
proof -
  note d = sys_invD [OF inv] and ok = free_node_ok [OF sys_invD(1) [OF inv], of a]
  have n: "typed_nodes ?s qs = typed_nodes s qs" "counted_nodes ?s qs = counted_nodes s qs"
    "all_nodes s qs fs = add_mset a (all_nodes ?s qs fs)"
    by (simp_all add: node_defs l)
  have fin: "finite (live (heap (cl s)))" using d(1) by (simp add: lists_ok_def)
  have a: "a \<in> live (heap (cl s))" using n(3) fin d(2) by (metis elem_mset_set union_single_eq_member)
  have "add_mset a (all_nodes ?s qs fs) = add_mset a (mset_set (live (heap (cl s)) - {a}))"
    using n(3) d(2) mset_set.remove [OF fin a] by simp
  then have live: "all_nodes ?s qs fs = mset_set (live (heap (cl s)) - {a})" by simp
  have c: "counters_ok (free_node a (cl s)) N E = counters_ok (cl s) N E" "in_range (free_node a (cl s)) b = in_range (cl s) b"
    for N E b by (simp_all add: counters_ok_def of_type_def in_range_def ok)
  have size: "Suc (size (all_nodes ?s qs fs)) = total l_alive (listeners s)" using d(7) unfolding n(3) by simp
  show ?thesis
  proof (rule sys_invI)
    show "all_nodes ?s qs fs = mset_set (live (heap (cl ?s)))" using live by (simp add: ok(2))
    show "counters_ok (cl ?s) (counted_nodes ?s qs) (total w_executing (db_workers ?s))" unfolding n using d(3) by (simp add: c)
    show "in_range (cl ?s) b" if "b \<in># typed_nodes ?s qs" for b using d(4) that unfolding n by (simp add: c)
    show "size (all_nodes ?s qs fs) = total l_alive (listeners ?s)" using size by (simp add: l)
  qed (use d(1,5-10) l ok(1,6,7) in simp_all)
qed

lemma inv_count:
  assumes inv: "sys_inv s qs fs" and l: "listeners s = ls @ Received a # ls'" and c: "count_queued a 1 (cl s) = Some c"
  shows "sys_inv (s\<lparr>cl := c, listeners := ls @ Counted a # ls'\<rparr>) qs fs" (is "sys_inv ?s qs fs")
proof -
  have n: "typed_nodes ?s qs = typed_nodes s qs" "counted_nodes ?s qs = add_mset a (counted_nodes s qs)"
    "all_nodes ?s qs fs = all_nodes s qs fs"
    by (simp_all add: node_defs l)
  have "of_type (cl s) t (counted_nodes ?s qs) = of_type (cl s) t (counted_nodes s qs) + 1 * of_type (cl s) t {#a#}" for t
    unfolding n by (simp add: of_type_add_mset of_type_single)
  note ok = count_queued_ok [OF sys_invD(3) [OF inv] c this]
  show ?thesis
    by (rule inv_counting [OF inv _ _ _ n(3)]) (use ok in \<open>simp_all add: n same_world_def same_lists_def l\<close>)
qed

lemma inv_uncount:
  assumes inv: "sys_inv s qs fs" and w: "db_workers s = ws @ Taken a # ws'" and c: "count_queued a (- 1) (cl s) = Some c"
  shows "sys_inv (s\<lparr>cl := c, db_workers := ws @ Uncounted a # ws'\<rparr>) qs fs" (is "sys_inv ?s qs fs")
proof -
  have n: "typed_nodes ?s qs = typed_nodes s qs" "counted_nodes s qs = add_mset a (counted_nodes ?s qs)"
    "all_nodes ?s qs fs = all_nodes s qs fs"
    by (simp_all add: node_defs w)
  have "of_type (cl s) t (counted_nodes ?s qs) = of_type (cl s) t (counted_nodes s qs) + (- 1) * of_type (cl s) t {#a#}" for t
    unfolding n by (simp add: of_type_add_mset of_type_single)
  note ok = count_queued_ok [OF sys_invD(3) [OF inv] c this]
  show ?thesis
    by (rule inv_counting [OF inv _ _ _ n(3)]) (use ok in \<open>simp_all add: n same_world_def same_lists_def w\<close>)
qed

lemma inv_count_exec:
  assumes inv: "sys_inv s qs fs" and w: "db_workers s = ws @ Uncounted a # ws'" and c: "count_executing a 1 (cl s) = Some c"
  shows "sys_inv (s\<lparr>cl := c, db_workers := ws @ Executing a # ws'\<rparr>) qs fs" (is "sys_inv ?s qs fs")
proof -
  have n: "typed_nodes ?s qs = typed_nodes s qs" "counted_nodes ?s qs = counted_nodes s qs"
    "all_nodes ?s qs fs = all_nodes s qs fs"
    by (simp_all add: node_defs w)
  have "of_type (cl s) t (total w_executing (db_workers ?s)) =
      of_type (cl s) t (total w_executing (db_workers s)) + 1 * of_type (cl s) t {#a#}" for t
    by (simp add: of_type_add_mset of_type_single w)
  note ok = count_executing_ok [OF sys_invD(3) [OF inv] c this]
  show ?thesis
    by (rule inv_counting [OF inv _ _ _ n(3)]) (use ok in \<open>simp_all add: n same_world_def same_lists_def w\<close>)
qed

lemma inv_uncount_exec:
  assumes inv: "sys_inv s qs fs" and w: "db_workers s = ws @ Answered a # ws'" and c: "count_executing a (- 1) (cl s) = Some c"
  shows "sys_inv (s\<lparr>cl := c, db_workers := ws @ Finished a # ws'\<rparr>) qs fs" (is "sys_inv ?s qs fs")
proof -
  have n: "typed_nodes ?s qs = typed_nodes s qs" "counted_nodes ?s qs = counted_nodes s qs"
    "all_nodes ?s qs fs = all_nodes s qs fs"
    by (simp_all add: node_defs w)
  have "of_type (cl s) t (total w_executing (db_workers ?s)) =
      of_type (cl s) t (total w_executing (db_workers s)) + (- 1) * of_type (cl s) t {#a#}" for t
    by (simp add: of_type_add_mset of_type_single w)
  note ok = count_executing_ok [OF sys_invD(3) [OF inv] c this]
  show ?thesis
    by (rule inv_counting [OF inv _ _ _ n(3)]) (use ok in \<open>simp_all add: n same_world_def same_lists_def w\<close>)
qed

lemma inv_answer:
  assumes inv: "sys_inv s qs fs" and w: "db_workers s = ws @ Executing a # ws'"
  shows "sys_inv (s\<lparr>cl := store_result a st d (cl s), db_workers := ws @ Answered a # ws', replies := rs\<rparr>) qs fs"
    (is "sys_inv ?s qs fs")
proof -
  note d = sys_invD [OF inv]
  have n: "typed_nodes ?s qs = typed_nodes s qs" "counted_nodes ?s qs = counted_nodes s qs"
    "all_nodes ?s qs fs = all_nodes s qs fs" "total w_executing (db_workers ?s) = total w_executing (db_workers s)"
    by (simp_all add: node_defs w)
  show ?thesis
  proof (rule inv_keep [OF inv _ _ n(3)])
    show "counters_ok (cl ?s) (counted_nodes ?s qs) (total w_executing (db_workers ?s))" unfolding n
      by (rule counters_cong [OF d(3)]; simp add: store_transaction store_other)
    show "in_range (cl ?s) b" if "b \<in># typed_nodes ?s qs" for b
      using d(4) that unfolding n by (simp add: in_range_def store_transaction)
  qed (use d(1,5,6) w in \<open>simp_all add: same_world_def store_other store_lists\<close>)
qed

lemma inv_wait_free:
  assumes inv: "sys_inv s qs fs" and l: "listeners s = ls @ Waiting # ls'" and p: "0 < free_count (cl s)"
  shows "sys_inv (s\<lparr>cl := (cl s)\<lparr>free_count := free_count (cl s) - 1\<rparr>, listeners := ls @ Woken # ls'\<rparr>) qs fs" (is "sys_inv ?s qs fs")
proof -
  note d = sys_invD [OF inv]
  have n: "typed_nodes ?s qs = typed_nodes s qs" "counted_nodes ?s qs = counted_nodes s qs"
    "all_nodes ?s qs fs = all_nodes s qs fs"
    by (simp_all add: node_defs l)
  have same: "same_nodes (cl s) (cl ?s)" by (simp add: same_nodes_def transaction_of_def fun_eq_iff)
  have lists: "lists_ok (cl ?s) qs fs" using d(1) by (simp add: lists_ok_def queue_holds_def pool_holds_def)
  have sub: "typed_nodes ?s qs \<subseteq># typed_nodes s qs" unfolding n by simp
  show ?thesis
    by (rule inv_linking [OF inv _ same lists n(3,2) _ sub]) (use d(5,6) l p in \<open>simp_all add: same_world_def n\<close>)
qed

lemma inv_wait_queue:
  assumes inv: "sys_inv s qs fs" and w: "db_workers s = ws @ Idle # ws'" and p: "0 < queue_length (cl s)"
  shows "sys_inv (s\<lparr>cl := (cl s)\<lparr>queue_length := queue_length (cl s) - 1\<rparr>, db_workers := ws @ Signalled # ws'\<rparr>) qs fs" (is "sys_inv ?s qs fs")
proof -
  note d = sys_invD [OF inv]
  have n: "typed_nodes ?s qs = typed_nodes s qs" "counted_nodes ?s qs = counted_nodes s qs"
    "all_nodes ?s qs fs = all_nodes s qs fs"
    by (simp_all add: node_defs w)
  have same: "same_nodes (cl s) (cl ?s)" by (simp add: same_nodes_def transaction_of_def fun_eq_iff)
  have lists: "lists_ok (cl ?s) qs fs" using d(1) by (simp add: lists_ok_def queue_holds_def pool_holds_def)
  have sub: "typed_nodes ?s qs \<subseteq># typed_nodes s qs" unfolding n by simp
  show ?thesis
    by (rule inv_linking [OF inv _ same lists n(3,2) _ sub]) (use d(5,6) w p in \<open>simp_all add: same_world_def n\<close>)
qed

text \<open>A node in a list is in no other place.\<close>

lemma lists_apart:
  assumes "sys_inv s qs fs"
  shows "set qs \<inter> set fs = {}"
proof -
  have "all_nodes s qs fs = mset qs + (mset fs + (total l_counted (listeners s) + total w_counted (db_workers s) +
      total w_executing (db_workers s) + total w_between (db_workers s) + total l_received (listeners s) +
      total l_reading (listeners s)))"
    by (simp add: node_defs ac_simps)
  from sys_inv_apart [OF assms this] show ?thesis by auto
qed

lemma held_apart:
  assumes "sys_inv s qs fs" "a \<in># total l_counted (listeners s) + total w_between (db_workers s)"
  shows "a \<notin> set qs" "a \<notin> set fs"
proof -
  have "all_nodes s qs fs = (total l_counted (listeners s) + total w_between (db_workers s)) +
      (mset qs + mset fs + (total w_counted (db_workers s) + total w_executing (db_workers s) +
        total l_received (listeners s) + total l_reading (listeners s)))"
    by (simp add: node_defs ac_simps)
  from sys_inv_apart [OF assms(1) this assms(2)] show "a \<notin> set qs" "a \<notin> set fs" by simp_all
qed

lemma inv_enqueue:
  assumes inv: "sys_inv s qs fs" and l: "listeners s = ls @ Counted a # ls'"
  shows "sys_inv (s\<lparr>cl := queue_put a (cl s), listeners := ls @ Waiting # ls'\<rparr>) (qs @ [a]) fs" (is "sys_inv ?s ?qs fs")
proof -
  note d = sys_invD [OF inv]
  have n: "typed_nodes ?s ?qs = typed_nodes s qs" "counted_nodes ?s ?qs = counted_nodes s qs"
    "all_nodes ?s ?qs fs = all_nodes s qs fs"
    by (simp_all add: node_defs l)
  have "a \<in># total l_counted (listeners s) + total w_between (db_workers s)" by (simp add: l)
  note ok = queue_put_ok [OF d(1) held_apart [OF inv this] lists_apart [OF inv]]
  show ?thesis
    by (rule inv_linking [OF inv _ _ _ n(3,2)]) (use d(5,6) l ok in \<open>simp_all add: same_world_def same_nodes_def n\<close>)
qed

lemma inv_recycle:
  assumes inv: "sys_inv s qs fs" and w: "db_workers s = ws @ Finished a # ws'"
  shows "sys_inv (s\<lparr>cl := pool_put a (cl s), db_workers := ws @ Idle # ws',
     worker_count := (worker_count s)[length ws := worker_count s ! length ws + 1]\<rparr>) qs (fs @ [a])" (is "sys_inv ?s qs ?fs")
proof -
  note d = sys_invD [OF inv]
  have n: "typed_nodes s qs = add_mset a (typed_nodes ?s qs)" "counted_nodes ?s qs = counted_nodes s qs"
    "all_nodes ?s qs ?fs = all_nodes s qs fs"
    by (simp_all add: node_defs w)
  have "a \<in># total l_counted (listeners s) + total w_between (db_workers s)" by (simp add: w)
  note ok = pool_put_ok [OF d(1) held_apart [OF inv this] lists_apart [OF inv]]
  show ?thesis
    by (rule inv_linking [OF inv _ _ _ n(3,2)]) (use d(5,6) w ok in \<open>simp_all add: same_world_def same_nodes_def n\<close>)
qed

text \<open>
  A thread that was woken finds a node: there are at least as many nodes in the list as threads that
  have been let through by the semaphore. So the branches for an empty list are not reached.
\<close>

lemma inv_get:
  assumes inv: "sys_inv s qs fs" and l: "listeners s = ls @ Woken # ls'" and t: "pool_take (cl s) = (x, c)"
  shows "\<exists>a as. x = Some a \<and> fs = a # as \<and> sys_inv (s\<lparr>cl := c, listeners := ls @ Reading a # ls'\<rparr>) qs as"
proof -
  note d = sys_invD [OF inv] and ok = pool_take_ok [OF sys_invD(1) [OF inv] t]
  have "fs \<noteq> []" using d(6) l by auto
  then obtain a as where fs: "fs = a # as" by (cases fs) simp_all
  let ?s = "s\<lparr>cl := c, listeners := ls @ Reading a # ls'\<rparr>"
  have n: "typed_nodes ?s qs = typed_nodes s qs" "counted_nodes ?s qs = counted_nodes s qs"
    "all_nodes ?s qs as = all_nodes s qs fs"
    by (simp_all add: node_defs l fs)
  have "sys_inv ?s qs as"
    by (rule inv_linking [OF inv _ _ _ n(3,2)])
      (use d(5,6) l ok fs in \<open>simp_all add: same_world_def same_nodes_def n\<close>)
  then show ?thesis using ok(1) fs by simp
qed

lemma inv_dequeue:
  assumes inv: "sys_inv s qs fs" and w: "db_workers s = ws @ Signalled # ws'" and t: "queue_take (cl s) = (x, c)"
  shows "\<exists>a as. x = Some a \<and> qs = a # as \<and> sys_inv (s\<lparr>cl := c, db_workers := ws @ Taken a # ws'\<rparr>) as fs"
proof -
  note d = sys_invD [OF inv] and ok = queue_take_ok [OF sys_invD(1) [OF inv] t]
  have "qs \<noteq> []" using d(5) w by auto
  then obtain a as where qs: "qs = a # as" by (cases qs) simp_all
  let ?s = "s\<lparr>cl := c, db_workers := ws @ Taken a # ws'\<rparr>"
  have n: "typed_nodes ?s as = typed_nodes s qs" "counted_nodes ?s as = counted_nodes s qs"
    "all_nodes ?s as fs = all_nodes s qs fs"
    by (simp_all add: node_defs w qs)
  have "sys_inv ?s as fs"
    by (rule inv_linking [OF inv _ _ _ n(3,2)])
      (use d(5,6) w ok qs in \<open>simp_all add: same_world_def same_nodes_def n\<close>)
  then show ?thesis using ok(1) qs by simp
qed

section \<open>Answers go where the requests came from\<close>

text \<open>The socket and the transaction of a node; the nodes read and not yet answered.\<close>

definition label :: "client \<Rightarrow> nat \<Rightarrow> int \<times> int" where
  "label c a = (nd_s (val (heap c) a), nd_transaction (val (heap c) a))"

fun w_unanswered :: "db_worker \<Rightarrow> nat multiset" where
  "w_unanswered (Taken a) = {#a#}"
| "w_unanswered (Uncounted a) = {#a#}"
| "w_unanswered (Executing a) = {#a#}"
| "w_unanswered _ = {#}"

definition unanswered :: "system \<Rightarrow> nat list \<Rightarrow> nat multiset" where
  "unanswered s qs = mset qs + total l_received (listeners s) + total l_counted (listeners s) +
     total w_unanswered (db_workers s)"

definition log_inv :: "system \<Rightarrow> nat list \<Rightarrow> bool" where
  "log_inv s qs \<longleftrightarrow> mset (requests s) = mset (replies s) + image_mset (label (cl s)) (unanswered s qs)"

lemma w_unanswered_sub: "w_unanswered w \<subseteq># w_counted w + w_executing w + w_between w"
  by (cases w) simp_all

lemma total_unanswered_sub:
  "total w_unanswered ws \<subseteq># total w_counted ws + total w_executing ws + total w_between ws"
proof (induction ws)
  case (Cons w ws)
  have "total w_unanswered (w # ws) \<subseteq># (w_counted w + w_executing w + w_between w) +
      (total w_counted ws + total w_executing ws + total w_between ws)"
    using w_unanswered_sub [of w] Cons by (simp add: subset_mset.add_mono)
  then show ?case by (simp add: ac_simps)
qed simp

lemma unanswered_typed: "a \<in># unanswered s qs \<Longrightarrow> a \<in># typed_nodes s qs"
  using mset_subset_eqD [OF total_unanswered_sub [of "db_workers s"], of a]
  by (auto simp: unanswered_def typed_nodes_def counted_nodes_def)

lemma label_eq: "val (heap c') = val (heap c) \<Longrightarrow> label c' = label c"
  by (simp add: label_def fun_eq_iff)

lemma put_tail_val: "put_tail a (q, h) = (q', h') \<Longrightarrow> val h' = val h"
  by (auto simp: put_tail_def set_next_def Let_def split: option.splits)

lemma label_ops:
  "label (queue_put a c) = label c" "label (pool_put a c) = label c"
  "queue_take c = (x, c') \<Longrightarrow> label c' = label c" "pool_take c = (x, c') \<Longrightarrow> label c' = label c"
  "count_queued a d c = Some c' \<Longrightarrow> label c' = label c" "count_executing a d c = Some c' \<Longrightarrow> label c' = label c"
  "label (store_result a st y c) = label c" "label (free_node a c) = label c"
  "label (store_request a st t y c) b = (if b = a then (fst (label c a), t) else label c b)"
  "accept_node sock c = (a, c') \<Longrightarrow> b \<noteq> a \<Longrightarrow> label c' b = label c b"
  by (auto simp: label_def fun_eq_iff queue_put_def pool_put_def queue_take_def pool_take_def count_queued_def
      count_executing_def store_result_def store_request_def free_node_def free_def set_val_def accept_node_def
      malloc_def Let_def put_tail_val split: prod.splits)

lemma label_semaphores [simp]:
  "label (c\<lparr>queue_length := n\<rparr>) = label c" "label (c\<lparr>free_count := n\<rparr>) = label c"
  by (simp_all add: label_def fun_eq_iff)

text \<open>A step that changes the label of a node without an open request.\<close>

lemma log_inv_other:
  assumes "log_inv s qs" "\<And>b. b \<noteq> a \<Longrightarrow> label c b = label (cl s) b" "a \<notin># typed_nodes s qs"
  shows "image_mset (label c) (unanswered s qs) = image_mset (label (cl s)) (unanswered s qs)"
    "mset (requests s) = mset (replies s) + image_mset (label c) (unanswered s qs)"
proof -
  show e: "image_mset (label c) (unanswered s qs) = image_mset (label (cl s)) (unanswered s qs)"
  proof (rule image_mset_cong)
    fix b assume "b \<in># unanswered s qs"
    then have "b \<in># typed_nodes s qs" by (rule unanswered_typed)
    then show "label c b = label (cl s) b" using assms(3) by (intro assms(2)) blast
  qed
  show "mset (requests s) = mset (replies s) + image_mset (label c) (unanswered s qs)"
    using assms(1) unfolding e log_inv_def .
qed

text \<open>The log after each step.\<close>

lemma log_accept:
  assumes "log_inv s qs" "sys_inv s qs fs" "accept_node sock (cl s) = (a, c)"
  shows "log_inv (s\<lparr>cl := c, listeners := listeners s @ [Reading a],
     listener_worker_count := listener_worker_count s + 1\<rparr>) qs"
proof -
  have fin: "finite (live (heap (cl s)))" using sys_invD(1) [OF assms(2)] by (simp add: lists_ok_def)
  have "a \<notin># all_nodes s qs fs"
    using accept_ok(2) [OF sys_invD(1) [OF assms(2)] assms(3)] fin by (simp add: sys_invD(2) [OF assms(2)])
  then have "a \<notin># typed_nodes s qs" by (simp add: all_nodes_def)
  from log_inv_other(2) [OF assms(1) label_ops(10) [OF assms(3)] this]
  show ?thesis by (simp add: log_inv_def unanswered_def)
qed

lemma log_receive_error:
  assumes "log_inv s qs" "sys_inv s qs fs" "listeners s = ls @ Reading a # ls'"
  shows "log_inv (s\<lparr>cl := store_request a st t d (cl s)\<rparr>) qs"
proof -
  have "label (store_request a st t d (cl s)) b = label (cl s) b" if "b \<noteq> a" for b using that by (simp add: label_ops)
  from log_inv_other(2) [OF assms(1) this reading_apart [OF assms(2,3)]]
  show ?thesis by (simp add: log_inv_def unanswered_def)
qed

lemma log_receive:
  assumes "log_inv s qs" "sys_inv s qs fs" "listeners s = ls @ Reading a # ls'"
  shows "log_inv (s\<lparr>cl := store_request a st t d (cl s), listeners := ls @ Received a # ls',
     requests := requests s @ [(nd_s (val (heap (cl s)) a), t)]\<rparr>) qs"
proof -
  have "label (store_request a st t d (cl s)) b = label (cl s) b" if "b \<noteq> a" for b using that by (simp add: label_ops)
  note other = log_inv_other(2) [OF assms(1) this reading_apart [OF assms(2,3)]]
  have "label (store_request a st t d (cl s)) a = (nd_s (val (heap (cl s)) a), t)"
    unfolding label_ops by (simp add: label_def)
  then show ?thesis using other by (simp add: log_inv_def unanswered_def assms(3))
qed

text \<open>A step that neither reads nor answers keeps the labels and the nodes.\<close>

lemma log_keep:
  assumes "log_inv s qs" "label (cl s') = label (cl s)" "requests s' = requests s" "replies s' = replies s"
    and "unanswered s' qs' = unanswered s qs"
  shows "log_inv s' qs'"
  using assms(1) unfolding log_inv_def assms(2-5) .

lemma log_answer:
  assumes "log_inv s qs" "db_workers s = ws @ Executing a # ws'"
  shows "log_inv (s\<lparr>cl := store_result a st d (cl s), db_workers := ws @ Answered a # ws',
     replies := replies s @ [(nd_s (val (heap (cl s)) a), nd_transaction (val (heap (cl s)) a))]\<rparr>) qs"
proof -
  have l: "label (cl s) a = (nd_s (val (heap (cl s)) a), nd_transaction (val (heap (cl s)) a))" by (simp add: label_def)
  show ?thesis using assms(1) unfolding log_inv_def l [symmetric] by (simp add: unanswered_def assms(2) label_ops)
qed

section \<open>All reachable states\<close>

text \<open>The two branches that the code has for an impossible case, and an index outside the counters.\<close>

lemma no_count_outside:
  assumes inv: "sys_inv s qs fs" and l: "listeners s = ls @ Received a # ls'"
  shows "count_queued a 1 (cl s) \<noteq> None"
proof -
  have "in_range (cl s) a" using sys_invD(4) [OF inv, of a] by (simp add: typed_nodes_def l)
  moreover have "length (queued (cl s)) = TRANSACTION_MAX" using sys_invD(3) [OF inv] by (simp add: counters_ok_def)
  ultimately obtain cs where "add_counter (transaction_of (cl s) a) 1 (queued (cl s)) = Some cs"
    using add_counter_some by blast
  then show ?thesis by (simp add: count_queued_def)
qed

lemma client_step_inv:
  assumes step: "client_step s s'" and inv: "sys_inv s qs fs" and log: "log_inv s qs"
  shows "\<exists>qs' fs'. sys_inv s' qs' fs' \<and> log_inv s' qs'"
  using step
proof cases
  case (count ls a ls' c)
  have "log_inv s' qs" unfolding count(1)
    by (rule log_keep [OF log]) (simp_all add: label_ops(5) [OF count(3)] unanswered_def count(2))
  then show ?thesis using inv_count [OF inv count(2,3)] unfolding count(1) by blast
next
  case (count_outside ls a ls')
  then show ?thesis using no_count_outside [OF inv] by blast
next
  case (enqueue ls a ls')
  have "log_inv s' (qs @ [a])" unfolding enqueue(1)
    by (rule log_keep [OF log]) (simp_all add: label_ops unanswered_def enqueue(2))
  then show ?thesis using inv_enqueue [OF inv enqueue(2)] unfolding enqueue(1) by blast
next
  case (wait_free ls ls')
  have "log_inv s' qs" unfolding wait_free(1) by (rule log_keep [OF log]) (simp_all add: unanswered_def wait_free(2))
  then show ?thesis using inv_wait_free [OF inv wait_free(2,3)] unfolding wait_free(1) by blast
next
  case (get ls ls' a c)
  have "log_inv s' qs" unfolding get(1)
    by (rule log_keep [OF log]) (simp_all add: label_ops(4) [OF get(3)] unanswered_def get(2))
  then show ?thesis using inv_get [OF inv get(2,3)] unfolding get(1) by blast
next
  case (get_null ls ls' c)
  from inv_get [OF inv get_null(2,3)] show ?thesis by simp
next
  case (wait_queue ws ws')
  have "log_inv s' qs" unfolding wait_queue(1) by (rule log_keep [OF log]) (simp_all add: unanswered_def wait_queue(2))
  then show ?thesis using inv_wait_queue [OF inv wait_queue(2,3)] unfolding wait_queue(1) by blast
next
  case (dequeue ws ws' a c)
  from inv_dequeue [OF inv dequeue(2,3)] obtain as where as: "qs = a # as" "sys_inv s' as fs"
    unfolding dequeue(1) by blast
  have "log_inv s' as" unfolding dequeue(1)
    by (rule log_keep [OF log]) (simp_all add: label_ops(3) [OF dequeue(3)] unanswered_def dequeue(2) as(1))
  then show ?thesis using as(2) by blast
next
  case (dequeue_null ws ws' c)
  from inv_dequeue [OF inv dequeue_null(2,3)] show ?thesis by simp
next
  case (uncount ws a ws' c)
  have "log_inv s' qs" unfolding uncount(1)
    by (rule log_keep [OF log]) (simp_all add: label_ops(5) [OF uncount(3)] unanswered_def uncount(2))
  then show ?thesis using inv_uncount [OF inv uncount(2,3)] unfolding uncount(1) by blast
next
  case (count_exec ws a ws' c)
  have "log_inv s' qs" unfolding count_exec(1)
    by (rule log_keep [OF log]) (simp_all add: label_ops(6) [OF count_exec(3)] unanswered_def count_exec(2))
  then show ?thesis using inv_count_exec [OF inv count_exec(2,3)] unfolding count_exec(1) by blast
next
  case (answer ws a ws' st d)
  show ?thesis unfolding answer(1) using inv_answer [OF inv answer(2)] log_answer [OF log answer(2)] by blast
next
  case (uncount_exec ws a ws' c)
  have "log_inv s' qs" unfolding uncount_exec(1)
    by (rule log_keep [OF log]) (simp_all add: label_ops(6) [OF uncount_exec(3)] unanswered_def uncount_exec(2))
  then show ?thesis using inv_uncount_exec [OF inv uncount_exec(2,3)] unfolding uncount_exec(1) by blast
next
  case (recycle ws a ws')
  have "log_inv s' qs" unfolding recycle(1)
    by (rule log_keep [OF log]) (simp_all add: label_ops unanswered_def recycle(2))
  then show ?thesis using inv_recycle [OF inv recycle(2)] unfolding recycle(1) by blast
qed

lemma sys_inv_step:
  assumes step: "sys_step T s s'" and T: "T \<subseteq> {0..<int TRANSACTION_MAX}"
    and inv: "sys_inv s qs fs" and log: "log_inv s qs"
  shows "\<exists>qs' fs'. sys_inv s' qs' fs' \<and> log_inv s' qs'"
  using step
proof cases
  case (accept sock a c)
  show ?thesis unfolding accept(1)
    using inv_accept [OF inv accept(2)] log_accept [OF log inv accept(2)] by blast
next
  case (receive_error ls a ls' st t d)
  show ?thesis unfolding receive_error(1)
    using inv_receive_error [OF inv receive_error(2)] log_receive_error [OF log inv receive_error(2)] by blast
next
  case (closed ls a ls')
  have "log_inv s' qs" unfolding closed(1) by (rule log_keep [OF log]) (simp_all add: label_ops unanswered_def closed(2))
  then show ?thesis using inv_closed [OF inv closed(2)] unfolding closed(1) by blast
next
  case (receive ls a ls' t st d)
  have "0 \<le> t" "t < int TRANSACTION_MAX" using receive(3) T by auto
  then show ?thesis unfolding receive(1)
    using inv_receive [OF inv receive(2)] log_receive [OF log inv receive(2)] by blast
next
  case run
  from client_step_inv [OF this inv log] show ?thesis .
qed

lemma log_inv_start: "log_inv (initial_system n) []"
  by (simp add: log_inv_def initial_system_def unanswered_def)

lemma reachable_inv:
  assumes "reachable T n s" "T \<subseteq> {0..<int TRANSACTION_MAX}"
  shows "\<exists>qs fs. sys_inv s qs fs \<and> log_inv s qs"
  using assms(1)
proof induction
  case start
  show ?case using sys_inv_start log_inv_start by blast
next
  case (step s s')
  then show ?case using sys_inv_step [OF step(2) assms(2)] by blast
qed

text \<open>C16: In every reachable state of the client, with any number of terminals and workers: every node
  that was allocated is held by exactly one thread or list, so none is lost, used twice or freed
  while in use; there is one for each listener thread; and neither an access outside the counters
  nor the call of \<open>exit(1)\<close> in \<open>listener_worker\<close> for an empty pool has been reached.\<close>
theorem nodes_conserved:
  assumes "reachable T n s" "T \<subseteq> {0..<int TRANSACTION_MAX}"
  shows "\<exists>qs fs. queue_holds (cl s) qs \<and> pool_holds (cl s) fs \<and>
    all_nodes s qs fs = mset_set (live (heap (cl s))) \<and> finite (live (heap (cl s))) \<and>
    size (all_nodes s qs fs) = total l_alive (listeners s) \<and>
    listener_worker_count s = total l_alive (listeners s) \<and> \<not> broken s"
proof -
  obtain qs fs where "sys_inv s qs fs" using reachable_inv [OF assms] by blast
  from sys_invD [OF this] show ?thesis unfolding lists_ok_def by blast
qed

text \<open>A small run: one terminal connects and sends a New-Order request, which is counted.\<close>

definition sample_steps :: "int \<Rightarrow> system" where
  "sample_steps t = (let s = initial_system 1; (a, c) = accept_node 7 (cl s); c1 = store_request a OK t None c
     in s\<lparr>cl := c1, listeners := [Received a], listener_worker_count := 1, requests := [(7, t)]\<rparr>)"

lemma sample_reachable: "t \<in> T \<Longrightarrow> reachable T 1 (sample_steps t)"
proof -
  assume t: "t \<in> T"
  obtain a c where ac: "accept_node 7 (cl (initial_system 1)) = (a, c)" by fastforce
  let ?s = "initial_system 1"
  let ?s1 = "?s\<lparr>cl := c, listeners := listeners ?s @ [Reading a], listener_worker_count := listener_worker_count ?s + 1\<rparr>"
  have "reachable T 1 ?s1" using reachable.step [OF reachable.start sys_step.accept [OF ac]] .
  moreover have "listeners ?s1 = [] @ Reading a # []" by (simp add: initial_system_def)
  from sys_step.receive [OF this t]
  have "sys_step T ?s1 (sample_steps t)"
    using ac by (auto simp: sample_steps_def initial_system_def accept_node_def malloc_def Let_def set_val_def
        intro: back_subst [where P = "sys_step T _"] split: prod.splits)
  ultimately show ?thesis by (rule reachable.step)
qed

theorem nodes_conserved_witness:
  "\<exists>qs fs. all_nodes (sample_steps NEW_ORDER) qs fs = mset_set (live (heap (cl (sample_steps NEW_ORDER))))"
  using nodes_conserved [OF sample_reachable [of NEW_ORDER "{NEW_ORDER}"]]
  by (auto simp: transaction_defs TRANSACTION_MAX_def)

text \<open>C17: The two rows of \<open>transaction_counter\<close> are exact at every moment: for each kind of transaction
  they give the number of nodes counted in and not yet counted out as queued, and as executing.\<close>
theorem counters_exact:
  assumes "reachable T n s" "T \<subseteq> {0..<int TRANSACTION_MAX}" "t < TRANSACTION_MAX"
  shows "\<exists>qs. queue_holds (cl s) qs \<and> queued (cl s) ! t = of_type (cl s) (int t) (counted_nodes s qs) \<and>
    executing_now (cl s) ! t = of_type (cl s) (int t) (total w_executing (db_workers s))"
proof -
  obtain qs fs where inv: "sys_inv s qs fs" using reachable_inv [OF assms(1,2)] by blast
  show ?thesis using sys_invD(1,3) [OF inv] assms(3) unfolding lists_ok_def counters_ok_def by blast
qed

theorem counters_exact_witness:
  "\<exists>qs. queued (cl (sample_steps NEW_ORDER)) ! 1 =
     of_type (cl (sample_steps NEW_ORDER)) 1 (counted_nodes (sample_steps NEW_ORDER) qs)"
  using counters_exact [OF sample_reachable [of NEW_ORDER "{NEW_ORDER}"], of 1]
  by (auto simp: transaction_defs TRANSACTION_MAX_def)

text \<open>C15: Although a listener thread goes on with whatever free node it gets, and with it with another
  terminal's socket, answers go where the requests came from: the requests read so far are the
  answers sent so far and those of the nodes in progress, each with its socket and transaction.\<close>
theorem answered_as_asked:
  assumes "reachable T n s" "T \<subseteq> {0..<int TRANSACTION_MAX}"
  shows "\<exists>qs. queue_holds (cl s) qs \<and>
    mset (requests s) = mset (replies s) + image_mset (label (cl s)) (unanswered s qs)"
proof -
  obtain qs fs where inv: "sys_inv s qs fs" and "log_inv s qs" using reachable_inv [OF assms] by blast
  then show ?thesis using sys_invD(1) [OF inv] unfolding lists_ok_def log_inv_def by blast
qed

theorem answered_as_asked_witness:
  "\<exists>qs. mset (requests (sample_steps NEW_ORDER)) = mset (replies (sample_steps NEW_ORDER)) +
     image_mset (label (cl (sample_steps NEW_ORDER))) (unanswered (sample_steps NEW_ORDER) qs)"
  using answered_as_asked [OF sample_reachable [of NEW_ORDER "{NEW_ORDER}"]]
  by (auto simp: transaction_defs TRANSACTION_MAX_def)

end
