(* ===== verification/Client_Liveness.thy ===== *)
theory Client_Liveness
  imports Client_Invariant
begin

text \<open>
  Left alone, the client comes to rest with every request answered: a measure of the steps that its
  threads still owe decreases, and where no step is possible nothing is under way.
\<close>

section \<open>Left alone, the client answers everything\<close>

text \<open>The steps that a listener, a worker and the semaphores still owe.\<close>

fun l_work :: "listener \<Rightarrow> nat" where
  "l_work (Received a) = 12"
| "l_work (Counted a) = 11"
| "l_work Waiting = 2"
| "l_work Woken = 1"
| "l_work _ = 0"

fun w_work :: "db_worker \<Rightarrow> nat" where
  "w_work Idle = 1"
| "w_work Signalled = 8"
| "w_work (Taken a) = 7"
| "w_work (Uncounted a) = 6"
| "w_work (Executing a) = 5"
| "w_work (Answered a) = 4"
| "w_work (Finished a) = 3"

definition work :: "system \<Rightarrow> nat" where
  "work s = total l_work (listeners s) + total w_work (db_workers s) + 8 * queue_length (cl s) + free_count (cl s)"

lemma take_semaphores:
  "queue_take c = (x, c') \<Longrightarrow> queue_length c' = queue_length c \<and> free_count c' = free_count c"
  "pool_take c = (x, c') \<Longrightarrow> queue_length c' = queue_length c \<and> free_count c' = free_count c"
  "count_queued a d c = Some c' \<Longrightarrow> queue_length c' = queue_length c \<and> free_count c' = free_count c"
  "count_executing a d c = Some c' \<Longrightarrow> queue_length c' = queue_length c \<and> free_count c' = free_count c"
  "queue_length (queue_put a c) = Suc (queue_length c)" "free_count (queue_put a c) = free_count c"
  "queue_length (pool_put a c) = queue_length c" "free_count (pool_put a c) = Suc (free_count c)"
  by (auto simp: queue_take_def pool_take_def count_queued_def count_executing_def queue_put_def pool_put_def Let_def
      split: prod.splits)

lemma work_decreases:
  assumes "client_step s s'" "sys_inv s qs fs"
  shows "work s' < work s"
  using assms(1)
proof cases
  case (count ls a ls' c)
  show ?thesis unfolding work_def count(1) using take_semaphores(3) [OF count(3)] by (simp add: count(2))
next
  case (count_outside ls a ls')
  then show ?thesis using no_count_outside [OF assms(2)] by blast
next
  case (enqueue ls a ls')
  show ?thesis unfolding work_def enqueue(1) by (simp add: enqueue(2) take_semaphores)
next
  case (wait_free ls ls')
  show ?thesis unfolding work_def wait_free(1) using wait_free(3) by (simp add: wait_free(2))
next
  case (get ls ls' a c)
  show ?thesis unfolding work_def get(1) using take_semaphores(2) [OF get(3)] by (simp add: get(2))
next
  case (get_null ls ls' c)
  from inv_get [OF assms(2) get_null(2,3)] show ?thesis by simp
next
  case (wait_queue ws ws')
  show ?thesis unfolding work_def wait_queue(1) using wait_queue(3) by (simp add: wait_queue(2))
next
  case (dequeue ws ws' a c)
  show ?thesis unfolding work_def dequeue(1) using take_semaphores(1) [OF dequeue(3)] by (simp add: dequeue(2))
next
  case (dequeue_null ws ws' c)
  show ?thesis unfolding work_def dequeue_null(1) using take_semaphores(1) [OF dequeue_null(3)] by (simp add: dequeue_null(2))
next
  case (uncount ws a ws' c)
  show ?thesis unfolding work_def uncount(1) using take_semaphores(3) [OF uncount(3)] by (simp add: uncount(2))
next
  case (count_exec ws a ws' c)
  show ?thesis unfolding work_def count_exec(1) using take_semaphores(4) [OF count_exec(3)] by (simp add: count_exec(2))
next
  case (answer ws a ws' st d)
  show ?thesis unfolding work_def answer(1) by (simp add: answer(2) store_other)
next
  case (uncount_exec ws a ws' c)
  show ?thesis unfolding work_def uncount_exec(1) using take_semaphores(4) [OF uncount_exec(3)] by (simp add: uncount_exec(2))
next
  case (recycle ws a ws')
  show ?thesis unfolding work_def recycle(1) by (simp add: recycle(2) take_semaphores)
qed

text \<open>Where nothing moves, the listeners read and the workers are idle.\<close>

definition quiet :: "system \<Rightarrow> bool" where
  "quiet s \<longleftrightarrow> (\<forall>s'. \<not> client_step s s')"

lemma quiet_listener:
  assumes "quiet s" "x \<in> set (listeners s)"
  shows "x = Exited \<or> (\<exists>a. x = Reading a) \<or> x = Waiting \<and> free_count (cl s) = 0"
proof -
  obtain ls ls' where l: "listeners s = ls @ x # ls'" using split_list [OF assms(2)] by blast
  show ?thesis
  proof (cases x)
    case (Received a)
    show ?thesis
      by (cases "count_queued a 1 (cl s)")
        (use client_step.count client_step.count_outside l Received assms(1) in \<open>unfold quiet_def, blast+\<close>)
  next
    case (Counted a)
    then show ?thesis using client_step.enqueue l assms(1) unfolding quiet_def by blast
  next
    case Waiting
    then show ?thesis using client_step.wait_free l assms(1) unfolding quiet_def by blast
  next
    case Woken
    obtain y c where "pool_take (cl s) = (y, c)" by fastforce
    then show ?thesis using client_step.get client_step.get_null l Woken assms(1)
      unfolding quiet_def by (cases y) blast+
  qed simp_all
qed

lemma counting_works:
  assumes "sys_inv s qs fs" "a \<in># typed_nodes s qs"
  shows "\<exists>c. count_queued a d (cl s) = Some c" "\<exists>c. count_executing a d (cl s) = Some c"
proof -
  note d = sys_invD [OF assms(1)]
  have "in_range (cl s) a" by (rule d(4) [OF assms(2)])
  moreover have "length (queued (cl s)) = TRANSACTION_MAX" "length (executing_now (cl s)) = TRANSACTION_MAX"
    using d(3) by (simp_all add: counters_ok_def)
  ultimately show "\<exists>c. count_queued a d (cl s) = Some c" "\<exists>c. count_executing a d (cl s) = Some c"
    using add_counter_some by (simp_all add: count_queued_def count_executing_def)
qed

lemma quiet_worker:
  assumes "quiet s" "sys_inv s qs fs" "w \<in> set (db_workers s)"
  shows "w = Idle \<and> queue_length (cl s) = 0"
proof -
  obtain ws ws' where l: "db_workers s = ws @ w # ws'" using split_list [OF assms(3)] by blast
  note no = assms(1) [unfolded quiet_def, rule_format]
  show ?thesis
  proof (cases w)
    case Idle
    then show ?thesis using no client_step.wait_queue l by blast
  next
    case Signalled
    obtain y c where "queue_take (cl s) = (y, c)" by fastforce
    then show ?thesis using client_step.dequeue client_step.dequeue_null l Signalled no by (cases y) blast+
  next
    case (Taken a)
    then have "a \<in># typed_nodes s qs" by (simp add: node_defs l)
    from counting_works(1) [OF assms(2) this] show ?thesis using client_step.uncount l Taken no by blast
  next
    case (Uncounted a)
    then have "a \<in># typed_nodes s qs" by (simp add: node_defs l)
    from counting_works(2) [OF assms(2) this] show ?thesis using client_step.count_exec l Uncounted no by blast
  next
    case (Executing a)
    then show ?thesis using client_step.answer l no by blast
  next
    case (Answered a)
    then have "a \<in># typed_nodes s qs" by (simp add: node_defs l)
    from counting_works(2) [OF assms(2) this] show ?thesis using client_step.uncount_exec l Answered no by blast
  next
    case (Finished a)
    then show ?thesis using client_step.recycle l no by blast
  qed
qed

lemma client_step_workers: "client_step s s' \<Longrightarrow> length (db_workers s') = length (db_workers s)"
  by (induction rule: client_step.induct) simp_all

lemma reachable_workers: "reachable T n s \<Longrightarrow> length (db_workers s) = n"
proof (induction rule: reachable.induct)
  case start
  show ?case by (simp add: initial_system_def)
next
  case (step s s')
  from step.hyps(2) step.IH show ?case by cases (simp_all add: client_step_workers)
qed

lemma total_zero: "(\<And>x. x \<in> set xs \<Longrightarrow> f x = 0) \<Longrightarrow> total f xs = 0"
  by (induction xs) simp_all

lemma total_waiting:
  fixes f :: "'x \<Rightarrow> nat" and g :: "'x \<Rightarrow> 'n multiset"
  assumes "\<And>x. x \<in> set xs \<Longrightarrow> f x = size (g x) + (if x = y then 1 else 0)"
  shows "total f xs = size (total g xs) + count_list xs y"
  using assms by (induction xs) simp_all

text \<open>In a quiet state of the system nothing is under way and no listener waits.\<close>

lemma quiet_done:
  assumes "quiet s" "sys_inv s qs fs" "log_inv s qs" "db_workers s \<noteq> []"
  shows "qs = []" "mset (replies s) = mset (requests s)" "Waiting \<notin> set (listeners s)"
proof -
  note d = sys_invD [OF assms(2)]
  have w: "x = Idle" if "x \<in> set (db_workers s)" for x using quiet_worker [OF assms(1,2) that] by blast
  have ql: "queue_length (cl s) = 0" using quiet_worker [OF assms(1,2)] assms(4) list.set_intros(1) by (metis neq_Nil_conv)
  have z: "total w_signalled (db_workers s) = 0" "total w_counted (db_workers s) = {#}"
    "total w_executing (db_workers s) = {#}" "total w_between (db_workers s) = {#}" "total w_unanswered (db_workers s) = {#}"
    by (rule total_zero, use w in fastforce)+
  show qs: "qs = []" using d(5) ql z(1) by simp
  have l: "x = Exited \<or> (\<exists>a. x = Reading a) \<or> x = Waiting" if "x \<in> set (listeners s)" for x
    using quiet_listener [OF assms(1) that] by blast
  have y: "total l_received (listeners s) = {#}" "total l_counted (listeners s) = {#}" "total l_woken (listeners s) = 0"
    by (rule total_zero, use l in fastforce)+
  show "mset (replies s) = mset (requests s)"
    using assms(3) by (simp add: log_inv_def unanswered_def qs y z)
  have "l_alive x = size (l_reading x) + (if x = Waiting then 1 else 0)" if "x \<in> set (listeners s)" for x
    using l [OF that] by auto
  from total_waiting [OF this]
  have "size (total l_reading (listeners s)) + length fs = size (total l_reading (listeners s)) + count_list (listeners s) Waiting"
    using d(7) by (simp add: node_defs qs y z)
  then have "free_count (cl s) = count_list (listeners s) Waiting" using d(6) y by simp
  moreover have "free_count (cl s) = 0" if "Waiting \<in> set (listeners s)" using quiet_listener [OF assms(1) that] by blast
  ultimately show "Waiting \<notin> set (listeners s)" using count_list_0_iff [of "listeners s" Waiting] by metis
qed

lemma run_reachable: "(client_step ^^ k) s s' \<Longrightarrow> reachable T n s \<Longrightarrow> reachable T n s'"
proof (induction k arbitrary: s')
  case (Suc k)
  then obtain s1 where "(client_step ^^ k) s s1" "client_step s1 s'" by (auto simp: relcompp_apply)
  then show ?case using Suc reachable.step sys_step.run by blast
qed simp

lemma run_work:
  "(client_step ^^ k) s s' \<Longrightarrow> reachable T n s \<Longrightarrow> T \<subseteq> {0..<int TRANSACTION_MAX} \<Longrightarrow> work s' + k \<le> work s"
proof (induction k arbitrary: s')
  case (Suc k)
  then obtain s1 where s1: "(client_step ^^ k) s s1" "client_step s1 s'" by (auto simp: relcompp_apply)
  obtain qs fs where "sys_inv s1 qs fs" using reachable_inv [OF run_reachable [OF s1(1) Suc.prems(2)] Suc.prems(3)] by blast
  from work_decreases [OF s1(2) this] Suc.IH [OF s1(1) Suc.prems(2,3)] show ?case by simp
qed simp

text \<open>C14: Left alone, the client finishes: from any reachable state its threads can take at most \<open>work s\<close>
  steps, in whatever order they are scheduled, without new input from the terminals; and where they
  stop, every request has been answered, the queue is empty, all workers are idle and every
  listener reads from its socket again or has exited. So no schedule deadlocks.\<close>
theorem client_drains:
  assumes "reachable T n s" "T \<subseteq> {0..<int TRANSACTION_MAX}" "0 < n" "(client_step ^^ k) s s'"
  shows "k \<le> work s \<and> (quiet s' \<longrightarrow> mset (replies s') = mset (requests s') \<and> queue_holds (cl s') [] \<and>
    set (db_workers s') = {Idle} \<and> (\<forall>x \<in> set (listeners s'). x = Exited \<or> (\<exists>a. x = Reading a)))"
proof (intro conjI impI)
  show "k \<le> work s" using run_work [OF assms(4,1,2)] by simp
  have r: "reachable T n s'" by (rule run_reachable [OF assms(4,1)])
  obtain qs fs where inv: "sys_inv s' qs fs" and log: "log_inv s' qs" using reachable_inv [OF r assms(2)] by blast
  have w: "db_workers s' \<noteq> []" using reachable_workers [OF r] assms(3) by auto
  assume q: "quiet s'"
  note fin = quiet_done [OF q inv log w]
  show "mset (replies s') = mset (requests s')" by (rule fin(2))
  show "queue_holds (cl s') []" using sys_invD(1) [OF inv] fin(1) by (simp add: lists_ok_def)
  show "set (db_workers s') = {Idle}" using quiet_worker [OF q inv] w by (cases "db_workers s'") auto
  show "\<forall>x \<in> set (listeners s'). x = Exited \<or> (\<exists>a. x = Reading a)" using quiet_listener [OF q] fin(3) by blast
qed

theorem client_drains_witness:
  "\<exists>s'. client_step (sample_steps NEW_ORDER) s' \<and> 1 \<le> work (sample_steps NEW_ORDER)"
proof -
  let ?s = "sample_steps NEW_ORDER"
  have T: "{NEW_ORDER} \<subseteq> {0..<int TRANSACTION_MAX}" by (simp add: transaction_defs TRANSACTION_MAX_def)
  have r: "reachable {NEW_ORDER} 1 ?s" by (rule sample_reachable) simp
  have "listeners ?s = [] @ Received (fst (accept_node 7 (cl (initial_system 1)))) # []"
    by (simp add: sample_steps_def Let_def case_prod_beta)
  then obtain a where l: "listeners ?s = [] @ Received a # []" by blast
  obtain qs fs where "sys_inv ?s qs fs" using reachable_inv [OF r T] by blast
  from no_count_outside [OF this l] obtain c where "count_queued a 1 (cl ?s) = Some c" by blast
  note step = client_step.count [OF l this]
  then have "(client_step ^^ 1) ?s (?s\<lparr>cl := c, listeners := [] @ Counted a # []\<rparr>)" by (simp add: eq_OO)
  from client_drains [OF r T _ this] step show ?thesis by auto
qed

text \<open>C40: The Integrity transaction, number 10, which the driver has a function for and the client
  accepts, lies outside the two by five counters: a single such request makes \<open>enqueue_transaction\<close>
  lock and increment beyond the arrays.\<close>
theorem integrity_request_breaks:
  "\<exists>s. reachable {INTEGRITY} n s \<and> broken s"
proof -
  let ?s = "initial_system n" and ?T = "{INTEGRITY}"
  obtain a c where ac: "accept_node 7 (cl ?s) = (a, c)" by fastforce
  let ?s1 = "?s\<lparr>cl := c, listeners := listeners ?s @ [Reading a], listener_worker_count := listener_worker_count ?s + 1\<rparr>"
  have r1: "reachable ?T n ?s1" using reachable.step [OF reachable.start sys_step.accept [OF ac]] .
  have reading: "listeners ?s1 = [] @ Reading a # []" by (simp add: initial_system_def)
  obtain s2 where s2: "sys_step ?T ?s1 s2" "listeners s2 = [] @ Received a # []"
    "cl s2 = store_request a OK INTEGRITY None c"
    using sys_step.receive [OF reading singletonI, where st = OK and d = None] by (intro that) (assumption, simp_all)
  have "queued c = replicate TRANSACTION_MAX 0" using ac
    by (auto simp: accept_node_def initial_system_def empty_client_def split: prod.splits)
  then have "count_queued a 1 (cl s2) = None"
    by (simp add: s2(3) count_queued_def add_counter_def store_transaction store_other INTEGRITY_def TRANSACTION_MAX_def)
  note step = client_step.count_outside [OF s2(2) this]
  have "reachable ?T n (s2\<lparr>broken := True\<rparr>)"
    by (rule reachable.step [OF reachable.step [OF r1 s2(1)] sys_step.run [OF step]])
  then show ?thesis by (intro exI [of _ "s2\<lparr>broken := True\<rparr>"]) simp
qed

end
