(* ===== verification/Sockets.thy ===== *)
theory Sockets
  imports Common
begin

text \<open>
  How a transaction travels between driver and client: \<open>src/src/_socket.c\<close> and
  \<open>src/src/client_interface.c\<close>. The calls of the operating system are arguments: \<open>recv\<close> and \<open>send\<close>
  act on a state of the connection of any type and may transfer less than they are asked to. The
  structure \<open>client_transaction_t\<close> is sent as its bytes in memory. The loops are partial functions,
  None for a loop that does not end; that they end is shown from what the system calls guarantee.
\<close>

section \<open>Calls of the operating system\<close>

definition ERR_SOCKET_CREATE :: int where "ERR_SOCKET_CREATE = - 1"
definition ERR_SOCKET_BIND :: int where "ERR_SOCKET_BIND = - 2"
definition ERR_SOCKET_LISTEN :: int where "ERR_SOCKET_LISTEN = - 3"
definition ERR_SOCKET_RESOLVPROTO :: int where "ERR_SOCKET_RESOLVPROTO = - 4"
definition ERR_SOCKET_CLOSED :: int where "ERR_SOCKET_CLOSED = - 5"

definition EPIPE :: int where "EPIPE = 32"
definition ECONNRESET :: int where "ECONNRESET = 104"

lemmas socket_codes = ERR_SOCKET_CREATE_def ERR_SOCKET_BIND_def ERR_SOCKET_LISTEN_def
  ERR_SOCKET_RESOLVPROTO_def ERR_SOCKET_CLOSED_def

text \<open>What \<open>recv\<close> stores, or the failure that it returns as \<open>-1\<close>; the same for \<open>send\<close> with \<open>errno\<close>.\<close>

datatype recv_result = Recv_failed | Recv_bytes bytes
datatype send_result = Send_failed int | Sent nat

type_synonym 's recv_call = "nat \<Rightarrow> 's \<Rightarrow> recv_result \<times> 's"
type_synonym 's send_call = "bytes \<Rightarrow> 's \<Rightarrow> send_result \<times> 's"

section \<open>Transfer of a block\<close>

text \<open>\<open>_receive\<close>, after \<open>data\<close> has been received of \<open>len\<close> bytes: the return value and the bytes.\<close>

partial_function (option) receive_loop ::
    "'s recv_call \<Rightarrow> nat \<Rightarrow> bytes \<Rightarrow> 's \<Rightarrow> ((int \<times> bytes) \<times> 's) option" where
  "receive_loop recv len data s =
     (case recv (len - length data) s of
        (Recv_failed, s1) \<Rightarrow> Some ((- 1, data), s1)
      | (Recv_bytes bs, s1) \<Rightarrow>
          if bs = [] then Some ((ERR_SOCKET_CLOSED, data), s1)
          else if length (data @ bs) \<noteq> len then receive_loop recv len (data @ bs) s1
          else Some ((int len, data @ bs), s1))"

definition socket_receive :: "'s recv_call \<Rightarrow> nat \<Rightarrow> 's \<Rightarrow> ((int \<times> bytes) \<times> 's) option" where
  "socket_receive recv len s = receive_loop recv len [] s"

text \<open>\<open>_send\<close>: the return value, and \<open>errno\<close> where a call fails.\<close>

partial_function (option) send_loop :: "'s send_call \<Rightarrow> bytes \<Rightarrow> 's \<Rightarrow> (int option \<times> 's) option" where
  "send_loop send rest s =
     (if rest = [] then Some (None, s)
      else case send rest s of
          (Send_failed e, s1) \<Rightarrow> Some (Some e, s1)
        | (Sent n, s1) \<Rightarrow> send_loop send (drop n rest) s1)"

definition socket_send :: "'s send_call \<Rightarrow> bytes \<Rightarrow> 's \<Rightarrow> ((int \<times> int option) \<times> 's) option" where
  "socket_send send data s = map_option
     (\<lambda>(e, s1). ((if e = None then int (length data) else - 1, e), s1)) (send_loop send data s)"

section \<open>Transactions\<close>

text \<open>\<open>sz\<close> is \<open>sizeof(struct client_transaction_t)\<close>.\<close>

definition receive_transaction_data :: "'s recv_call \<Rightarrow> nat \<Rightarrow> 's \<Rightarrow> ((int \<times> bytes) \<times> 's) option" where
  "receive_transaction_data recv sz s = map_option (\<lambda>((len, data), s1).
     ((if len = - 1 then ERROR
       else if len = ERR_SOCKET_CLOSED then ERROR_SOCKET_CLOSED
       else if len \<noteq> int sz then ERROR
       else len, data), s1)) (socket_receive recv sz s)"

definition send_transaction_data :: "'s send_call \<Rightarrow> nat \<Rightarrow> bytes \<Rightarrow> 's \<Rightarrow> (int \<times> 's) option" where
  "send_transaction_data send sz data s = map_option (\<lambda>((len, e), s1).
     (if len = - 1 then (if e = Some EPIPE \<or> e = Some ECONNRESET then ERROR_SOCKET_CLOSED else ERROR)
      else if len \<noteq> int sz then ERROR
      else len, s1)) (socket_send send data s)"

section \<open>Opening connections\<close>

text \<open>
  \<open>_connect\<close> on the addresses that \<open>getaddrinfo\<close> found: \<open>open_socket a\<close> is the new socket or None,
  \<open>connects a\<close> whether the connection succeeds. The result is the value returned and the sockets
  that were closed again; \<open>port\<close> is printed into the request.
\<close>

fun try_addresses :: "('a \<Rightarrow> int option) \<Rightarrow> ('a \<Rightarrow> bool) \<Rightarrow> 'a list \<Rightarrow> int option \<times> int list" where
  "try_addresses open_socket connects [] = (None, [])"
| "try_addresses open_socket connects (a # as) =
     (case open_socket a of
        None \<Rightarrow> try_addresses open_socket connects as
      | Some fd \<Rightarrow> if connects a then (Some fd, [])
          else (case try_addresses open_socket connects as of (r, shut) \<Rightarrow> (r, fd # shut)))"

definition socket_connect ::
    "(bytes \<Rightarrow> bytes \<Rightarrow> 'a list option) \<Rightarrow> ('a \<Rightarrow> int option) \<Rightarrow> ('a \<Rightarrow> bool) \<Rightarrow> bytes \<Rightarrow> int \<Rightarrow> int \<times> int list" where
  "socket_connect getaddrinfo open_socket connects address port =
     (case getaddrinfo address (fmt_d (port mod 2 ^ 16)) of
        None \<Rightarrow> (- 1, [])
      | Some as \<Rightarrow> (case try_addresses open_socket connects as of
            (None, shut) \<Rightarrow> (- 1, shut)
          | (Some fd, shut) \<Rightarrow> (fd, shut)))"

definition connect_to_client ::
    "(bytes \<Rightarrow> bytes \<Rightarrow> 'a list option) \<Rightarrow> ('a \<Rightarrow> int option) \<Rightarrow> ('a \<Rightarrow> bool) \<Rightarrow> bytes \<Rightarrow> int \<Rightarrow> int" where
  "connect_to_client getaddrinfo open_socket connects addr port =
     fst (socket_connect getaddrinfo open_socket connects addr port)"

text \<open>\<open>resolveproto\<close>, and \<open>_listen\<close> with the outcomes of its calls as arguments.\<close>

definition resolveproto :: "(bytes \<Rightarrow> int option) \<Rightarrow> bytes \<Rightarrow> int" where
  "resolveproto getprotobyname proto = (case getprotobyname proto of
     None \<Rightarrow> ERR_SOCKET_RESOLVPROTO | Some p \<Rightarrow> p)"

definition socket_listen ::
    "(bytes \<Rightarrow> int option) \<Rightarrow> (int \<Rightarrow> int) \<Rightarrow> (int \<Rightarrow> int \<Rightarrow> bool) \<Rightarrow> (int \<Rightarrow> bool) \<Rightarrow> int \<Rightarrow> int" where
  "socket_listen getprotobyname open_socket binds listens port =
     (let fd = open_socket (resolveproto getprotobyname ''TCP'')
      in if fd < 0 then ERR_SOCKET_CREATE
         else if \<not> binds fd (port mod 2 ^ 16) then ERR_SOCKET_BIND
         else if \<not> listens fd then ERR_SOCKET_LISTEN
         else fd)"

section \<open>What the operating system guarantees\<close>

text \<open>
  \<open>flight s\<close> are the bytes that were sent and not received yet. A \<open>recv\<close> that does not fail takes some
  of them off the front, none only if there are none; a \<open>send\<close> that does not fail appends the first
  of the bytes, at least one; a call that fails changes nothing in flight.
\<close>

definition stream_recv :: "('s \<Rightarrow> bytes) \<Rightarrow> 's recv_call \<Rightarrow> bool" where
  "stream_recv flight recv \<longleftrightarrow> (\<forall>n s. 0 < n \<longrightarrow> (case recv n s of
     (Recv_failed, s1) \<Rightarrow> flight s1 = flight s
   | (Recv_bytes bs, s1) \<Rightarrow> flight s = bs @ flight s1 \<and> length bs \<le> n \<and> (bs = [] \<longrightarrow> flight s = [])))"

definition stream_send :: "('s \<Rightarrow> bytes) \<Rightarrow> 's send_call \<Rightarrow> bool" where
  "stream_send flight send \<longleftrightarrow> (\<forall>bs s. bs \<noteq> [] \<longrightarrow> (case send bs s of
     (Send_failed e, s1) \<Rightarrow> flight s1 = flight s
   | (Sent n, s1) \<Rightarrow> 0 < n \<and> n \<le> length bs \<and> flight s1 = flight s @ take n bs))"

text \<open>The outcomes of the loops: all bytes, or a failure somewhere on the way.\<close>

definition received :: "('s \<Rightarrow> bytes) \<Rightarrow> nat \<Rightarrow> bytes \<Rightarrow> 's \<Rightarrow> (int \<times> bytes) \<times> 's \<Rightarrow> bool" where
  "received flight len data s res \<longleftrightarrow> (case res of ((r, all), s1) \<Rightarrow>
     (\<exists>data'. all = data @ data' \<and> flight s = data' @ flight s1) \<and>
     (if r = int len then length all = len
      else length all < len \<and> (r = - 1 \<or> r = ERR_SOCKET_CLOSED \<and> flight s1 = [])))"

lemma receive_loop_stream:
  assumes "stream_recv flight recv" "length data < len"
  shows "\<exists>res. receive_loop recv len data s = Some res \<and> received flight len data s res"
  using assms(2)
proof (induction "len - length data" arbitrary: data s rule: less_induct)
  case less
  have pos: "0 < len - length data" using less.prems by simp
  obtain r s1 where r: "recv (len - length data) s = (r, s1)" by (cases "recv (len - length data) s") auto
  have law: "case (r, s1) of (Recv_failed, s1) \<Rightarrow> flight s1 = flight s
    | (Recv_bytes bs, s1) \<Rightarrow> flight s = bs @ flight s1 \<and> length bs \<le> len - length data \<and> (bs = [] \<longrightarrow> flight s = [])"
    using assms(1) [unfolded stream_recv_def, rule_format, OF pos, of s] unfolding r .
  show ?case
  proof (cases r)
    case Recv_failed
    then have "receive_loop recv len data s = Some ((- 1, data), s1)" by (subst receive_loop.simps) (simp add: r)
    moreover have "received flight len data s ((- 1, data), s1)"
      using law Recv_failed less.prems by (simp add: received_def)
    ultimately show ?thesis by blast
  next
    case (Recv_bytes bs)
    then have fl: "flight s = bs @ flight s1" "length bs \<le> len - length data" "bs = [] \<Longrightarrow> flight s = []"
      using law by auto
    consider "bs = []" | "bs \<noteq> []" "length (data @ bs) = len" | "bs \<noteq> []" "length (data @ bs) \<noteq> len" by blast
    then show ?thesis
    proof cases
      case 1
      then have "receive_loop recv len data s = Some ((ERR_SOCKET_CLOSED, data), s1)"
        by (subst receive_loop.simps) (simp add: r Recv_bytes)
      moreover have "received flight len data s ((ERR_SOCKET_CLOSED, data), s1)"
        using 1 fl less.prems by (simp add: received_def ERR_SOCKET_CLOSED_def)
      ultimately show ?thesis by blast
    next
      case 2
      then have "receive_loop recv len data s = Some ((int len, data @ bs), s1)"
        by (subst receive_loop.simps) (simp add: r Recv_bytes)
      moreover have "received flight len data s ((int len, data @ bs), s1)"
        using 2 fl by (simp add: received_def)
      ultimately show ?thesis by blast
    next
      case 3
      then have bs: "0 < length bs" by simp
      have "len - length (data @ bs) < len - length data" "length (data @ bs) < len"
        unfolding length_append using fl(2) less.prems 3(2) [unfolded length_append] bs by linarith+
      from less.hyps [OF this, of s1] obtain res where
        IH: "receive_loop recv len (data @ bs) s1 = Some res" "received flight len (data @ bs) s1 res" by blast
      have "receive_loop recv len data s = Some res"
        using 3 Recv_bytes IH(1) by (subst receive_loop.simps) (simp add: r)
      moreover have "received flight len data s res" using IH(2) fl(1) by (auto simp: received_def)
      ultimately show ?thesis by blast
    qed
  qed
qed

definition sent_part :: "('s \<Rightarrow> bytes) \<Rightarrow> bytes \<Rightarrow> 's \<Rightarrow> int option \<times> 's \<Rightarrow> bool" where
  "sent_part flight rest s res \<longleftrightarrow> (case res of (e, s1) \<Rightarrow>
     if e = None then flight s1 = flight s @ rest
     else (\<exists>k < length rest. flight s1 = flight s @ take k rest))"

lemma send_loop_stream:
  assumes "stream_send flight send"
  shows "\<exists>res. send_loop send rest s = Some res \<and> sent_part flight rest s res"
proof (induction "length rest" arbitrary: rest s rule: less_induct)
  case less
  show ?case
  proof (cases "rest = []")
    case True
    then show ?thesis by (subst send_loop.simps) (simp add: sent_part_def)
  next
    case False
    obtain r s1 where r: "send rest s = (r, s1)" by (cases "send rest s") auto
    have law: "case (r, s1) of (Send_failed e, s1) \<Rightarrow> flight s1 = flight s
      | (Sent n, s1) \<Rightarrow> 0 < n \<and> n \<le> length rest \<and> flight s1 = flight s @ take n rest"
      using assms [unfolded stream_send_def, rule_format, OF False, of s] unfolding r .
    show ?thesis
    proof (cases r)
      case (Send_failed e)
      then have "send_loop send rest s = Some (Some e, s1)" using False by (subst send_loop.simps) (simp add: r)
      moreover have "sent_part flight rest s (Some e, s1)"
        using law Send_failed False by (simp add: sent_part_def exI [of _ 0])
      ultimately show ?thesis by blast
    next
      case (Sent n)
      then have n: "0 < n" "n \<le> length rest" "flight s1 = flight s @ take n rest" using law by auto
      then have "length (drop n rest) < length rest" using False by simp
      from less [OF this, of s1] obtain res where
        IH: "send_loop send (drop n rest) s1 = Some res" "sent_part flight (drop n rest) s1 res" by blast
      have "send_loop send rest s = Some res" using False Sent IH(1) by (subst send_loop.simps) (simp add: r)
      moreover have "sent_part flight rest s res"
      proof (cases "fst res")
        case None
        then show ?thesis using IH(2) n(3) by (cases res) (simp add: sent_part_def)
      next
        case (Some e)
        then obtain k s2 where k: "k < length (drop n rest)" "flight s2 = flight s1 @ take k (drop n rest)" "res = (Some e, s2)"
          using IH(2) by (cases res) (auto simp: sent_part_def)
        then have "n + k < length rest" "flight s2 = flight s @ take (n + k) rest" using n by (auto simp: take_add)
        then show ?thesis using k(3) by (auto simp: sent_part_def)
      qed
      ultimately show ?thesis by blast
    qed
  qed
qed

lemma send_transaction_cases:
  assumes "stream_send flight send" "length msg = sz"
  obtains (all) s1 where "send_transaction_data send sz msg s = Some (int sz, s1)" "flight s1 = flight s @ msg"
  | (part) r s1 k where "send_transaction_data send sz msg s = Some (r, s1)" "r \<in> {ERROR, ERROR_SOCKET_CLOSED}"
      "k < sz" "flight s1 = flight s @ take k msg"
proof -
  obtain e s1 where L: "send_loop send msg s = Some (e, s1)" "sent_part flight msg s (e, s1)"
    using send_loop_stream [OF assms(1), of msg s] by auto
  show ?thesis
  proof (cases e)
    case None
    then show ?thesis using L assms(2) all [of s1]
      by (simp add: sent_part_def send_transaction_data_def socket_send_def)
  next
    case (Some x)
    then obtain k where k: "k < sz" "flight s1 = flight s @ take k msg" using L(2) assms(2) by (auto simp: sent_part_def)
    have "\<exists>r \<in> {ERROR, ERROR_SOCKET_CLOSED}. send_transaction_data send sz msg s = Some (r, s1)"
      using L(1) Some by (simp add: send_transaction_data_def socket_send_def)
    then show ?thesis using k part by blast
  qed
qed

lemma receive_transaction_cases:
  assumes "stream_recv flight recv" "0 < sz"
  obtains (all) data s1 where "receive_transaction_data recv sz s = Some ((int sz, data), s1)"
      "flight s = data @ flight s1" "length data = sz"
  | (part) r data s1 where "receive_transaction_data recv sz s = Some ((r, data), s1)" "r \<in> {ERROR, ERROR_SOCKET_CLOSED}"
      "flight s = data @ flight s1" "length data < sz" "r = ERROR_SOCKET_CLOSED \<Longrightarrow> flight s1 = []"
proof -
  have "length ([] :: bytes) < sz" using assms(2) by simp
  from receive_loop_stream [OF assms(1) this, of s] obtain r data s1 where
    L: "receive_loop recv sz [] s = Some ((r, data), s1)" "received flight sz [] s ((r, data), s1)" by auto
  then have fl: "flight s = data @ flight s1" by (simp add: received_def)
  consider "r = int sz" "length data = sz" | "r = - 1" "length data < sz"
    | "r = ERR_SOCKET_CLOSED" "length data < sz" "flight s1 = []"
    using L(2) by (auto simp: received_def split: if_splits)
  then show ?thesis
  proof cases
    case 1
    then have "receive_transaction_data recv sz s = Some ((int sz, data), s1)"
      using L(1) by (simp add: receive_transaction_data_def socket_receive_def ERR_SOCKET_CLOSED_def)
    then show ?thesis using all fl 1(2) by blast
  next
    case 2
    then have "receive_transaction_data recv sz s = Some ((ERROR, data), s1)"
      using L(1) by (simp add: receive_transaction_data_def socket_receive_def)
    then show ?thesis by (rule part) (use fl 2(2) in \<open>simp_all add: ERROR_def ERROR_SOCKET_CLOSED_def\<close>)
  next
    case 3
    then have "receive_transaction_data recv sz s = Some ((ERROR_SOCKET_CLOSED, data), s1)"
      using L(1) by (simp add: receive_transaction_data_def socket_receive_def ERR_SOCKET_CLOSED_def)
    then show ?thesis by (rule part) (use fl 3(2,3) in simp_all)
  qed
qed

section \<open>Properties\<close>

text \<open>C26: A transaction arrives as it was sent. However the operating system cuts the stream, both
  routines return. Sending reports the size of the structure if all its bytes are under way and an
  error code if only a part is; receiving reports the size exactly if it has the whole structure, as
  it was sent, and an error code if the stream ended or failed within it.
\<close>
theorem transaction_delivered:
  assumes "stream_send flight send" "stream_recv flight recv" "length msg = sz" "0 < sz" "flight s = []"
  shows "\<exists>r s1 r2 data s2. send_transaction_data send sz msg s = Some (r, s1) \<and>
     receive_transaction_data recv sz s1 = Some ((r2, data), s2) \<and>
     (r = int sz \<and> flight s1 = msg \<or> r \<in> {ERROR, ERROR_SOCKET_CLOSED} \<and> (\<exists>k < sz. flight s1 = take k msg)) \<and>
     (r2 = int sz \<and> r = int sz \<and> data = msg \<and> flight s2 = [] \<or>
      r2 \<in> {ERROR, ERROR_SOCKET_CLOSED} \<and> (\<exists>k < sz. data = take k msg))"
  using assms(1,3)
proof (cases rule: send_transaction_cases [where s = s])
  case (all s1)
  then have fl: "flight s1 = msg" using assms(5) by simp
  show ?thesis using assms(2,4)
  proof (cases rule: receive_transaction_cases [where s = s1])
    case rec: (all data s2)
    then have "data = msg" "flight s2 = []" using fl assms(3) by auto
    then show ?thesis using all(1) rec(1) fl by simp
  next
    case rec: (part r2 data s2)
    then have "data = take (length data) msg" using fl by (metis append_eq_conv_conj)
    then show ?thesis using all(1) rec(1,2,4) fl by auto
  qed
next
  case (part r s1 k)
  then have fl: "flight s1 = take k msg" using assms(5) by simp
  show ?thesis using assms(2,4)
  proof (cases rule: receive_transaction_cases [where s = s1])
    case rec: (all data s2)
    then have "sz \<le> length (take k msg)" using fl by (metis le_add1 length_append)
    then show ?thesis using part(3) by simp
  next
    case rec: (part r2 data s2)
    then have "data = take (length data) (take k msg)" using fl by (metis append_eq_conv_conj)
    then have "\<exists>k < sz. data = take k msg" using rec(4) part(3) by (metis take_take min_less_iff_disj)
    then show ?thesis using part(1,2,3) rec(1,2) fl by auto
  qed
qed

text \<open>A connection that carries one byte more than half of what it is asked to.\<close>

definition half_recv :: "bytes recv_call" where
  "half_recv n s = (let k = n div 2 + 1 in (Recv_bytes (take (min k n) s), drop (min k n) s))"

definition half_send :: "bytes send_call" where
  "half_send bs s = (let k = length bs div 2 + 1 in (Sent (min k (length bs)), s @ take (min k (length bs)) bs))"

lemma half_stream: "stream_recv (\<lambda>s. s) half_recv" "stream_send (\<lambda>s. s) half_send"
  by (auto simp: stream_recv_def stream_send_def half_recv_def half_send_def Let_def split: if_splits)

theorem transaction_delivered_witness:
  "\<exists>r s1 r2 data s2. send_transaction_data half_send 7 ''payment'' [] = Some (r, s1) \<and>
     receive_transaction_data half_recv 7 s1 = Some ((r2, data), s2) \<and>
     (r = 7 \<and> s1 = ''payment'' \<or> r \<in> {ERROR, ERROR_SOCKET_CLOSED} \<and> (\<exists>k < 7. s1 = take k ''payment'')) \<and>
     (r2 = 7 \<and> r = 7 \<and> data = ''payment'' \<and> s2 = [] \<or>
      r2 \<in> {ERROR, ERROR_SOCKET_CLOSED} \<and> (\<exists>k < 7. data = take k ''payment''))"
  using transaction_delivered [OF half_stream(2) half_stream(1), of "''payment''" 7 "[]"] by simp

end
