(* ===== verification/Sql_Tables.thy ===== *)
theory Sql_Tables
  imports Input_Data Command_Line "HOL-Library.List_Lexorder" "HOL-Library.Char_ord"
    "HOL-Library.Option_ord"
begin

text \<open>
  The SQL statements of the transactions without stored procedures
  (\<open>src/src/include/nonsp_common.h\<close>): their text and what they mean on the nine tables. A table is
  the list of its rows, a row is a record that names its columns as SQL does. Numbers with decimals
  are counted in millionths, the precision of \<open>%f\<close>, and the arithmetic of the database on them is
  taken as exact. A column that is read or written as text may be NULL.

  A statement is built by \<open>sprintf\<close>, so its arguments are numbers or texts; a text put in for \<open>%s\<close>
  has to be a number or, between quotes, a string with doubled quotes. \<open>run_sql\<close> is None where the
  database refuses the statement: such a text is not well-formed, or a primary key exists already.
\<close>

section \<open>Tables\<close>

record address =
  A_NAME :: "bytes option"
  A_STREET_1 :: "bytes option"
  A_STREET_2 :: "bytes option"
  A_CITY :: "bytes option"
  A_STATE :: "bytes option"
  A_ZIP :: "bytes option"

record warehouse_r =
  W_ID :: int
  W_ADDRESS :: address
  W_TAX :: int
  W_YTD :: int

record district_r =
  D_ID :: int
  D_W_ID :: int
  D_ADDRESS :: address
  D_TAX :: int
  D_YTD :: int
  D_NEXT_O_ID :: int

record customer_r =
  C_ID :: int
  C_D_ID :: int
  C_W_ID :: int
  C_FIRST :: "bytes option"
  C_MIDDLE :: "bytes option"
  C_LAST :: "bytes option"
  C_STREET_1 :: "bytes option"
  C_STREET_2 :: "bytes option"
  C_CITY :: "bytes option"
  C_STATE :: "bytes option"
  C_ZIP :: "bytes option"
  C_PHONE :: "bytes option"
  C_SINCE :: "bytes option"
  C_CREDIT :: "bytes option"
  C_CREDIT_LIM :: int
  C_DISCOUNT :: int
  C_BALANCE :: int
  C_YTD_PAYMENT :: int
  C_PAYMENT_CNT :: int
  C_DELIVERY_CNT :: int
  C_DATA :: "bytes option"

record history_r =
  H_C_ID :: int
  H_C_D_ID :: int
  H_C_W_ID :: int
  H_D_ID :: int
  H_W_ID :: int
  H_DATE :: bytes
  H_AMOUNT :: int
  H_DATA :: bytes

record new_order_r =
  NO_O_ID :: int
  NO_D_ID :: int
  NO_W_ID :: int

record orders_r =
  O_ID :: int
  O_D_ID :: int
  O_W_ID :: int
  O_C_ID :: int
  O_ENTRY_D :: bytes
  O_CARRIER_ID :: "int option"
  O_OL_CNT :: int
  O_ALL_LOCAL :: int

record order_line_r =
  OL_O_ID :: int
  OL_D_ID :: int
  OL_W_ID :: int
  OL_NUMBER :: int
  OL_I_ID :: int
  OL_SUPPLY_W_ID :: int
  OL_DELIVERY_D :: "bytes option"
  OL_QUANTITY :: int
  OL_AMOUNT :: int
  OL_DIST_INFO :: "bytes option"

record item_r =
  I_ID :: int
  I_NAME :: "bytes option"
  I_PRICE :: int
  I_DATA :: "bytes option"

record stock_r =
  S_I_ID :: int
  S_W_ID :: int
  S_QUANTITY :: int
  S_DIST :: "bytes option list"
  S_YTD :: int
  S_ORDER_CNT :: int
  S_REMOTE_CNT :: int
  S_DATA :: "bytes option"

record tables =
  warehouse_t :: "warehouse_r list"
  district_t :: "district_r list"
  customer_t :: "customer_r list"
  history_t :: "history_r list"
  new_order_t :: "new_order_r list"
  orders_t :: "orders_r list"
  order_line_t :: "order_line_r list"
  item_t :: "item_r list"
  stock_t :: "stock_r list"

section \<open>Values and literals\<close>

text \<open>A value of a result row; decimal numbers in millionths.\<close>

datatype cell = Null | Whole int | Decimal int | Text bytes

definition text_cell :: "bytes option \<Rightarrow> cell" where
  "text_cell x = (case x of None \<Rightarrow> Null | Some s \<Rightarrow> Text s)"

definition int_cell :: "int option \<Rightarrow> cell" where
  "int_cell x = (case x of None \<Rightarrow> Null | Some n \<Rightarrow> Whole n)"

definition address_cells :: "address \<Rightarrow> cell list" where
  "address_cells a = map text_cell [A_NAME a, A_STREET_1 a, A_STREET_2 a, A_CITY a, A_STATE a, A_ZIP a]"

text \<open>The value of a numeric literal, in millionths; more than six decimals are cut.\<close>

definition sql_magnitude :: "bytes \<Rightarrow> int option" where
  "sql_magnitude s = (let ip = takeWhile is_digit s in
     if ip = [] then None
     else case dropWhile is_digit s of
         [] \<Rightarrow> Some (digits_value ip * 10 ^ 6)
       | c # fs \<Rightarrow> if c = CHR ''.'' \<and> list_all is_digit fs
           then Some (digits_value ip * 10 ^ 6 + digits_value (take 6 (fs @ replicate 6 (CHR ''0''))))
           else None)"

definition sql_number :: "bytes \<Rightarrow> int option" where
  "sql_number s = (case s of
     [] \<Rightarrow> None
   | c # cs \<Rightarrow> if c = CHR ''-'' then map_option uminus (sql_magnitude cs) else sql_magnitude s)"

text \<open>A literal that stands for a whole number, as a key does.\<close>

definition sql_integer :: "bytes \<Rightarrow> int option" where
  "sql_integer s = (case sql_number s of
     None \<Rightarrow> None | Some v \<Rightarrow> if v mod 10 ^ 6 = 0 then Some (v div 10 ^ 6) else None)"

text \<open>The string between quotes, in which a quote is written twice.\<close>

fun sql_string :: "bytes \<Rightarrow> bytes option" where
  "sql_string [] = Some []"
| "sql_string (c # cs) =
     (if c = CHR 0x27
      then (case cs of [] \<Rightarrow> None
            | d # ds \<Rightarrow> if d = CHR 0x27 then map_option (Cons (CHR 0x27)) (sql_string ds) else None)
      else map_option (Cons c) (sql_string cs))"

text \<open>\<open>substr(s, 1, n)\<close> counts characters of UTF-8.\<close>

definition continues_char :: "char \<Rightarrow> bool" where
  "continues_char c \<longleftrightarrow> (of_char c :: nat) div 64 = 2"

fun take_chars :: "nat \<Rightarrow> bytes \<Rightarrow> bytes" where
  "take_chars n [] = []"
| "take_chars n (c # cs) =
     (if continues_char c then c # take_chars n cs
      else case n of 0 \<Rightarrow> [] | Suc m \<Rightarrow> c # take_chars m cs)"

section \<open>Statements\<close>

text \<open>One constructor for each of the texts, with the arguments that are printed into it.\<close>

datatype statement =
    Delivery_1 int int
  | Delivery_2 bytes int int
  | Delivery_3 bytes int int
  | Delivery_4 int bytes int int
  | Delivery_5 bytes int int
  | Delivery_6 bytes int int
  | Delivery_7 bytes bytes int int
  | New_order_1 int
  | New_order_2 int int
  | New_order_3 int int
  | New_order_4 int int int
  | New_order_5 bytes int int
  | New_order_6 bytes int int int int int
  | New_order_7 int
  | New_order_8 bytes int int
  | New_order_9 int int int
  | New_order_10 bytes int int int int int int rat bytes
  | Order_status_1 int int bytes
  | Order_status_2 int int int
  | Order_status_3 int int int
  | Order_status_4 int int bytes
  | Payment_1 int
  | Payment_2 rat int
  | Payment_3 int int
  | Payment_4 rat int int
  | Payment_5 int int bytes
  | Payment_6 int int int
  | Payment_7_gc rat int int int
  | Payment_7_bc rat bytes int int int
  | Payment_8 int int int int int rat bytes bytes
  | Stock_level_1 int int
  | Stock_level_2 int int int int int
  | Integrity_1

text \<open>The lines of a statement, and the text that \<open>sprintf\<close> makes of them.\<close>

fun sql_lines :: "statement \<Rightarrow> bytes list" where
  "sql_lines (Delivery_1 w d) =
     [''SELECT no_o_id'', ''FROM new_order'', ''WHERE no_w_id = '' @ fmt_d w, ''  AND no_d_id = '' @ fmt_d d,
      ''ORDER BY no_o_id ASC'', ''LIMIT 1'']"
| "sql_lines (Delivery_2 o' w d) =
     [''DELETE FROM new_order'', ''WHERE no_o_id = '' @ o', ''  AND no_w_id = '' @ fmt_d w, ''  AND no_d_id = '' @ fmt_d d]"
| "sql_lines (Delivery_3 o' w d) =
     [''SELECT o_c_id'', ''FROM orders'', ''WHERE o_id = '' @ o', ''  AND o_w_id = '' @ fmt_d w, ''  AND o_d_id = '' @ fmt_d d]"
| "sql_lines (Delivery_4 carrier o' w d) =
     [''UPDATE orders'', ''SET o_carrier_id = '' @ fmt_d carrier, ''WHERE o_id = '' @ o', ''  AND o_w_id = '' @ fmt_d w,
      ''  AND o_d_id = '' @ fmt_d d]"
| "sql_lines (Delivery_5 o' w d) =
     [''UPDATE order_line'', ''SET ol_delivery_d = current_timestamp'', ''WHERE ol_o_id = '' @ o',
      ''  AND ol_w_id = '' @ fmt_d w, ''  AND ol_d_id = '' @ fmt_d d]"
| "sql_lines (Delivery_6 o' w d) =
     [''SELECT SUM(ol_amount)'', ''FROM order_line'', ''WHERE ol_o_id = '' @ o', ''  AND ol_w_id = '' @ fmt_d w,
      ''  AND ol_d_id = '' @ fmt_d d]"
| "sql_lines (Delivery_7 amount c w d) =
     [''UPDATE customer'', ''SET c_delivery_cnt = c_delivery_cnt + 1,'', ''    c_balance = c_balance + '' @ amount,
      ''WHERE c_id = '' @ c, ''  AND c_w_id = '' @ fmt_d w, ''  AND c_d_id = '' @ fmt_d d]"
| "sql_lines (New_order_1 w) = [''SELECT w_tax'', ''FROM warehouse'', ''WHERE w_id = '' @ fmt_d w]"
| "sql_lines (New_order_2 w d) =
     [''SELECT d_tax, d_next_o_id'', ''FROM district '', ''WHERE d_w_id = '' @ fmt_d w, ''  AND d_id = '' @ fmt_d d, []]"
| "sql_lines (New_order_3 w d) =
     [''UPDATE district'', ''SET d_next_o_id = d_next_o_id + 1'', ''WHERE d_w_id = '' @ fmt_d w, ''  AND d_id = '' @ fmt_d d]"
| "sql_lines (New_order_4 w d c) =
     [''SELECT c_discount, c_last, c_credit'', ''FROM customer'', ''WHERE c_w_id = '' @ fmt_d w,
      ''  AND c_d_id = '' @ fmt_d d, ''  AND c_id = '' @ fmt_d c]"
| "sql_lines (New_order_5 o' w d) =
     [''INSERT INTO new_order (no_o_id, no_w_id, no_d_id)'',
      ''VALUES ('' @ o' @ '', '' @ fmt_d w @ '', '' @ fmt_d d @ '')'']"
| "sql_lines (New_order_6 o' d w c cnt all_local) =
     [''INSERT INTO orders (o_id, o_d_id, o_w_id, o_c_id, o_entry_d,'',
      ''                    o_carrier_id, o_ol_cnt, o_all_local)'',
      ''VALUES ('' @ o' @ '', '' @ fmt_d d @ '', '' @ fmt_d w @ '', '' @ fmt_d c @ '', current_timestamp, NULL, ''
        @ fmt_d cnt @ '', '' @ fmt_d all_local @ '')'']"
| "sql_lines (New_order_7 i) = [''SELECT i_price, i_name, i_data'', ''FROM item'', ''WHERE i_id = '' @ fmt_d i]"
| "sql_lines (New_order_8 col i w) =
     [''SELECT s_quantity, '' @ col @ '', s_data'', ''FROM stock'', ''WHERE s_i_id = '' @ fmt_d i, ''  AND s_w_id = '' @ fmt_d w]"
| "sql_lines (New_order_9 q i w) =
     [''UPDATE stock'', ''SET s_quantity = s_quantity - '' @ fmt_d q, ''WHERE s_i_id = '' @ fmt_d i, ''  AND s_w_id = '' @ fmt_d w]"
| "sql_lines (New_order_10 o' d w n i supply q amount info) =
     [''INSERT INTO order_line (ol_o_id, ol_d_id, ol_w_id, ol_number,'',
      ''                        ol_i_id, ol_supply_w_id, ol_delivery_d,'',
      ''                        ol_quantity, ol_amount, ol_dist_info)'',
      ''VALUES ('' @ o' @ '', '' @ fmt_d d @ '', '' @ fmt_d w @ '', '' @ fmt_d n @ '', '' @ fmt_d i @ '', '' @ fmt_d supply
        @ '', current_timestamp, '' @ fmt_d q @ '', '' @ fmt_f 6 amount @ '', '' @ [CHR 0x27] @ info @ [CHR 0x27] @ '')'']"
| "sql_lines (Order_status_1 w d nm) =
     [''SELECT c_id'', ''FROM customer'', ''WHERE c_w_id = '' @ fmt_d w, ''  AND c_d_id = '' @ fmt_d d,
      ''  AND c_last = '' @ [CHR 0x27] @ nm @ [CHR 0x27], ''ORDER BY c_first ASC'']"
| "sql_lines (Order_status_2 w d c) =
     [''SELECT c_first, c_middle, c_last, c_balance'', ''FROM customer'', ''WHERE c_w_id = '' @ fmt_d w,
      ''  AND c_d_id = '' @ fmt_d d, ''  AND c_id = '' @ fmt_d c]"
| "sql_lines (Order_status_3 w d c) =
     [''SELECT o_id, o_carrier_id, o_entry_d, o_ol_cnt'', ''FROM orders'', ''WHERE o_w_id = '' @ fmt_d w,
      ''  AND o_d_id = '' @ fmt_d d @ '' '', ''  AND o_c_id = '' @ fmt_d c, ''ORDER BY o_id DESC'']"
| "sql_lines (Order_status_4 w d o') =
     [''SELECT ol_i_id, ol_supply_w_id, ol_quantity, ol_amount,'', ''       ol_delivery_d'', ''FROM order_line'',
      ''WHERE ol_w_id = '' @ fmt_d w, ''  AND ol_d_id = '' @ fmt_d d, ''  AND ol_o_id = '' @ o']"
| "sql_lines (Payment_1 w) =
     [''SELECT w_name, w_street_1, w_street_2, w_city, w_state, w_zip'', ''FROM warehouse'', ''WHERE w_id = '' @ fmt_d w]"
| "sql_lines (Payment_2 h w) =
     [''UPDATE warehouse'', ''SET w_ytd = w_ytd + '' @ fmt_f 6 h, ''WHERE w_id = '' @ fmt_d w]"
| "sql_lines (Payment_3 d w) =
     [''SELECT d_name, d_street_1, d_street_2, d_city, d_state, d_zip'', ''FROM district'', ''WHERE d_id = '' @ fmt_d d,
      ''  AND d_w_id = '' @ fmt_d w]"
| "sql_lines (Payment_4 h d w) =
     [''UPDATE district'', ''SET d_ytd = d_ytd + '' @ fmt_f 6 h, ''WHERE d_id = '' @ fmt_d d, ''  AND d_w_id = '' @ fmt_d w]"
| "sql_lines (Payment_5 w d nm) =
     [''SELECT c_id'', ''FROM customer'', ''WHERE c_w_id = '' @ fmt_d w, ''  AND c_d_id = '' @ fmt_d d,
      ''  AND c_last = '' @ [CHR 0x27] @ nm @ [CHR 0x27], ''ORDER BY c_first ASC'']"
| "sql_lines (Payment_6 w d c) =
     [''SELECT c_first, c_middle, c_last, c_street_1, c_street_2, c_city,'',
      ''       c_state, c_zip, c_phone, c_since, c_credit,'',
      ''       c_credit_lim, c_discount, c_balance, c_data, c_ytd_payment'', ''FROM customer'',
      ''WHERE c_w_id = '' @ fmt_d w, ''  AND c_d_id = '' @ fmt_d d, ''  AND c_id = '' @ fmt_d c]"
| "sql_lines (Payment_7_gc h c w d) =
     [''UPDATE customer'', ''SET c_balance = c_balance - '' @ fmt_f 6 h @ '','', ''    c_ytd_payment = c_ytd_payment + 1'',
      ''WHERE c_id = '' @ fmt_d c, ''  AND c_w_id = '' @ fmt_d w, ''  AND c_d_id = '' @ fmt_d d]"
| "sql_lines (Payment_7_bc h s c w d) =
     [''UPDATE customer'', ''SET c_balance = c_balance - '' @ fmt_f 6 h @ '','', ''    c_ytd_payment = c_ytd_payment + 1,'',
      ''    c_data = substr('' @ [CHR 0x27] @ s @ [CHR 0x27] @ '' || c_data, 1, 500)'',
      ''WHERE c_id = '' @ fmt_d c, ''  AND c_w_id = '' @ fmt_d w, ''  AND c_d_id = '' @ fmt_d d]"
| "sql_lines (Payment_8 c c_d c_w d w h w_name d_name) =
     [''INSERT INTO history (h_c_id, h_c_d_id, h_c_w_id, h_d_id, h_w_id,'',
      ''                     h_date, h_amount, h_data)'',
      ''VALUES ('' @ fmt_d c @ '', '' @ fmt_d c_d @ '', '' @ fmt_d c_w @ '', '' @ fmt_d d @ '', '' @ fmt_d w
        @ '', current_timestamp, '' @ fmt_f 6 h @ '', '' @ [CHR 0x27] @ w_name @ ''    '' @ d_name @ [CHR 0x27] @ '')'']"
| "sql_lines (Stock_level_1 w d) =
     [''SELECT d_next_o_id'', ''FROM district'', ''WHERE d_w_id = '' @ fmt_d w, ''AND d_id = '' @ fmt_d d]"
| "sql_lines (Stock_level_2 d w threshold low high) =
     [''SELECT count(*)'', ''FROM order_line, stock, district'', ''WHERE d_id = '' @ fmt_d d, ''  AND d_w_id = '' @ fmt_d w,
      ''  AND d_id = ol_d_id'', ''  AND d_w_id = ol_w_id'', ''  AND ol_i_id = s_i_id'', ''  AND ol_w_id = s_w_id'',
      ''  AND s_quantity < '' @ fmt_d threshold, ''  AND ol_o_id BETWEEN ('' @ fmt_d low @ '')'',
      [CHR 0x09, CHR 0x09] @ ''  AND ('' @ fmt_d high @ '')'']"
| "sql_lines Integrity_1 = [''SELECT count(*)'', ''FROM warehouse'', []]"

fun join_lines :: "bytes list \<Rightarrow> bytes" where
  "join_lines [] = []"
| "join_lines [l] = l"
| "join_lines (l # ls) = l @ CHR 0x0A # join_lines ls"

definition sql_text :: "statement \<Rightarrow> bytes" where
  "sql_text s = join_lines (sql_lines s)"

section \<open>Meaning\<close>

definition update_rows :: "('r \<Rightarrow> bool) \<Rightarrow> ('r \<Rightarrow> 'r) \<Rightarrow> 'r list \<Rightarrow> 'r list" where
  "update_rows P f rs = map (\<lambda>r. if P r then f r else r) rs"

text \<open>The row of a district, of an order and of the lines of an order.\<close>

definition in_district :: "int \<Rightarrow> int \<Rightarrow> district_r \<Rightarrow> bool" where
  "in_district w d r \<longleftrightarrow> D_W_ID r = w \<and> D_ID r = d"

definition is_customer :: "int \<Rightarrow> int \<Rightarrow> int \<Rightarrow> customer_r \<Rightarrow> bool" where
  "is_customer w d c r \<longleftrightarrow> C_W_ID r = w \<and> C_D_ID r = d \<and> C_ID r = c"

definition is_order :: "int \<Rightarrow> int \<Rightarrow> int \<Rightarrow> orders_r \<Rightarrow> bool" where
  "is_order w d o' r \<longleftrightarrow> O_W_ID r = w \<and> O_D_ID r = d \<and> O_ID r = o'"

definition is_line_of :: "int \<Rightarrow> int \<Rightarrow> int \<Rightarrow> order_line_r \<Rightarrow> bool" where
  "is_line_of w d o' r \<longleftrightarrow> OL_W_ID r = w \<and> OL_D_ID r = d \<and> OL_O_ID r = o'"

definition is_new_order :: "int \<Rightarrow> int \<Rightarrow> int \<Rightarrow> new_order_r \<Rightarrow> bool" where
  "is_new_order w d o' r \<longleftrightarrow> NO_W_ID r = w \<and> NO_D_ID r = d \<and> NO_O_ID r = o'"

definition is_stock :: "int \<Rightarrow> int \<Rightarrow> stock_r \<Rightarrow> bool" where
  "is_stock w i r \<longleftrightarrow> S_W_ID r = w \<and> S_I_ID r = i"

text \<open>\<open>SUM\<close> of no rows is NULL.\<close>

definition sum_cell :: "int list \<Rightarrow> cell" where
  "sum_cell xs = (if xs = [] then Null else Decimal (sum_list xs))"

definition s_dist :: "bytes list" where
  "s_dist = [''s_dist_01'', ''s_dist_02'', ''s_dist_03'', ''s_dist_04'', ''s_dist_05'',
     ''s_dist_06'', ''s_dist_07'', ''s_dist_08'', ''s_dist_09'', ''s_dist_10'']"

text \<open>The column of the table stock with this name.\<close>

definition dist_column :: "bytes \<Rightarrow> stock_r \<Rightarrow> bytes option option" where
  "dist_column col r = (case List.find (\<lambda>(n, _). n = col) (zip s_dist (S_DIST r)) of
     None \<Rightarrow> None | Some (_, v) \<Rightarrow> Some v)"

definition warehouses_with :: "int \<Rightarrow> tables \<Rightarrow> warehouse_r list" where
  "warehouses_with w t = filter (\<lambda>r. W_ID r = w) (warehouse_t t)"

definition customers_named :: "int \<Rightarrow> int \<Rightarrow> bytes \<Rightarrow> tables \<Rightarrow> customer_r list" where
  "customers_named w d nm t = sort_key C_FIRST
     (filter (\<lambda>r. C_W_ID r = w \<and> C_D_ID r = d \<and> C_LAST r = Some nm) (customer_t t))"

definition customers_with :: "int \<Rightarrow> int \<Rightarrow> int \<Rightarrow> tables \<Rightarrow> customer_r list" where
  "customers_with w d c t = filter (is_customer w d c) (customer_t t)"

definition low_stock_count :: "int \<Rightarrow> int \<Rightarrow> int \<Rightarrow> int \<Rightarrow> int \<Rightarrow> tables \<Rightarrow> nat" where
  "low_stock_count d w threshold low high t = length
     [(). ol \<leftarrow> order_line_t t, s \<leftarrow> stock_t t, r \<leftarrow> district_t t,
       D_ID r = d \<and> D_W_ID r = w \<and> D_ID r = OL_D_ID ol \<and> D_W_ID r = OL_W_ID ol \<and> OL_I_ID ol = S_I_ID s \<and>
       OL_W_ID ol = S_W_ID s \<and> S_QUANTITY s < threshold \<and> low \<le> OL_O_ID ol \<and> OL_O_ID ol \<le> high]"

fun run_sql :: "bytes \<Rightarrow> statement \<Rightarrow> tables \<Rightarrow> (cell list list \<times> tables) option" where
  "run_sql now (Delivery_1 w d) t =
     Some (map (\<lambda>r. [Whole (NO_O_ID r)]) (take 1 (sort_key NO_O_ID
       (filter (\<lambda>r. NO_W_ID r = w \<and> NO_D_ID r = d) (new_order_t t)))), t)"
| "run_sql now (Delivery_2 o' w d) t = do {
     k \<leftarrow> sql_integer o';
     Some ([], t\<lparr>new_order_t := filter (\<lambda>r. \<not> is_new_order w d k r) (new_order_t t)\<rparr>) }"
| "run_sql now (Delivery_3 o' w d) t = do {
     k \<leftarrow> sql_integer o';
     Some (map (\<lambda>r. [Whole (O_C_ID r)]) (filter (is_order w d k) (orders_t t)), t) }"
| "run_sql now (Delivery_4 carrier o' w d) t = do {
     k \<leftarrow> sql_integer o';
     Some ([], t\<lparr>orders_t := update_rows (is_order w d k) (O_CARRIER_ID_update (\<lambda>_. Some carrier)) (orders_t t)\<rparr>) }"
| "run_sql now (Delivery_5 o' w d) t = do {
     k \<leftarrow> sql_integer o';
     Some ([], t\<lparr>order_line_t :=
       update_rows (is_line_of w d k) (OL_DELIVERY_D_update (\<lambda>_. Some now)) (order_line_t t)\<rparr>) }"
| "run_sql now (Delivery_6 o' w d) t = do {
     k \<leftarrow> sql_integer o';
     Some ([[sum_cell (map OL_AMOUNT (filter (is_line_of w d k) (order_line_t t)))]], t) }"
| "run_sql now (Delivery_7 amount c w d) t = do {
     x \<leftarrow> sql_number amount;
     k \<leftarrow> sql_integer c;
     Some ([], t\<lparr>customer_t := update_rows (is_customer w d k)
       (\<lambda>r. r\<lparr>C_DELIVERY_CNT := C_DELIVERY_CNT r + 1, C_BALANCE := C_BALANCE r + x\<rparr>) (customer_t t)\<rparr>) }"
| "run_sql now (New_order_1 w) t = Some (map (\<lambda>r. [Decimal (W_TAX r)]) (warehouses_with w t), t)"
| "run_sql now (New_order_2 w d) t =
     Some (map (\<lambda>r. [Decimal (D_TAX r), Whole (D_NEXT_O_ID r)]) (filter (in_district w d) (district_t t)), t)"
| "run_sql now (New_order_3 w d) t =
     Some ([], t\<lparr>district_t := update_rows (in_district w d)
       (\<lambda>r. r\<lparr>D_NEXT_O_ID := D_NEXT_O_ID r + 1\<rparr>) (district_t t)\<rparr>)"
| "run_sql now (New_order_4 w d c) t =
     Some (map (\<lambda>r. [Decimal (C_DISCOUNT r), text_cell (C_LAST r), text_cell (C_CREDIT r)])
       (customers_with w d c t), t)"
| "run_sql now (New_order_5 o' w d) t = do {
     k \<leftarrow> sql_integer o';
     if list_ex (is_new_order w d k) (new_order_t t) then None
     else Some ([], t\<lparr>new_order_t := new_order_t t @ [\<lparr>NO_O_ID = k, NO_D_ID = d, NO_W_ID = w\<rparr>]\<rparr>) }"
| "run_sql now (New_order_6 o' d w c cnt all_local) t = do {
     k \<leftarrow> sql_integer o';
     if list_ex (is_order w d k) (orders_t t) then None
     else Some ([], t\<lparr>orders_t := orders_t t @ [\<lparr>O_ID = k, O_D_ID = d, O_W_ID = w, O_C_ID = c, O_ENTRY_D = now,
       O_CARRIER_ID = None, O_OL_CNT = cnt, O_ALL_LOCAL = all_local\<rparr>]\<rparr>) }"
| "run_sql now (New_order_7 i) t =
     Some (map (\<lambda>r. [Decimal (I_PRICE r), text_cell (I_NAME r), text_cell (I_DATA r)])
       (filter (\<lambda>r. I_ID r = i) (item_t t)), t)"
| "run_sql now (New_order_8 col i w) t = do {
     rows \<leftarrow> those (map (\<lambda>r. map_option (\<lambda>v. [Decimal (10 ^ 6 * S_QUANTITY r), text_cell v, text_cell (S_DATA r)])
       (dist_column col r)) (filter (is_stock w i) (stock_t t)));
     Some (rows, t) }"
| "run_sql now (New_order_9 q i w) t =
     Some ([], t\<lparr>stock_t := update_rows (is_stock w i) (\<lambda>r. r\<lparr>S_QUANTITY := S_QUANTITY r - q\<rparr>) (stock_t t)\<rparr>)"
| "run_sql now (New_order_10 o' d w n i supply q amount info) t = do {
     k \<leftarrow> sql_integer o';
     x \<leftarrow> sql_number (fmt_f 6 amount);
     s \<leftarrow> sql_string info;
     if list_ex (\<lambda>r. is_line_of w d k r \<and> OL_NUMBER r = n) (order_line_t t) then None
     else Some ([], t\<lparr>order_line_t := order_line_t t @ [\<lparr>OL_O_ID = k, OL_D_ID = d, OL_W_ID = w, OL_NUMBER = n,
       OL_I_ID = i, OL_SUPPLY_W_ID = supply, OL_DELIVERY_D = Some now, OL_QUANTITY = q, OL_AMOUNT = x,
       OL_DIST_INFO = Some s\<rparr>]\<rparr>) }"
| "run_sql now (Order_status_1 w d nm) t = do {
     s \<leftarrow> sql_string nm;
     Some (map (\<lambda>r. [Whole (C_ID r)]) (customers_named w d s t), t) }"
| "run_sql now (Order_status_2 w d c) t =
     Some (map (\<lambda>r. [text_cell (C_FIRST r), text_cell (C_MIDDLE r), text_cell (C_LAST r), Decimal (C_BALANCE r)])
       (customers_with w d c t), t)"
| "run_sql now (Order_status_3 w d c) t =
     Some (map (\<lambda>r. [Whole (O_ID r), int_cell (O_CARRIER_ID r), Text (O_ENTRY_D r), Whole (O_OL_CNT r)])
       (rev (sort_key O_ID (filter (\<lambda>r. O_W_ID r = w \<and> O_D_ID r = d \<and> O_C_ID r = c) (orders_t t)))), t)"
| "run_sql now (Order_status_4 w d o') t = do {
     k \<leftarrow> sql_integer o';
     Some (map (\<lambda>r. [Whole (OL_I_ID r), Whole (OL_SUPPLY_W_ID r), Decimal (10 ^ 6 * OL_QUANTITY r), Decimal (OL_AMOUNT r),
       text_cell (OL_DELIVERY_D r)]) (filter (is_line_of w d k) (order_line_t t)), t) }"
| "run_sql now (Payment_1 w) t = Some (map (\<lambda>r. address_cells (W_ADDRESS r)) (warehouses_with w t), t)"
| "run_sql now (Payment_2 h w) t = do {
     x \<leftarrow> sql_number (fmt_f 6 h);
     Some ([], t\<lparr>warehouse_t := update_rows (\<lambda>r. W_ID r = w) (\<lambda>r. r\<lparr>W_YTD := W_YTD r + x\<rparr>) (warehouse_t t)\<rparr>) }"
| "run_sql now (Payment_3 d w) t =
     Some (map (\<lambda>r. address_cells (D_ADDRESS r)) (filter (in_district w d) (district_t t)), t)"
| "run_sql now (Payment_4 h d w) t = do {
     x \<leftarrow> sql_number (fmt_f 6 h);
     Some ([], t\<lparr>district_t := update_rows (in_district w d) (\<lambda>r. r\<lparr>D_YTD := D_YTD r + x\<rparr>) (district_t t)\<rparr>) }"
| "run_sql now (Payment_5 w d nm) t = do {
     s \<leftarrow> sql_string nm;
     Some (map (\<lambda>r. [Whole (C_ID r)]) (customers_named w d s t), t) }"
| "run_sql now (Payment_6 w d c) t =
     Some (map (\<lambda>r. map text_cell [C_FIRST r, C_MIDDLE r, C_LAST r, C_STREET_1 r, C_STREET_2 r, C_CITY r,
         C_STATE r, C_ZIP r, C_PHONE r, C_SINCE r, C_CREDIT r]
       @ [Decimal (C_CREDIT_LIM r), Decimal (C_DISCOUNT r), Decimal (C_BALANCE r), text_cell (C_DATA r),
          Decimal (C_YTD_PAYMENT r)]) (customers_with w d c t), t)"
| "run_sql now (Payment_7_gc h c w d) t = do {
     x \<leftarrow> sql_number (fmt_f 6 h);
     Some ([], t\<lparr>customer_t := update_rows (is_customer w d c)
       (\<lambda>r. r\<lparr>C_BALANCE := C_BALANCE r - x, C_YTD_PAYMENT := C_YTD_PAYMENT r + 10 ^ 6\<rparr>) (customer_t t)\<rparr>) }"
| "run_sql now (Payment_7_bc h s c w d) t = do {
     x \<leftarrow> sql_number (fmt_f 6 h);
     u \<leftarrow> sql_string s;
     Some ([], t\<lparr>customer_t := update_rows (is_customer w d c)
       (\<lambda>r. r\<lparr>C_BALANCE := C_BALANCE r - x, C_YTD_PAYMENT := C_YTD_PAYMENT r + 10 ^ 6,
         C_DATA := map_option (\<lambda>v. take_chars 500 (u @ v)) (C_DATA r)\<rparr>) (customer_t t)\<rparr>) }"
| "run_sql now (Payment_8 c c_d c_w d w h w_name d_name) t = do {
     x \<leftarrow> sql_number (fmt_f 6 h);
     s \<leftarrow> sql_string (w_name @ ''    '' @ d_name);
     Some ([], t\<lparr>history_t := history_t t @ [\<lparr>H_C_ID = c, H_C_D_ID = c_d, H_C_W_ID = c_w, H_D_ID = d, H_W_ID = w,
       H_DATE = now, H_AMOUNT = x, H_DATA = s\<rparr>]\<rparr>) }"
| "run_sql now (Stock_level_1 w d) t =
     Some (map (\<lambda>r. [Whole (D_NEXT_O_ID r)]) (filter (in_district w d) (district_t t)), t)"
| "run_sql now (Stock_level_2 d w threshold low high) t =
     Some ([[Whole (int (low_stock_count d w threshold low high t))]], t)"
| "run_sql now Integrity_1 t = Some ([[Whole (int (length (warehouse_t t)))]], t)"

end
