(* ===== verification/Sqlite_Db.thy ===== *)
theory Sqlite_Db
  imports Sql_Tables
begin

text \<open>
  The SQLite backend (\<open>src/src/sqlite/dbc_common.c\<close>): transactions and cursors on a connection. The
  library is represented by what its documentation says of the calls that are used, on a connection
  with the committed tables, those of the open transaction, and the prepared statements. Any of its
  calls may fail, which the environment decides; a statement that fails changes nothing, and a text
  that the library does not accept is refused with the first step. A transaction works with one
  \<open>sql_result_t\<close> at a time, which is part of the state.
\<close>

section \<open>The library\<close>

text \<open>
  The environment: which calls fail, the time stamp of each call, the text of a value that is not
  NULL, what \<open>strndup\<close> makes of the null pointer that stands for NULL, whether \<open>realloc\<close> can provide a
  number of entries, the readings of the clock, and which sleeps are not interrupted. What depends on
  time is indexed by the calls so far.
\<close>

record sql_env =
  fails :: "nat \<Rightarrow> bool"
  time_stamp :: "nat \<Rightarrow> bytes"
  column_text :: "cell \<Rightarrow> bytes"
  null_copy :: "bytes option"
  realloc_ok :: "nat \<Rightarrow> bool"
  clock :: "nat \<Rightarrow> int"
  sleeps :: "nat \<Rightarrow> bool"

text \<open>A prepared statement; at the end it remembers whether its last step failed.\<close>

datatype prepared = Ready statement | Row "cell list" "cell list list" | Ended bool

datatype step_result = SQLITE_ROW | SQLITE_DONE | SQLITE_ERROR

record sqlite_conn =
  committed :: tables
  pending :: "tables option"
  stmts :: "nat \<Rightarrow> prepared option"
  next_stmt :: nat
  calls :: nat
  in_transaction :: bool
  query_running :: bool
  result_error :: bool
  prefetched :: bool
  num_fields :: nat
  p_stmt :: nat

definition view :: "sqlite_conn \<Rightarrow> tables" where
  "view c = (case pending c of None \<Rightarrow> committed c | Some t \<Rightarrow> t)"

definition set_view :: "tables \<Rightarrow> sqlite_conn \<Rightarrow> sqlite_conn" where
  "set_view t c = (case pending c of None \<Rightarrow> c\<lparr>committed := t\<rparr> | Some _ \<Rightarrow> c\<lparr>pending := Some t\<rparr>)"

definition change :: "('s \<Rightarrow> 's) \<Rightarrow> ('s, unit) state" where
  "change f = State (\<lambda>c. ((), f c))"

definition next_call :: "sql_env \<Rightarrow> (sqlite_conn, bool) state" where
  "next_call e = State (\<lambda>c. (\<not> fails e (calls c), c\<lparr>calls := calls c + 1\<rparr>))"

definition exec_begin :: "sql_env \<Rightarrow> (sqlite_conn, bool) state" where
  "exec_begin e = do {
     ok \<leftarrow> next_call e;
     c \<leftarrow> State_Monad.get;
     if ok \<and> pending c = None
     then do { change (pending_update (\<lambda>_. Some (committed c))); State_Monad.return True }
     else State_Monad.return False
   }"

definition exec_commit :: "sql_env \<Rightarrow> (sqlite_conn, bool) state" where
  "exec_commit e = do {
     ok \<leftarrow> next_call e;
     c \<leftarrow> State_Monad.get;
     case pending c of
       None \<Rightarrow> State_Monad.return False
     | Some t \<Rightarrow> if ok then do { change (\<lambda>c. c\<lparr>committed := t, pending := None\<rparr>); State_Monad.return True }
                 else State_Monad.return False
   }"

definition exec_rollback :: "sql_env \<Rightarrow> (sqlite_conn, bool) state" where
  "exec_rollback e = do {
     ok \<leftarrow> next_call e;
     c \<leftarrow> State_Monad.get;
     if ok \<and> pending c \<noteq> None
     then do { change (pending_update (\<lambda>_. None)); State_Monad.return True }
     else State_Monad.return False
   }"

definition sqlite3_prepare :: "sql_env \<Rightarrow> statement \<Rightarrow> (sqlite_conn, nat option) state" where
  "sqlite3_prepare e s = do {
     ok \<leftarrow> next_call e;
     c \<leftarrow> State_Monad.get;
     if ok then do {
       change (\<lambda>c. c\<lparr>stmts := (stmts c)(next_stmt c \<mapsto> Ready s), next_stmt := next_stmt c + 1\<rparr>);
       State_Monad.return (Some (next_stmt c))
     } else State_Monad.return None
   }"

text \<open>The row that comes next, or the end.\<close>

definition show_rows :: "nat \<Rightarrow> cell list list \<Rightarrow> (sqlite_conn, step_result) state" where
  "show_rows h rows = (case rows of
     [] \<Rightarrow> do { change (\<lambda>c. c\<lparr>stmts := (stmts c)(h \<mapsto> Ended False)\<rparr>); State_Monad.return SQLITE_DONE }
   | r # rs \<Rightarrow> do { change (\<lambda>c. c\<lparr>stmts := (stmts c)(h \<mapsto> Row r rs)\<rparr>); State_Monad.return SQLITE_ROW })"

definition end_failed :: "nat \<Rightarrow> (sqlite_conn, step_result) state" where
  "end_failed h = do {
     change (\<lambda>c. c\<lparr>stmts := (stmts c)(h \<mapsto> Ended True)\<rparr>);
     State_Monad.return SQLITE_ERROR
   }"

definition sqlite3_step :: "sql_env \<Rightarrow> nat \<Rightarrow> (sqlite_conn, step_result) state" where
  "sqlite3_step e h = do {
     c \<leftarrow> State_Monad.get;
     ok \<leftarrow> next_call e;
     if \<not> ok then end_failed h
     else case stmts c h of
         Some (Ready s) \<Rightarrow> (case run_sql (time_stamp e (calls c)) s (view c) of
             None \<Rightarrow> end_failed h
           | Some (rows, t) \<Rightarrow> do { change (set_view t); show_rows h rows })
       | Some (Row r rs) \<Rightarrow> show_rows h rs
       | _ \<Rightarrow> end_failed h
   }"

definition sqlite3_finalize :: "nat \<Rightarrow> (sqlite_conn, bool) state" where
  "sqlite3_finalize h = do {
     c \<leftarrow> State_Monad.get;
     change (\<lambda>c. c\<lparr>stmts := (stmts c)(h := None)\<rparr>);
     State_Monad.return (stmts c h \<noteq> Some (Ended True))
   }"

text \<open>
  Closing fails while statements are prepared, and the connection stays; otherwise its transaction is
  rolled back. Opening gives a new connection to the committed tables.
\<close>

definition sqlite3_close :: "(sqlite_conn, bool) state" where
  "sqlite3_close = do {
     c \<leftarrow> State_Monad.get;
     if list_all (\<lambda>h. stmts c h = None) [0..<next_stmt c]
     then do { change (pending_update (\<lambda>_. None)); State_Monad.return True }
     else State_Monad.return False
   }"

definition sqlite3_open :: "sql_env \<Rightarrow> (sqlite_conn, bool) state" where
  "sqlite3_open e = do {
     ok \<leftarrow> next_call e;
     change (\<lambda>c. c\<lparr>pending := None, stmts := Map.empty\<rparr>);
     State_Monad.return ok
   }"

text \<open>The number of columns of a result.\<close>

definition sql_columns :: "statement \<Rightarrow> nat" where
  "sql_columns s = (case s of
     Delivery_1 _ _ \<Rightarrow> 1 | Delivery_3 _ _ _ \<Rightarrow> 1 | Delivery_6 _ _ _ \<Rightarrow> 1
   | New_order_1 _ \<Rightarrow> 1 | New_order_2 _ _ \<Rightarrow> 2 | New_order_4 _ _ _ \<Rightarrow> 3 | New_order_7 _ \<Rightarrow> 3 | New_order_8 _ _ _ \<Rightarrow> 3
   | Order_status_1 _ _ _ \<Rightarrow> 1 | Order_status_2 _ _ _ \<Rightarrow> 4 | Order_status_3 _ _ _ \<Rightarrow> 4 | Order_status_4 _ _ _ \<Rightarrow> 5
   | Payment_1 _ \<Rightarrow> 6 | Payment_3 _ _ \<Rightarrow> 6 | Payment_5 _ _ _ \<Rightarrow> 1 | Payment_6 _ _ _ \<Rightarrow> 16
   | Stock_level_1 _ _ \<Rightarrow> 1 | Stock_level_2 _ _ _ _ _ \<Rightarrow> 1 | Integrity_1 \<Rightarrow> 1
   | _ \<Rightarrow> 0)"

section \<open>The backend\<close>

definition commit_transaction_sqlite :: "sql_env \<Rightarrow> (sqlite_conn, int) state" where
  "commit_transaction_sqlite e = do {
     c \<leftarrow> State_Monad.get;
     if in_transaction c then do {
       ok \<leftarrow> exec_commit e;
       if \<not> ok then State_Monad.return ERROR
       else do { change (in_transaction_update (\<lambda>_. False)); State_Monad.return OK }
     } else State_Monad.return OK
   }"

definition connect_to_db_sqlite :: "sql_env \<Rightarrow> (sqlite_conn, int) state" where
  "connect_to_db_sqlite e = do {
     ok \<leftarrow> sqlite3_open e;
     change (in_transaction_update (\<lambda>_. False));
     if \<not> ok then do { sqlite3_close; State_Monad.return ERROR } else State_Monad.return OK
   }"

definition disconnect_from_db_sqlite :: "(sqlite_conn, int) state" where
  "disconnect_from_db_sqlite = do { sqlite3_close; State_Monad.return OK }"

definition rollback_transaction_sqlite :: "sql_env \<Rightarrow> (sqlite_conn, int) state" where
  "rollback_transaction_sqlite e = do {
     c \<leftarrow> State_Monad.get;
     if in_transaction c then do {
       ok \<leftarrow> exec_rollback e;
       if \<not> ok then State_Monad.return ERROR
       else do { change (in_transaction_update (\<lambda>_. False)); State_Monad.return STATUS_ROLLBACK }
     } else State_Monad.return STATUS_ROLLBACK
   }"

definition sql_fetchrow_sqlite :: "sql_env \<Rightarrow> (sqlite_conn, bool) state" where
  "sql_fetchrow_sqlite e = do {
     c \<leftarrow> State_Monad.get;
     if \<not> query_running c then State_Monad.return False
     else if prefetched c then do { change (prefetched_update (\<lambda>_. False)); State_Monad.return True }
     else do {
       rc \<leftarrow> sqlite3_step e (p_stmt c);
       case rc of
         SQLITE_ROW \<Rightarrow> State_Monad.return True
       | SQLITE_DONE \<Rightarrow> do {
           ok \<leftarrow> sqlite3_finalize (p_stmt c);
           change (\<lambda>c. c\<lparr>result_error := result_error c \<or> \<not> ok, query_running := False\<rparr>);
           State_Monad.return False }
       | SQLITE_ERROR \<Rightarrow> do {
           change (result_error_update (\<lambda>_. True));
           sqlite3_finalize (p_stmt c);
           change (query_running_update (\<lambda>_. False));
           State_Monad.return False }
     }
   }"

definition sql_execute_sqlite :: "sql_env \<Rightarrow> statement \<Rightarrow> (sqlite_conn, bool) state" where
  "sql_execute_sqlite e s = do {
     change (\<lambda>c. c\<lparr>result_error := False, query_running := False, prefetched := False\<rparr>);
     c \<leftarrow> State_Monad.get;
     ok \<leftarrow> (if in_transaction c then State_Monad.return True
        else do {
          begun \<leftarrow> exec_begin e;
          (if begun then change (in_transaction_update (\<lambda>_. True)) else State_Monad.return ());
          State_Monad.return begun
        });
     if \<not> ok then State_Monad.return False
     else do {
       h \<leftarrow> sqlite3_prepare e s;
       case h of
         None \<Rightarrow> State_Monad.return False
       | Some h \<Rightarrow> do {
           change (\<lambda>c. c\<lparr>p_stmt := h, num_fields := sql_columns s, query_running := True\<rparr>);
           sql_fetchrow_sqlite e;
           c \<leftarrow> State_Monad.get;
           if result_error c then State_Monad.return False
           else do { change (prefetched_update (\<lambda>_. True)); State_Monad.return True } }
     }
   }"

definition sql_close_cursor_sqlite :: "(sqlite_conn, bool) state" where
  "sql_close_cursor_sqlite = do {
     c \<leftarrow> State_Monad.get;
     if query_running c then do {
       change (query_running_update (\<lambda>_. False));
       ok \<leftarrow> sqlite3_finalize (p_stmt c);
       State_Monad.return (ok \<and> \<not> result_error c)
     } else State_Monad.return True
   }"

text \<open>A copy of a value of the current row, or the null pointer.\<close>

definition copy_cell :: "sql_env \<Rightarrow> cell \<Rightarrow> bytes option" where
  "copy_cell e x = (if x = Null then null_copy e else Some (column_text e x))"

definition sql_getvalue_sqlite :: "sql_env \<Rightarrow> nat \<Rightarrow> (sqlite_conn, bytes option) state" where
  "sql_getvalue_sqlite e field = do {
     c \<leftarrow> State_Monad.get;
     State_Monad.return (if query_running c \<and> field < num_fields c
       then (case stmts c (p_stmt c) of Some (Row r _) \<Rightarrow> copy_cell e (r ! field) | _ \<Rightarrow> null_copy e)
       else None)
   }"

fun getvalues :: "sql_env \<Rightarrow> nat list \<Rightarrow> (sqlite_conn, bytes option list) state" where
  "getvalues e [] = State_Monad.return []"
| "getvalues e (i # is) = do {
     v \<leftarrow> sql_getvalue_sqlite e i;
     vs \<leftarrow> getvalues e is;
     State_Monad.return (v # vs)
   }"

text \<open>
  The way in which the transactions read one row: execute, test that there is a row, fetch it, copy
  its first \<open>k\<close> columns, close. None is the branch that reports an error.
\<close>

definition select_row :: "sql_env \<Rightarrow> statement \<Rightarrow> nat \<Rightarrow> (sqlite_conn, bytes option list option) state" where
  "select_row e s k = do {
     ok \<leftarrow> sql_execute_sqlite e s;
     c \<leftarrow> State_Monad.get;
     if ok \<and> query_running c then do {
       sql_fetchrow_sqlite e;
       vs \<leftarrow> getvalues e [0..<k];
       sql_close_cursor_sqlite;
       State_Monad.return (Some vs)
     } else State_Monad.return None
   }"

section \<open>Reasoning about a transaction\<close>

text \<open>
  \<open>txn_base c0 t c\<close>: the connection \<open>c\<close> is at work since \<open>c0\<close>, sees the tables \<open>t\<close> and has committed
  nothing; \<open>txn_view\<close>: and it has left no statement prepared.
\<close>

definition txn_base :: "sqlite_conn \<Rightarrow> tables \<Rightarrow> sqlite_conn \<Rightarrow> bool" where
  "txn_base c0 t c \<longleftrightarrow> committed c = committed c0 \<and> view c = t \<and>
     (in_transaction c \<longleftrightarrow> pending c \<noteq> None) \<and> (\<forall>h. next_stmt c \<le> h \<longrightarrow> stmts c0 h = None)"

definition txn_view :: "sqlite_conn \<Rightarrow> tables \<Rightarrow> sqlite_conn \<Rightarrow> bool" where
  "txn_view c0 t c \<longleftrightarrow> txn_base c0 t c \<and> stmts c = stmts c0"

definition works :: "sqlite_conn \<Rightarrow> tables \<Rightarrow> (sqlite_conn, 'a) state \<Rightarrow> ('a \<Rightarrow> tables \<Rightarrow> bool) \<Rightarrow> bool" where
  "works c0 t m Q \<longleftrightarrow> (\<forall>c. txn_view c0 t c \<longrightarrow>
     (case run_state m c of (r, c1) \<Rightarrow> \<exists>t1. txn_view c0 t1 c1 \<and> Q r t1))"

lemma worksI: "(\<And>c r c1. txn_view c0 t c \<Longrightarrow> run_state m c = (r, c1) \<Longrightarrow> \<exists>t1. txn_view c0 t1 c1 \<and> Q r t1) \<Longrightarrow> works c0 t m Q"
  by (simp add: works_def split: prod.splits)

lemma worksD: "works c0 t m Q \<Longrightarrow> txn_view c0 t c \<Longrightarrow> run_state m c = (r, c1) \<Longrightarrow> \<exists>t1. txn_view c0 t1 c1 \<and> Q r t1"
  by (fastforce simp: works_def)

lemma works_return: "Q x t \<Longrightarrow> works c0 t (State_Monad.return x) Q"
  by (auto simp: works_def State_Monad.return_def)

lemma works_bind:
  assumes "works c0 t m R" "\<And>x t1. R x t1 \<Longrightarrow> works c0 t1 (f x) Q"
  shows "works c0 t (m \<bind> f) Q"
proof (rule worksI)
  fix c r c2
  assume c: "txn_view c0 t c" and run: "run_state (m \<bind> f) c = (r, c2)"
  obtain x c1 where m: "run_state m c = (x, c1)" by (cases "run_state m c") auto
  then obtain t1 where "txn_view c0 t1 c1" "R x t1" using worksD [OF assms(1) c] by blast
  moreover have "run_state (f x) c1 = (r, c2)" using run m by (simp add: State_Monad.bind_def)
  ultimately show "\<exists>t2. txn_view c0 t2 c2 \<and> Q r t2" using worksD [OF assms(2)] by blast
qed

lemma works_weaken: "works c0 t m R \<Longrightarrow> (\<And>x t1. R x t1 \<Longrightarrow> Q x t1) \<Longrightarrow> works c0 t m Q"
  by (fastforce simp: works_def)

lemmas run_bind = State_Monad.bind_def

lemma run_return [simp]: "run_state (State_Monad.return x) c = (x, c)"
  by (simp add: State_Monad.return_def)

lemma run_get [simp]: "run_state State_Monad.get c = (c, c)"
  by (simp add: State_Monad.get_def)

lemma run_change [simp]: "run_state (change f) c = ((), f c)"
  by (simp add: change_def)

lemma run_next_call [simp]: "run_state (next_call e) c = (\<not> fails e (calls c), c\<lparr>calls := calls c + 1\<rparr>)"
  by (simp add: next_call_def)

lemma view_simps [simp]:
  "view (c\<lparr>stmts := m\<rparr>) = view c" "view (c\<lparr>next_stmt := n\<rparr>) = view c" "view (c\<lparr>calls := n\<rparr>) = view c"
  "view (c\<lparr>query_running := b\<rparr>) = view c" "view (c\<lparr>result_error := b\<rparr>) = view c"
  "view (c\<lparr>prefetched := b\<rparr>) = view c" "view (c\<lparr>num_fields := n\<rparr>) = view c" "view (c\<lparr>p_stmt := n\<rparr>) = view c"
  "view (c\<lparr>in_transaction := b\<rparr>) = view c"
  by (simp_all add: view_def split: option.split)

text \<open>The cursor of a transaction: prepared but not executed, at a row, or closed.\<close>

definition holds :: "sqlite_conn \<Rightarrow> tables \<Rightarrow> nat \<Rightarrow> prepared \<Rightarrow> sqlite_conn \<Rightarrow> bool" where
  "holds c0 t k p c \<longleftrightarrow> txn_base c0 t c \<and> stmts c = (stmts c0)(p_stmt c \<mapsto> p) \<and> stmts c0 (p_stmt c) = None \<and>
     num_fields c = k \<and> query_running c \<and> \<not> result_error c \<and> in_transaction c"

definition at_end :: "sqlite_conn \<Rightarrow> tables \<Rightarrow> sqlite_conn \<Rightarrow> bool" where
  "at_end c0 t c \<longleftrightarrow> txn_view c0 t c \<and> \<not> query_running c"

lemmas cursor_defs = holds_def at_end_def txn_view_def txn_base_def

lemma fetch_failed:
  assumes "holds c0 t k p c" "\<not> prefetched c" "run_state (sqlite3_step e (p_stmt c)) c = run_state (end_failed (p_stmt c)) (c\<lparr>calls := n\<rparr>)"
  obtains c1 where "run_state (sql_fetchrow_sqlite e) c = (False, c1)" "at_end c0 t c1" "result_error c1"
  using assms
  by (auto simp: sql_fetchrow_sqlite_def run_bind cursor_defs end_failed_def sqlite3_finalize_def fun_upd_idem)

lemma fetch_shown:
  assumes "holds c0 t k p c" "\<not> prefetched c"
    "run_state (sqlite3_step e (p_stmt c)) c = run_state (show_rows (p_stmt c) rows) (set_view t1 (c\<lparr>calls := n\<rparr>))"
  obtains (row) r rs c1 where "rows = r # rs" "run_state (sql_fetchrow_sqlite e) c = (True, c1)"
      "holds c0 t1 k (Row r rs) c1" "\<not> prefetched c1"
  | (none) c1 where "rows = []" "run_state (sql_fetchrow_sqlite e) c = (False, c1)" "at_end c0 t1 c1" "\<not> result_error c1"
  using assms
  by (cases rows) (auto simp: sql_fetchrow_sqlite_def run_bind cursor_defs show_rows_def sqlite3_finalize_def
      fun_upd_idem set_view_def view_def)

lemma fetch_ready:
  assumes "holds c0 t k (Ready s) c" "\<not> prefetched c"
  obtains (row) ts r rs t1 c1 where "run_sql ts s t = Some (r # rs, t1)"
      "run_state (sql_fetchrow_sqlite e) c = (True, c1)" "holds c0 t1 k (Row r rs) c1" "\<not> prefetched c1"
  | (none) ts t1 c1 where "run_sql ts s t = Some ([], t1)"
      "run_state (sql_fetchrow_sqlite e) c = (False, c1)" "at_end c0 t1 c1" "\<not> result_error c1"
  | (failed) c1 where "run_state (sql_fetchrow_sqlite e) c = (False, c1)" "at_end c0 t c1" "result_error c1"
proof -
  have c: "stmts c (p_stmt c) = Some (Ready s)" "view c = t" using assms(1) by (auto simp: cursor_defs)
  show thesis
  proof (cases "fails e (calls c) \<or> run_sql (time_stamp e (calls c)) s t = None")
    case True
    then have "run_state (sqlite3_step e (p_stmt c)) c = run_state (end_failed (p_stmt c)) (c\<lparr>calls := calls c + 1\<rparr>)"
      using c by (auto simp: sqlite3_step_def run_bind)
    from fetch_failed [OF assms this] show ?thesis using failed by blast
  next
    case False
    then obtain rows t1 where run: "run_sql (time_stamp e (calls c)) s t = Some (rows, t1)" "\<not> fails e (calls c)" by auto
    then have "run_state (sqlite3_step e (p_stmt c)) c =
        run_state (show_rows (p_stmt c) rows) (set_view t1 (c\<lparr>calls := calls c + 1\<rparr>))"
      using c by (auto simp: sqlite3_step_def run_bind)
    then show ?thesis using fetch_shown [OF assms] row none run(1) by metis
  qed
qed

lemma fetch_next:
  assumes "holds c0 t k (Row r rs) c" "\<not> prefetched c"
  obtains (row) r1 rs1 c1 where "rs = r1 # rs1"
      "run_state (sql_fetchrow_sqlite e) c = (True, c1)" "holds c0 t k (Row r1 rs1) c1" "\<not> prefetched c1"
  | (ended) c1 where "run_state (sql_fetchrow_sqlite e) c = (False, c1)" "at_end c0 t c1" "rs = [] \<or> result_error c1"
proof -
  have c: "stmts c (p_stmt c) = Some (Row r rs)" "view c = t" "pending c = Some t" using assms(1) by (auto simp: cursor_defs view_def)
  show thesis
  proof (cases "fails e (calls c)")
    case True
    then have "run_state (sqlite3_step e (p_stmt c)) c = run_state (end_failed (p_stmt c)) (c\<lparr>calls := calls c + 1\<rparr>)"
      using c by (auto simp: sqlite3_step_def run_bind)
    from fetch_failed [OF assms this] show ?thesis using ended by blast
  next
    case False
    have "set_view t (c\<lparr>calls := calls c + 1\<rparr>) = c\<lparr>calls := calls c + 1\<rparr>" using c(3) by (simp add: set_view_def)
    then have "run_state (sqlite3_step e (p_stmt c)) c =
        run_state (show_rows (p_stmt c) rs) (set_view t (c\<lparr>calls := calls c + 1\<rparr>))"
      using c False by (simp add: sqlite3_step_def run_bind)
    then show ?thesis using fetch_shown [OF assms] row ended by metis
  qed
qed

text \<open>The part of \<open>sql_execute\<close> that begins a transaction where there is none.\<close>

definition ensure_begun :: "sql_env \<Rightarrow> (sqlite_conn, bool) state" where
  "ensure_begun e = do {
     c \<leftarrow> State_Monad.get;
     if in_transaction c then State_Monad.return True
     else do {
       begun \<leftarrow> exec_begin e;
       (if begun then change (in_transaction_update (\<lambda>_. True)) else State_Monad.return ());
       State_Monad.return begun
     }
   }"

lemma ensure_begun_cases:
  assumes "txn_view c0 t c" "\<not> query_running c" "\<not> result_error c" "\<not> prefetched c"
  obtains b c1 where "run_state (ensure_begun e) c = (b, c1)" "at_end c0 t c1" "\<not> result_error c1" "\<not> prefetched c1"
    "b \<Longrightarrow> in_transaction c1"
  using assms
  by (cases "in_transaction c"; cases "fails e (calls c)")
    (auto simp: ensure_begun_def exec_begin_def run_bind cursor_defs view_def)

text \<open>\<open>sql_execute\<close>: at the first row, at the end of a result without rows, or failed.\<close>

lemma execute_cases:
  assumes "txn_view c0 t c"
  obtains (row) ts r rs t1 c1 where "run_sql ts s t = Some (r # rs, t1)"
      "run_state (sql_execute_sqlite e s) c = (True, c1)" "holds c0 t1 (sql_columns s) (Row r rs) c1" "prefetched c1"
  | (none) ts t1 c1 where "run_sql ts s t = Some ([], t1)"
      "run_state (sql_execute_sqlite e s) c = (True, c1)" "at_end c0 t1 c1"
  | (failed) c1 where "run_state (sql_execute_sqlite e s) c = (False, c1)" "at_end c0 t c1"
proof -
  define ca where "ca = c\<lparr>result_error := False, query_running := False, prefetched := False\<rparr>"
  have "txn_view c0 t ca" "\<not> query_running ca" "\<not> result_error ca" "\<not> prefetched ca"
    using assms by (auto simp: ca_def cursor_defs)
  then obtain b cb where B: "run_state (ensure_begun e) ca = (b, cb)" "at_end c0 t cb" "\<not> result_error cb" "\<not> prefetched cb"
    "b \<Longrightarrow> in_transaction cb" using ensure_begun_cases by metis
  have run: "run_state (sql_execute_sqlite e s) c = (if \<not> b then (False, cb) else if fails e (calls cb) then (False, cb\<lparr>calls := calls cb + 1\<rparr>)
      else (let cd = cb\<lparr>calls := calls cb + 1, stmts := (stmts cb)(next_stmt cb \<mapsto> Ready s), next_stmt := next_stmt cb + 1,
             p_stmt := next_stmt cb, num_fields := sql_columns s, query_running := True\<rparr>
        in case run_state (sql_fetchrow_sqlite e) cd of (_, c1) \<Rightarrow>
          if result_error c1 then (False, c1) else (True, c1\<lparr>prefetched := True\<rparr>)))"
  proof -
    have "run_state (sql_execute_sqlite e s) c = run_state (ensure_begun e \<bind> (\<lambda>ok. if \<not> ok then State_Monad.return False
     else do {
       h \<leftarrow> sqlite3_prepare e s;
       case h of
         None \<Rightarrow> State_Monad.return False
       | Some h \<Rightarrow> do {
           change (\<lambda>c. c\<lparr>p_stmt := h, num_fields := sql_columns s, query_running := True\<rparr>);
           sql_fetchrow_sqlite e;
           c \<leftarrow> State_Monad.get;
           if result_error c then State_Monad.return False
           else do { change (prefetched_update (\<lambda>_. True)); State_Monad.return True } }
     })) ca"
      by (simp add: sql_execute_sqlite_def ensure_begun_def run_bind ca_def)
    then show ?thesis
      by (simp add: run_bind B(1) sqlite3_prepare_def split: prod.splits)
  qed
  show thesis
  proof (cases "b \<and> \<not> fails e (calls cb)")
    case False
    then show ?thesis using run B(2) failed by (auto simp: cursor_defs split: if_splits)
  next
    case True
    define cd where "cd = cb\<lparr>calls := calls cb + 1, stmts := (stmts cb)(next_stmt cb \<mapsto> Ready s), next_stmt := next_stmt cb + 1,
             p_stmt := next_stmt cb, num_fields := sql_columns s, query_running := True\<rparr>"
    have cd: "holds c0 t (sql_columns s) (Ready s) cd" "\<not> prefetched cd"
      using B True by (auto simp: cd_def cursor_defs)
    have run: "run_state (sql_execute_sqlite e s) c = (case run_state (sql_fetchrow_sqlite e) cd of (_, c1) \<Rightarrow>
          if result_error c1 then (False, c1) else (True, c1\<lparr>prefetched := True\<rparr>))"
      using run True by (simp add: cd_def)
    show ?thesis using cd
    proof (cases rule: fetch_ready [where e = e])
      case R: (row ts r rs t1 c1)
      then have "\<not> result_error c1" "holds c0 t1 (sql_columns s) (Row r rs) (c1\<lparr>prefetched := True\<rparr>)" by (auto simp: cursor_defs)
      then show ?thesis using row [OF R(1)] run R(2) by simp
    next
      case N: (none ts t1 c1)
      then have "at_end c0 t1 (c1\<lparr>prefetched := True\<rparr>)" by (auto simp: cursor_defs)
      then show ?thesis using none [OF N(1)] run N(2,4) by simp
    next
      case F: (failed c1)
      then show ?thesis using failed run by simp
    qed
  qed
qed

text \<open>A statement that returns no rows.\<close>

lemma works_command:
  assumes "Q False t" "\<And>ts rows t1. run_sql ts s t = Some (rows, t1) \<Longrightarrow> rows = [] \<and> Q True t1"
  shows "works c0 t (sql_execute_sqlite e s) Q"
proof (rule worksI)
  fix c r c1
  assume "txn_view c0 t c" and run: "run_state (sql_execute_sqlite e s) c = (r, c1)"
  then show "\<exists>t1. txn_view c0 t1 c1 \<and> Q r t1"
  proof (cases rule: execute_cases [where s = s and e = e])
    case (row ts r rs t1 c1)
    then show ?thesis using assms(2) by fastforce
  next
    case (none ts t1 c1)
    then show ?thesis using assms(2) run by (auto simp: at_end_def)
  next
    case (failed c1)
    then show ?thesis using assms(1) run by (auto simp: at_end_def)
  qed
qed

lemma run_getvalues:
  assumes "holds c0 t k (Row r rs) c" "\<forall>i \<in> set is. i < k"
  shows "run_state (getvalues e is) c = (map (\<lambda>i. copy_cell e (r ! i)) is, c)"
  using assms(2)
  by (induction "is") (use assms(1) in \<open>auto simp: run_bind sql_getvalue_sqlite_def holds_def\<close>)

lemma close_cursor:
  assumes "holds c0 t k p c" "p \<noteq> Ended True"
  obtains c1 where "run_state sql_close_cursor_sqlite c = (True, c1)" "at_end c0 t c1"
  using assms
  by (auto simp: sql_close_cursor_sqlite_def run_bind sqlite3_finalize_def cursor_defs fun_upd_idem)

text \<open>Reading one row: an error, or the first row.\<close>

lemma works_select:
  assumes "k \<le> sql_columns s" "\<And>ts rows t1. run_sql ts s t = Some (rows, t1) \<Longrightarrow> t1 = t"
    "Q None t" "\<And>ts r rs. run_sql ts s t = Some (r # rs, t) \<Longrightarrow> Q (Some (map (\<lambda>i. copy_cell e (r ! i)) [0..<k])) t"
  shows "works c0 t (select_row e s k) Q"
proof (rule worksI)
  fix c x c2
  assume "txn_view c0 t c" and run: "run_state (select_row e s k) c = (x, c2)"
  then show "\<exists>t1. txn_view c0 t1 c2 \<and> Q x t1"
  proof (cases rule: execute_cases [where s = s and e = e])
    case (row ts r rs t1 c1)
    then have t1: "t1 = t" using assms(2) by blast
    define cf where "cf = c1\<lparr>prefetched := False\<rparr>"
    have H: "query_running c1" "holds c0 t (sql_columns s) (Row r rs) cf"
      using row t1 by (auto simp: cf_def cursor_defs)
    have F: "run_state (sql_fetchrow_sqlite e) c1 = (True, cf)"
      using row(4) H(1) by (simp add: sql_fetchrow_sqlite_def run_bind cf_def)
    have G: "run_state (getvalues e [0..<k]) cf = (map (\<lambda>i. copy_cell e (r ! i)) [0..<k], cf)"
      using run_getvalues [OF H(2)] assms(1) by simp
    obtain c3 where C: "run_state sql_close_cursor_sqlite cf = (True, c3)" "at_end c0 t c3"
      using close_cursor [OF H(2)] by auto
    have "x = Some (map (\<lambda>i. copy_cell e (r ! i)) [0..<k])" "c2 = c3"
      using run row(2) H(1) by (simp_all add: select_row_def run_bind F G C)
    then show ?thesis using C(2) assms(4) row(1) t1 by (auto simp: at_end_def)
  next
    case (none ts t1 c1)
    then have "x = None" "c2 = c1" "t1 = t" using run assms(2)
      by (auto simp: select_row_def run_bind at_end_def)
    then show ?thesis using none assms(3) by (auto simp: at_end_def)
  next
    case (failed c1)
    then have "x = None" "c2 = c1" using run by (auto simp: select_row_def run_bind)
    then show ?thesis using failed assms(3) by (auto simp: at_end_def)
  qed
qed

end
