(* ===== verification/Nonsp.thy ===== *)
theory Nonsp
  imports Sqlite_Db
begin

text \<open>
  The transactions that send their SQL from the client (\<open>src/src/nonsp\<close>), as they run on the SQLite
  backend. A transaction is a computation on the connection; the branches that report an error are
  its early returns. Its result is None where the C program has undefined behaviour: a null pointer
  read as a number or an index outside an array. The output fields of the structures of
  \<open>transaction_data.h\<close> are records of their own, a string is its characters before the terminator.
\<close>

section \<open>Helpers\<close>

text \<open>\<open>dbt2_copy_value\<close> into a field of size \<open>n\<close> that holds \<open>old\<close>.\<close>

definition dbt2_copy_value :: "bytes \<Rightarrow> bytes option \<Rightarrow> nat \<Rightarrow> bytes" where
  "dbt2_copy_value old src n = (case src of
     None \<Rightarrow> old
   | Some s \<Rightarrow> if n = 0 then old else take (n - 1) (takeWhile (\<lambda>c. c \<noteq> CHR 0x00) s))"

text \<open>\<open>dbt2_escape_str\<close>, in the build with SQLite.\<close>

fun escape_quotes :: "bytes \<Rightarrow> bytes" where
  "escape_quotes [] = []"
| "escape_quotes (c # cs) = (if c = CHR 0x27 then [c, c] else [c]) @ escape_quotes cs"

definition dbt2_escape_str :: "bytes option \<Rightarrow> bytes option" where
  "dbt2_escape_str s = map_option escape_quotes s"

definition dbt2_init_values :: "nat \<Rightarrow> bytes option list" where
  "dbt2_init_values n = replicate n None"

definition dbt2_free_values :: "bytes option list \<Rightarrow> bytes option list" where
  "dbt2_free_values vals = map (\<lambda>_. None) vals"

text \<open>\<open>%s\<close> of a null pointer with the GNU library.\<close>

definition str_arg :: "bytes option \<Rightarrow> bytes" where
  "str_arg s = (case s of None \<Rightarrow> ''(null)'' | Some x \<Rightarrow> x)"

text \<open>\<open>atof\<close> on decimal notation, \<open>strstr\<close>, \<open>mbstowcs\<close> and the rounding to \<open>float\<close>.\<close>

definition exponent_value :: "bytes \<Rightarrow> int" where
  "exponent_value cs = (case cs of
     [] \<Rightarrow> 0
   | c # ds \<Rightarrow> if c = CHR ''-'' then - digits_value ds
               else if c = CHR ''+'' then digits_value ds else digits_value cs)"

definition atof :: "bytes \<Rightarrow> rat" where
  "atof s = (let s1 = dropWhile is_space s;
       (neg, s2) = (case s1 of [] \<Rightarrow> (False, [])
         | c # cs \<Rightarrow> if c = CHR ''-'' then (True, cs) else if c = CHR ''+'' then (False, cs) else (False, s1));
       ip = takeWhile is_digit s2;
       s3 = dropWhile is_digit s2;
       (fp, s4) = (case s3 of [] \<Rightarrow> ([], [])
         | c # cs \<Rightarrow> if c = CHR ''.'' then (takeWhile is_digit cs, dropWhile is_digit cs) else ([], s3));
       ex = (case s4 of [] \<Rightarrow> 0 | c # cs \<Rightarrow> if c = CHR ''e'' \<or> c = CHR ''E'' then exponent_value cs else 0);
       v = of_int (digits_value (ip @ fp)) / 10 ^ length fp * 10 powi ex
     in fl (if neg then - v else v))"

definition atof_or_0 :: "bytes option \<Rightarrow> rat" where
  "atof_or_0 s = (case s of None \<Rightarrow> 0 | Some x \<Rightarrow> atof x)"

definition atoi_or_0 :: "bytes option \<Rightarrow> int" where
  "atoi_or_0 s = (case s of None \<Rightarrow> 0 | Some x \<Rightarrow> atoi x)"

fun has_substring :: "bytes \<Rightarrow> bytes \<Rightarrow> bool" where
  "has_substring pat [] = (pat = [])"
| "has_substring pat (c # cs) = (take (length pat) (c # cs) = pat \<or> has_substring pat cs)"

definition fl32 :: "rat \<Rightarrow> rat" where
  "fl32 x = (if x = 0 then 0 else rnd (max (ilog2 \<bar>x\<bar> - 23) (- 149)) x)"

text \<open>One character of UTF-8 and what follows it.\<close>

fun decode_char :: "bytes \<Rightarrow> (wchar_t \<times> bytes) option" where
  "decode_char [] = None"
| "decode_char (c # cs) = (let n = (of_char c :: nat);
     cont = (\<lambda>k. k \<le> length cs \<and> list_all continues_char (take k cs));
     val = (\<lambda>k b. foldl (\<lambda>v d. v * 64 + (of_char d :: nat) mod 64) b (take k cs))
   in if n < 128 then Some (n, cs)
      else if 192 \<le> n \<and> n < 224 \<and> cont 1 then Some (val 1 (n mod 32), drop 1 cs)
      else if 224 \<le> n \<and> n < 240 \<and> cont 2 then Some (val 2 (n mod 16), drop 2 cs)
      else if 240 \<le> n \<and> n < 248 \<and> cont 3 then Some (val 3 (n mod 8), drop 3 cs)
      else None)"

text \<open>\<open>mbstowcs\<close> into \<open>old\<close>, at most \<open>n\<close> characters; it stops where the text is not UTF-8.\<close>

fun mbstowcs :: "wchar_t list \<Rightarrow> nat \<Rightarrow> bytes \<Rightarrow> wchar_t list" where
  "mbstowcs old 0 s = []"
| "mbstowcs old (Suc n) s = (if s = [] then []
     else case decode_char s of
         None \<Rightarrow> old
       | Some (w, s1) \<Rightarrow> w # mbstowcs (drop 1 old) n s1)"

section \<open>New-Order\<close>

record new_order_line_out =
  nl_i_price :: rat
  nl_i_name :: bytes
  nl_s_quantity :: int
  nl_ol_amount :: rat
  nl_brand_generic :: char

record new_order_out =
  nw_o_id :: int
  nw_total_amount :: rat
  nw_w_tax :: rat
  nw_d_tax :: rat
  nw_c_last :: bytes
  nw_c_credit :: bytes
  nw_c_discount :: rat
  nw_rollback :: int
  nw_lines :: "new_order_line_out list"

text \<open>What is known of an order line after its statements.\<close>

record line_values =
  lv_i_price :: "bytes option"
  lv_i_name :: "bytes option"
  lv_i_data :: "bytes option"
  lv_s_quantity :: "bytes option"
  lv_s_data :: "bytes option"
  lv_ol_amount :: rat

text \<open>A round of the loop over the lines: go on, leave with \<open>rc\<close>, or undefined behaviour.\<close>

datatype line_result = Line line_values | Stop int | Crashed

definition new_order_line :: "sql_env \<Rightarrow> new_order_t \<Rightarrow> bytes \<Rightarrow> nat \<Rightarrow> (sqlite_conn, line_result) state" where
  "new_order_line e data o_id i =
     (if 15 \<le> i \<or> length (no_order_line data) \<le> i then State_Monad.return Crashed
      else let ln = no_order_line data ! i; i_id = ol_i_id ln; q = ol_quantity ln in
      if i_id = 0 then State_Monad.return (Stop 2)
      else do {
        item \<leftarrow> select_row e (New_order_7 i_id) 3;
        case item of
          None \<Rightarrow> State_Monad.return (Stop (- 1))
        | Some iv \<Rightarrow>
            if iv ! 0 = None \<or> no_d_id data < 1 \<or> 10 < no_d_id data then State_Monad.return Crashed
            else let amount = fl32 (fl (atof (the (iv ! 0)) * fl32 (of_int q))) in do {
              stock \<leftarrow> select_row e (New_order_8 (s_dist ! nat (no_d_id data - 1)) i_id (no_w_id data)) 3;
              case stock of
                None \<Rightarrow> State_Monad.return (Stop 16)
              | Some sv \<Rightarrow>
                  if sv ! 0 = None then State_Monad.return Crashed
                  else do {
                    ok \<leftarrow> sql_execute_sqlite e
                      (New_order_9 (if q + 10 \<le> atoi (the (sv ! 0)) then q else q - 91) i_id (no_w_id data));
                    if \<not> ok then State_Monad.return (Stop 17)
                    else do {
                      ok \<leftarrow> sql_execute_sqlite e (New_order_10 o_id (no_d_id data) (no_w_id data) (int i + 1) i_id
                        (ol_supply_w_id ln) q amount (str_arg (sv ! 1)));
                      if \<not> ok then State_Monad.return (Stop 18)
                      else State_Monad.return (Line \<lparr>lv_i_price = iv ! 0, lv_i_name = iv ! 1, lv_i_data = iv ! 2,
                        lv_s_quantity = sv ! 0, lv_s_data = sv ! 2, lv_ol_amount = amount\<rparr>)
                    }
                  }
            }
      })"

text \<open>\<open>Inl\<close> ends the loop early, with None for undefined behaviour.\<close>

fun new_order_lines ::
    "sql_env \<Rightarrow> new_order_t \<Rightarrow> bytes \<Rightarrow> nat list \<Rightarrow> (sqlite_conn, int option + line_values list) state" where
  "new_order_lines e data o_id [] = State_Monad.return (Inr [])"
| "new_order_lines e data o_id (i # is) = do {
     r \<leftarrow> new_order_line e data o_id i;
     case r of
       Crashed \<Rightarrow> State_Monad.return (Inl None)
     | Stop rc \<Rightarrow> State_Monad.return (Inl (Some rc))
     | Line v \<Rightarrow> do {
         r \<leftarrow> new_order_lines e data o_id is;
         State_Monad.return (case r of Inl x \<Rightarrow> Inl x | Inr vs \<Rightarrow> Inr (v # vs))
       }
   }"

definition brand :: "line_values \<Rightarrow> char" where
  "brand v = (case (lv_i_data v, lv_s_data v) of
     (Some i, Some s) \<Rightarrow> if has_substring ''ORIGINAL'' i \<and> has_substring ''ORIGINAL'' s then CHR ''B'' else CHR ''G''
   | _ \<Rightarrow> CHR ''G'')"

definition line_out :: "new_order_line_out \<Rightarrow> line_values \<Rightarrow> new_order_line_out" where
  "line_out old v = \<lparr>nl_i_price = atof_or_0 (lv_i_price v),
     nl_i_name = dbt2_copy_value (nl_i_name old) (lv_i_name v) 388,
     nl_s_quantity = atoi_or_0 (lv_s_quantity v), nl_ol_amount = lv_ol_amount v, nl_brand_generic = brand v\<rparr>"

text \<open>The results are copied when \<open>rc\<close> is 0; the order lines after \<open>o_ol_cnt\<close> stay as they are.\<close>

definition new_order_results ::
    "bytes option list \<Rightarrow> bytes option list \<Rightarrow> bytes option list \<Rightarrow> line_values list \<Rightarrow> new_order_out \<Rightarrow> new_order_out" where
  "new_order_results wv dv cv vs out = out\<lparr>
     nw_w_tax := atof_or_0 (wv ! 0), nw_d_tax := atof_or_0 (dv ! 0), nw_o_id := atoi_or_0 (dv ! 1),
     nw_c_discount := atof_or_0 (cv ! 0),
     nw_c_last := dbt2_copy_value (nw_c_last out) (cv ! 1) 68,
     nw_c_credit := dbt2_copy_value (nw_c_credit out) (cv ! 2) 3,
     nw_lines := map (\<lambda>(old, v). line_out old v) (zip (nw_lines out) vs) @ drop (length vs) (nw_lines out),
     nw_total_amount := foldl (\<lambda>s v. fl (s + lv_ol_amount v)) 0 vs\<rparr>"

definition new_order_nonsp ::
    "sql_env \<Rightarrow> new_order_t \<Rightarrow> new_order_out \<Rightarrow> (sqlite_conn, int option \<times> new_order_out) state" where
  "new_order_nonsp e data out0 = (let out = out0\<lparr>nw_rollback := 0\<rparr>;
       w_id = no_w_id data; d_id = no_d_id data; c_id = no_c_id data in do {
     w \<leftarrow> select_row e (New_order_1 w_id) 1;
     case w of None \<Rightarrow> State_Monad.return (Some 10, out)
     | Some wv \<Rightarrow> do {
     d \<leftarrow> select_row e (New_order_2 w_id d_id) 2;
     case d of None \<Rightarrow> State_Monad.return (Some 11, out)
     | Some dv \<Rightarrow> do {
     ok \<leftarrow> sql_execute_sqlite e (New_order_3 w_id d_id);
     if \<not> ok then State_Monad.return (Some 12, out)
     else do {
     c \<leftarrow> select_row e (New_order_4 w_id d_id c_id) 3;
     case c of None \<Rightarrow> State_Monad.return (Some 13, out)
     | Some cv \<Rightarrow> do {
     ok \<leftarrow> sql_execute_sqlite e (New_order_5 (str_arg (dv ! 1)) w_id d_id);
     if \<not> ok then State_Monad.return (Some 14, out)
     else do {
     ok \<leftarrow> sql_execute_sqlite e (New_order_6 (str_arg (dv ! 1)) d_id w_id c_id (no_o_ol_cnt data) (no_o_all_local data));
     if \<not> ok then State_Monad.return (Some 15, out)
     else do {
     r \<leftarrow> new_order_lines e data (str_arg (dv ! 1)) [0..<nat (no_o_ol_cnt data)];
     State_Monad.return (case r of
         Inl rc \<Rightarrow> (rc, if rc = Some 2 then out\<lparr>nw_rollback := 1\<rparr> else out)
       | Inr vs \<Rightarrow> (Some 0, new_order_results wv dv cv vs out)) } } } } } } })"

definition execute_new_order_nonsp ::
    "sql_env \<Rightarrow> new_order_t \<Rightarrow> new_order_out \<Rightarrow> (sqlite_conn, int option \<times> new_order_out) state" where
  "execute_new_order_nonsp e data out = do {
     (rc, out1) \<leftarrow> new_order_nonsp e data out;
     State_Monad.return (map_option (\<lambda>rc. if rc \<noteq> 0 then ERROR else OK) rc, out1)
   }"

section \<open>Delivery, Stock-Level, Integrity\<close>

text \<open>
  One district of \<open>delivery_nonsp\<close>; False is the return of \<open>-1\<close>. A query for the oldest new order that
  fails is taken for a district without new orders.
\<close>

definition delivery_district :: "sql_env \<Rightarrow> delivery_t \<Rightarrow> int \<Rightarrow> (sqlite_conn, bool) state" where
  "delivery_district e data d_id = (let w_id = dl_w_id data in do {
     no \<leftarrow> select_row e (Delivery_1 w_id d_id) 1;
     case no of None \<Rightarrow> State_Monad.return True
     | Some nv \<Rightarrow>
       if nv ! 0 = None \<or> atoi (the (nv ! 0)) \<le> 0 then State_Monad.return True
       else let o_id = the (nv ! 0) in do {
     ok \<leftarrow> sql_execute_sqlite e (Delivery_2 o_id w_id d_id);
     if \<not> ok then State_Monad.return False
     else do {
     cu \<leftarrow> select_row e (Delivery_3 o_id w_id d_id) 1;
     case cu of None \<Rightarrow> State_Monad.return False
     | Some cv \<Rightarrow> do {
     ok \<leftarrow> sql_execute_sqlite e (Delivery_4 (dl_o_carrier_id data) o_id w_id d_id);
     if \<not> ok then State_Monad.return False
     else do {
     ok \<leftarrow> sql_execute_sqlite e (Delivery_5 o_id w_id d_id);
     if \<not> ok then State_Monad.return False
     else do {
     am \<leftarrow> select_row e (Delivery_6 o_id w_id d_id) 1;
     case am of None \<Rightarrow> State_Monad.return False
     | Some av \<Rightarrow>
       if av ! 0 = None then State_Monad.return False
       else sql_execute_sqlite e (Delivery_7 (the (av ! 0)) (str_arg (cv ! 0)) w_id d_id) } } } } } })"

fun delivery_districts :: "sql_env \<Rightarrow> delivery_t \<Rightarrow> int list \<Rightarrow> (sqlite_conn, int) state" where
  "delivery_districts e data [] = State_Monad.return 1"
| "delivery_districts e data (d # ds) = do {
     ok \<leftarrow> delivery_district e data d;
     if \<not> ok then State_Monad.return (- 1) else delivery_districts e data ds
   }"

definition delivery_nonsp :: "sql_env \<Rightarrow> delivery_t \<Rightarrow> (sqlite_conn, int) state" where
  "delivery_nonsp e data = delivery_districts e data [1..10]"

definition execute_delivery_nonsp :: "sql_env \<Rightarrow> delivery_t \<Rightarrow> (sqlite_conn, int) state" where
  "execute_delivery_nonsp e data = do {
     rc \<leftarrow> delivery_nonsp e data;
     State_Monad.return (if rc = - 1 then ERROR else OK)
   }"

definition stock_level_nonsp :: "sql_env \<Rightarrow> stock_level_t \<Rightarrow> (sqlite_conn, int) state" where
  "stock_level_nonsp e data = do {
     n \<leftarrow> select_row e (Stock_level_1 (sl_w_id data) (sl_d_id data)) 1;
     case n of None \<Rightarrow> State_Monad.return (- 1)
     | Some nv \<Rightarrow>
       if nv ! 0 = None then State_Monad.return (- 1)
       else let d_next_o_id = atoi (the (nv ! 0)) in do {
         l \<leftarrow> select_row e (Stock_level_2 (sl_d_id data) (sl_w_id data) (sl_threshold data)
           (d_next_o_id - 20) (d_next_o_id - 1)) 1;
         State_Monad.return (case l of None \<Rightarrow> - 1
           | Some lv \<Rightarrow> (case lv ! 0 of None \<Rightarrow> - 1 | Some x \<Rightarrow> atoi x))
       }
   }"

text \<open>The output field \<open>low_stock\<close> is returned with the status.\<close>

definition execute_stock_level_nonsp :: "sql_env \<Rightarrow> stock_level_t \<Rightarrow> int \<Rightarrow> (sqlite_conn, int \<times> int) state" where
  "execute_stock_level_nonsp e data low_stock = do {
     rc \<leftarrow> stock_level_nonsp e data;
     State_Monad.return (if rc = - 1 then (ERROR, low_stock) else (OK, rc))
   }"

definition integrity_nonsp :: "sql_env \<Rightarrow> integrity_t \<Rightarrow> (sqlite_conn, int) state" where
  "integrity_nonsp e data = do {
     n \<leftarrow> select_row e Integrity_1 1;
     State_Monad.return (case n of None \<Rightarrow> - 1
       | Some nv \<Rightarrow> (case nv ! 0 of None \<Rightarrow> - 1 | Some x \<Rightarrow> if atoi x \<noteq> in_w_id data then - 1 else 1))
   }"

definition execute_integrity_nonsp :: "sql_env \<Rightarrow> integrity_t \<Rightarrow> (sqlite_conn, int) state" where
  "execute_integrity_nonsp e data = do {
     rc \<leftarrow> integrity_nonsp e data;
     State_Monad.return (if rc = - 1 then ERROR else OK)
   }"

section \<open>The middle customer\<close>

text \<open>
  The loop that collects the ids of the customers with a name. The array has 16 places at first;
  \<open>alloc\<close> is the number of entries that were allocated, 0 before. None is running out of fuel,
  \<open>Some None\<close> the return after a failed \<open>realloc\<close>.
\<close>

fun fetch_c_ids :: "sql_env \<Rightarrow> nat \<Rightarrow> nat \<Rightarrow> int list \<Rightarrow> (sqlite_conn, int list option option) state" where
  "fetch_c_ids e 0 alloc ids = State_Monad.return None"
| "fetch_c_ids e (Suc fuel) alloc ids = do {
     more \<leftarrow> sql_fetchrow_sqlite e;
     if \<not> more then State_Monad.return (Some (Some ids))
     else let grow = 16 \<le> length ids \<and> alloc \<le> length ids;
              alloc1 = (if \<not> grow then alloc else if alloc = 0 then 32 else 2 * alloc)
       in if grow \<and> \<not> realloc_ok e alloc1 then State_Monad.return (Some None)
          else do {
            v \<leftarrow> sql_getvalue_sqlite e 0;
            fetch_c_ids e fuel alloc1 (ids @ [case v of None \<Rightarrow> - 1 | Some s \<Rightarrow> atoi s])
          }
   }"

text \<open>The rows a cursor can still deliver, with one call for the end.\<close>

definition rows_left :: "sqlite_conn \<Rightarrow> nat" where
  "rows_left c = (case stmts c (p_stmt c) of Some (Row r rs) \<Rightarrow> length rs + 2 | _ \<Rightarrow> 1)"

definition middle_id :: "int list \<Rightarrow> int" where
  "middle_id ids = (if ids = [] then - 1 else ids ! ((length ids - 1) div 2))"

text \<open>
  The customer by name, as Payment and Order-Status look for him: \<open>Some (Some id)\<close>, or \<open>Some None\<close> for
  the return of \<open>-1\<close>.
\<close>

definition customer_by_name :: "sql_env \<Rightarrow> statement \<Rightarrow> (sqlite_conn, int option option) state" where
  "customer_by_name e s = do {
     ok \<leftarrow> sql_execute_sqlite e s;
     c \<leftarrow> State_Monad.get;
     if \<not> (ok \<and> query_running c) then State_Monad.return (Some None)
     else do {
       r \<leftarrow> fetch_c_ids e (rows_left c) 0 [];
       case r of
         None \<Rightarrow> State_Monad.return None
       | Some None \<Rightarrow> State_Monad.return (Some None)
       | Some (Some ids) \<Rightarrow> do {
           sql_close_cursor_sqlite;
           State_Monad.return (Some (if middle_id ids = - 1 then None else Some (middle_id ids)))
         }
     }
   }"

text \<open>The customer of a transaction: by his number, or, where that is 0, by name with the query \<open>s\<close>.\<close>

definition find_customer :: "sql_env \<Rightarrow> int \<Rightarrow> statement \<Rightarrow> (sqlite_conn, int option option) state" where
  "find_customer e c_id s =
     (if c_id = 0 then customer_by_name e s else State_Monad.return (Some (Some c_id)))"

section \<open>Payment\<close>

record address_out =
  ao_name :: bytes
  ao_street_1 :: bytes
  ao_street_2 :: bytes
  ao_city :: bytes
  ao_state :: bytes
  ao_zip :: bytes

record payment_out =
  pa_c_id :: int
  pa_c_last :: "wchar_t list"
  pa_warehouse :: address_out
  pa_district :: address_out
  pa_c_first :: bytes
  pa_c_middle :: bytes
  pa_c_street_1 :: bytes
  pa_c_street_2 :: bytes
  pa_c_city :: bytes
  pa_c_state :: bytes
  pa_c_zip :: bytes
  pa_c_phone :: bytes
  pa_c_since :: bytes
  pa_c_credit :: bytes
  pa_c_credit_lim :: rat
  pa_c_discount :: rat
  pa_c_balance :: rat
  pa_c_data :: bytes
  pa_h_date :: bytes

definition copy_address :: "address_out \<Rightarrow> bytes option list \<Rightarrow> address_out" where
  "copy_address a v = \<lparr>ao_name = dbt2_copy_value (ao_name a) (v ! 0) 164,
     ao_street_1 = dbt2_copy_value (ao_street_1 a) (v ! 1) 324,
     ao_street_2 = dbt2_copy_value (ao_street_2 a) (v ! 2) 324,
     ao_city = dbt2_copy_value (ao_city a) (v ! 3) 324,
     ao_state = dbt2_copy_value (ao_state a) (v ! 4) 36,
     ao_zip = dbt2_copy_value (ao_zip a) (v ! 5) 40\<rparr>"

text \<open>The customer's values are \<open>C_FIRST\<close> to \<open>C_YTD_PAYMENT\<close>, in the order of \<open>PAYMENT_6\<close>.\<close>

definition payment_results ::
    "int \<Rightarrow> bytes option list \<Rightarrow> bytes option list \<Rightarrow> bytes option list \<Rightarrow> rat \<Rightarrow> payment_out \<Rightarrow> payment_out" where
  "payment_results my_c_id wv dv cv h_amount out = \<lparr>
     pa_c_id = my_c_id,
     pa_c_last = (case cv ! 2 of None \<Rightarrow> pa_c_last out | Some s \<Rightarrow> mbstowcs (pa_c_last out) (C_LAST_LEN + 1) s),
     pa_warehouse = copy_address (pa_warehouse out) wv,
     pa_district = copy_address (pa_district out) dv,
     pa_c_first = dbt2_copy_value (pa_c_first out) (cv ! 0) 260,
     pa_c_middle = dbt2_copy_value (pa_c_middle out) (cv ! 1) 3,
     pa_c_street_1 = dbt2_copy_value (pa_c_street_1 out) (cv ! 3) 324,
     pa_c_street_2 = dbt2_copy_value (pa_c_street_2 out) (cv ! 4) 324,
     pa_c_city = dbt2_copy_value (pa_c_city out) (cv ! 5) 324,
     pa_c_state = dbt2_copy_value (pa_c_state out) (cv ! 6) 36,
     pa_c_zip = dbt2_copy_value (pa_c_zip out) (cv ! 7) 40,
     pa_c_phone = dbt2_copy_value (pa_c_phone out) (cv ! 8) 68,
     pa_c_since = dbt2_copy_value (pa_c_since out) (cv ! 9) 29,
     pa_c_credit = dbt2_copy_value (pa_c_credit out) (cv ! 10) 3,
     pa_c_credit_lim = atof_or_0 (cv ! 11),
     pa_c_discount = atof_or_0 (cv ! 12),
     pa_c_balance = fl (atof_or_0 (cv ! 13) - h_amount),
     pa_c_data = dbt2_copy_value (pa_c_data out) (cv ! 14) 8004,
     pa_h_date = pa_h_date out\<rparr>"

definition payment_history_text :: "int \<Rightarrow> payment_t \<Rightarrow> rat \<Rightarrow> bytes" where
  "payment_history_text my_c_id data h = fmt_d my_c_id @ '' '' @ fmt_d (py_c_d_id data) @ '' '' @ fmt_d (py_c_w_id data)
     @ '' '' @ fmt_d (py_d_id data) @ '' '' @ fmt_d (py_w_id data) @ '' '' @ fmt_f 6 h @ '' ''"

text \<open>The update of the customer, by his credit.\<close>

definition payment_update :: "payment_t \<Rightarrow> rat \<Rightarrow> int \<Rightarrow> bytes \<Rightarrow> statement" where
  "payment_update data h my_c_id credit =
     (if take 1 credit = ''G'' then Payment_7_gc h my_c_id (py_c_w_id data) (py_c_d_id data)
      else Payment_7_bc h (escape_quotes (payment_history_text my_c_id data h)) my_c_id (py_c_w_id data) (py_c_d_id data))"

definition payment_nonsp ::
    "sql_env \<Rightarrow> payment_t \<Rightarrow> payment_out \<Rightarrow> (sqlite_conn, int option \<times> payment_out) state" where
  "payment_nonsp e data out = (let w_id = py_w_id data; d_id = py_d_id data; h_amount = fl32 (py_h_amount data) in do {
     w \<leftarrow> select_row e (Payment_1 w_id) 6;
     case w of None \<Rightarrow> State_Monad.return (Some (- 1), out)
     | Some wv \<Rightarrow> do {
     ok \<leftarrow> sql_execute_sqlite e (Payment_2 h_amount w_id);
     if \<not> ok then State_Monad.return (Some (- 1), out)
     else do {
     d \<leftarrow> select_row e (Payment_3 d_id w_id) 6;
     case d of None \<Rightarrow> State_Monad.return (Some (- 1), out)
     | Some dv \<Rightarrow> do {
     ok \<leftarrow> sql_execute_sqlite e (Payment_4 h_amount d_id w_id);
     if \<not> ok then State_Monad.return (Some (- 1), out)
     else do {
     i \<leftarrow> find_customer e (py_c_id data)
       (Payment_5 (py_c_w_id data) (py_c_d_id data) (wcstombs 68 (py_c_last data)));
     case i of None \<Rightarrow> State_Monad.return (None, out)
     | Some None \<Rightarrow> State_Monad.return (Some (- 1), out)
     | Some (Some my_c_id) \<Rightarrow> do {
     c \<leftarrow> select_row e (Payment_6 (py_c_w_id data) (py_c_d_id data) my_c_id) 16;
     case c of None \<Rightarrow> State_Monad.return (Some (- 1), out)
     | Some cv \<Rightarrow>
       (case cv ! 10 of None \<Rightarrow> State_Monad.return (Some (- 1), out)
        | Some credit \<Rightarrow> do {
     ok \<leftarrow> sql_execute_sqlite e (payment_update data h_amount my_c_id credit);
     if \<not> ok then State_Monad.return (Some (- 1), out)
     else (case (dbt2_escape_str (wv ! 0), dbt2_escape_str (dv ! 0)) of
       (Some w_name, Some d_name) \<Rightarrow> do {
         ok \<leftarrow> sql_execute_sqlite e (Payment_8 my_c_id (py_c_d_id data) (py_c_w_id data) d_id w_id h_amount w_name d_name);
         State_Monad.return (if \<not> ok then (Some (- 1), out)
           else (Some 1, payment_results my_c_id wv dv cv h_amount out)) }
     | _ \<Rightarrow> State_Monad.return (None, out)) }) } } } } } })"

definition execute_payment_nonsp ::
    "sql_env \<Rightarrow> payment_t \<Rightarrow> payment_out \<Rightarrow> (sqlite_conn, int option \<times> payment_out) state" where
  "execute_payment_nonsp e data out = do {
     (rc, out1) \<leftarrow> payment_nonsp e data out;
     State_Monad.return (map_option (\<lambda>rc. if rc = - 1 then ERROR else OK) rc, out1)
   }"

section \<open>Order-Status\<close>

record order_line_out =
  oo_ol_i_id :: int
  oo_ol_supply_w_id :: int
  oo_ol_quantity :: int
  oo_ol_amount :: rat
  oo_ol_delivery_d :: bytes

record order_status_out =
  ou_c_id :: int
  ou_c_last :: "wchar_t list"
  ou_c_balance :: rat
  ou_c_first :: bytes
  ou_c_middle :: bytes
  ou_o_id :: int
  ou_o_carrier_id :: int
  ou_o_entry_d :: bytes
  ou_o_ol_cnt :: int
  ou_lines :: "order_line_out list"

text \<open>The lines of the order go into arrays of 15; None for a sixteenth, or without fuel.\<close>

fun fetch_lines :: "sql_env \<Rightarrow> nat \<Rightarrow> bytes option list list \<Rightarrow> (sqlite_conn, bytes option list list option) state" where
  "fetch_lines e 0 rows = State_Monad.return None"
| "fetch_lines e (Suc fuel) rows = do {
     more \<leftarrow> sql_fetchrow_sqlite e;
     if \<not> more then State_Monad.return (Some rows)
     else if 15 \<le> length rows then State_Monad.return None
     else do {
       vs \<leftarrow> getvalues e [0..<5];
       fetch_lines e fuel (rows @ [vs])
     }
   }"

text \<open>\<open>Some None\<close> is the branch that reports an error.\<close>

definition fetch_all_lines :: "sql_env \<Rightarrow> statement \<Rightarrow> (sqlite_conn, bytes option list list option option) state" where
  "fetch_all_lines e s = do {
     ok \<leftarrow> sql_execute_sqlite e s;
     c \<leftarrow> State_Monad.get;
     if \<not> (ok \<and> query_running c) then State_Monad.return (Some None)
     else do {
       rows \<leftarrow> fetch_lines e (rows_left c) [];
       case rows of
         None \<Rightarrow> State_Monad.return None
       | Some rows \<Rightarrow> do { sql_close_cursor_sqlite; State_Monad.return (Some (Some rows)) }
     }
   }"

definition os_line_out :: "order_line_out \<Rightarrow> bytes option list \<Rightarrow> order_line_out" where
  "os_line_out old v = \<lparr>oo_ol_i_id = atoi_or_0 (v ! 0), oo_ol_supply_w_id = atoi_or_0 (v ! 1),
     oo_ol_quantity = atoi_or_0 (v ! 2), oo_ol_amount = atof_or_0 (v ! 3),
     oo_ol_delivery_d = dbt2_copy_value (oo_ol_delivery_d old) (v ! 4) 29\<rparr>"

definition order_status_results ::
    "int \<Rightarrow> bytes option list \<Rightarrow> bytes option list \<Rightarrow> bytes option list list \<Rightarrow> order_status_out \<Rightarrow> order_status_out" where
  "order_status_results my_c_id cv ov rows out = \<lparr>
     ou_c_id = my_c_id,
     ou_c_last = (case cv ! 2 of None \<Rightarrow> ou_c_last out | Some s \<Rightarrow> mbstowcs (ou_c_last out) (C_LAST_LEN + 1) s),
     ou_c_balance = atof_or_0 (cv ! 3),
     ou_c_first = dbt2_copy_value (ou_c_first out) (cv ! 0) 260,
     ou_c_middle = dbt2_copy_value (ou_c_middle out) (cv ! 1) 3,
     ou_o_id = atoi_or_0 (ov ! 0),
     ou_o_carrier_id = atoi_or_0 (ov ! 1),
     ou_o_entry_d = dbt2_copy_value (ou_o_entry_d out) (ov ! 2) 29,
     ou_o_ol_cnt = int (length rows),
     ou_lines = map (\<lambda>(old, v). os_line_out old v) (zip (ou_lines out) rows) @ drop (length rows) (ou_lines out)\<rparr>"

definition order_status_nonsp ::
    "sql_env \<Rightarrow> order_status_t \<Rightarrow> order_status_out \<Rightarrow> (sqlite_conn, int option \<times> order_status_out) state" where
  "order_status_nonsp e data out = (let w_id = os_c_w_id data; d_id = os_c_d_id data in do {
     i \<leftarrow> find_customer e (os_c_id data) (Order_status_1 w_id d_id (wcstombs 68 (os_c_last data)));
     case i of None \<Rightarrow> State_Monad.return (None, out)
     | Some None \<Rightarrow> State_Monad.return (Some (- 1), out)
     | Some (Some my_c_id) \<Rightarrow> do {
     c \<leftarrow> select_row e (Order_status_2 w_id d_id my_c_id) 4;
     case c of None \<Rightarrow> State_Monad.return (Some (- 1), out)
     | Some cv \<Rightarrow> do {
     r \<leftarrow> select_row e (Order_status_3 w_id d_id my_c_id) 4;
     case r of None \<Rightarrow> State_Monad.return (Some (- 1), out)
     | Some ov \<Rightarrow> do {
     rows \<leftarrow> fetch_all_lines e (Order_status_4 w_id d_id (str_arg (ov ! 0)));
     State_Monad.return (case rows of
         None \<Rightarrow> (None, out)
       | Some None \<Rightarrow> (Some (- 1), out)
       | Some (Some rows) \<Rightarrow> (Some 1, order_status_results my_c_id cv ov rows out)) } } } })"

definition execute_order_status_nonsp ::
    "sql_env \<Rightarrow> order_status_t \<Rightarrow> order_status_out \<Rightarrow> (sqlite_conn, int option \<times> order_status_out) state" where
  "execute_order_status_nonsp e data out = do {
     (rc, out1) \<leftarrow> order_status_nonsp e data out;
     State_Monad.return (map_option (\<lambda>rc. if rc = - 1 then ERROR else OK) rc, out1)
   }"

end
