(* ===== verification/Nonsp_Effects.thy ===== *)
theory Nonsp_Effects
  imports Nonsp
begin

text \<open>
  What the transactions of \<open>Nonsp\<close> do to the tables, whatever calls of the library fail: the effect of
  one that reports success is a function on tables, up to the time stamps.
\<close>

section \<open>Numbers as text\<close>

lemma takeWhile_digits: "takeWhile is_digit (digits n @ s) = digits n @ takeWhile is_digit s"
  using digits_are_digits [of n] by (simp add: list_all_iff takeWhile_append2)

lemma dropWhile_digits: "dropWhile is_digit (digits n @ s) = dropWhile is_digit s"
  using digits_are_digits [of n] by (simp add: list_all_iff dropWhile_append2)

lemma hd_digits: "\<exists>c cs. digits n = c # cs \<and> is_digit c"
  using digits_are_digits [of n] by (cases "digits n") auto

lemma not_digit [simp]: "\<not> is_digit (CHR ''-'')" "\<not> is_digit (CHR ''.'')"
  by (simp_all add: is_digit_def)

lemma sql_magnitude_digits: "sql_magnitude (digits n) = Some (int n * 10 ^ 6)"
proof -
  have d: "takeWhile is_digit (digits n) = digits n" "dropWhile is_digit (digits n) = []"
    using digits_are_digits [of n] by (simp_all only: list_all_iff takeWhile_eq_all_conv dropWhile_eq_Nil_conv)
  show ?thesis unfolding sql_magnitude_def Let_def d by (simp add: digits_value_digits)
qed

lemma digit_not_minus: "is_digit c \<Longrightarrow> c \<noteq> CHR ''-''"
  by auto

lemma sql_number_fmt_d: "sql_number (fmt_d n) = Some (n * 10 ^ 6)"
proof (cases "n < 0")
  case True
  then show ?thesis by (simp add: fmt_d_def sql_number_def sql_magnitude_digits)
next
  case False
  obtain c cs where c: "digits (nat n) = c # cs" "is_digit c" using hd_digits by blast
  then have "sql_number (fmt_d n) = sql_magnitude (digits (nat n))"
    using False by (simp add: fmt_d_def sql_number_def digit_not_minus)
  then show ?thesis using False by (simp add: sql_magnitude_digits)
qed

lemma sql_integer_fmt_d [simp]: "sql_integer (fmt_d n) = Some n"
  by (simp add: sql_integer_def sql_number_fmt_d)

lemma zero_fill_digits: "list_all is_digit (zero_fill w (digits n))"
proof -
  have "is_digit (CHR ''0'')" by (simp add: is_digit_def)
  then show ?thesis using digits_are_digits [of n] unfolding zero_fill_def list_all_iff by auto
qed

lemma digits_value_zero_fill: "digits_value (zero_fill w (digits n)) = int n"
proof -
  have "foldl (\<lambda>n c. 10 * n + (of_char c - 48)) (0::int) (replicate k (CHR ''0'') @ s) =
      foldl (\<lambda>n c. 10 * n + (of_char c - 48)) 0 s" for k s
    by (induction k) simp_all
  moreover have "takeWhile is_digit (zero_fill w (digits n)) = zero_fill w (digits n)"
    using zero_fill_digits by (simp only: list_all_iff takeWhile_eq_all_conv)
  ultimately show ?thesis unfolding digits_value_def by (simp only: zero_fill_def foldl_digits)
qed

lemma sql_magnitude_decimals:
  assumes "m < 10 ^ 6"
  shows "sql_magnitude (digits n @ CHR ''.'' # zero_fill 6 (digits m)) = Some (int n * 10 ^ 6 + int m)"
proof -
  have len: "length (zero_fill 6 (digits m)) = 6"
    using length_digits_le [OF assms] by (simp add: zero_fill_def)
  show ?thesis
    by (simp add: sql_magnitude_def Let_def takeWhile_digits dropWhile_digits zero_fill_digits digits_value_digits len
        digits_value_zero_fill)
qed

text \<open>\<open>%f\<close> prints the number rounded to millionths.\<close>

lemma sql_number_fmt_f: "sql_number (fmt_f 6 x) = Some (rne (x * 10 ^ 6))"
proof -
  define v where "v = nat (rne (\<bar>x\<bar> * 10 ^ 6))"
  have v0: "0 \<le> rne (\<bar>x\<bar> * 10 ^ 6)" by (rule rne_ge) simp
  have mag: "sql_magnitude (digits (v div 10 ^ 6) @ CHR ''.'' # zero_fill 6 (digits (v mod 10 ^ 6))) = Some (int v)"
    using sql_magnitude_decimals [of "v mod 10 ^ 6" "v div 10 ^ 6"] by (simp add: zdiv_int zmod_int)
  show ?thesis
  proof (cases "x < 0")
    case True
    then have "sql_number (fmt_f 6 x) = Some (- int v)" using mag by (simp add: fmt_f_def sql_number_def v_def Let_def)
    moreover have "rne (x * 10 ^ 6) = - rne (\<bar>x\<bar> * 10 ^ 6)" using True rne_minus [of "x * 10 ^ 6"] by simp
    ultimately show ?thesis using v0 by (simp add: v_def)
  next
    case False
    obtain c cs where c: "digits (v div 10 ^ 6) = c # cs" "is_digit c" using hd_digits by blast
    then have "sql_number (fmt_f 6 x) = Some (int v)" using False mag
      by (simp add: fmt_f_def sql_number_def v_def Let_def digit_not_minus)
    then show ?thesis using v0 False by (simp add: v_def)
  qed
qed

text \<open>Escaping and reading are inverse.\<close>

lemma sql_string_escape: "sql_string (escape_quotes s) = Some s"
  by (induction s) simp_all

lemma sql_string_append: "sql_string a = Some x \<Longrightarrow> sql_string (a @ b) = map_option (append x) (sql_string b)"
proof (induction a arbitrary: x rule: sql_string.induct)
  case (2 c cs)
  then show ?case
    by (cases "sql_string b") (auto split: if_splits list.splits)
qed (cases "sql_string b"; simp)

section \<open>Updated rows\<close>

lemma filter_update_rows: "(\<And>r. Q (g r) = Q r) \<Longrightarrow> filter Q (update_rows P g rs) = update_rows P g (filter Q rs)"
  by (induction rs) (simp_all add: update_rows_def)

lemma map_update_rows: "(\<And>r. f (g r) = f r) \<Longrightarrow> map f (update_rows P g rs) = map f rs"
  by (induction rs) (simp_all add: update_rows_def)

lemma length_update_rows [simp]: "length (update_rows P g rs) = length rs"
  by (simp add: update_rows_def)

section \<open>Steps of a transaction\<close>

lemma query_reads: "0 < sql_columns s \<Longrightarrow> run_sql ts s t = Some (rows, t1) \<Longrightarrow> t1 = t"
  by (cases s) (auto simp: sql_columns_def bind_eq_Some_conv)

lemma command_no_rows: "sql_columns s = 0 \<Longrightarrow> run_sql ts s t = Some (rows, t1) \<Longrightarrow> rows = []"
  by (cases s) (auto simp: sql_columns_def bind_eq_Some_conv split: if_splits)

text \<open>What the parts of a transaction establish: nothing new, or the effect of their statement.\<close>

definition selected :: "sql_env \<Rightarrow> statement \<Rightarrow> nat \<Rightarrow> tables \<Rightarrow> bytes option list option \<Rightarrow> tables \<Rightarrow> bool" where
  "selected e s k t x t1 \<longleftrightarrow> t1 = t \<and> (case x of None \<Rightarrow> True | Some vs \<Rightarrow>
     (\<exists>ts r rs. run_sql ts s t = Some (r # rs, t) \<and> vs = map (\<lambda>i. copy_cell e (r ! i)) [0..<k]))"

definition executed :: "statement \<Rightarrow> tables \<Rightarrow> bool \<Rightarrow> tables \<Rightarrow> bool" where
  "executed s t ok t1 \<longleftrightarrow> (if ok then \<exists>ts. run_sql ts s t = Some ([], t1) else t1 = t)"

lemma works_selected:
  assumes "0 < sql_columns s" "k \<le> sql_columns s"
  shows "works c0 t (select_row e s k) (selected e s k t)"
  by (rule works_select) (use assms query_reads in \<open>auto simp: selected_def\<close>)

lemma works_executed: "sql_columns s = 0 \<Longrightarrow> works c0 t (sql_execute_sqlite e s) (executed s t)"
  by (rule works_command) (auto simp: executed_def dest: command_no_rows)

lemma works_if: "(b \<Longrightarrow> works c0 t m Q) \<Longrightarrow> (\<not> b \<Longrightarrow> works c0 t n Q) \<Longrightarrow> works c0 t (if b then m else n) Q"
  by simp

lemma works_case_option:
  "(x = None \<Longrightarrow> works c0 t m Q) \<Longrightarrow> (\<And>v. x = Some v \<Longrightarrow> works c0 t (f v) Q) \<Longrightarrow>
    works c0 t (case x of None \<Rightarrow> m | Some v \<Rightarrow> f v) Q"
  by (cases x) simp_all

lemma works_let: "works c0 t (f x) Q \<Longrightarrow> works c0 t (let v = x in f v) Q"
  by simp

lemma works_case_options:
  "(\<And>a b. x = Some a \<Longrightarrow> y = Some b \<Longrightarrow> works c0 t (f a b) Q) \<Longrightarrow> works c0 t n Q \<Longrightarrow>
    works c0 t (case (x, y) of (Some a, Some b) \<Rightarrow> f a b | _ \<Rightarrow> n) Q"
  by (cases x; cases y) simp_all

lemmas works_intros = works_return works_let works_if works_case_option
  works_bind [OF works_selected] works_bind [OF works_executed]

text \<open>What the text of a value has to satisfy.\<close>

definition text_ok :: "sql_env \<Rightarrow> bool" where
  "text_ok e \<longleftrightarrow> (\<forall>n. column_text e (Whole n) = fmt_d n) \<and> (\<forall>s. column_text e (Text s) = s) \<and>
     (\<forall>m. sql_number (column_text e (Decimal m)) = Some m) \<and>
     (\<forall>n. - (2 ^ 31) \<le> n \<and> n < 2 ^ 31 \<longrightarrow> atoi (column_text e (Decimal (10 ^ 6 * n))) = n) \<and>
     (null_copy e = None \<or> null_copy e = Some [])"

lemma copy_whole [simp]: "text_ok e \<Longrightarrow> copy_cell e (Whole n) = Some (fmt_d n)"
  by (simp add: text_ok_def copy_cell_def)

section \<open>New-Order\<close>

text \<open>The amount of an order line in millionths, as it is computed and printed.\<close>

definition line_amount :: "sql_env \<Rightarrow> int \<Rightarrow> int \<Rightarrow> int" where
  "line_amount e price q = rne (fl32 (fl (atof (column_text e (Decimal price)) * fl32 (of_int q))) * 10 ^ 6)"

text \<open>The quantity of a stock row as the transaction reads it, which is the quantity if 32 bits can hold it.\<close>

definition stock_read :: "(cell \<Rightarrow> bytes) \<Rightarrow> stock_r \<Rightarrow> int" where
  "stock_read tx r = atoi (tx (Decimal (10 ^ 6 * S_QUANTITY r)))"

lemma stock_read_exact:
  "text_ok e \<Longrightarrow> - (2 ^ 31) \<le> S_QUANTITY r \<Longrightarrow> S_QUANTITY r < 2 ^ 31 \<Longrightarrow> stock_read (column_text e) r = S_QUANTITY r"
  by (simp add: stock_read_def text_ok_def)

text \<open>
  One line: the stock of the home warehouse falls by the quantity, or by 91 less where fewer than 10
  would remain, and the line is added.
\<close>

definition line_done :: "sql_env \<Rightarrow> new_order_t \<Rightarrow> int \<Rightarrow> nat \<Rightarrow> tables \<Rightarrow> tables \<Rightarrow> bool" where
  "line_done e data k i t t1 \<longleftrightarrow> (let ol = no_order_line data ! i; q = ol_quantity ol; w = no_w_id data; d = no_d_id data in
     \<exists>item stock dst info ts. let level = stock_read (column_text e) stock in
       i < 15 \<and> item \<in> set (item_t t) \<and> I_ID item = ol_i_id ol \<and> ol_i_id ol \<noteq> 0 \<and>
       stock \<in> set (stock_t t) \<and> is_stock w (ol_i_id ol) stock \<and>
       dist_column (s_dist ! nat (d - 1)) stock = Some dst \<and> sql_string (str_arg (copy_cell e (text_cell dst))) = Some info \<and>
       \<not> (\<exists>r \<in> set (order_line_t t). is_line_of w d k r \<and> OL_NUMBER r = int i + 1) \<and>
       t1 = t\<lparr>stock_t := update_rows (is_stock w (ol_i_id ol))
                (\<lambda>r. r\<lparr>S_QUANTITY := S_QUANTITY r - (if q + 10 \<le> level then q else q - 91)\<rparr>) (stock_t t),
              order_line_t := order_line_t t @ [\<lparr>OL_O_ID = k, OL_D_ID = d, OL_W_ID = w, OL_NUMBER = int i + 1,
                OL_I_ID = ol_i_id ol, OL_SUPPLY_W_ID = ol_supply_w_id ol, OL_DELIVERY_D = Some ts, OL_QUANTITY = q,
                OL_AMOUNT = line_amount e (I_PRICE item) q, OL_DIST_INFO = Some info\<rparr>]\<rparr>)"

lemma those_Cons_Some: "those (x # xs) = Some ys \<longleftrightarrow> (\<exists>z zs. x = Some z \<and> those xs = Some zs \<and> ys = z # zs)"
  by (auto split: option.splits)

lemma those_map_Cons: "those (map f xs) = Some (y # ys) \<Longrightarrow> \<exists>x \<in> set xs. f x = Some y"
  by (cases xs) (auto split: option.splits)

lemma first_row: "map f (filter P xs) = y # ys \<Longrightarrow> \<exists>x \<in> set xs. P x \<and> f x = y"
  by (fastforce simp: map_eq_Cons_conv filter_eq_Cons_iff)

lemma selected_SomeD:
  assumes "selected e s k t (Some vs) t1"
  obtains ts r rs where "run_sql ts s t = Some (r # rs, t)" "t1 = t" "vs = map (\<lambda>i. copy_cell e (r ! i)) [0..<k]"
  using assms by (auto simp: selected_def)

lemma line_done_by_statements:
  assumes e: "text_ok e" and ol: "ol = no_order_line data ! i" "ol_i_id ol \<noteq> 0" and i: "i < 15"
    and item: "selected e (New_order_7 (ol_i_id ol)) 3 t (Some iv) ta" "iv ! 0 = Some price"
    and stock: "selected e (New_order_8 (s_dist ! nat (no_d_id data - 1)) (ol_i_id ol) (no_w_id data)) 3 ta (Some sv) tb" "sv ! 0 = Some qty"
    and upd: "executed (New_order_9 (if ol_quantity ol + 10 \<le> atoi qty then ol_quantity ol else ol_quantity ol - 91)
       (ol_i_id ol) (no_w_id data)) tb True tc"
    and ins: "executed (New_order_10 (fmt_d k) (no_d_id data) (no_w_id data) (int i + 1) (ol_i_id ol) (ol_supply_w_id ol)
       (ol_quantity ol) (fl32 (fl (atof price * fl32 (of_int (ol_quantity ol))))) (str_arg (sv ! 1))) tc True t1"
  shows "line_done e data k i t t1"
proof -
  obtain ir where ir: "ir \<in> set (item_t t)" "I_ID ir = ol_i_id ol" "ta = t" "price = column_text e (Decimal (I_PRICE ir))"
  proof -
    obtain ts r rs where r: "run_sql ts (New_order_7 (ol_i_id ol)) t = Some (r # rs, t)" "ta = t"
      "iv = map (\<lambda>i. copy_cell e (r ! i)) [0..<3]" using item(1) by (rule selected_SomeD)
    from r(1) have "map (\<lambda>r. [Decimal (I_PRICE r), text_cell (I_NAME r), text_cell (I_DATA r)])
        (filter (\<lambda>r. I_ID r = ol_i_id ol) (item_t t)) = r # rs" by simp
    from first_row [OF this] obtain ir where "ir \<in> set (item_t t)" "I_ID ir = ol_i_id ol" "r ! 0 = Decimal (I_PRICE ir)"
      by auto
    then show thesis using that r item(2) by (simp add: copy_cell_def)
  qed
  obtain ts r rs where r: "run_sql ts (New_order_8 (s_dist ! nat (no_d_id data - 1)) (ol_i_id ol) (no_w_id data)) t = Some (r # rs, t)" "tb = t"
    "sv = map (\<lambda>i. copy_cell e (r ! i)) [0..<3]" using stock(1) unfolding ir(3) by (rule selected_SomeD)
  then obtain sr v where sr: "sr \<in> set (stock_t t)" "is_stock (no_w_id data) (ol_i_id ol) sr" "r ! 0 = Decimal (10 ^ 6 * S_QUANTITY sr)"
    and v: "dist_column (s_dist ! nat (no_d_id data - 1)) sr = Some v" "r ! 1 = text_cell v"
    by (auto simp: bind_eq_Some_conv dest!: those_map_Cons)
  then have qty: "atoi qty = stock_read (column_text e) sr" using stock(2) r(3) by (simp add: copy_cell_def stock_read_def)
  have info: "sv ! Suc 0 = copy_cell e (text_cell v)" using r(3) v(2) by simp
  have tc: "tc = t\<lparr>stock_t := update_rows (is_stock (no_w_id data) (ol_i_id ol)) (\<lambda>r. r\<lparr>S_QUANTITY := S_QUANTITY r -
      (if ol_quantity ol + 10 \<le> atoi qty then ol_quantity ol else ol_quantity ol - 91)\<rparr>) (stock_t t)\<rparr>"
    using upd r(2) by (auto simp: executed_def)
  from ins obtain ts' u where "\<not> (\<exists>r \<in> set (order_line_t t). is_line_of (no_w_id data) (no_d_id data) k r \<and> OL_NUMBER r = int i + 1)"
    "t1 = tc\<lparr>order_line_t := order_line_t t @ [\<lparr>OL_O_ID = k, OL_D_ID = no_d_id data, OL_W_ID = no_w_id data, OL_NUMBER = int i + 1,
                OL_I_ID = ol_i_id ol, OL_SUPPLY_W_ID = ol_supply_w_id ol, OL_DELIVERY_D = Some ts', OL_QUANTITY = ol_quantity ol,
                OL_AMOUNT = line_amount e (I_PRICE ir) (ol_quantity ol), OL_DIST_INFO = Some u\<rparr>]\<rparr>"
      "sql_string (str_arg (copy_cell e (text_cell v))) = Some u"
    by (auto simp: executed_def tc bind_eq_Some_conv sql_number_fmt_f line_amount_def ir(4) list_ex_iff info split: if_splits)
  then show ?thesis
    unfolding line_done_def Let_def ol(1) [symmetric]
    by (intro exI [of _ ir] exI [of _ sr] exI [of _ v] exI [of _ u] exI [of _ ts'])
      (use ir sr v(1) ol(2) tc i in \<open>simp add: qty\<close>)
qed

lemma new_order_line_works:
  assumes "text_ok e"
  shows "works c0 t (new_order_line e data (fmt_d k) i)
    (\<lambda>r t1. case r of Line v \<Rightarrow> line_done e data k i t t1 | Stop rc \<Rightarrow> rc \<noteq> 0 | Crashed \<Rightarrow> True)"
  unfolding new_order_line_def
  by (intro works_intros; (simp add: sql_columns_def)?)
    (auto intro: line_done_by_statements [OF assms refl])

fun lines_done :: "sql_env \<Rightarrow> new_order_t \<Rightarrow> int \<Rightarrow> nat list \<Rightarrow> tables \<Rightarrow> tables \<Rightarrow> bool" where
  "lines_done e data k [] t t1 = (t1 = t)"
| "lines_done e data k (i # is) t t1 = (\<exists>t2. line_done e data k i t t2 \<and> lines_done e data k is t2 t1)"

lemma new_order_lines_works:
  assumes "text_ok e"
  shows "works c0 t (new_order_lines e data (fmt_d k) is)
    (\<lambda>r t1. case r of Inr vs \<Rightarrow> lines_done e data k is t t1 \<and> length vs = length is | Inl rc \<Rightarrow> rc \<noteq> Some 0)"
proof (induction "is" arbitrary: t)
  case Nil
  show ?case by (auto intro: works_return)
next
  case (Cons i "is")
  show ?case unfolding new_order_lines.simps
  proof (rule works_bind [OF new_order_line_works [OF assms]])
    fix r t1
    assume r: "case r of Line v \<Rightarrow> line_done e data k i t t1 | Stop rc \<Rightarrow> rc \<noteq> 0 | Crashed \<Rightarrow> True"
    show "works c0 t1 (case r of Line v \<Rightarrow> do {
         r \<leftarrow> new_order_lines e data (fmt_d k) is;
         State_Monad.return (case r of Inl x \<Rightarrow> Inl x | Inr vs \<Rightarrow> Inr (v # vs)) }
       | Stop rc \<Rightarrow> State_Monad.return (Inl (Some rc)) | Crashed \<Rightarrow> State_Monad.return (Inl None))
      (\<lambda>r t1. case r of Inr vs \<Rightarrow> lines_done e data k (i # is) t t1 \<and> length vs = length (i # is) | Inl rc \<Rightarrow> rc \<noteq> Some 0)"
      using r by (cases r) (auto intro!: works_return works_bind [OF Cons] split: sum.split sum.split_asm)
  qed
qed

text \<open>The tables after the order is entered, without its lines.\<close>

definition order_entered :: "new_order_t \<Rightarrow> int \<Rightarrow> bytes \<Rightarrow> tables \<Rightarrow> tables" where
  "order_entered data k ts t = (let w = no_w_id data; d = no_d_id data in
     t\<lparr>district_t := update_rows (in_district w d) (\<lambda>r. r\<lparr>D_NEXT_O_ID := D_NEXT_O_ID r + 1\<rparr>) (district_t t),
       new_order_t := new_order_t t @ [\<lparr>NO_O_ID = k, NO_D_ID = d, NO_W_ID = w\<rparr>],
       orders_t := orders_t t @ [\<lparr>O_ID = k, O_D_ID = d, O_W_ID = w, O_C_ID = no_c_id data, O_ENTRY_D = ts,
         O_CARRIER_ID = None, O_OL_CNT = no_o_ol_cnt data, O_ALL_LOCAL = no_o_all_local data\<rparr>]\<rparr>)"

text \<open>A New-Order transaction that reports success.\<close>

definition new_order_done :: "sql_env \<Rightarrow> new_order_t \<Rightarrow> tables \<Rightarrow> tables \<Rightarrow> bool" where
  "new_order_done e data t t1 \<longleftrightarrow> (\<exists>dr ts.
     dr \<in> set (district_t t) \<and> in_district (no_w_id data) (no_d_id data) dr \<and>
     (\<exists>r \<in> set (warehouse_t t). W_ID r = no_w_id data) \<and>
     (\<exists>r \<in> set (customer_t t). is_customer (no_w_id data) (no_d_id data) (no_c_id data) r) \<and>
     \<not> (\<exists>r \<in> set (new_order_t t). is_new_order (no_w_id data) (no_d_id data) (D_NEXT_O_ID dr) r) \<and>
     \<not> (\<exists>r \<in> set (orders_t t). is_order (no_w_id data) (no_d_id data) (D_NEXT_O_ID dr) r) \<and>
     lines_done e data (D_NEXT_O_ID dr) [0..<nat (no_o_ol_cnt data)] (order_entered data (D_NEXT_O_ID dr) ts t) t1)"

lemma new_order_done_by_statements:
  assumes e: "text_ok e"
    and w: "selected e (New_order_1 w_id) 1 t (Some wv) ta"
    and d: "selected e (New_order_2 w_id d_id) 2 ta (Some dv) tb"
    and u: "executed (New_order_3 w_id d_id) tb True tc"
    and c: "selected e (New_order_4 w_id d_id c_id) 3 tc (Some cv) td"
  obtains k dr where "dr \<in> set (district_t t)" "in_district w_id d_id dr" "\<exists>r \<in> set (warehouse_t t). W_ID r = w_id"
    "\<exists>r \<in> set (customer_t t). is_customer w_id d_id c_id r" "k = D_NEXT_O_ID dr" "str_arg (dv ! 1) = fmt_d k"
    "td = t\<lparr>district_t := update_rows (in_district w_id d_id) (\<lambda>r. r\<lparr>D_NEXT_O_ID := D_NEXT_O_ID r + 1\<rparr>) (district_t t)\<rparr>"
proof -
  obtain tw wr ws where W: "run_sql tw (New_order_1 w_id) t = Some (wr # ws, t)" "ta = t" using w by (rule selected_SomeD)
  obtain t2 dr ds where D: "run_sql t2 (New_order_2 w_id d_id) t = Some (dr # ds, t)" "tb = t"
    "dv = map (\<lambda>i. copy_cell e (dr ! i)) [0..<2]" using d unfolding W(2) by (rule selected_SomeD)
  obtain t3 cr cs where C: "run_sql t3 (New_order_4 w_id d_id c_id) tc = Some (cr # cs, tc)" "td = tc" using c by (rule selected_SomeD)
  have tc: "tc = t\<lparr>district_t := update_rows (in_district w_id d_id) (\<lambda>r. r\<lparr>D_NEXT_O_ID := D_NEXT_O_ID r + 1\<rparr>) (district_t t)\<rparr>"
    using u D(2) by (auto simp: executed_def)
  have "map (\<lambda>r. [Decimal (D_TAX r), Whole (D_NEXT_O_ID r)]) (filter (in_district w_id d_id) (district_t t)) = dr # ds"
    using D(1) by simp
  from first_row [OF this] obtain r where r: "r \<in> set (district_t t)" "in_district w_id d_id r"
    "dr = [Decimal (D_TAX r), Whole (D_NEXT_O_ID r)]" by auto
  have "\<exists>r \<in> set (warehouse_t t). W_ID r = w_id"
    using W(1) first_row [of "\<lambda>r. [Decimal (W_TAX r)]" "\<lambda>r. W_ID r = w_id" "warehouse_t t"] by (auto simp: warehouses_with_def)
  moreover have "\<exists>r \<in> set (customer_t t). is_customer w_id d_id c_id r"
  proof -
    have "map (\<lambda>r. [Decimal (C_DISCOUNT r), text_cell (C_LAST r), text_cell (C_CREDIT r)])
        (filter (is_customer w_id d_id c_id) (customer_t t)) = cr # cs"
      using C(1) by (simp add: customers_with_def tc)
    from first_row [OF this] show ?thesis by blast
  qed
  moreover have "str_arg (dv ! 1) = fmt_d (D_NEXT_O_ID r)" using D(3) r(3) e by (simp add: str_arg_def)
  ultimately show thesis using that r(1,2) tc C(2) by blast
qed

lemma order_entered_by_statements:
  assumes no: "executed (New_order_5 (fmt_d k) (no_w_id data) (no_d_id data)) td True te"
    and o': "executed (New_order_6 (fmt_d k) (no_d_id data) (no_w_id data) (no_c_id data) (no_o_ol_cnt data) (no_o_all_local data)) te True tf"
    and td: "td = t\<lparr>district_t := update_rows (in_district (no_w_id data) (no_d_id data)) (\<lambda>r. r\<lparr>D_NEXT_O_ID := D_NEXT_O_ID r + 1\<rparr>) (district_t t)\<rparr>"
  shows "\<exists>ts. tf = order_entered data k ts t"
    "\<not> (\<exists>r \<in> set (new_order_t t). is_new_order (no_w_id data) (no_d_id data) k r)"
    "\<not> (\<exists>r \<in> set (orders_t t). is_order (no_w_id data) (no_d_id data) k r)"
  using no o' unfolding td
  by (auto simp: executed_def list_ex_iff order_entered_def Let_def split: if_splits)

lemma new_order_rest_works:
  assumes e: "text_ok e"
    and "selected e (New_order_1 (no_w_id data)) 1 t (Some wv) ta"
      "selected e (New_order_2 (no_w_id data) (no_d_id data)) 2 ta (Some dv) tb"
      "executed (New_order_3 (no_w_id data) (no_d_id data)) tb True tc"
      "selected e (New_order_4 (no_w_id data) (no_d_id data) (no_c_id data)) 3 tc (Some cv) td"
      "executed (New_order_5 (str_arg (dv ! 1)) (no_w_id data) (no_d_id data)) td True te"
      "executed (New_order_6 (str_arg (dv ! 1)) (no_d_id data) (no_w_id data) (no_c_id data) (no_o_ol_cnt data) (no_o_all_local data)) te True tf"
    and Q: "\<And>(r :: int option + line_values list) t1. (case r of Inr vs \<Rightarrow> new_order_done e data t t1 | Inl rc \<Rightarrow> rc \<noteq> Some (0::int)) \<Longrightarrow> Q (f r) t1"
  shows "works c0 tf (new_order_lines e data (str_arg (dv ! 1)) [0..<nat (no_o_ol_cnt data)] \<bind> (\<lambda>r. State_Monad.return (f r))) Q"
proof -
  obtain k dr where k: "dr \<in> set (district_t t)" "in_district (no_w_id data) (no_d_id data) dr"
    "\<exists>r \<in> set (warehouse_t t). W_ID r = no_w_id data"
    "\<exists>r \<in> set (customer_t t). is_customer (no_w_id data) (no_d_id data) (no_c_id data) r" "k = D_NEXT_O_ID dr" "str_arg (dv ! 1) = fmt_d k"
    "td = t\<lparr>district_t := update_rows (in_district (no_w_id data) (no_d_id data)) (\<lambda>r. r\<lparr>D_NEXT_O_ID := D_NEXT_O_ID r + 1\<rparr>) (district_t t)\<rparr>"
    by (rule new_order_done_by_statements [OF e assms(2-5)])
  note entered = order_entered_by_statements [OF assms(6,7) [unfolded k(6)] k(7)]
  show ?thesis unfolding k(6)
  proof (rule works_bind [OF new_order_lines_works [OF e]])
    fix r :: "int option + line_values list" and t1
    assume r: "case r of Inl rc \<Rightarrow> rc \<noteq> Some 0
      | Inr vs \<Rightarrow> lines_done e data k [0..<nat (no_o_ol_cnt data)] tf t1 \<and> length vs = length [0..<nat (no_o_ol_cnt data)]"
    have "case r of Inr vs \<Rightarrow> new_order_done e data t t1 | Inl rc \<Rightarrow> rc \<noteq> Some 0"
    proof (cases r)
      case (Inr vs)
      then show ?thesis using r entered k(1-5) by (auto simp: new_order_done_def)
    qed (use r in simp)
    then have "Q (f r) t1" by (rule Q)
    then show "works c0 t1 (State_Monad.return (f r)) Q" by (rule works_return)
  qed
qed

lemma new_order_works:
  assumes e: "text_ok e"
  shows "works c0 t (new_order_nonsp e data out) (\<lambda>(rc, out1) t1. rc = Some 0 \<longrightarrow> new_order_done e data t t1)"
  unfolding new_order_nonsp_def
  by (intro works_intros; (simp add: sql_columns_def)?)
    (rule new_order_rest_works [unfolded One_nat_def, OF e]; (simp split: sum.splits)?)

section \<open>Delivery\<close>

text \<open>One district: its oldest new order is delivered.\<close>

definition order_delivered :: "int \<Rightarrow> int \<Rightarrow> int \<Rightarrow> int \<Rightarrow> int \<Rightarrow> bytes \<Rightarrow> tables \<Rightarrow> tables" where
  "order_delivered w d carrier k c ts t = t\<lparr>
     new_order_t := filter (\<lambda>r. \<not> is_new_order w d k r) (new_order_t t),
     orders_t := update_rows (is_order w d k) (O_CARRIER_ID_update (\<lambda>_. Some carrier)) (orders_t t),
     order_line_t := update_rows (is_line_of w d k) (OL_DELIVERY_D_update (\<lambda>_. Some ts)) (order_line_t t),
     customer_t := update_rows (is_customer w d c) (\<lambda>r. r\<lparr>C_DELIVERY_CNT := C_DELIVERY_CNT r + 1,
       C_BALANCE := C_BALANCE r + sum_list (map OL_AMOUNT (filter (is_line_of w d k) (order_line_t t)))\<rparr>) (customer_t t)\<rparr>"

definition district_delivered :: "int \<Rightarrow> int \<Rightarrow> int \<Rightarrow> tables \<Rightarrow> tables \<Rightarrow> bool" where
  "district_delivered w carrier d t t1 \<longleftrightarrow> (\<exists>no ord ts.
     no \<in> set (new_order_t t) \<and> NO_W_ID no = w \<and> NO_D_ID no = d \<and>
     (\<forall>r \<in> set (new_order_t t). NO_W_ID r = w \<and> NO_D_ID r = d \<longrightarrow> NO_O_ID no \<le> NO_O_ID r) \<and>
     ord \<in> set (orders_t t) \<and> is_order w d (NO_O_ID no) ord \<and>
     (\<exists>l \<in> set (order_line_t t). is_line_of w d (NO_O_ID no) l) \<and>
     t1 = order_delivered w d carrier (NO_O_ID no) (O_C_ID ord) ts t)"

lemma first_sorted:
  assumes "map f (take 1 (sort_key g (filter P xs))) = y # ys"
  shows "\<exists>x \<in> set xs. P x \<and> f x = y \<and> (\<forall>z \<in> set xs. P z \<longrightarrow> g x \<le> g z)"
proof -
  obtain x zs where x: "sort_key g (filter P xs) = x # zs" "f x = y"
    using assms by (cases "sort_key g (filter P xs)") auto
  have "sorted (map g (x # zs))" unfolding x(1) [symmetric] by (rule sorted_sort_key)
  moreover have "set (x # zs) = {z \<in> set xs. P z}" unfolding x(1) [symmetric] by simp
  ultimately have "x \<in> set xs" "P x" "\<forall>z \<in> set xs. P z \<longrightarrow> g x \<le> g z" by auto
  then show ?thesis using x(2) by blast
qed

lemma delivered_by_statements:
  assumes e: "text_ok e"
    and no: "selected e (Delivery_1 w d) 1 t (Some nv) ta" "nv ! 0 = Some k_text"
    and del: "executed (Delivery_2 k_text w d) ta True tb"
    and cu: "selected e (Delivery_3 k_text w d) 1 tb (Some cv) tc"
    and car: "executed (Delivery_4 carrier k_text w d) tc True td"
    and lin: "executed (Delivery_5 k_text w d) td True te"
    and am: "selected e (Delivery_6 k_text w d) 1 te (Some av) tf" "av ! 0 = Some amount"
    and bal: "executed (Delivery_7 amount (str_arg (cv ! 0)) w d) tf True tg"
  shows "district_delivered w carrier d t tg"
proof -
  obtain ts r rs where N: "run_sql ts (Delivery_1 w d) t = Some (r # rs, t)" "ta = t"
    "nv = map (\<lambda>i. copy_cell e (r ! i)) [0..<1]" using no(1) by (rule selected_SomeD)
  then have "map (\<lambda>r. [Whole (NO_O_ID r)]) (take 1 (sort_key NO_O_ID
       (filter (\<lambda>r. NO_W_ID r = w \<and> NO_D_ID r = d) (new_order_t t)))) = r # rs" by simp
  from first_sorted [OF this] obtain nr where nr: "nr \<in> set (new_order_t t)" "NO_W_ID nr = w" "NO_D_ID nr = d" "r = [Whole (NO_O_ID nr)]"
    "\<forall>r \<in> set (new_order_t t). NO_W_ID r = w \<and> NO_D_ID r = d \<longrightarrow> NO_O_ID nr \<le> NO_O_ID r" by auto
  define k where "k = NO_O_ID nr"
  have kt: "k_text = fmt_d k" using no(2) N(3) nr(4) e by (simp add: k_def)
  have tb: "tb = t\<lparr>new_order_t := filter (\<lambda>r. \<not> is_new_order w d k r) (new_order_t t)\<rparr>"
    using del by (auto simp: executed_def kt N(2))
  obtain t3 s ss where C: "run_sql t3 (Delivery_3 k_text w d) tb = Some (s # ss, tb)" "tc = tb"
    "cv = map (\<lambda>i. copy_cell e (s ! i)) [0..<1]" using cu by (rule selected_SomeD)
  then have "map (\<lambda>r. [Whole (O_C_ID r)]) (filter (is_order w d k) (orders_t t)) = s # ss" by (simp add: kt tb)
  from first_row [OF this] obtain ord where ord: "ord \<in> set (orders_t t)" "is_order w d k ord" "s = [Whole (O_C_ID ord)]" by auto
  have ct: "str_arg (cv ! 0) = fmt_d (O_C_ID ord)" using C(3) ord(3) e by (simp add: str_arg_def)
  obtain ts5 where te: "te = tb\<lparr>orders_t := update_rows (is_order w d k) (O_CARRIER_ID_update (\<lambda>_. Some carrier)) (orders_t t),
     order_line_t := update_rows (is_line_of w d k) (OL_DELIVERY_D_update (\<lambda>_. Some ts5)) (order_line_t t)\<rparr>"
    using car lin by (auto simp: executed_def kt C(2) tb)
  have same: "map OL_AMOUNT (filter (is_line_of w d k) (order_line_t te)) = map OL_AMOUNT (filter (is_line_of w d k) (order_line_t t))"
    by (simp add: te tb filter_update_rows map_update_rows is_line_of_def)
  define x where "x = map OL_AMOUNT (filter (is_line_of w d k) (order_line_t t))"
  obtain t6 a as where A: "run_sql t6 (Delivery_6 k_text w d) te = Some (a # as, te)" "tf = te"
    "av = map (\<lambda>i. copy_cell e (a ! i)) [0..<1]" using am(1) by (rule selected_SomeD)
  then have a: "a = [sum_cell x]" using same by (simp add: kt x_def)
  obtain v where v: "sql_number amount = Some v" using bal by (auto simp: executed_def bind_eq_Some_conv)
  have "x \<noteq> [] \<and> v = sum_list x"
  proof (cases "x = []")
    case True
    then have "null_copy e = Some amount" using am(2) A(3) a by (simp add: sum_cell_def copy_cell_def)
    then show ?thesis using e v by (auto simp: text_ok_def sql_number_def)
  next
    case False
    then have "amount = column_text e (Decimal (sum_list x))" using am(2) A(3) a by (simp add: sum_cell_def copy_cell_def)
    then show ?thesis using e v False by (simp add: text_ok_def)
  qed
  then have x: "\<exists>l \<in> set (order_line_t t). is_line_of w d k l" "v = sum_list x"
    by (auto simp: x_def filter_empty_conv)
  have "tg = order_delivered w d carrier k (O_C_ID ord) ts5 t"
    using bal v x(2) by (auto simp: executed_def ct A(2) te tb order_delivered_def x_def)
  then show ?thesis using nr ord x(1) unfolding district_delivered_def k_def by blast
qed

lemma delivery_district_works:
  assumes e: "text_ok e"
  shows "works c0 t (delivery_district e data d)
    (\<lambda>ok t1. ok \<longrightarrow> t1 = t \<or> district_delivered (dl_w_id data) (dl_o_carrier_id data) d t t1)"
proof -
  have last: "works c0 tf (sql_execute_sqlite e (Delivery_7 amount c w d)) Q"
    if "\<And>t1. executed (Delivery_7 amount c w d) tf True t1 \<Longrightarrow> Q True t1" "Q False tf" for amount c w tf Q
    by (rule works_weaken [OF works_executed]) (use that in \<open>auto simp: sql_columns_def executed_def split: if_splits\<close>)
  show ?thesis
    unfolding delivery_district_def
    by (intro works_intros last; (simp add: sql_columns_def selected_def; fail)?)
      (auto intro: delivered_by_statements [OF e])
qed

fun districts_delivered :: "int \<Rightarrow> int \<Rightarrow> int list \<Rightarrow> tables \<Rightarrow> tables \<Rightarrow> bool" where
  "districts_delivered w carrier [] t t1 = (t1 = t)"
| "districts_delivered w carrier (d # ds) t t1 =
     (\<exists>t2. (t2 = t \<or> district_delivered w carrier d t t2) \<and> districts_delivered w carrier ds t2 t1)"

lemma delivery_districts_works:
  assumes e: "text_ok e"
  shows "works c0 t (delivery_districts e data ds)
    (\<lambda>rc t1. rc = - 1 \<or> rc = 1 \<and> districts_delivered (dl_w_id data) (dl_o_carrier_id data) ds t t1)"
proof (induction ds arbitrary: t)
  case Nil
  show ?case by (auto intro: works_return)
next
  case (Cons d ds)
  show ?case unfolding delivery_districts.simps
    by (rule works_bind [OF delivery_district_works [OF e]])
      (auto intro!: works_if works_return works_weaken [OF Cons])
qed

section \<open>The middle customer\<close>

definition cell_id :: "sql_env \<Rightarrow> cell list \<Rightarrow> int" where
  "cell_id e r = (case copy_cell e (r ! 0) of None \<Rightarrow> - 1 | Some s \<Rightarrow> atoi s)"

lemma run_getvalue:
  assumes "holds c0 t k (Row r rs) c" "i < k"
  shows "run_state (sql_getvalue_sqlite e i) c = (copy_cell e (r ! i), c)"
  using assms by (auto simp: run_bind sql_getvalue_sqlite_def holds_def)

lemma fetch_c_ids_rest:
  assumes "\<forall>n. realloc_ok e n"
  shows "holds c0 t k (Row r rs) c \<Longrightarrow> \<not> prefetched c \<Longrightarrow> 0 < k \<Longrightarrow> length rs + 1 \<le> fuel \<Longrightarrow>
    \<exists>j c1. j \<le> length rs \<and> at_end c0 t c1 \<and>
      run_state (fetch_c_ids e fuel alloc ids) c = (Some (Some (ids @ map (cell_id e) (take j rs))), c1)"
proof (induction fuel arbitrary: r rs c alloc ids)
  case 0
  then show ?case by simp
next
  case (Suc fuel)
  from Suc.prems(1,2) show ?case
  proof (cases rule: fetch_next [where e = e])
    case (row r1 rs1 c1)
    define alloc1 where "alloc1 = (if \<not> (16 \<le> length ids \<and> alloc \<le> length ids) then alloc else if alloc = 0 then 32 else 2 * alloc)"
    have "length rs1 + 1 \<le> fuel" using Suc.prems(4) row(1) by simp
    from Suc.IH [OF row(3,4) Suc.prems(3) this, of alloc1 "ids @ [cell_id e r1]"] obtain j c2 where
      J: "j \<le> length rs1" "at_end c0 t c2"
        "run_state (fetch_c_ids e fuel alloc1 (ids @ [cell_id e r1])) c1 = (Some (Some ((ids @ [cell_id e r1]) @ map (cell_id e) (take j rs1))), c2)"
      by blast
    have "run_state (fetch_c_ids e (Suc fuel) alloc ids) c = run_state (fetch_c_ids e fuel alloc1 (ids @ [cell_id e r1])) c1"
      using assms row(2) run_getvalue [OF row(3) Suc.prems(3), of e]
      by (simp add: run_bind Let_def alloc1_def cell_id_def)
    then show ?thesis using J row(1)
      by (intro exI [of _ "Suc j"] exI [of _ c2]) simp
  next
    case (ended c1)
    then show ?thesis by (intro exI [of _ 0] exI [of _ c1]) (simp add: run_bind)
  qed
qed

lemma customer_by_name_works:
  assumes "\<forall>n. realloc_ok e n" "0 < sql_columns s"
  shows "works c0 t (customer_by_name e s) (\<lambda>x t1. t1 = t \<and> x \<noteq> None \<and> (\<forall>id. x = Some (Some id) \<longrightarrow>
     (\<exists>ts rows j. run_sql ts s t = Some (rows, t) \<and> 0 < j \<and> j \<le> length rows \<and> id = middle_id (map (cell_id e) (take j rows)))))"
proof (rule worksI)
  fix c x c2
  assume c: "txn_view c0 t c" and run: "run_state (customer_by_name e s) c = (x, c2)"
  have "txn_view c0 t c2 \<and> x \<noteq> None \<and> (\<forall>id. x = Some (Some id) \<longrightarrow>
     (\<exists>ts rows j. run_sql ts s t = Some (rows, t) \<and> 0 < j \<and> j \<le> length rows \<and> id = middle_id (map (cell_id e) (take j rows))))"
    using c
  proof (cases rule: execute_cases [where s = s and e = e])
    case (row ts r rs t1 c1)
    then have t1: "t1 = t" using query_reads [OF assms(2)] by blast
    define cf where "cf = c1\<lparr>prefetched := False\<rparr>"
    have H: "query_running c1" "holds c0 t (sql_columns s) (Row r rs) cf" "\<not> prefetched cf"
      using row t1 by (auto simp: cf_def cursor_defs)
    have F: "run_state (sql_fetchrow_sqlite e) c1 = (True, cf)"
      using row(4) H(1) by (simp add: sql_fetchrow_sqlite_def run_bind cf_def)
    have fuel: "rows_left c1 = Suc (length rs + 1)" using row(3) by (simp add: rows_left_def holds_def)
    obtain j c3 where J: "j \<le> length rs" "at_end c0 t c3"
      "run_state (fetch_c_ids e (length rs + 1) 0 [cell_id e r]) cf = (Some (Some ([cell_id e r] @ map (cell_id e) (take j rs))), c3)"
      using fetch_c_ids_rest [OF assms(1) H(2,3) assms(2), of "length rs + 1" 0 "[cell_id e r]"] by auto
    have L: "run_state (fetch_c_ids e (rows_left c1) 0 []) c1 = (Some (Some (map (cell_id e) (take (Suc j) (r # rs)))), c3)"
      using J(3) run_getvalue [OF H(2) assms(2), of e] by (simp add: fuel run_bind F cell_id_def)
    define m where "m = middle_id (map (cell_id e) (take (Suc j) (r # rs)))"
    have C: "run_state sql_close_cursor_sqlite c3 = (True, c3)"
      using J(2) by (simp add: sql_close_cursor_sqlite_def run_bind at_end_def)
    have "x = Some (if m = - 1 then None else Some m)" "c2 = c3"
      using run row(2) H(1) L C by (auto simp add: customer_by_name_def run_bind m_def)
    moreover have "run_sql ts s t = Some (r # rs, t)" "0 < Suc j" "Suc j \<le> length (r # rs)"
      using row(1) t1 J(1) by simp_all
    ultimately show ?thesis using J(2) unfolding m_def
      by (auto simp only: at_end_def option.simps split: if_splits)
  next
    case (none ts t1 c1)
    then have "x = Some None" "c2 = c1" "t1 = t" using run query_reads [OF assms(2)]
      by (auto simp: customer_by_name_def run_bind at_end_def)
    then show ?thesis using none by (simp add: at_end_def)
  next
    case (failed c1)
    then have "x = Some None" "c2 = c1" using run by (auto simp: customer_by_name_def run_bind)
    then show ?thesis using failed by (simp add: at_end_def)
  qed
  then show "\<exists>t1. txn_view c0 t1 c2 \<and> t1 = t \<and> x \<noteq> None \<and> (\<forall>id. x = Some (Some id) \<longrightarrow>
     (\<exists>ts rows j. run_sql ts s t = Some (rows, t) \<and> 0 < j \<and> j \<le> length rows \<and> id = middle_id (map (cell_id e) (take j rows))))"
    by blast
qed

section \<open>Payment\<close>

definition payment_millionths :: "payment_t \<Rightarrow> int" where
  "payment_millionths data = rne (fl32 (py_h_amount data) * 10 ^ 6)"

text \<open>The customer: by number, or the middle one of those with the name that could be read.\<close>

definition customer_chosen :: "sql_env \<Rightarrow> int \<Rightarrow> int \<Rightarrow> int \<Rightarrow> bytes \<Rightarrow> tables \<Rightarrow> int \<Rightarrow> bool" where
  "customer_chosen e c_id w d nm t c \<longleftrightarrow>
     (if c_id \<noteq> 0 then c = c_id
      else \<exists>name j. sql_string nm = Some name \<and>
        (let cs = customers_named w d name t
         in 0 < j \<and> j \<le> length cs \<and> c = middle_id (map (\<lambda>r. atoi (fmt_d (C_ID r))) (take j cs))))"

definition charge :: "int \<Rightarrow> bytes option \<Rightarrow> customer_r \<Rightarrow> customer_r" where
  "charge x note r = r\<lparr>C_BALANCE := C_BALANCE r - x, C_YTD_PAYMENT := C_YTD_PAYMENT r + 10 ^ 6,
     C_DATA := (case note of None \<Rightarrow> C_DATA r | Some u \<Rightarrow> map_option (\<lambda>v. take_chars 500 (u @ v)) (C_DATA r))\<rparr>"

definition payment_done :: "sql_env \<Rightarrow> payment_t \<Rightarrow> tables \<Rightarrow> tables \<Rightarrow> bool" where
  "payment_done e data t t1 \<longleftrightarrow> (let w = py_w_id data; d = py_d_id data; x = payment_millionths data in
     \<exists>c wr dr cr credit w_name d_name ts.
       wr \<in> set (warehouse_t t) \<and> W_ID wr = w \<and> copy_cell e (text_cell (A_NAME (W_ADDRESS wr))) = Some w_name \<and>
       dr \<in> set (district_t t) \<and> in_district w d dr \<and> copy_cell e (text_cell (A_NAME (D_ADDRESS dr))) = Some d_name \<and>
       customer_chosen e (py_c_id data) (py_c_w_id data) (py_c_d_id data) (wcstombs 68 (py_c_last data)) t c \<and>
       cr \<in> set (customer_t t) \<and> is_customer (py_c_w_id data) (py_c_d_id data) c cr \<and> copy_cell e (text_cell (C_CREDIT cr)) = Some credit \<and>
       t1 = t\<lparr>warehouse_t := update_rows (\<lambda>r. W_ID r = w) (\<lambda>r. r\<lparr>W_YTD := W_YTD r + x\<rparr>) (warehouse_t t),
         district_t := update_rows (in_district w d) (\<lambda>r. r\<lparr>D_YTD := D_YTD r + x\<rparr>) (district_t t),
         customer_t := update_rows (is_customer (py_c_w_id data) (py_c_d_id data) c)
           (charge x (if take 1 credit = ''G'' then None
              else Some (payment_history_text c data (fl32 (py_h_amount data))))) (customer_t t),
         history_t := history_t t @ [\<lparr>H_C_ID = c, H_C_D_ID = py_c_d_id data, H_C_W_ID = py_c_w_id data, H_D_ID = d,
           H_W_ID = w, H_DATE = ts, H_AMOUNT = x, H_DATA = w_name @ ''    '' @ d_name\<rparr>]\<rparr>)"

lemma find_customer_works:
  assumes e: "text_ok e" and mem: "\<forall>n. realloc_ok e n" and s: "s = Payment_5 w d nm \<or> s = Order_status_1 w d nm"
  shows "works c0 t (find_customer e c_id s)
    (\<lambda>x t1. t1 = t \<and> x \<noteq> None \<and> (\<forall>c. x = Some (Some c) \<longrightarrow> customer_chosen e c_id w d nm t c))"
proof (cases "c_id = 0")
  case True
  have id: "cell_id e [Whole n] = atoi (fmt_d n)" for n using e by (simp add: cell_id_def)
  have chosen: "customer_chosen e c_id w d nm t c"
    if run: "run_sql ts s t = Some (rows, t)" and j: "0 < j" "j \<le> length rows" "c = middle_id (map (cell_id e) (take j rows))" for c ts rows j
  proof -
    obtain name where name: "sql_string nm = Some name" "rows = map (\<lambda>r. [Whole (C_ID r)]) (customers_named w d name t)"
      using run s by (auto simp: bind_eq_Some_conv)
    have "map (cell_id e) (take j rows) = map (\<lambda>r. atoi (fmt_d (C_ID r))) (take j (customers_named w d name t))"
      by (simp add: name(2) take_map comp_def id)
    then show ?thesis using True name j by (auto simp: customer_chosen_def Let_def)
  qed
  have "0 < sql_columns s" using s by (auto simp: sql_columns_def)
  from customer_by_name_works [OF mem this] show ?thesis
    unfolding find_customer_def if_P [OF True] by (rule works_weaken) (use chosen in blast)
next
  case False
  then show ?thesis by (auto simp: find_customer_def customer_chosen_def intro: works_return)
qed

lemma customer_chosen_cong:
  "customer_t t = customer_t t1 \<Longrightarrow> customer_chosen e c_id w d nm t c = customer_chosen e c_id w d nm t1 c"
  by (simp add: customer_chosen_def customers_named_def)

lemma payment_update_effect:
  assumes "executed (payment_update data h c credit) t True t1"
  shows "t1 = t\<lparr>customer_t := update_rows (is_customer (py_c_w_id data) (py_c_d_id data) c)
     (charge (rne (h * 10 ^ 6)) (if take 1 credit = ''G'' then None else Some (payment_history_text c data h))) (customer_t t)\<rparr>"
  using assms
  by (auto simp: executed_def payment_update_def sql_number_fmt_f sql_string_escape charge_def [abs_def] update_rows_def
      split: if_splits)

lemma payment_done_by_statements:
  assumes e: "text_ok e"
    and w: "selected e (Payment_1 (py_w_id data)) 6 t (Some wv) ta"
    and wu: "executed (Payment_2 (fl32 (py_h_amount data)) (py_w_id data)) ta True tb"
    and d: "selected e (Payment_3 (py_d_id data) (py_w_id data)) 6 tb (Some dv) tc"
    and du: "executed (Payment_4 (fl32 (py_h_amount data)) (py_d_id data) (py_w_id data)) tc True td"
    and ch: "customer_chosen e (py_c_id data) (py_c_w_id data) (py_c_d_id data) (wcstombs 68 (py_c_last data)) td c"
    and cu: "selected e (Payment_6 (py_c_w_id data) (py_c_d_id data) c) 16 td (Some cv) te" "cv ! 10 = Some credit"
    and up: "executed (payment_update data (fl32 (py_h_amount data)) c credit) te True tf"
    and names: "dbt2_escape_str (wv ! 0) = Some w_name" "dbt2_escape_str (dv ! 0) = Some d_name"
    and hi: "executed (Payment_8 c (py_c_d_id data) (py_c_w_id data) (py_d_id data) (py_w_id data)
       (fl32 (py_h_amount data)) w_name d_name) tf True tg"
  shows "payment_done e data t tg"
proof -
  define x where "x = payment_millionths data"
  obtain t1 r1 rs1 where W: "run_sql t1 (Payment_1 (py_w_id data)) t = Some (r1 # rs1, t)" "ta = t"
    "wv = map (\<lambda>i. copy_cell e (r1 ! i)) [0..<6]" using w by (rule selected_SomeD)
  then have "map (\<lambda>r. address_cells (W_ADDRESS r)) (filter (\<lambda>r. W_ID r = py_w_id data) (warehouse_t t)) = r1 # rs1"
    by (simp add: warehouses_with_def)
  from first_row [OF this] obtain wr where wr: "wr \<in> set (warehouse_t t)" "W_ID wr = py_w_id data" "r1 = address_cells (W_ADDRESS wr)" by auto
  have tb: "tb = t\<lparr>warehouse_t := update_rows (\<lambda>r. W_ID r = py_w_id data) (\<lambda>r. r\<lparr>W_YTD := W_YTD r + x\<rparr>) (warehouse_t t)\<rparr>"
    using wu by (auto simp: executed_def W(2) sql_number_fmt_f x_def payment_millionths_def)
  obtain t2 r2 rs2 where D: "run_sql t2 (Payment_3 (py_d_id data) (py_w_id data)) tb = Some (r2 # rs2, tb)" "tc = tb"
    "dv = map (\<lambda>i. copy_cell e (r2 ! i)) [0..<6]" using d by (rule selected_SomeD)
  then have "map (\<lambda>r. address_cells (D_ADDRESS r)) (filter (in_district (py_w_id data) (py_d_id data)) (district_t t)) = r2 # rs2"
    by (simp add: tb)
  from first_row [OF this] obtain dr where dr: "dr \<in> set (district_t t)" "in_district (py_w_id data) (py_d_id data) dr"
    "r2 = address_cells (D_ADDRESS dr)" by auto
  have td: "td = tb\<lparr>district_t := update_rows (in_district (py_w_id data) (py_d_id data)) (\<lambda>r. r\<lparr>D_YTD := D_YTD r + x\<rparr>) (district_t t)\<rparr>"
    using du by (auto simp: executed_def D(2) sql_number_fmt_f x_def payment_millionths_def tb)
  obtain t3 r3 rs3 where C: "run_sql t3 (Payment_6 (py_c_w_id data) (py_c_d_id data) c) td = Some (r3 # rs3, td)" "te = td"
    "cv = map (\<lambda>i. copy_cell e (r3 ! i)) [0..<16]" using cu(1) by (rule selected_SomeD)
  define cells where "cells = (\<lambda>r :: customer_r. map text_cell [C_FIRST r, C_MIDDLE r, C_LAST r, C_STREET_1 r, C_STREET_2 r, C_CITY r,
         C_STATE r, C_ZIP r, C_PHONE r, C_SINCE r, C_CREDIT r]
       @ [Decimal (C_CREDIT_LIM r), Decimal (C_DISCOUNT r), Decimal (C_BALANCE r), text_cell (C_DATA r),
          Decimal (C_YTD_PAYMENT r)])"
  have "map cells (filter (is_customer (py_c_w_id data) (py_c_d_id data) c) (customer_t t)) = r3 # rs3"
    using C(1) by (simp add: td tb customers_with_def cells_def)
  from first_row [OF this] obtain cr where cr: "cr \<in> set (customer_t t)" "is_customer (py_c_w_id data) (py_c_d_id data) c cr"
    "r3 = cells cr" by auto
  have credit: "copy_cell e (text_cell (C_CREDIT cr)) = Some credit" using cu(2) C(3) cr(3) by (simp add: cells_def)
  obtain wn where wn: "copy_cell e (text_cell (A_NAME (W_ADDRESS wr))) = Some wn" "w_name = escape_quotes wn"
    using names(1) W(3) wr(3) by (auto simp: dbt2_escape_str_def address_cells_def)
  obtain dn where dn: "copy_cell e (text_cell (A_NAME (D_ADDRESS dr))) = Some dn" "d_name = escape_quotes dn"
    using names(2) D(3) dr(3) by (auto simp: dbt2_escape_str_def address_cells_def)
  have joined: "sql_string (w_name @ ''    '' @ d_name) = Some (wn @ ''    '' @ dn)"
    by (simp add: wn(2) dn(2) sql_string_append [OF sql_string_escape] sql_string_escape)
  note tf = payment_update_effect [OF up, unfolded C(2)]
  obtain ts where tg: "tg = tf\<lparr>history_t := history_t tf @ [\<lparr>H_C_ID = c, H_C_D_ID = py_c_d_id data, H_C_W_ID = py_c_w_id data,
     H_D_ID = py_d_id data, H_W_ID = py_w_id data, H_DATE = ts, H_AMOUNT = x, H_DATA = wn @ ''    '' @ dn\<rparr>]\<rparr>"
    using hi by (auto simp: executed_def bind_eq_Some_conv sql_number_fmt_f joined [simplified] x_def payment_millionths_def)
  have "customer_chosen e (py_c_id data) (py_c_w_id data) (py_c_d_id data) (wcstombs 68 (py_c_last data)) t c"
    using ch customer_chosen_cong [of td t e] by (simp add: td tb)
  then show ?thesis
    unfolding payment_done_def Let_def x_def [symmetric]
    by (intro exI [of _ c] exI [of _ wr] exI [of _ dr] exI [of _ cr] exI [of _ credit] exI [of _ wn] exI [of _ dn] exI [of _ ts])
      (use wr dr cr credit wn(1) dn(1) in \<open>simp add: tg tf td tb x_def payment_millionths_def\<close>)
qed

lemma payment_works:
  assumes e: "text_ok e" and mem: "\<forall>n. realloc_ok e n"
  shows "works c0 t (payment_nonsp e data out) (\<lambda>(rc, out1) t1. rc = Some (- 1) \<or> rc = None \<or> rc = Some 1 \<and> payment_done e data t t1)"
  unfolding payment_nonsp_def
  by (intro works_intros works_case_options works_bind [OF find_customer_works [OF e mem disjI1 [OF refl]]];
      (simp add: sql_columns_def payment_update_def; fail)?)
    (auto intro: payment_done_by_statements [OF e])

section \<open>Transactions that only read\<close>

definition lines_of :: "int \<Rightarrow> int \<Rightarrow> int \<Rightarrow> tables \<Rightarrow> order_line_r list" where
  "lines_of w d k t = filter (is_line_of w d k) (order_line_t t)"

definition line_cells :: "sql_env \<Rightarrow> order_line_r \<Rightarrow> bytes option list" where
  "line_cells e r = [copy_cell e (Whole (OL_I_ID r)), copy_cell e (Whole (OL_SUPPLY_W_ID r)),
     copy_cell e (Decimal (10 ^ 6 * OL_QUANTITY r)), copy_cell e (Decimal (OL_AMOUNT r)),
     copy_cell e (text_cell (OL_DELIVERY_D r))]"

lemma fetch_lines_rest:
  "holds c0 t k (Row r rs) c \<Longrightarrow> \<not> prefetched c \<Longrightarrow> 5 \<le> k \<Longrightarrow> length rs + 1 \<le> fuel \<Longrightarrow> length rows + length rs \<le> 15 \<Longrightarrow>
    \<exists>j c1. j \<le> length rs \<and> at_end c0 t c1 \<and> run_state (fetch_lines e fuel rows) c =
      (Some (rows @ map (\<lambda>r. map (\<lambda>i. copy_cell e (r ! i)) [0..<5]) (take j rs)), c1)"
proof (induction fuel arbitrary: r rs c rows)
  case 0
  then show ?case by simp
next
  case (Suc fuel)
  from Suc.prems(1,2) show ?case
  proof (cases rule: fetch_next [where e = e])
    case (row r1 rs1 c1)
    define vs where "vs = map (\<lambda>i. copy_cell e (r1 ! i)) [0..<5]"
    have "length rs1 + 1 \<le> fuel" "length (rows @ [vs]) + length rs1 \<le> 15" using Suc.prems(4,5) row(1) by simp_all
    from Suc.IH [OF row(3,4) Suc.prems(3) this] obtain j c2 where
      J: "j \<le> length rs1" "at_end c0 t c2" "run_state (fetch_lines e fuel (rows @ [vs])) c1 =
        (Some ((rows @ [vs]) @ map (\<lambda>r. map (\<lambda>i. copy_cell e (r ! i)) [0..<5]) (take j rs1)), c2)"
      by blast
    have "run_state (getvalues e [0..<5]) c1 = (vs, c1)"
      using run_getvalues [OF row(3), of "[0..<5]" e] Suc.prems(3) by (simp add: vs_def)
    then have "run_state (fetch_lines e (Suc fuel) rows) c = run_state (fetch_lines e fuel (rows @ [vs])) c1"
      using row(1,2) Suc.prems(5) by (simp add: run_bind)
    then show ?thesis using J row(1)
      by (intro exI [of _ "Suc j"] exI [of _ c2]) (simp add: vs_def)
  next
    case (ended c1)
    then show ?thesis by (intro exI [of _ 0] exI [of _ c1]) (simp add: run_bind)
  qed
qed

lemma fetch_all_lines_works:
  assumes e: "text_ok e" and few: "length (lines_of w d k t) \<le> 15"
  shows "works c0 t (fetch_all_lines e (Order_status_4 w d (fmt_d k))) (\<lambda>x t1. t1 = t \<and> x \<noteq> None \<and>
     (\<forall>rows. x = Some (Some rows) \<longrightarrow> rows \<noteq> [] \<and> (\<exists>j. rows = map (line_cells e) (take j (lines_of w d k t)))))"
proof (rule worksI)
  fix c x c2
  define s where "s = Order_status_4 w d (fmt_d k)"
  have cols: "sql_columns s = 5" by (simp add: s_def sql_columns_def)
  assume c: "txn_view c0 t c" and run: "run_state (fetch_all_lines e (Order_status_4 w d (fmt_d k))) c = (x, c2)"
  note run = run [folded s_def]
  have "txn_view c0 t c2 \<and> x \<noteq> None \<and>
     (\<forall>rows. x = Some (Some rows) \<longrightarrow> rows \<noteq> [] \<and> (\<exists>j. rows = map (line_cells e) (take j (lines_of w d k t))))"
    using c
  proof (cases rule: execute_cases [where s = s and e = e])
    case (row ts r rs t1 c1)
    then have t1: "t1 = t" using query_reads [of s] cols by simp
    have rows: "map (\<lambda>r. map (\<lambda>i. copy_cell e (r ! i)) [0..<5]) (r # rs) = map (line_cells e) (lines_of w d k t)"
      using row(1) unfolding s_def
      by (auto simp: lines_of_def line_cells_def map_eq_Cons_conv comp_def upt_conv_Cons simp flip: map_eq_Cons_conv)
    then have len: "Suc (length rs) = length (lines_of w d k t)" by (metis length_map length_Cons)
    define cf where "cf = c1\<lparr>prefetched := False\<rparr>"
    have H: "query_running c1" "holds c0 t 5 (Row r rs) cf" "\<not> prefetched cf"
      using row t1 cols by (auto simp: cf_def cursor_defs)
    have F: "run_state (sql_fetchrow_sqlite e) c1 = (True, cf)"
      using row(4) H(1) by (simp add: sql_fetchrow_sqlite_def run_bind cf_def)
    have fuel: "rows_left c1 = Suc (length rs + 1)" using row(3) by (simp add: rows_left_def holds_def)
    define vs where "vs = map (\<lambda>i. copy_cell e (r ! i)) [0..<5]"
    have V: "run_state (getvalues e [0..<5]) cf = (vs, cf)"
      using run_getvalues [OF H(2), of "[0..<5]" e] by (simp add: vs_def)
    obtain j c3 where J: "at_end c0 t c3" "run_state (fetch_lines e (length rs + 1) [vs]) cf =
        (Some ([vs] @ map (\<lambda>r. map (\<lambda>i. copy_cell e (r ! i)) [0..<5]) (take j rs)), c3)"
      using fetch_lines_rest [OF H(2,3), of "length rs + 1" "[vs]" e] few len by auto
    have L: "run_state (fetch_lines e (rows_left c1) []) c1 = (Some (map (line_cells e) (take (Suc j) (lines_of w d k t))), c3)"
      using J(2) V rows unfolding take_map [symmetric] rows [symmetric]
      by (simp add: fuel run_bind F vs_def take_map)
    have C: "run_state sql_close_cursor_sqlite c3 = (True, c3)"
      using J(1) by (simp add: sql_close_cursor_sqlite_def run_bind at_end_def)
    have "x = Some (Some (map (line_cells e) (take (Suc j) (lines_of w d k t))))" "c2 = c3"
      using run row(2) H(1) L C by (auto simp add: fetch_all_lines_def run_bind)
    moreover have "lines_of w d k t \<noteq> []" using len by auto
    ultimately show ?thesis using J(1) by (auto simp: at_end_def)
  next
    case (none ts t1 c1)
    then have "x = Some None" "c2 = c1" "t1 = t" using run query_reads [of s] cols
      by (auto simp: fetch_all_lines_def run_bind at_end_def)
    then show ?thesis using none by (simp add: at_end_def)
  next
    case (failed c1)
    then have "x = Some None" "c2 = c1" using run by (auto simp: fetch_all_lines_def run_bind)
    then show ?thesis using failed by (simp add: at_end_def)
  qed
  then show "\<exists>t1. txn_view c0 t1 c2 \<and> t1 = t \<and> x \<noteq> None \<and>
     (\<forall>rows. x = Some (Some rows) \<longrightarrow> rows \<noteq> [] \<and> (\<exists>j. rows = map (line_cells e) (take j (lines_of w d k t))))" by blast
qed

text \<open>Order-Status reports the newest order of the customer, with as many of its lines as could be read.\<close>

definition order_status_done :: "sql_env \<Rightarrow> order_status_t \<Rightarrow> tables \<Rightarrow> order_status_out \<Rightarrow> bool" where
  "order_status_done e data t out \<longleftrightarrow> (let w = os_c_w_id data; d = os_c_d_id data in
     \<exists>c r j. customer_chosen e (os_c_id data) w d (wcstombs 68 (os_c_last data)) t c \<and>
       r \<in> set (orders_t t) \<and> O_W_ID r = w \<and> O_D_ID r = d \<and> O_C_ID r = c \<and>
       (\<forall>r1 \<in> set (orders_t t). O_W_ID r1 = w \<and> O_D_ID r1 = d \<and> O_C_ID r1 = c \<longrightarrow> O_ID r1 \<le> O_ID r) \<and>
       ou_c_id out = c \<and> ou_o_id out = atoi (fmt_d (O_ID r)) \<and>
       0 < j \<and> j \<le> length (lines_of w d (O_ID r) t) \<and> ou_o_ol_cnt out = int j)"

lemma first_of_reversed:
  assumes "map f (rev (sort_key g (filter P xs))) = y # ys"
  shows "\<exists>x \<in> set xs. P x \<and> f x = y \<and> (\<forall>z \<in> set xs. P z \<longrightarrow> g z \<le> g x)"
proof -
  obtain zs x where x: "sort_key g (filter P xs) = zs @ [x]" "f x = y"
    using assms by (cases "sort_key g (filter P xs)" rule: rev_cases) auto
  have "sorted (map g (zs @ [x]))" unfolding x(1) [symmetric] by (rule sorted_sort_key)
  moreover have "set (zs @ [x]) = {z \<in> set xs. P z}" unfolding x(1) [symmetric] by simp
  ultimately have "x \<in> set xs" "P x" "\<forall>z \<in> set xs. P z \<longrightarrow> g z \<le> g x" by (auto simp: sorted_append)
  then show ?thesis using x(2) by blast
qed

lemma newest_order:
  assumes e: "text_ok e" and "selected e (Order_status_3 w d c) 4 t (Some ov) t1"
  obtains r where "t1 = t" "r \<in> set (orders_t t)" "O_W_ID r = w" "O_D_ID r = d" "O_C_ID r = c"
    "\<forall>r1 \<in> set (orders_t t). O_W_ID r1 = w \<and> O_D_ID r1 = d \<and> O_C_ID r1 = c \<longrightarrow> O_ID r1 \<le> O_ID r"
    "ov ! 0 = Some (fmt_d (O_ID r))"
proof -
  obtain ts s ss where S: "run_sql ts (Order_status_3 w d c) t = Some (s # ss, t)" "t1 = t"
    "ov = map (\<lambda>i. copy_cell e (s ! i)) [0..<4]" using assms(2) by (rule selected_SomeD)
  define P where "P = (\<lambda>r :: orders_r. O_W_ID r = w \<and> O_D_ID r = d \<and> O_C_ID r = c)"
  have "map (\<lambda>r. [Whole (O_ID r), int_cell (O_CARRIER_ID r), Text (O_ENTRY_D r), Whole (O_OL_CNT r)])
       (rev (sort_key O_ID (filter P (orders_t t)))) = s # ss" using S(1) by (simp add: P_def)
  from first_of_reversed [OF this] obtain r where r: "r \<in> set (orders_t t)" "P r"
    "s = [Whole (O_ID r), int_cell (O_CARRIER_ID r), Text (O_ENTRY_D r), Whole (O_OL_CNT r)]"
    "\<forall>z \<in> set (orders_t t). P z \<longrightarrow> O_ID z \<le> O_ID r" by auto
  then show thesis using that S(2,3) e by (simp add: P_def)
qed

lemma order_status_works:
  assumes e: "text_ok e" and mem: "\<forall>n. realloc_ok e n"
    and few: "\<And>k. length (lines_of (os_c_w_id data) (os_c_d_id data) k t) \<le> 15"
  shows "works c0 t (order_status_nonsp e data out)
    (\<lambda>(rc, out1) t1. t1 = t \<and> (rc = Some (- 1) \<or> rc = Some 1 \<and> order_status_done e data t out1))"
proof -
  have lines: "works c0 t3 (fetch_all_lines e (Order_status_4 (os_c_w_id data) (os_c_d_id data) (str_arg (ov ! 0))) \<bind> (\<lambda>rows.
     State_Monad.return (case rows of
         None \<Rightarrow> (None, out)
       | Some None \<Rightarrow> (Some (- 1), out)
       | Some (Some rows) \<Rightarrow> (Some 1, order_status_results c cv ov rows out))))
    (\<lambda>(rc, out1) t1. t1 = t \<and> (rc = Some (- 1) \<or> rc = Some 1 \<and> order_status_done e data t out1))"
    if ch: "customer_chosen e (os_c_id data) (os_c_w_id data) (os_c_d_id data) (wcstombs 68 (os_c_last data)) t c"
      and c: "selected e (Order_status_2 (os_c_w_id data) (os_c_d_id data) c) 4 t (Some cv) t2"
      and o': "selected e (Order_status_3 (os_c_w_id data) (os_c_d_id data) c) 4 t2 (Some ov) t3" for c cv ov t2 t3
  proof -
    have t2: "t2 = t" using c by (auto simp: selected_def)
    obtain r where r: "t3 = t" "r \<in> set (orders_t t)" "O_W_ID r = os_c_w_id data" "O_D_ID r = os_c_d_id data" "O_C_ID r = c"
      "\<forall>r1 \<in> set (orders_t t). O_W_ID r1 = os_c_w_id data \<and> O_D_ID r1 = os_c_d_id data \<and> O_C_ID r1 = c \<longrightarrow> O_ID r1 \<le> O_ID r"
      "ov ! 0 = Some (fmt_d (O_ID r))" using newest_order [OF e o'] unfolding t2 by blast
    have ot: "str_arg (ov ! 0) = fmt_d (O_ID r)" by (simp add: r(7) str_arg_def)
    show ?thesis unfolding ot r(1)
    proof (rule works_bind [OF fetch_all_lines_works [OF e few]], rule works_return)
      fix x t1
      assume x: "t1 = t \<and> x \<noteq> None \<and> (\<forall>rows. x = Some (Some rows) \<longrightarrow> rows \<noteq> [] \<and>
        (\<exists>j. rows = map (line_cells e) (take j (lines_of (os_c_w_id data) (os_c_d_id data) (O_ID r) t))))"
      have reported: "order_status_done e data t (order_status_results c cv ov rows out)"
        if rows: "rows \<noteq> []" "rows = map (line_cells e) (take j (lines_of (os_c_w_id data) (os_c_d_id data) (O_ID r) t))" for rows j
        unfolding order_status_done_def Let_def
        by (intro exI [of _ c] exI [of _ r] exI [of _ "length rows"])
          (use rows ch r in \<open>auto simp: order_status_results_def atoi_or_0_def\<close>)
      show "(\<lambda>(rc, out1) t1. t1 = t \<and> (rc = Some (- 1) \<or> rc = Some 1 \<and> order_status_done e data t out1))
        (case x of None \<Rightarrow> (None, out) | Some None \<Rightarrow> (Some (- 1), out)
          | Some (Some rows) \<Rightarrow> (Some 1, order_status_results c cv ov rows out)) t1"
      proof -
        show ?thesis
        proof (cases "\<exists>rows. x = Some (Some rows)")
          case True
          then obtain rows where rows: "x = Some (Some rows)" by blast
          with x obtain j where "rows \<noteq> []" "rows = map (line_cells e) (take j (lines_of (os_c_w_id data) (os_c_d_id data) (O_ID r) t))"
            by blast
          from reported [OF this] show ?thesis using x rows by simp
        next
          case False
          then have "x = Some None" using x by (metis option.exhaust)
          then show ?thesis using x by simp
        qed
      qed
    qed
  qed
  show ?thesis
    unfolding order_status_nonsp_def
    by (intro works_intros works_bind [OF find_customer_works [OF e mem disjI2 [OF refl]]]; (simp add: sql_columns_def selected_def; fail)?)
      (auto intro: lines simp: selected_def)
qed

lemma stock_level_works:
  assumes e: "text_ok e"
  shows "works c0 t (stock_level_nonsp e data) (\<lambda>rc t1. t1 = t \<and> (rc = - 1 \<or>
    (\<exists>r \<in> set (district_t t). in_district (sl_w_id data) (sl_d_id data) r \<and>
      (let n = atoi (fmt_d (D_NEXT_O_ID r)) in
       rc = atoi (fmt_d (int (low_stock_count (sl_d_id data) (sl_w_id data) (sl_threshold data) (n - 20) (n - 1) t)))))))"
proof -
  define w d where "w = sl_w_id data" and "d = sl_d_id data"
  have row: "\<exists>r \<in> set (district_t t). in_district w d r \<and> nv ! 0 = Some (fmt_d (D_NEXT_O_ID r))"
    if sel: "selected e (Stock_level_1 w d) 1 t (Some nv) t1" for nv t1
  proof -
    obtain ts r rs where "run_sql ts (Stock_level_1 w d) t = Some (r # rs, t)" "t1 = t" "nv = map (\<lambda>i. copy_cell e (r ! i)) [0..<1]"
      using sel by (rule selected_SomeD)
    then show ?thesis using first_row [of "\<lambda>r. [Whole (D_NEXT_O_ID r)]" "in_district w d" "district_t t" r rs] e by auto
  qed
  have final: "t2 = t \<and> ((case x of None \<Rightarrow> - 1 | Some lv \<Rightarrow> (case lv ! 0 of None \<Rightarrow> - 1 | Some x \<Rightarrow> atoi x)) = - 1 \<or>
      (\<exists>r \<in> set (district_t t). in_district w d r \<and> (let n = atoi (fmt_d (D_NEXT_O_ID r)) in
       (case x of None \<Rightarrow> - 1 | Some lv \<Rightarrow> (case lv ! 0 of None \<Rightarrow> - 1 | Some x \<Rightarrow> atoi x)) =
         atoi (fmt_d (int (low_stock_count d w th (n - 20) (n - 1) t))))))"
    if sel: "selected e (Stock_level_1 w d) 1 t (Some nv) t1"
      "selected e (Stock_level_2 d w th (atoi (the (nv ! 0)) - 20) (atoi (the (nv ! 0)) - 1)) 1 t1 x t2" for nv t1 x t2 th
  proof -
    have "t1 = t" using sel(1) by (simp add: selected_def)
    moreover obtain r where "r \<in> set (district_t t)" "in_district w d r" "nv ! 0 = Some (fmt_d (D_NEXT_O_ID r))"
      using row [OF sel(1)] by blast
    ultimately show ?thesis using sel(2) e by (cases x) (auto simp: selected_def Let_def)
  qed
  show ?thesis
    unfolding stock_level_nonsp_def w_def [symmetric] d_def [symmetric]
    by (intro works_intros; (simp add: sql_columns_def selected_def; fail)?) (rule final; simp only:)
qed

lemma integrity_works:
  assumes e: "text_ok e"
  shows "works c0 t (integrity_nonsp e data) (\<lambda>rc t1. t1 = t \<and> (rc = - 1 \<or>
    rc = 1 \<and> in_w_id data = atoi (fmt_d (int (length (warehouse_t t))))))"
  unfolding integrity_nonsp_def
  by (intro works_intros; (simp add: sql_columns_def; fail)?)
    (use e in \<open>auto simp: selected_def split: option.splits\<close>)
end
