(* ===== verification/Consistency.thy ===== *)
theory Consistency
  imports Nonsp_Effects
begin

text \<open>
  The consistency conditions of the benchmark (clause 3.3.2 of the TPC-C specification, on which the
  program is based): the year-to-date sums, the numbering of orders and new orders, and the order
  lines. Every transaction that reports success takes consistent tables to consistent tables.
\<close>

section \<open>Conditions\<close>

definition column_total :: "('r \<Rightarrow> int) \<Rightarrow> ('r \<Rightarrow> bool) \<Rightarrow> 'r list \<Rightarrow> int" where
  "column_total f P rs = sum_list (map f (filter P rs))"

definition district_key :: "district_r \<Rightarrow> int \<times> int" where
  "district_key r = (D_W_ID r, D_ID r)"

definition order_key :: "orders_r \<Rightarrow> int \<times> int \<times> int" where
  "order_key r = (O_W_ID r, O_D_ID r, O_ID r)"

definition new_order_key :: "new_order_r \<Rightarrow> int \<times> int \<times> int" where
  "new_order_key r = (NO_W_ID r, NO_D_ID r, NO_O_ID r)"

definition keys_ok :: "tables \<Rightarrow> bool" where
  "keys_ok t \<longleftrightarrow> distinct (map W_ID (warehouse_t t)) \<and> distinct (map district_key (district_t t)) \<and>
     distinct (map order_key (orders_t t)) \<and> distinct (map new_order_key (new_order_t t))"

text \<open>Conditions 1, 8 and 9.\<close>

definition money_ok :: "tables \<Rightarrow> bool" where
  "money_ok t \<longleftrightarrow>
     (\<forall>w \<in> set (warehouse_t t).
        W_YTD w = column_total D_YTD (\<lambda>r. D_W_ID r = W_ID w) (district_t t) \<and>
        W_YTD w = column_total H_AMOUNT (\<lambda>r. H_W_ID r = W_ID w) (history_t t)) \<and>
     (\<forall>d \<in> set (district_t t).
        D_YTD d = column_total H_AMOUNT (\<lambda>r. H_W_ID r = D_W_ID d \<and> H_D_ID r = D_ID d) (history_t t))"

text \<open>Conditions 2 and 3: the largest order number, and new orders without gaps up to it.\<close>

definition order_ids :: "int \<Rightarrow> int \<Rightarrow> orders_r list \<Rightarrow> int list" where
  "order_ids w d rs = map O_ID (filter (\<lambda>r. O_W_ID r = w \<and> O_D_ID r = d) rs)"

definition new_order_ids :: "int \<Rightarrow> int \<Rightarrow> new_order_r list \<Rightarrow> int list" where
  "new_order_ids w d rs = map NO_O_ID (filter (\<lambda>r. NO_W_ID r = w \<and> NO_D_ID r = d) rs)"

definition numbers_ok :: "int \<Rightarrow> int list \<Rightarrow> int list \<Rightarrow> bool" where
  "numbers_ok next os ns \<longleftrightarrow> (os \<noteq> [] \<longrightarrow> Max (set os) = next - 1) \<and>
     (ns \<noteq> [] \<longrightarrow> Max (set ns) = next - 1 \<and> Max (set ns) - Min (set ns) + 1 = int (length ns))"

definition numbering_ok :: "tables \<Rightarrow> bool" where
  "numbering_ok t \<longleftrightarrow> (\<forall>r \<in> set (district_t t).
     numbers_ok (D_NEXT_O_ID r) (order_ids (D_W_ID r) (D_ID r) (orders_t t))
       (new_order_ids (D_W_ID r) (D_ID r) (new_order_t t)))"

text \<open>Condition 5: an order has no carrier as long as it is a new order.\<close>

definition carriers_ok :: "tables \<Rightarrow> bool" where
  "carriers_ok t \<longleftrightarrow> (\<forall>r \<in> set (orders_t t). O_CARRIER_ID r = None \<longleftrightarrow>
     (\<exists>n \<in> set (new_order_t t). is_new_order (O_W_ID r) (O_D_ID r) (O_ID r) n))"

text \<open>Conditions 4 and 6: the order lines are as many as the orders say, and belong to orders.\<close>

definition lines_ok :: "tables \<Rightarrow> bool" where
  "lines_ok t \<longleftrightarrow>
     (\<forall>r \<in> set (orders_t t). O_OL_CNT r \<le> 15 \<and>
        O_OL_CNT r = int (length (lines_of (O_W_ID r) (O_D_ID r) (O_ID r) t))) \<and>
     (\<forall>l \<in> set (order_line_t t). \<exists>r \<in> set (orders_t t). is_order (OL_W_ID l) (OL_D_ID l) (OL_O_ID l) r) \<and>
     (\<forall>w d. column_total O_OL_CNT (\<lambda>r. O_W_ID r = w \<and> O_D_ID r = d) (orders_t t) =
        int (length (filter (\<lambda>l. OL_W_ID l = w \<and> OL_D_ID l = d) (order_line_t t))))"

definition consistent :: "tables \<Rightarrow> bool" where
  "consistent t \<longleftrightarrow> keys_ok t \<and> money_ok t \<and> numbering_ok t \<and> carriers_ok t \<and> lines_ok t"

lemmas consistency_defs = keys_ok_def money_ok_def numbering_ok_def carriers_ok_def lines_ok_def

section \<open>Sums and updates\<close>

lemma total_Nil [simp]: "column_total f P [] = 0"
  by (simp add: column_total_def)

lemma total_append [simp]: "column_total f P (xs @ ys) = column_total f P xs + column_total f P ys"
  by (simp add: column_total_def)

lemma total_single [simp]: "column_total f P [x] = (if P x then f x else 0)"
  by (simp add: column_total_def)

lemma total_update:
  assumes "\<And>r. P (g r) = P r" "\<And>r. f (g r) = f r + x"
  shows "column_total f P (update_rows Q g rs) = column_total f P rs + x * int (length (filter (\<lambda>r. Q r \<and> P r) rs))"
  by (induction rs) (simp_all add: column_total_def update_rows_def assms algebra_simps)

lemma set_update_rows: "r \<in> set (update_rows P g rs) \<Longrightarrow> \<exists>s \<in> set rs. r = (if P s then g s else s)"
  by (auto simp: update_rows_def)

lemma ex_update_rows: "(\<And>r. P (g r) = P r) \<Longrightarrow> (\<exists>r \<in> set (update_rows Q g rs). P r) = (\<exists>r \<in> set rs. P r)"
  by (induction rs) (auto simp: update_rows_def)

lemma distinct_key_one:
  assumes "distinct (map key rs)" "x \<in> set rs"
  shows "length (filter (\<lambda>r. key r = key x) rs) = 1"
  using assms
proof (induction rs)
  case (Cons r rs)
  show ?case
  proof (cases "x = r")
    case True
    have "\<forall>y \<in> set rs. key y \<noteq> key r" using Cons.prems(1) by (simp add: image_iff) metis
    then show ?thesis using True by (simp add: filter_empty_conv)
  next
    case False
    then show ?thesis using Cons by auto
  qed
qed simp

lemma distinct_keyD: "distinct (map key rs) \<Longrightarrow> x \<in> set rs \<Longrightarrow> y \<in> set rs \<Longrightarrow> key x = key y \<Longrightarrow> x = y"
  by (simp add: distinct_map inj_on_def)

lemma in_district_key: "in_district w d = (\<lambda>r. district_key r = (w, d))"
  by (auto simp: in_district_def district_key_def)

lemma money_ok_cong: "warehouse_t t = warehouse_t t1 \<Longrightarrow> district_t t = district_t t1 \<Longrightarrow> history_t t = history_t t1 \<Longrightarrow>
    money_ok t \<longleftrightarrow> money_ok t1"
  by (simp only: money_ok_def)

lemma money_okD:
  assumes "money_ok t"
  shows "v \<in> set (warehouse_t t) \<Longrightarrow> W_YTD v = column_total D_YTD (\<lambda>r. D_W_ID r = W_ID v) (district_t t)"
    "v \<in> set (warehouse_t t) \<Longrightarrow> W_YTD v = column_total H_AMOUNT (\<lambda>r. H_W_ID r = W_ID v) (history_t t)"
    "r \<in> set (district_t t) \<Longrightarrow> D_YTD r = column_total H_AMOUNT (\<lambda>h. H_W_ID h = D_W_ID r \<and> H_D_ID h = D_ID r) (history_t t)"
  using assms unfolding money_ok_def by blast+

section \<open>Payment\<close>

lemma payment_keeps_money:
  assumes K: "keys_ok t" and M: "money_ok t" and w: "wr \<in> set (warehouse_t t)" "W_ID wr = w" and d: "dr \<in> set (district_t t)" "in_district w d dr"
    and h: "H_W_ID h = w" "H_D_ID h = d" "H_AMOUNT h = x"
  shows "money_ok (t\<lparr>warehouse_t := update_rows (\<lambda>r. W_ID r = w) (\<lambda>r. r\<lparr>W_YTD := W_YTD r + x\<rparr>) (warehouse_t t),
         district_t := update_rows (in_district w d) (\<lambda>r. r\<lparr>D_YTD := D_YTD r + x\<rparr>) (district_t t),
         customer_t := cs, history_t := history_t t @ [h]\<rparr>)"
proof -
  have one: "length (filter (in_district w d) (district_t t)) = 1"
    using distinct_key_one [of district_key "district_t t" dr] K d by (simp add: keys_ok_def in_district_key)
  have "length (filter (\<lambda>r. in_district w d r \<and> D_W_ID r = v) (district_t t)) = (if v = w then 1 else 0)" for v
  proof (cases "v = w")
    case True
    have "filter (\<lambda>r. in_district w d r \<and> D_W_ID r = v) (district_t t) = filter (in_district w d) (district_t t)"
      by (rule filter_cong) (auto simp: in_district_def True)
    then show ?thesis using one True by simp
  next
    case False
    then show ?thesis by (simp add: in_district_def filter_empty_conv)
  qed
  then have sums: "column_total D_YTD (\<lambda>r. D_W_ID r = v) (update_rows (in_district w d) (\<lambda>r. r\<lparr>D_YTD := D_YTD r + x\<rparr>) (district_t t)) =
      column_total D_YTD (\<lambda>r. D_W_ID r = v) (district_t t) + (if v = w then x else 0)" for v
    by (simp add: total_update [where x = x])
  have ws: "W_YTD v = column_total D_YTD (\<lambda>r. D_W_ID r = W_ID v) (district_t t)"
    "column_total D_YTD (\<lambda>r. D_W_ID r = W_ID v) (district_t t) = column_total H_AMOUNT (\<lambda>r. H_W_ID r = W_ID v) (history_t t)"
    if "v \<in> set (warehouse_t t)" for v using M that unfolding money_ok_def by metis+
  have ds: "D_YTD v = column_total H_AMOUNT (\<lambda>r. H_W_ID r = D_W_ID v \<and> H_D_ID r = D_ID v) (history_t t)"
    if "v \<in> set (district_t t)" for v using M that unfolding money_ok_def by blast
  show ?thesis
    unfolding money_ok_def
    by (auto dest!: set_update_rows simp: sums h ws ds in_district_def)
qed

lemma payment_keeps_rest:
  assumes "t1 = t\<lparr>warehouse_t := update_rows P (\<lambda>r. r\<lparr>W_YTD := W_YTD r + x\<rparr>) (warehouse_t t),
         district_t := update_rows Q (\<lambda>r. r\<lparr>D_YTD := D_YTD r + x\<rparr>) (district_t t),
         customer_t := cs, history_t := hs\<rparr>"
  shows "keys_ok t \<Longrightarrow> keys_ok t1" "numbering_ok t \<Longrightarrow> numbering_ok t1" "carriers_ok t \<Longrightarrow> carriers_ok t1" "lines_ok t \<Longrightarrow> lines_ok t1"
  unfolding assms
  by (auto simp: consistency_defs map_update_rows district_key_def lines_of_def dest!: set_update_rows)

lemma payment_consistent:
  assumes "payment_done e data t t1" "consistent t"
  shows "consistent t1"
proof -
  have c: "keys_ok t" "money_ok t" "numbering_ok t" "carriers_ok t" "lines_ok t" using assms(2) by (simp_all add: consistent_def)
  obtain wr dr cs h where t1: "t1 = t\<lparr>warehouse_t := update_rows (\<lambda>r. W_ID r = py_w_id data) (\<lambda>r. r\<lparr>W_YTD := W_YTD r + payment_millionths data\<rparr>) (warehouse_t t),
         district_t := update_rows (in_district (py_w_id data) (py_d_id data)) (\<lambda>r. r\<lparr>D_YTD := D_YTD r + payment_millionths data\<rparr>) (district_t t),
         customer_t := cs, history_t := history_t t @ [h]\<rparr>"
    and wd: "wr \<in> set (warehouse_t t)" "W_ID wr = py_w_id data" "dr \<in> set (district_t t)" "in_district (py_w_id data) (py_d_id data) dr"
      "H_W_ID h = py_w_id data" "H_D_ID h = py_d_id data" "H_AMOUNT h = payment_millionths data"
    using assms(1) unfolding payment_done_def Let_def by fastforce
  show ?thesis unfolding consistent_def
    using payment_keeps_rest [OF t1] c payment_keeps_money [OF c(1,2) wd] t1 by blast
qed


section \<open>Delivery\<close>

lemma interval_by_card:
  assumes "ns \<noteq> []" "distinct ns" "Max (set ns) - Min (set ns) + 1 = int (length ns)"
  shows "set ns = {Min (set ns)..Max (set ns)}"
proof (rule card_subset_eq)
  show "set ns \<subseteq> {Min (set ns)..Max (set ns)}" by auto
  have "Min (set ns) \<le> Max (set ns)" using assms(1) by simp
  then show "card (set ns) = card {Min (set ns)..Max (set ns)}"
    using assms by (simp add: distinct_card)
qed simp

lemma numbers_remove_min:
  assumes "numbers_ok next os ns" "distinct ns" "k \<in> set ns" "\<forall>n \<in> set ns. k \<le> n"
  shows "numbers_ok next os (filter (\<lambda>n. n \<noteq> k) ns)"
proof -
  have ne: "ns \<noteq> []" using assms(3) by auto
  have k: "Min (set ns) = k" using assms(3,4) by (intro Min_eqI) auto
  have N: "Max (set ns) = next - 1" "Max (set ns) - k + 1 = int (length ns)"
    using assms(1) ne k by (auto simp: numbers_ok_def)
  then have S: "set ns = {k..next - 1}" using interval_by_card [OF ne assms(2)] k by simp
  have rest: "set (filter (\<lambda>n. n \<noteq> k) ns) = {k + 1..next - 1}" using S by auto
  have "length (filter (\<lambda>n. n \<noteq> k) ns) = card {k + 1..next - 1}"
    using assms(2) rest distinct_card [of "filter (\<lambda>n. n \<noteq> k) ns"] by simp
  then have len: "int (length (filter (\<lambda>n. n \<noteq> k) ns)) = int (nat (next - 1 - k))" by simp
  have "Max {k + 1..next - 1} = next - 1" "Min {k + 1..next - 1} = k + 1" if "k + 1 \<le> next - 1"
    using that by (auto intro: Max_eqI Min_eqI)
  moreover have "k + 1 \<le> next - 1" if "filter (\<lambda>n. n \<noteq> k) ns \<noteq> []"
  proof -
    have "set (filter (\<lambda>n. n \<noteq> k) ns) \<noteq> {}" using that by (metis set_empty)
    then show ?thesis unfolding rest by simp
  qed
  ultimately show ?thesis using assms(1) len unfolding numbers_ok_def rest by auto
qed

lemma new_order_ids_remove:
  "new_order_ids w1 d1 (filter (\<lambda>r. \<not> is_new_order w d k r) rs) =
     (if w1 = w \<and> d1 = d then filter (\<lambda>n. n \<noteq> k) (new_order_ids w d rs) else new_order_ids w1 d1 rs)"
proof (cases "w1 = w \<and> d1 = d")
  case True
  then show ?thesis
    unfolding new_order_ids_def if_P [OF True] filter_map filter_filter
    by (intro arg_cong [where f = "map NO_O_ID"] filter_cong) (auto simp: is_new_order_def)
next
  case False
  then show ?thesis
    unfolding new_order_ids_def if_not_P [OF False] filter_filter
    by (intro arg_cong [where f = "map NO_O_ID"] filter_cong) (auto simp: is_new_order_def)
qed

lemma distinct_new_order_ids: "distinct (map new_order_key rs) \<Longrightarrow> distinct (new_order_ids w d rs)"
proof -
  assume "distinct (map new_order_key rs)"
  then have d: "distinct rs" "inj_on new_order_key (set rs)" by (simp_all add: distinct_map)
  have "inj_on NO_O_ID (set (filter (\<lambda>r. NO_W_ID r = w \<and> NO_D_ID r = d) rs))"
  proof (rule inj_onI)
    fix x y
    assume "x \<in> set (filter (\<lambda>r. NO_W_ID r = w \<and> NO_D_ID r = d) rs)" "y \<in> set (filter (\<lambda>r. NO_W_ID r = w \<and> NO_D_ID r = d) rs)"
      and id: "NO_O_ID x = NO_O_ID y"
    then have "x \<in> set rs" "y \<in> set rs" "new_order_key x = new_order_key y" by (simp_all add: new_order_key_def)
    then show "x = y" by (intro inj_onD [OF d(2)])
  qed
  then show ?thesis using d(1) by (simp add: new_order_ids_def distinct_map)
qed

lemma order_ids_update: "order_ids w d (update_rows P (O_CARRIER_ID_update f) rs) = order_ids w d rs"
  by (simp add: order_ids_def filter_update_rows map_update_rows)

lemma delivery_consistent:
  assumes "district_delivered w carrier d t t1" "consistent t"
  shows "consistent t1"
proof -
  obtain no and ord :: orders_r and ts where no: "no \<in> set (new_order_t t)" "NO_W_ID no = w" "NO_D_ID no = d"
      "\<forall>r \<in> set (new_order_t t). NO_W_ID r = w \<and> NO_D_ID r = d \<longrightarrow> NO_O_ID no \<le> NO_O_ID r"
    and t1: "t1 = order_delivered w d carrier (NO_O_ID no) (O_C_ID ord) ts t"
    using assms(1) unfolding district_delivered_def by blast
  define k where "k = NO_O_ID no"
  note t1 = t1 [folded k_def, unfolded order_delivered_def]
  have c: "keys_ok t" "money_ok t" "numbering_ok t" "carriers_ok t" "lines_ok t" using assms(2) by (simp_all add: consistent_def)
  have "keys_ok t1"
    using c(1) by (simp add: keys_ok_def t1 map_update_rows order_key_def distinct_map_filter)
  moreover have "money_ok t1" by (rule money_ok_cong [THEN iffD1, OF _ _ _ c(2)]) (simp_all add: t1)
  moreover have "numbering_ok t1"
  proof -
    have "numbers_ok (D_NEXT_O_ID r) (order_ids w d (orders_t t)) (filter (\<lambda>n. n \<noteq> k) (new_order_ids w d (new_order_t t)))"
      if "r \<in> set (district_t t)" "D_W_ID r = w" "D_ID r = d" for r
    proof (rule numbers_remove_min)
      show "numbers_ok (D_NEXT_O_ID r) (order_ids w d (orders_t t)) (new_order_ids w d (new_order_t t))"
        using c(3) that by (auto simp: numbering_ok_def)
      show "distinct (new_order_ids w d (new_order_t t))" using c(1) by (simp add: keys_ok_def distinct_new_order_ids)
      show "k \<in> set (new_order_ids w d (new_order_t t))" using no(1-3) by (auto simp: new_order_ids_def k_def)
      show "\<forall>n \<in> set (new_order_ids w d (new_order_t t)). k \<le> n" using no(4) by (auto simp: new_order_ids_def k_def)
    qed
    then show ?thesis using c(3) by (auto simp: numbering_ok_def t1 order_ids_update new_order_ids_remove)
  qed
  moreover have "carriers_ok t1"
    using c(4) by (fastforce simp: carriers_ok_def t1 is_order_def is_new_order_def dest!: set_update_rows split: if_splits)
  moreover have "lines_ok t1"
  proof -
    have counts: "length (filter P (update_rows Q (OL_DELIVERY_D_update f) ls)) = length (filter P ls)"
      if "\<And>l. P (OL_DELIVERY_D_update f l) = P l" for P Q f ls
      using that by (simp add: filter_update_rows)
    have "(\<exists>r \<in> set (update_rows Q (O_CARRIER_ID_update f) os). is_order w d k r) = (\<exists>r \<in> set os. is_order w d k r)" for Q f os w d k
      by (rule ex_update_rows) (simp add: is_order_def)
    then show ?thesis using c(5)
      by (auto simp: lines_ok_def t1 lines_of_def counts is_line_of_def column_total_def filter_update_rows map_update_rows
        dest!: set_update_rows split: if_splits)
  qed
  ultimately show ?thesis by (simp add: consistent_def)
qed

lemma deliveries_consistent: "districts_delivered w carrier ds t t1 \<Longrightarrow> consistent t \<Longrightarrow> consistent t1"
  by (induction ds arbitrary: t) (auto dest: delivery_consistent)

section \<open>New-Order\<close>

lemma lines_done_effect:
  "lines_done e data k is t t1 \<Longrightarrow> \<exists>ss ls. t1 = t\<lparr>stock_t := ss, order_line_t := order_line_t t @ ls\<rparr> \<and>
     length ls = length is \<and> (\<forall>l \<in> set ls. is_line_of (no_w_id data) (no_d_id data) k l) \<and> (\<forall>i \<in> set is. i < 15)"
proof (induction "is" arbitrary: t)
  case Nil
  show ?case by (rule exI [of _ "stock_t t"], rule exI [of _ "[]"]) (use Nil in simp)
next
  case (Cons i "is")
  then obtain t2 where t2: "line_done e data k i t t2" "lines_done e data k is t2 t1" by auto
  obtain ss l where l: "t2 = t\<lparr>stock_t := ss, order_line_t := order_line_t t @ [l]\<rparr>" "is_line_of (no_w_id data) (no_d_id data) k l" "i < 15"
    using t2(1) unfolding line_done_def Let_def by (fastforce simp: is_line_of_def)
  obtain ss' ls where "t1 = t2\<lparr>stock_t := ss', order_line_t := order_line_t t2 @ ls\<rparr>"
     "length ls = length is" "\<forall>l \<in> set ls. is_line_of (no_w_id data) (no_d_id data) k l" "\<forall>i \<in> set is. i < 15"
    using Cons.IH [OF t2(2)] by blast
  then show ?case using l by (intro exI [of _ ss'] exI [of _ "l # ls"]) simp
qed


lemma numbers_add_next:
  assumes "numbers_ok k os ns"
  shows "numbers_ok (k + 1) (os @ [k]) (ns @ [k])"
proof -
  have os: "Max (set (os @ [k])) = k"
  proof (rule Max_eqI)
    fix y assume "y \<in> set (os @ [k])"
    moreover have "y \<le> k - 1" if "y \<in> set os"
    proof -
      have "os \<noteq> []" using that by auto
      then have "Max (set os) = k - 1" using assms by (simp add: numbers_ok_def)
      then show ?thesis using Max_ge [OF finite_set that] by simp
    qed
    ultimately show "y \<le> k" by auto
  qed simp_all
  have ns: "Max (set (ns @ [k])) = k \<and> k - Min (set (ns @ [k])) + 1 = int (length (ns @ [k]))"
  proof (cases "ns = []")
    case True
    then show ?thesis by simp
  next
    case False
    then have M: "Max (set ns) = k - 1" "Max (set ns) - Min (set ns) + 1 = int (length ns)"
      using assms unfolding numbers_ok_def by blast+
    have "Min (set ns) \<le> Max (set ns)" using False by simp
    have ne: "set ns \<noteq> {}" using False by simp
    have "Max (insert k (set ns)) = k" "Min (insert k (set ns)) = Min (set ns)"
      unfolding Max_insert [OF finite_set ne] Min_insert [OF finite_set ne]
      using M(1) \<open>Min (set ns) \<le> Max (set ns)\<close> by linarith+
    then have E: "Max (set (ns @ [k])) = k" "Min (set (ns @ [k])) = Min (set ns)" by simp_all
    have "int (length (ns @ [k])) = int (length ns) + 1" by simp
    then show ?thesis unfolding E using M(2) unfolding M(1) by linarith
  qed
  show ?thesis unfolding numbers_ok_def using os ns by simp
qed

lemma order_ids_add: "order_ids w d (rs @ [r]) = order_ids w d rs @ (if O_W_ID r = w \<and> O_D_ID r = d then [O_ID r] else [])"
  by (simp add: order_ids_def)

lemma new_order_ids_add:
  "new_order_ids w d (rs @ [r]) = new_order_ids w d rs @ (if NO_W_ID r = w \<and> NO_D_ID r = d then [NO_O_ID r] else [])"
  by (simp add: new_order_ids_def)

lemma entered_keys:
  assumes "keys_ok t" "\<not> (\<exists>r \<in> set (new_order_t t). is_new_order w d k r)" "\<not> (\<exists>r \<in> set (orders_t t). is_order w d k r)"
    "order_key r = (w, d, k)"
  shows "keys_ok (t\<lparr>district_t := update_rows (in_district w d) (\<lambda>r. r\<lparr>D_NEXT_O_ID := D_NEXT_O_ID r + 1\<rparr>) (district_t t),
       new_order_t := new_order_t t @ [\<lparr>NO_O_ID = k, NO_D_ID = d, NO_W_ID = w\<rparr>], orders_t := orders_t t @ [r]\<rparr>)"
proof -
  have "(w, d, k) \<notin> new_order_key ` set (new_order_t t)" "(w, d, k) \<notin> order_key ` set (orders_t t)"
    using assms(2,3) by (auto simp: new_order_key_def order_key_def is_new_order_def is_order_def)
  then show ?thesis using assms(1,4)
    by (simp add: keys_ok_def map_update_rows district_key_def new_order_key_def)
qed

lemma entered_money:
  assumes "money_ok t"
  shows "money_ok (t\<lparr>district_t := update_rows P (\<lambda>r. r\<lparr>D_NEXT_O_ID := D_NEXT_O_ID r + 1\<rparr>) (district_t t),
     new_order_t := ns, orders_t := os, order_line_t := ls, stock_t := ss\<rparr>)"
proof -
  have sums: "column_total D_YTD Q (update_rows P (\<lambda>r. r\<lparr>D_NEXT_O_ID := D_NEXT_O_ID r + 1\<rparr>) rs) = column_total D_YTD Q rs"
    if "\<And>r. Q (r\<lparr>D_NEXT_O_ID := D_NEXT_O_ID r + 1\<rparr>) = Q r" for Q and rs :: "district_r list"
    using that by (simp add: column_total_def filter_update_rows map_update_rows)
  show ?thesis unfolding money_ok_def
    by (auto dest!: set_update_rows simp: sums money_okD(1) [OF assms, symmetric] money_okD(2) [OF assms, symmetric] money_okD(3) [OF assms])
qed


lemma entered_numbering:
  assumes K: "keys_ok t" and N: "numbering_ok t" and dr: "dr \<in> set (district_t t)" "in_district w d dr" and k: "k = D_NEXT_O_ID dr"
    and r: "order_key r = (w, d, k)"
  shows "numbering_ok (t\<lparr>district_t := update_rows (in_district w d) (\<lambda>r. r\<lparr>D_NEXT_O_ID := D_NEXT_O_ID r + 1\<rparr>) (district_t t),
       new_order_t := new_order_t t @ [\<lparr>NO_O_ID = k, NO_D_ID = d, NO_W_ID = w\<rparr>], orders_t := orders_t t @ [r],
       order_line_t := ls, stock_t := ss\<rparr>)"
proof -
  have r': "O_W_ID r = w" "O_D_ID r = d" "O_ID r = k" using r by (simp_all add: order_key_def)
  have "numbers_ok (D_NEXT_O_ID s + (if in_district w d s then 1 else 0))
      (order_ids (D_W_ID s) (D_ID s) (orders_t t @ [r]))
      (new_order_ids (D_W_ID s) (D_ID s) (new_order_t t @ [\<lparr>NO_O_ID = k, NO_D_ID = d, NO_W_ID = w\<rparr>]))"
    if s: "s \<in> set (district_t t)" for s
  proof -
    have old: "numbers_ok (D_NEXT_O_ID s) (order_ids (D_W_ID s) (D_ID s) (orders_t t)) (new_order_ids (D_W_ID s) (D_ID s) (new_order_t t))"
      using N s by (simp add: numbering_ok_def)
    show ?thesis
    proof (cases "in_district w d s")
      case True
      have "s = dr" using distinct_keyD [of district_key "district_t t" s dr] K s dr True
        by (simp add: keys_ok_def in_district_key)
      then show ?thesis using numbers_add_next [OF old] True
        by (simp add: order_ids_add new_order_ids_add r' k in_district_def)
    next
      case False
      then show ?thesis using old by (auto simp: order_ids_add new_order_ids_add r' in_district_def)
    qed
  qed
  then show ?thesis by (fastforce simp: numbering_ok_def dest!: set_update_rows)
qed

lemma entered_carriers:
  assumes "carriers_ok t" "\<not> (\<exists>r \<in> set (orders_t t). is_order w d k r)" "order_key r = (w, d, k)" "O_CARRIER_ID r = None"
  shows "carriers_ok (t\<lparr>district_t := ds, new_order_t := new_order_t t @ [\<lparr>NO_O_ID = k, NO_D_ID = d, NO_W_ID = w\<rparr>],
       orders_t := orders_t t @ [r], order_line_t := ls, stock_t := ss\<rparr>)"
proof -
  have r': "O_W_ID r = w" "O_D_ID r = d" "O_ID r = k" using assms(3) by (simp_all add: order_key_def)
  have "\<not> is_new_order (O_W_ID s) (O_D_ID s) (O_ID s) \<lparr>NO_O_ID = k, NO_D_ID = d, NO_W_ID = w\<rparr>" if "s \<in> set (orders_t t)" for s
    using assms(2) that by (auto simp: is_new_order_def is_order_def)
  then show ?thesis using assms(1,4) by (auto simp: carriers_ok_def r' is_new_order_def)
qed

lemma entered_lines:
  assumes L: "lines_ok t" and none: "\<not> (\<exists>r \<in> set (orders_t t). is_order w d k r)" and r: "order_key r = (w, d, k)"
    and ls: "\<forall>l \<in> set ls. is_line_of w d k l" "O_OL_CNT r = int (length ls)" "length ls \<le> 15"
  shows "lines_ok (t\<lparr>district_t := ds, new_order_t := ns, orders_t := orders_t t @ [r],
       order_line_t := order_line_t t @ ls, stock_t := ss\<rparr>)"
proof -
  define t1 where "t1 = t\<lparr>district_t := ds, new_order_t := ns, orders_t := orders_t t @ [r],
       order_line_t := order_line_t t @ ls, stock_t := ss\<rparr>"
  have r': "O_W_ID r = w" "O_D_ID r = d" "O_ID r = k" using r by (simp_all add: order_key_def)
  have old: "lines_of w d k t = []"
  proof -
    have "\<not> is_line_of w d k l" if "l \<in> set (order_line_t t)" for l
      using L none that by (force simp: lines_ok_def is_line_of_def is_order_def)
    then show ?thesis by (simp add: lines_of_def filter_empty_conv)
  qed
  have new: "lines_of w1 d1 k1 t1 = lines_of w1 d1 k1 t @ (if (w1, d1, k1) = (w, d, k) then ls else [])" for w1 d1 k1
    using ls(1) by (auto simp: lines_of_def t1_def is_line_of_def filter_empty_conv intro!: filter_True)
  have area: "length (filter (\<lambda>l. OL_W_ID l = w1 \<and> OL_D_ID l = d1) ls) = (if w1 = w \<and> d1 = d then length ls else 0)" for w1 d1
  proof (cases "w1 = w \<and> d1 = d")
    case True
    then have "filter (\<lambda>l. OL_W_ID l = w1 \<and> OL_D_ID l = d1) ls = ls" using ls(1) by (intro filter_True) (auto simp: is_line_of_def)
    then show ?thesis using True by simp
  next
    case False
    then have "filter (\<lambda>l. OL_W_ID l = w1 \<and> OL_D_ID l = d1) ls = []" using ls(1) by (auto simp: filter_empty_conv is_line_of_def)
    then show ?thesis using False by auto
  qed
  have "O_OL_CNT s \<le> 15 \<and> O_OL_CNT s = int (length (lines_of (O_W_ID s) (O_D_ID s) (O_ID s) t1))" if "s \<in> set (orders_t t1)" for s
  proof (cases "s \<in> set (orders_t t)")
    case True
    then have "(O_W_ID s, O_D_ID s, O_ID s) \<noteq> (w, d, k)" using none by (auto simp: is_order_def)
    then show ?thesis using L True by (auto simp: lines_ok_def new)
  next
    case False
    then have "s = r" using that by (simp add: t1_def)
    then show ?thesis using ls(2,3) by (simp add: new r' old)
  qed
  moreover have "\<exists>s \<in> set (orders_t t1). is_order (OL_W_ID l) (OL_D_ID l) (OL_O_ID l) s" if "l \<in> set (order_line_t t1)" for l
  proof (cases "l \<in> set ls")
    case True
    then have "is_order (OL_W_ID l) (OL_D_ID l) (OL_O_ID l) r" using ls(1) by (auto simp: is_line_of_def is_order_def r')
    then show ?thesis by (simp add: t1_def)
  next
    case False
    then have "l \<in> set (order_line_t t)" using that by (simp add: t1_def)
    then have "\<exists>s \<in> set (orders_t t). is_order (OL_W_ID l) (OL_D_ID l) (OL_O_ID l) s" using L by (simp add: lines_ok_def)
    then show ?thesis by (auto simp: t1_def)
  qed
  moreover have "column_total O_OL_CNT (\<lambda>r. O_W_ID r = w1 \<and> O_D_ID r = d1) (orders_t t1) =
        int (length (filter (\<lambda>l. OL_W_ID l = w1 \<and> OL_D_ID l = d1) (order_line_t t1)))" for w1 d1
  proof -
    have "column_total O_OL_CNT (\<lambda>r. O_W_ID r = w1 \<and> O_D_ID r = d1) (orders_t t) =
        int (length (filter (\<lambda>l. OL_W_ID l = w1 \<and> OL_D_ID l = d1) (order_line_t t)))" using L by (simp add: lines_ok_def)
    then show ?thesis using ls(2) by (auto simp: t1_def area r')
  qed
  ultimately have "lines_ok t1" unfolding lines_ok_def by blast
  then show ?thesis by (simp add: t1_def)
qed

lemma entered_consistent:
  assumes C: "consistent t" and D: "dr \<in> set (district_t t)" "in_district (no_w_id data) (no_d_id data) dr"
      "\<not> (\<exists>r \<in> set (new_order_t t). is_new_order (no_w_id data) (no_d_id data) (D_NEXT_O_ID dr) r)"
      "\<not> (\<exists>r \<in> set (orders_t t). is_order (no_w_id data) (no_d_id data) (D_NEXT_O_ID dr) r)"
    and t1: "t1 = (order_entered data (D_NEXT_O_ID dr) ts t)\<lparr>stock_t := ss,
       order_line_t := order_line_t (order_entered data (D_NEXT_O_ID dr) ts t) @ ls\<rparr>"
    and ls: "\<forall>l \<in> set ls. is_line_of (no_w_id data) (no_d_id data) (D_NEXT_O_ID dr) l" "int (length ls) = no_o_ol_cnt data" "length ls \<le> 15"
  shows "consistent t1"
proof -
  define w d k where "w = no_w_id data" and "d = no_d_id data" and "k = D_NEXT_O_ID dr"
  define r where "r = \<lparr>O_ID = k, O_D_ID = d, O_W_ID = w, O_C_ID = no_c_id data, O_ENTRY_D = ts,
         O_CARRIER_ID = None, O_OL_CNT = no_o_ol_cnt data, O_ALL_LOCAL = no_o_all_local data\<rparr>"
  have t1: "t1 = t\<lparr>district_t := update_rows (in_district w d) (\<lambda>r. r\<lparr>D_NEXT_O_ID := D_NEXT_O_ID r + 1\<rparr>) (district_t t),
       new_order_t := new_order_t t @ [\<lparr>NO_O_ID = k, NO_D_ID = d, NO_W_ID = w\<rparr>], orders_t := orders_t t @ [r],
       order_line_t := order_line_t t @ ls, stock_t := ss\<rparr>"
    by (simp add: t1 order_entered_def Let_def r_def w_def d_def k_def)
  have cnt: "O_OL_CNT r = int (length ls)" using ls(2) by (simp add: r_def)
  have key: "order_key r = (w, d, k)" "O_CARRIER_ID r = None" by (simp_all add: order_key_def r_def)
  have c: "keys_ok t" "money_ok t" "numbering_ok t" "carriers_ok t" "lines_ok t" using C by (simp_all add: consistent_def)
  note D = D [folded w_def d_def k_def] and ls = ls(1) [folded w_def d_def k_def] ls(3)
  have "keys_ok t1" using entered_keys [OF c(1) D(3,4) key(1)] by (simp add: t1 keys_ok_def)
  moreover have "money_ok t1" unfolding t1 by (rule entered_money [OF c(2)])
  moreover have "numbering_ok t1" unfolding t1 by (rule entered_numbering [OF c(1,3) D(1,2) k_def key(1)])
  moreover have "carriers_ok t1" unfolding t1 by (rule entered_carriers [OF c(4) D(4) key])
  moreover have "lines_ok t1" unfolding t1 by (rule entered_lines [OF c(5) D(4) key(1) ls(1) cnt ls(2)])
  ultimately show ?thesis by (simp add: consistent_def)
qed

lemma new_order_consistent:
  assumes "new_order_done e data t t1" "consistent t" "0 \<le> no_o_ol_cnt data"
  shows "consistent t1"
proof -
  define w d where "w = no_w_id data" and "d = no_d_id data"
  obtain dr ts where D: "dr \<in> set (district_t t)" "in_district w d dr"
      "\<not> (\<exists>r \<in> set (new_order_t t). is_new_order w d (D_NEXT_O_ID dr) r)" "\<not> (\<exists>r \<in> set (orders_t t). is_order w d (D_NEXT_O_ID dr) r)"
    and L: "lines_done e data (D_NEXT_O_ID dr) [0..<nat (no_o_ol_cnt data)] (order_entered data (D_NEXT_O_ID dr) ts t) t1"
    using assms(1) unfolding new_order_done_def w_def d_def by blast
  from lines_done_effect [OF L] obtain ss ls where ls: "t1 = (order_entered data (D_NEXT_O_ID dr) ts t)\<lparr>stock_t := ss,
      order_line_t := order_line_t (order_entered data (D_NEXT_O_ID dr) ts t) @ ls\<rparr>"
     "length ls = length [0..<nat (no_o_ol_cnt data)]" "\<forall>l \<in> set ls. is_line_of (no_w_id data) (no_d_id data) (D_NEXT_O_ID dr) l"
     "\<forall>i \<in> set [0..<nat (no_o_ol_cnt data)]. i < 15" by blast
  have few: "length ls \<le> 15"
  proof (rule ccontr)
    assume "\<not> length ls \<le> 15"
    then have "15 \<in> set [0..<nat (no_o_ol_cnt data)]" using ls(2) by simp
    then show False using ls(4) by blast
  qed
  show ?thesis
    by (rule entered_consistent [OF assms(2) D [unfolded w_def d_def] ls(1,3)]) (use ls(2) few assms(3) in auto)
qed

end
