(* ===== verification/Db.thy ===== *)
theory Db
  imports Consistency
begin

text \<open>
  The interface to a database (\<open>src/src/db.c\<close>, \<open>src/src/include/db.h\<close>): connecting, and the execution
  of a transaction with its commit or rollback, the reconnection and the second attempt. A database
  context is the record of its operations on a state of any type. The loops that wait for the
  database are partial functions, None for a loop that does not end.
\<close>

section \<open>Database contexts\<close>

text \<open>The union of the transaction data, by its members; a transaction only uses its own.\<close>

record transaction_union =
  un_delivery :: delivery_t
  un_new_order :: "new_order_t \<times> new_order_out"
  un_order_status :: "order_status_t \<times> order_status_out"
  un_payment :: "payment_t \<times> payment_out"
  un_stock_level :: "stock_level_t \<times> int"
  un_integrity :: integrity_t

text \<open>
  The function pointers of \<open>struct db_context_t\<close>, with \<open>time\<close> and \<open>nanosleep\<close>, which is True when it
  slept to its end. The result None of an operation is undefined behaviour.
\<close>

record 's db_context =
  stop_time :: int
  db_connect :: "('s, int) state"
  db_commit :: "('s, int) state"
  db_disconnect :: "('s, int) state"
  db_rollback :: "('s, int) state"
  db_delivery :: "delivery_t \<Rightarrow> ('s, int option) state"
  db_integrity :: "integrity_t \<Rightarrow> ('s, int option) state"
  db_new_order :: "new_order_t \<times> new_order_out \<Rightarrow> ('s, int option \<times> new_order_t \<times> new_order_out) state"
  db_order_status :: "order_status_t \<times> order_status_out \<Rightarrow> ('s, int option \<times> order_status_t \<times> order_status_out) state"
  db_payment :: "payment_t \<times> payment_out \<Rightarrow> ('s, int option \<times> payment_t \<times> payment_out) state"
  db_stock_level :: "stock_level_t \<times> int \<Rightarrow> ('s, int option \<times> int) state"
  read_time :: "('s, int) state"
  nano_sleep :: "('s, bool) state"

section \<open>Connecting\<close>

text \<open>Sleeping again after an interruption; with an invalid time this does not end.\<close>

partial_function (option) sleep_fully :: "'s db_context \<Rightarrow> 's \<Rightarrow> 's option" where
  "sleep_fully dbc s = (case run_state (nano_sleep dbc) s of
     (ok, s1) \<Rightarrow> if ok then Some s1 else sleep_fully dbc s1)"

definition past_stop :: "'s db_context \<Rightarrow> int \<Rightarrow> bool" where
  "past_stop dbc tt \<longleftrightarrow> stop_time dbc \<noteq> 0 \<and> tt > stop_time dbc"

partial_function (option) connect_to_db :: "'s db_context \<Rightarrow> 's \<Rightarrow> (int \<times> 's) option" where
  "connect_to_db dbc s = (case run_state (read_time dbc) s of
     (tt, s1) \<Rightarrow>
       if past_stop dbc tt then Some (ERROR, s1)
       else (case run_state (db_connect dbc) s1 of
         (rc, s2) \<Rightarrow> if rc = OK then Some (OK, s2)
           else Option.bind (sleep_fully dbc s2) (connect_to_db dbc)))"

definition disconnect_from_db :: "'s db_context \<Rightarrow> ('s, int) state" where
  "disconnect_from_db dbc = do {
     rc \<leftarrow> db_disconnect dbc;
     State_Monad.return (if rc \<noteq> OK then ERROR else OK)
   }"

text \<open>The loop of \<open>process_transaction\<close> that reconnects; False is its return of an error.\<close>

partial_function (option) reconnect :: "'s db_context \<Rightarrow> 's \<Rightarrow> (bool \<times> 's) option" where
  "reconnect dbc s = (case run_state (read_time dbc) s of
     (tt, s1) \<Rightarrow>
       if past_stop dbc tt then Some (False, s1)
       else Option.bind (connect_to_db dbc s1) (\<lambda>(rc, s2).
         if rc = OK then Some (True, s2)
         else Option.bind (sleep_fully dbc s2) (reconnect dbc)))"

section \<open>Execution\<close>

definition set_all_local :: "new_order_t \<Rightarrow> new_order_t" where
  "set_all_local d = d\<lparr>no_o_all_local :=
     (if list_all (\<lambda>l. ol_supply_w_id l = no_w_id d) (take (nat (no_o_ol_cnt d)) (no_order_line d)) then 1 else 0)\<rparr>"

definition adjust_total :: "new_order_out \<Rightarrow> new_order_out" where
  "adjust_total r = r\<lparr>nw_total_amount :=
     fl (fl (nw_total_amount r * fl (1 - nw_c_discount r)) * fl (fl (1 + nw_w_tax r) + nw_d_tax r))\<rparr>"

text \<open>The switch; \<open>Inr\<close> is the default case.\<close>

definition execute_transaction ::
    "'s db_context \<Rightarrow> int \<Rightarrow> transaction_union \<Rightarrow> ('s, (int option \<times> transaction_union) + unit) state" where
  "execute_transaction dbc transaction td =
     (if transaction = INTEGRITY then do {
        rc \<leftarrow> db_integrity dbc (un_integrity td);
        State_Monad.return (Inl (rc, td)) }
      else if transaction = DELIVERY then do {
        rc \<leftarrow> db_delivery dbc (un_delivery td);
        State_Monad.return (Inl (rc, td)) }
      else if transaction = NEW_ORDER then do {
        let d = set_all_local (fst (un_new_order td));
        (rc, d, r) \<leftarrow> db_new_order dbc (d, snd (un_new_order td));
        State_Monad.return (Inl (case rc of
            None \<Rightarrow> (None, td\<lparr>un_new_order := (d, r)\<rparr>)
          | Some rc \<Rightarrow> if rc \<noteq> ERROR \<and> nw_rollback r = 0
              then (Some rc, td\<lparr>un_new_order := (d, adjust_total r)\<rparr>)
              else (Some ERROR, td\<lparr>un_new_order := (d, r)\<rparr>))) }
      else if transaction = ORDER_STATUS then do {
        (rc, x) \<leftarrow> db_order_status dbc (un_order_status td);
        State_Monad.return (Inl (rc, td\<lparr>un_order_status := x\<rparr>)) }
      else if transaction = PAYMENT then do {
        (rc, x) \<leftarrow> db_payment dbc (un_payment td);
        State_Monad.return (Inl (rc, td\<lparr>un_payment := x\<rparr>)) }
      else if transaction = STOCK_LEVEL then do {
        (rc, x) \<leftarrow> db_stock_level dbc (un_stock_level td);
        State_Monad.return (Inl (rc, td\<lparr>un_stock_level := (fst (un_stock_level td), x)\<rparr>)) }
      else State_Monad.return (Inr ()))"

text \<open>
  The loop over the attempts. \<open>rc\<close> decides between commit and rollback; \<open>status\<close> keeps its value for
  any other \<open>rc\<close>. The result is the status, None for undefined behaviour.
\<close>

fun attempts ::
    "'s db_context \<Rightarrow> int \<Rightarrow> nat \<Rightarrow> int \<Rightarrow> transaction_union \<Rightarrow> 's \<Rightarrow> ((int option \<times> transaction_union) \<times> 's) option" where
  "attempts dbc transaction 0 status td s = Some ((Some status, td), s)"
| "attempts dbc transaction (Suc n) status td s =
     (case run_state (execute_transaction dbc transaction td) s of
        (Inr _, s1) \<Rightarrow> Some ((Some ERROR, td), s1)
      | (Inl (None, td1), s1) \<Rightarrow> Some ((None, td1), s1)
      | (Inl (Some rc, td1), s1) \<Rightarrow>
          let (status1, s2) = (if rc = OK then run_state (db_commit dbc) s1
              else if rc = ERROR then run_state (db_rollback dbc) s1 else (status, s1))
          in if rc = OK \<and> status1 = OK \<or> rc = ERROR \<and> status1 = STATUS_ROLLBACK then Some ((Some status1, td1), s2)
             else (case run_state (disconnect_from_db dbc) s2 of
               (_, s3) \<Rightarrow> Option.bind (reconnect dbc s3) (\<lambda>(ok, s4).
                 if ok then attempts dbc transaction n status1 td1 s4
                 else Some ((Some ERROR, td1), s4))))"

definition process_transaction ::
    "'s db_context \<Rightarrow> int \<Rightarrow> transaction_union \<Rightarrow> 's \<Rightarrow> ((int option \<times> transaction_union) \<times> 's) option" where
  "process_transaction dbc transaction td s = attempts dbc transaction 2 0 td s"

section \<open>A worker\<close>

text \<open>
  What a thread of \<open>db_threadpool.c\<close> does with its connection: it connects, processes the transactions
  of the nodes that it takes from the queue, one after the other, and disconnects when the client
  exits. The queue and the sockets are part of \<open>Client_System\<close>. The result lists the answers; they
  end with undefined behaviour.
\<close>

fun worker_transactions ::
    "'s db_context \<Rightarrow> (int \<times> transaction_union) list \<Rightarrow> 's \<Rightarrow> ((int option \<times> transaction_union) list \<times> 's) option" where
  "worker_transactions dbc [] s = Some ([], s)"
| "worker_transactions dbc ((tr, td) # nodes) s = Option.bind (process_transaction dbc tr td s) (\<lambda>((st, td1), s1).
     if st = None then Some ([(st, td1)], s1)
     else Option.bind (worker_transactions dbc nodes s1) (\<lambda>(answers, s2). Some ((st, td1) # answers, s2)))"

text \<open>\<open>exit(1)\<close> or the answers.\<close>

definition db_worker_run :: "'s db_context \<Rightarrow> (int \<times> transaction_union) list \<Rightarrow> 's \<Rightarrow>
    ((int option \<times> transaction_union) list option \<times> 's) option" where
  "db_worker_run dbc nodes s = Option.bind (connect_to_db dbc s) (\<lambda>(rc, s1).
     if rc \<noteq> OK then Some (None, s1)
     else Option.bind (worker_transactions dbc nodes s1) (\<lambda>(answers, s2).
       if list_ex (\<lambda>a. fst a = None) answers then Some (Some answers, s2)
       else (case run_state (disconnect_from_db dbc) s2 of (_, s3) \<Rightarrow> Some (Some answers, s3))))"

text \<open>
  The specification: one after the other, exactly the requests that are answered with \<open>OK\<close> change the
  data.
\<close>

fun serial :: "(int \<Rightarrow> transaction_union \<Rightarrow> 'd \<Rightarrow> 'd \<Rightarrow> bool) \<Rightarrow> (transaction_union \<Rightarrow> transaction_union \<Rightarrow> bool) \<Rightarrow>
    (int \<times> transaction_union) list \<Rightarrow> (int option \<times> transaction_union) list \<Rightarrow> 'd \<Rightarrow> 'd \<Rightarrow> bool" where
  "serial eff same [] answers d d1 \<longleftrightarrow> answers = [] \<and> d1 = d"
| "serial eff same ((tr, td) # nodes) answers d d1 \<longleftrightarrow> (case answers of
      [] \<Rightarrow> False
    | (st, _) # answers \<Rightarrow>
        if st = Some OK then \<exists>td0 d2. same td td0 \<and> eff tr td0 d d2 \<and> serial eff same nodes answers d2 d1
        else if st = None then answers = [] \<and> d1 = d
        else serial eff same nodes answers d d1)"

section \<open>Atomicity\<close>

text \<open>
  What \<open>process_transaction\<close> needs of a backend. \<open>durable s\<close> is what would survive a loss of the
  connection; \<open>idle s\<close>: connected, no transaction; \<open>working s t\<close>: connected, and a commit would make
  \<open>t\<close> durable; \<open>down s\<close>: to be connected again. \<open>effect tr td d t\<close>: the transaction leads from \<open>d\<close> to
  \<open>t\<close>; \<open>same\<close> relates the transaction data to what they may have become for a second attempt.
\<close>

locale atomic_backend =
  fixes dbc :: "'s db_context"
    and durable :: "'s \<Rightarrow> 'd"
    and idle :: "'s \<Rightarrow> bool"
    and working :: "'s \<Rightarrow> 'd \<Rightarrow> bool"
    and down :: "'s \<Rightarrow> bool"
    and valid :: "transaction_union \<Rightarrow> 'd \<Rightarrow> bool"
    and effect :: "int \<Rightarrow> transaction_union \<Rightarrow> 'd \<Rightarrow> 'd \<Rightarrow> bool"
    and same :: "transaction_union \<Rightarrow> transaction_union \<Rightarrow> bool"
  assumes execute: "idle s \<Longrightarrow> valid td (durable s) \<Longrightarrow>
      run_state (execute_transaction dbc tr td) s = (Inl (rc, td1), s1) \<Longrightarrow>
      durable s1 = durable s \<and> same td td1 \<and> valid td1 (durable s) \<and>
      (\<exists>t. working s1 t \<and> (rc = Some OK \<longrightarrow> effect tr td (durable s) t))"
    and commit: "working s t \<Longrightarrow> run_state (db_commit dbc) s = (st, s1) \<Longrightarrow>
      (if st = OK then durable s1 = t \<and> idle s1 else durable s1 = durable s \<and> (\<exists>t1. working s1 t1))"
    and rollback: "working s t \<Longrightarrow> run_state (db_rollback dbc) s = (st, s1) \<Longrightarrow>
      st \<noteq> OK \<and> durable s1 = durable s \<and> (if st = STATUS_ROLLBACK then idle s1 else \<exists>t1. working s1 t1)"
    and disconnect: "working s t \<Longrightarrow> run_state (db_disconnect dbc) s = (st, s1) \<Longrightarrow> durable s1 = durable s \<and> down s1"
    and connect: "down s \<Longrightarrow> run_state (db_connect dbc) s = (st, s1) \<Longrightarrow>
      durable s1 = durable s \<and> (if st = OK then idle s1 else down s1)"
    and waiting: "down s \<Longrightarrow> run_state (read_time dbc) s = (tt, s1) \<Longrightarrow> durable s1 = durable s \<and> down s1"
      "down s \<Longrightarrow> run_state (nano_sleep dbc) s = (b, s1) \<Longrightarrow> durable s1 = durable s \<and> down s1"
    and valid_kept: "valid td d \<Longrightarrow> effect tr td d t \<Longrightarrow> valid td1 d \<Longrightarrow> valid td1 t"
    and idle_working: "idle s \<Longrightarrow> working s (durable s)"
    and same_refl: "same td td"
    and same_trans: "same td td1 \<Longrightarrow> same td1 td2 \<Longrightarrow> same td td2"
begin

lemma sleep_fully_down:
  assumes "sleep_fully dbc s = Some s1" "down s"
  shows "durable s1 = durable s \<and> down s1"
proof -
  have "d = dbc \<longrightarrow> down s \<longrightarrow> durable s1 = durable s \<and> down s1" if "sleep_fully d s = Some s1"
    for d :: "'s db_context" and s s1
  proof (rule sleep_fully.raw_induct [where P = "\<lambda>(d :: 's db_context) s s1. d = dbc \<longrightarrow> down s \<longrightarrow> durable s1 = durable s \<and> down s1", OF _ that])
    fix f :: "'s db_context \<Rightarrow> 's \<Rightarrow> 's option" and d :: "'s db_context" and s s1
    assume IH: "\<And>d s s1. f d s = Some s1 \<Longrightarrow> d = dbc \<longrightarrow> down s \<longrightarrow> durable s1 = durable s \<and> down s1"
      and eq: "(case run_state (nano_sleep d) s of (ok, s1) \<Rightarrow> if ok then Some s1 else f d s1) = Some s1"
    show "d = dbc \<longrightarrow> down s \<longrightarrow> durable s1 = durable s \<and> down s1"
    proof (intro impI)
      assume d: "d = dbc" "down s"
      obtain ok s2 where r: "run_state (nano_sleep dbc) s = (ok, s2)" by (cases "run_state (nano_sleep dbc) s") auto
      note w = waiting(2) [OF d(2) r]
      show "durable s1 = durable s \<and> down s1"
        using eq d(1) r w IH [of dbc s2 s1] by (cases ok) auto
    qed
  qed
  then show ?thesis using assms by blast
qed

lemma connect_down:
  assumes "connect_to_db dbc s = Some (rc, s1)" "down s"
  shows "durable s1 = durable s \<and> (if rc = OK then idle s1 else down s1)"
proof -
  define Q where "Q = (\<lambda>s (r :: int \<times> 's). down s \<longrightarrow> durable (snd r) = durable s \<and> (if fst r = OK then idle (snd r) else down (snd r)))"
  have "d = dbc \<longrightarrow> Q s r" if "connect_to_db d s = Some r" for d :: "'s db_context" and s r
  proof (rule connect_to_db.raw_induct [where P = "\<lambda>(d :: 's db_context) s r. d = dbc \<longrightarrow> Q s r", OF _ that])
    fix f :: "'s db_context \<Rightarrow> 's \<Rightarrow> (int \<times> 's) option" and d :: "'s db_context" and s r
    assume IH: "\<And>d s r. f d s = Some r \<Longrightarrow> d = dbc \<longrightarrow> Q s r"
      and eq: "(case run_state (read_time d) s of (tt, s1) \<Rightarrow>
         if past_stop d tt then Some (ERROR, s1)
         else (case run_state (db_connect d) s1 of (rc, s2) \<Rightarrow> if rc = OK then Some (OK, s2)
             else Option.bind (sleep_fully d s2) (f d))) = Some r"
    show "d = dbc \<longrightarrow> Q s r"
    proof (intro impI)
      assume d: "d = dbc"
      obtain tt sa where A: "run_state (read_time dbc) s = (tt, sa)" by (cases "run_state (read_time dbc) s") auto
      obtain rc sb where B: "run_state (db_connect dbc) sa = (rc, sb)" by (cases "run_state (db_connect dbc) sa") auto
      show "Q s r"
      proof (cases "down s")
        case True
        note a = waiting(1) [OF True A]
        note b = connect [OF conjunct2 [OF a] B]
        consider "past_stop dbc tt" | "\<not> past_stop dbc tt" "rc = OK" | "\<not> past_stop dbc tt" "rc \<noteq> OK" by blast
        then show ?thesis
        proof cases
          case 1
          then have "r = (ERROR, sa)" using eq d A by simp
          then show ?thesis using a by (simp add: Q_def ERROR_def OK_def)
        next
          case 2
          then have "r = (OK, sb)" using eq d A B by simp
          then show ?thesis using a b 2 by (simp add: Q_def)
        next
          case 3
          then obtain sc where C: "sleep_fully dbc sb = Some sc" "f dbc sc = Some r"
            using eq d A B by (auto simp: bind_eq_Some_conv)
          have "down sb" using b 3 by simp
          note c = sleep_fully_down [OF C(1) this]
          have "Q sc r" using IH [OF C(2)] by simp
          then show ?thesis using a b c 3 by (simp add: Q_def)
        qed
      qed (simp add: Q_def)
    qed
  qed
  then have "Q s (rc, s1)" using assms(1) by blast
  then show ?thesis using assms(2) by (auto simp: Q_def)
qed

lemma reconnect_down:
  assumes "reconnect dbc s = Some (ok, s1)" "down s"
  shows "durable s1 = durable s \<and> (ok \<or> stop_time dbc = 0 \<longrightarrow> idle s1)"
proof -
  define Q where "Q = (\<lambda>s (r :: bool \<times> 's). down s \<longrightarrow> durable (snd r) = durable s \<and> (fst r \<or> stop_time dbc = 0 \<longrightarrow> idle (snd r)))"
  have "d = dbc \<longrightarrow> Q s r" if "reconnect d s = Some r" for d :: "'s db_context" and s r
  proof (rule reconnect.raw_induct [where P = "\<lambda>(d :: 's db_context) s r. d = dbc \<longrightarrow> Q s r", OF _ that])
    fix f :: "'s db_context \<Rightarrow> 's \<Rightarrow> (bool \<times> 's) option" and d :: "'s db_context" and s r
    assume IH: "\<And>d s r. f d s = Some r \<Longrightarrow> d = dbc \<longrightarrow> Q s r"
      and eq: "(case run_state (read_time d) s of (tt, s1) \<Rightarrow>
         if past_stop d tt then Some (False, s1)
         else Option.bind (connect_to_db d s1) (\<lambda>(rc, s2). if rc = OK then Some (True, s2)
             else Option.bind (sleep_fully d s2) (f d))) = Some r"
    show "d = dbc \<longrightarrow> Q s r"
    proof (intro impI)
      assume d: "d = dbc"
      obtain tt sa where A: "run_state (read_time dbc) s = (tt, sa)" by (cases "run_state (read_time dbc) s") auto
      show "Q s r"
      proof (cases "down s")
        case True
        note a = waiting(1) [OF True A]
        show ?thesis
        proof (cases "past_stop dbc tt")
          case True
          then have "r = (False, sa)" "stop_time dbc \<noteq> 0" using eq d A by (simp_all add: past_stop_def)
          then show ?thesis using a by (simp add: Q_def)
        next
          case False
          then obtain rc sb where B: "connect_to_db dbc sa = Some (rc, sb)"
            "(if rc = OK then Some (True, sb) else Option.bind (sleep_fully dbc sb) (f dbc)) = Some r"
            using eq d A by (auto simp: bind_eq_Some_conv)
          note b = connect_down [OF B(1) conjunct2 [OF a]]
          show ?thesis
          proof (cases "rc = OK")
            case True
            then show ?thesis using a b B(2) by (auto simp: Q_def)
          next
            case False
            then obtain sc where C: "sleep_fully dbc sb = Some sc" "f dbc sc = Some r"
              using B(2) by (auto simp: bind_eq_Some_conv)
            have "down sb" using b False by simp
            note c = sleep_fully_down [OF C(1) this]
            have "Q sc r" using IH [OF C(2)] by simp
            then show ?thesis using a b c by (simp add: Q_def)
          qed
        qed
      qed (simp add: Q_def)
    qed
  qed
  then have "Q s (ok, s1)" using assms(1) by blast
  then show ?thesis using assms(2) by (simp add: Q_def)
qed

text \<open>
  Success means one execution was committed; anything else leaves what was durable. Without a stop
  time, the connection is idle again.
\<close>

definition outcome :: "int \<Rightarrow> transaction_union \<Rightarrow> 's \<Rightarrow> int option \<Rightarrow> 's \<Rightarrow> bool" where
  "outcome tr td s st s1 \<longleftrightarrow> (if st = Some OK then \<exists>td0. same td td0 \<and> valid td0 (durable s) \<and> effect tr td0 (durable s) (durable s1)
     else durable s1 = durable s) \<and> (stop_time dbc = 0 \<and> st \<noteq> None \<longrightarrow> idle s1)"

lemma attempts_atomic:
  "idle s \<Longrightarrow> valid td (durable s) \<Longrightarrow> st0 \<noteq> OK \<Longrightarrow> attempts dbc tr n st0 td s = Some ((st, td1), s1) \<Longrightarrow> outcome tr td s st s1"
proof (induction n arbitrary: s td st0)
  case 0
  then show ?case by (auto simp: outcome_def)
next
  case (Suc n)
  obtain x sa where X: "run_state (execute_transaction dbc tr td) s = (x, sa)"
    by (cases "run_state (execute_transaction dbc tr td) s") auto
  show ?case
  proof (cases x)
    case (Inr u)
    have "sa = s" using X Inr unfolding execute_transaction_def
      by (auto simp: run_bind State_Monad.return_def Let_def split: if_splits prod.splits option.splits)
    then show ?thesis using Suc.prems(1,4) X Inr by (auto simp: outcome_def ERROR_def OK_def)
  next
    case (Inl y)
    obtain rc0 tda where y: "y = (rc0, tda)" by (cases y)
    obtain t where E: "durable sa = durable s" "same td tda" "valid tda (durable s)" "working sa t" "rc0 = Some OK \<longrightarrow> effect tr td (durable s) t"
      using execute [OF Suc.prems(1,2) X [unfolded Inl y]] by blast
    show ?thesis
    proof (cases rc0)
      case None
      then show ?thesis using Suc.prems(4) X Inl y E(1) by (auto simp: outcome_def)
    next
      case (Some rc)
      define z where "z = (if rc = OK then run_state (db_commit dbc) sa
              else if rc = ERROR then run_state (db_rollback dbc) sa else (st0, sa))"
      obtain st1 sb where z: "z = (st1, sb)" by (cases z)
      have run: "(if rc = OK \<and> st1 = OK \<or> rc = ERROR \<and> st1 = STATUS_ROLLBACK then Some ((Some st1, tda), sb)
             else (case run_state (disconnect_from_db dbc) sb of
               (_, s3) \<Rightarrow> Option.bind (reconnect dbc s3) (\<lambda>(ok, s4).
                 if ok then attempts dbc tr n st1 tda s4
                 else Some ((Some ERROR, tda), s4)))) = Some ((st, td1), s1)"
        using Suc.prems(4) X Inl y Some z unfolding z_def by simp
      have Z: "(if rc = OK \<and> st1 = OK then effect tr td (durable s) (durable sb)
          else durable sb = durable s \<and> st1 \<noteq> OK \<and> (\<not> (rc = ERROR \<and> st1 = STATUS_ROLLBACK) \<longrightarrow> (\<exists>t1. working sb t1)))"
        "rc = OK \<and> st1 = OK \<or> rc = ERROR \<and> st1 = STATUS_ROLLBACK \<Longrightarrow> idle sb"
        using commit [OF E(4), of st1 sb] rollback [OF E(4), of st1 sb] z E(1,4,5) Some Suc.prems(3)
        by (auto simp: z_def OK_def ERROR_def split: if_splits)
      show ?thesis
      proof (cases "rc = OK \<and> st1 = OK \<or> rc = ERROR \<and> st1 = STATUS_ROLLBACK")
        case True
        then have "st = Some st1" "s1 = sb" using run by auto
        then show ?thesis using Z True Suc.prems(2) same_refl [of td]
          by (auto simp: outcome_def OK_def ERROR_def STATUS_ROLLBACK_def split: if_splits)
      next
        case False
        obtain v sc where C: "run_state (db_disconnect dbc) sb = (v, sc)" by (cases "run_state (db_disconnect dbc) sb") auto
        then have "run_state (disconnect_from_db dbc) sb = (if v \<noteq> OK then ERROR else OK, sc)"
          by (simp add: disconnect_from_db_def run_bind State_Monad.return_def)
        then obtain ok sd where D: "reconnect dbc sc = Some (ok, sd)"
          "(if ok then attempts dbc tr n st1 tda sd else Some ((Some ERROR, tda), sd)) = Some ((st, td1), s1)"
          using run False by (auto simp: bind_eq_Some_conv)
        obtain t1 where W: "durable sb = durable s" "st1 \<noteq> OK" "working sb t1" using Z False by (auto split: if_splits)
        note c = disconnect [OF W(3) C]
        note d = reconnect_down [OF D(1) conjunct2 [OF c]]
        have same_durable: "durable sd = durable s" using c d W(1) by simp
        show ?thesis
        proof (cases ok)
          case True
          have "outcome tr tda sd st s1"
          proof (rule Suc.IH)
            show "idle sd" using d True by simp
            show "valid tda (durable sd)" using E(3) same_durable by simp
            show "st1 \<noteq> OK" by (rule W(2))
            show "attempts dbc tr n st1 tda sd = Some ((st, td1), s1)" using D(2) True by simp
          qed
          then show ?thesis using same_durable same_trans [OF E(2)] by (auto simp: outcome_def split: if_splits)
        next
          case False
          then show ?thesis using D(2) same_durable d by (auto simp: outcome_def ERROR_def OK_def)
        qed
      qed
    qed
  qed
qed

lemma process_atomic:
  "idle s \<Longrightarrow> valid td (durable s) \<Longrightarrow> process_transaction dbc tr td s = Some ((st, td1), s1) \<Longrightarrow> outcome tr td s st s1"
  unfolding process_transaction_def by (rule attempts_atomic) (simp_all add: OK_def)

lemma serial_step:
  assumes "outcome tr td s st s2" "st \<noteq> None" "serial effect same nodes as (durable s2) d"
  shows "serial effect same ((tr, td) # nodes) ((st, td1) # as) (durable s) d"
proof (cases "st = Some OK")
  case True
  then obtain td0 where "same td td0" "effect tr td0 (durable s) (durable s2)" using assms(1) by (auto simp: outcome_def)
  then have "\<exists>td0 d2. same td td0 \<and> effect tr td0 (durable s) d2 \<and> serial effect same nodes as d2 d" using assms(3) by blast
  then show ?thesis using True by simp
next
  case False
  then have "durable s2 = durable s" using assms(1) by (simp add: outcome_def)
  then show ?thesis using False assms(2,3) by (cases st) simp_all
qed

lemma outcome_kept:
  assumes "outcome tr td s st s2" "valid td1 (durable s)"
  shows "valid td1 (durable s2)"
proof (cases "st = Some OK")
  case True
  then obtain td0 where "valid td0 (durable s)" "effect tr td0 (durable s) (durable s2)" using assms(1) by (auto simp: outcome_def)
  then show ?thesis by (rule valid_kept [OF _ _ assms(2)])
qed (use assms in \<open>simp add: outcome_def\<close>)

lemma worker_serial:
  assumes "stop_time dbc = 0"
  shows "idle s \<Longrightarrow> \<forall>n \<in> set nodes. valid (snd n) (durable s) \<Longrightarrow>
    worker_transactions dbc nodes s = Some (answers, s1) \<Longrightarrow>
    serial effect same nodes answers (durable s) (durable s1) \<and> (\<forall>td. valid td (durable s) \<longrightarrow> valid td (durable s1)) \<and>
    (list_ex (\<lambda>a. fst a = None) answers \<or> idle s1)"
proof (induction nodes arbitrary: s answers)
  case (Cons n nodes)
  obtain tr td where n: "n = (tr, td)" by (cases n)
  obtain st td1 s2 where P: "process_transaction dbc tr td s = Some ((st, td1), s2)"
    and rest: "(if st = None then Some ([(st, td1)], s2)
     else Option.bind (worker_transactions dbc nodes s2) (\<lambda>(answers, s3). Some ((st, td1) # answers, s3))) = Some (answers, s1)"
    using Cons.prems(3) n by (auto simp: bind_eq_Some_conv)
  have o: "outcome tr td s st s2" using process_atomic [OF Cons.prems(1) _ P] Cons.prems(2) n by simp
  show ?case
  proof (cases "st = None")
    case True
    then have "answers = [(None, td1)]" "s2 = s1" using rest by simp_all
    moreover have "durable s1 = durable s" using o True \<open>s2 = s1\<close> by (simp add: outcome_def)
    ultimately show ?thesis using n by simp
  next
    case False
    then obtain as where R: "worker_transactions dbc nodes s2 = Some (as, s1)" "answers = (st, td1) # as"
      using rest by (auto simp: bind_eq_Some_conv)
    have "idle s2" using o assms False by (simp add: outcome_def)
    moreover have "\<forall>n \<in> set nodes. valid (snd n) (durable s2)" using Cons.prems(2) outcome_kept [OF o] by simp
    ultimately have IH: "serial effect same nodes as (durable s2) (durable s1)" "\<forall>td. valid td (durable s2) \<longrightarrow> valid td (durable s1)"
      "list_ex (\<lambda>a. fst a = None) as \<or> idle s1" using Cons.IH [OF _ _ R(1)] by simp_all
    show ?thesis unfolding R(2) n using serial_step [OF o False IH(1)] IH(2,3) outcome_kept [OF o] by simp
  qed
qed simp

lemma worker_run_serial:
  assumes "stop_time dbc = 0" "down s" "\<forall>n \<in> set nodes. valid (snd n) (durable s)"
    "db_worker_run dbc nodes s = Some (answers, s1)"
  shows "(case answers of None \<Rightarrow> durable s1 = durable s | Some answers \<Rightarrow> serial effect same nodes answers (durable s) (durable s1)) \<and>
    (\<forall>td. valid td (durable s) \<longrightarrow> valid td (durable s1))"
proof -
  obtain rc sa where C: "connect_to_db dbc s = Some (rc, sa)" using assms(4) by (auto simp: db_worker_run_def bind_eq_Some_conv)
  note c = connect_down [OF C assms(2)]
  show ?thesis
  proof (cases "rc = OK")
    case False
    then show ?thesis using assms(4) C c by (auto simp: db_worker_run_def)
  next
    case True
    then obtain as sb where R: "worker_transactions dbc nodes sa = Some (as, sb)" and a: "answers = Some as"
      and last: "(if list_ex (\<lambda>a. fst a = None) as then s1 = sb else s1 = snd (run_state (disconnect_from_db dbc) sb))"
      using assms(4) C by (auto simp: db_worker_run_def bind_eq_Some_conv split_def split: if_splits)
    have "idle sa" "durable sa = durable s" using c True by auto
    then have W: "serial effect same nodes as (durable s) (durable sb)" "\<forall>td. valid td (durable s) \<longrightarrow> valid td (durable sb)"
      "list_ex (\<lambda>a. fst a = None) as \<or> idle sb" using worker_serial [OF assms(1) _ _ R] assms(3) by auto
    have "durable s1 = durable sb"
    proof (cases "list_ex (\<lambda>a. fst a = None) as")
      case False
      obtain v sc where D: "run_state (db_disconnect dbc) sb = (v, sc)" by (cases "run_state (db_disconnect dbc) sb")
      then have "s1 = sc" using last False by (simp add: disconnect_from_db_def run_bind)
      then show ?thesis using disconnect [OF idle_working D] W(3) False by simp
    qed (use last in simp)
    then show ?thesis using W a by simp
  qed
qed

end

section \<open>Waiting\<close>

text \<open>
  \<open>progress\<close> counts what happens to a connection. From some point on the environment is \<open>settled\<close>:
  sleeps are not interrupted, and the stop time is over, or there is none and connecting succeeds.
\<close>

locale settling_backend =
  fixes dbc :: "'s db_context"
    and progress :: "'s \<Rightarrow> nat"
    and settled :: "nat \<Rightarrow> bool"
  assumes sleep: "run_state (nano_sleep dbc) s = (ok, s1) \<Longrightarrow>
      progress s < progress s1 \<and> (settled (progress s) \<longrightarrow> ok)"
    and clock: "run_state (read_time dbc) s = (tt, s1) \<Longrightarrow>
      progress s < progress s1 \<and> (settled (progress s) \<and> stop_time dbc \<noteq> 0 \<longrightarrow> tt > stop_time dbc)"
    and open_again: "run_state (db_connect dbc) s = (rc, s1) \<Longrightarrow>
      progress s \<le> progress s1 \<and> (settled (progress s) \<and> stop_time dbc = 0 \<longrightarrow> rc = OK)"
    and stays: "settled n \<Longrightarrow> n \<le> m \<Longrightarrow> settled m"
begin

lemma sleep_fully_ends:
  assumes "settled n"
  shows "\<exists>s1. sleep_fully dbc s = Some s1 \<and> progress s < progress s1"
proof (induction "n - progress s" arbitrary: s rule: less_induct)
  case less
  obtain ok s1 where r: "run_state (nano_sleep dbc) s = (ok, s1)" by (cases "run_state (nano_sleep dbc) s")
  note p = sleep [OF r]
  show ?case
  proof (cases ok)
    case True
    then show ?thesis using r p by (subst sleep_fully.simps) simp
  next
    case False
    then have "progress s < n" using p stays [OF assms, of "progress s"] by (meson not_less)
    then have "n - progress s1 < n - progress s" using p by linarith
    from less [OF this] obtain s2 where "sleep_fully dbc s1 = Some s2" "progress s1 < progress s2" by blast
    then show ?thesis using r p False by (subst sleep_fully.simps) simp
  qed
qed

lemma connect_ends:
  assumes "settled n"
  shows "\<exists>rc s1. connect_to_db dbc s = Some (rc, s1) \<and> progress s < progress s1 \<and> (stop_time dbc = 0 \<longrightarrow> rc = OK)"
proof (induction "n - progress s" arbitrary: s rule: less_induct)
  case less
  obtain tt sa where A: "run_state (read_time dbc) s = (tt, sa)" by (cases "run_state (read_time dbc) s")
  obtain rc sb where B: "run_state (db_connect dbc) sa = (rc, sb)" by (cases "run_state (db_connect dbc) sa")
  note a = clock [OF A] and b = open_again [OF B]
  consider "past_stop dbc tt" | "\<not> past_stop dbc tt" "rc = OK" | "\<not> past_stop dbc tt" "rc \<noteq> OK" by blast
  then show ?case
  proof cases
    case 1
    then show ?thesis using A a by (subst connect_to_db.simps) (simp add: past_stop_def)
  next
    case 2
    then show ?thesis using A B a b by (subst connect_to_db.simps) auto
  next
    case 3
    have "\<not> settled (progress s)"
      using 3 a b stays [of "progress s" "progress sa"] by (auto simp: past_stop_def)
    then have "progress s < n" using stays [OF assms, of "progress s"] by (meson not_less)
    moreover obtain sc where C: "sleep_fully dbc sb = Some sc" "progress sb < progress sc"
      using sleep_fully_ends [OF assms] by blast
    ultimately have "n - progress sc < n - progress s" using a b by linarith
    from less [OF this] C show ?thesis using A B a b 3 by (subst connect_to_db.simps) fastforce
  qed
qed

lemma reconnect_ends:
  assumes "settled n"
  shows "\<exists>ok s1. reconnect dbc s = Some (ok, s1)"
proof (induction "n - progress s" arbitrary: s rule: less_induct)
  case less
  obtain tt sa where A: "run_state (read_time dbc) s = (tt, sa)" by (cases "run_state (read_time dbc) s")
  note a = clock [OF A]
  obtain rc sb where B: "connect_to_db dbc sa = Some (rc, sb)" "progress sa < progress sb" "stop_time dbc = 0 \<longrightarrow> rc = OK"
    using connect_ends [OF assms] by blast
  consider "past_stop dbc tt" | "\<not> past_stop dbc tt" "rc = OK" | "\<not> past_stop dbc tt" "rc \<noteq> OK" by blast
  then show ?case
  proof cases
    case 1
    then show ?thesis using A by (subst reconnect.simps) (simp, blast)
  next
    case 2
    then show ?thesis using A B by (subst reconnect.simps) (simp, blast)
  next
    case 3
    have "\<not> settled (progress s)" using 3 a B(3) by (auto simp: past_stop_def)
    then have "progress s < n" using stays [OF assms, of "progress s"] by (meson not_less)
    moreover obtain sc where C: "sleep_fully dbc sb = Some sc" "progress sb < progress sc"
      using sleep_fully_ends [OF assms] by blast
    ultimately have "n - progress sc < n - progress s" using a B by linarith
    from less [OF this] C show ?thesis using A B a 3 by (subst reconnect.simps) simp
  qed
qed

lemma attempts_end:
  assumes "settled n"
  shows "\<exists>r. attempts dbc tr k st td s = Some r"
proof (induction k arbitrary: st td s)
  case (Suc k)
  have again: "\<exists>r. Option.bind (reconnect dbc s3) (\<lambda>(ok, s4). if ok then attempts dbc tr k st1 td1 s4 else Some ((Some ERROR, td1), s4)) = Some r"
    for s3 st1 td1
    using reconnect_ends [OF assms, of s3] Suc [of st1 td1] by (auto split: if_splits)
  obtain x sa where X: "run_state (execute_transaction dbc tr td) s = (x, sa)"
    by (cases "run_state (execute_transaction dbc tr td) s")
  consider u where "x = Inr u" | td1 where "x = Inl (None, td1)" | rc td1 where "x = Inl (Some rc, td1)"
    by (metis sum.exhaust prod.exhaust option.exhaust)
  then show ?case
  proof cases
    case 3
    obtain st1 sb where z: "(if rc = OK then run_state (db_commit dbc) sa
        else if rc = ERROR then run_state (db_rollback dbc) sa else (st, sa)) = (st1, sb)" by (metis prod.exhaust)
    obtain v sc where "run_state (disconnect_from_db dbc) sb = (v, sc)" by (metis prod.exhaust)
    then show ?thesis using again [of sc st1 td1] by (simp add: X 3 z Let_def)
  qed (simp_all add: X)
qed simp

lemma process_ends: "settled n \<Longrightarrow> \<exists>r. process_transaction dbc tr td s = Some r"
  unfolding process_transaction_def by (rule attempts_end)

end

end
