(* ===== verification/Db_Sqlite.thy ===== *)
theory Db_Sqlite
  imports Db
begin

text \<open>
  The database context of SQLite (\<open>db_init_sqlite\<close> of \<open>src/src/sqlite/dbc_common.c\<close>) satisfies the
  interface of \<open>Db\<close>, so a transaction that is processed on it is executed once or leaves no trace;
  with \<open>Consistency\<close>, the committed tables stay consistent.
\<close>

section \<open>The context\<close>

definition read_clock :: "sql_env \<Rightarrow> (sqlite_conn, int) state" where
  "read_clock e = State (\<lambda>c. (clock e (calls c), c\<lparr>calls := calls c + 1\<rparr>))"

definition sleep_once :: "sql_env \<Rightarrow> (sqlite_conn, bool) state" where
  "sleep_once e = State (\<lambda>c. (sleeps e (calls c), c\<lparr>calls := calls c + 1\<rparr>))"

text \<open>New-Order leaves its input as it is; Payment and Order-Status overwrite the number and the name of the customer.\<close>

definition sqlite_new_order :: "sql_env \<Rightarrow> new_order_t \<times> new_order_out \<Rightarrow> (sqlite_conn, int option \<times> new_order_t \<times> new_order_out) state" where
  "sqlite_new_order e x = (let (d, out) = x in do {
     (rc, r) \<leftarrow> execute_new_order_nonsp e d out;
     State_Monad.return (rc, d, r)
   })"

definition sqlite_payment :: "sql_env \<Rightarrow> payment_t \<times> payment_out \<Rightarrow> (sqlite_conn, int option \<times> payment_t \<times> payment_out) state" where
  "sqlite_payment e x = (let (d, out) = x in do {
     (rc, r) \<leftarrow> execute_payment_nonsp e d (out\<lparr>pa_c_id := py_c_id d, pa_c_last := py_c_last d\<rparr>);
     State_Monad.return (rc, d\<lparr>py_c_id := pa_c_id r, py_c_last := pa_c_last r\<rparr>, r)
   })"

definition sqlite_order_status ::
    "sql_env \<Rightarrow> order_status_t \<times> order_status_out \<Rightarrow> (sqlite_conn, int option \<times> order_status_t \<times> order_status_out) state" where
  "sqlite_order_status e x = (let (d, out) = x in do {
     (rc, r) \<leftarrow> execute_order_status_nonsp e d (out\<lparr>ou_c_id := os_c_id d, ou_c_last := os_c_last d\<rparr>);
     State_Monad.return (rc, d\<lparr>os_c_id := ou_c_id r, os_c_last := ou_c_last r\<rparr>, r)
   })"

definition some_status :: "('s, int) state \<Rightarrow> ('s, int option) state" where
  "some_status m = do { rc \<leftarrow> m; State_Monad.return (Some rc) }"

definition db_init_sqlite :: "sql_env \<Rightarrow> int \<Rightarrow> sqlite_conn db_context" where
  "db_init_sqlite e stop = \<lparr>
     stop_time = stop,
     db_connect = connect_to_db_sqlite e,
     db_commit = commit_transaction_sqlite e,
     db_disconnect = disconnect_from_db_sqlite,
     db_rollback = rollback_transaction_sqlite e,
     db_delivery = (\<lambda>d. some_status (execute_delivery_nonsp e d)),
     db_integrity = (\<lambda>d. some_status (execute_integrity_nonsp e d)),
     db_new_order = sqlite_new_order e,
     db_order_status = sqlite_order_status e,
     db_payment = sqlite_payment e,
     db_stock_level = (\<lambda>(d, low_stock). do {
       (rc, x) \<leftarrow> execute_stock_level_nonsp e d low_stock;
       State_Monad.return (Some rc, x) }),
     read_time = read_clock e,
     nano_sleep = sleep_once e\<rparr>"

section \<open>The laws of the interface\<close>

definition conn_working :: "sqlite_conn \<Rightarrow> tables \<Rightarrow> bool" where
  "conn_working c t \<longleftrightarrow> stmts c = Map.empty \<and> view c = t \<and> (in_transaction c \<longleftrightarrow> pending c \<noteq> None)"

definition conn_idle :: "sqlite_conn \<Rightarrow> bool" where
  "conn_idle c \<longleftrightarrow> conn_working c (committed c) \<and> \<not> in_transaction c"

definition conn_down :: "sqlite_conn \<Rightarrow> bool" where
  "conn_down c \<longleftrightarrow> stmts c = Map.empty"

definition env_ok :: "sql_env \<Rightarrow> bool" where
  "env_ok e \<longleftrightarrow> text_ok e \<and> (\<forall>n. realloc_ok e n)"

definition request_ok :: "sql_env \<Rightarrow> transaction_union \<Rightarrow> tables \<Rightarrow> bool" where
  "request_ok e td t \<longleftrightarrow> env_ok e \<and> consistent t \<and> 0 \<le> no_o_ol_cnt (fst (un_new_order td))"

text \<open>What a transaction does to the tables.\<close>

definition transaction_done :: "sql_env \<Rightarrow> int \<Rightarrow> transaction_union \<Rightarrow> tables \<Rightarrow> tables \<Rightarrow> bool" where
  "transaction_done e tr td t t1 \<longleftrightarrow>
     (if tr = NEW_ORDER then new_order_done e (set_all_local (fst (un_new_order td))) t t1
      else if tr = PAYMENT then payment_done e (fst (un_payment td)) t t1
      else if tr = DELIVERY then districts_delivered (dl_w_id (un_delivery td)) (dl_o_carrier_id (un_delivery td)) [1..10] t t1
      else t1 = t)"

text \<open>The same request, up to the customer and \<open>o_all_local\<close>, which the first attempt sets.\<close>

definition same_request :: "transaction_union \<Rightarrow> transaction_union \<Rightarrow> bool" where
  "same_request td td1 \<longleftrightarrow> un_delivery td1 = un_delivery td \<and> un_integrity td1 = un_integrity td \<and>
     set_all_local (fst (un_new_order td1)) = set_all_local (fst (un_new_order td)) \<and>
     (fst (un_payment td1))\<lparr>py_c_id := 0, py_c_last := []\<rparr> = (fst (un_payment td))\<lparr>py_c_id := 0, py_c_last := []\<rparr>"

lemma idle_txn_view: "conn_idle c \<Longrightarrow> txn_view c (committed c) c"
  by (simp add: conn_idle_def conn_working_def txn_view_def txn_base_def)

lemma txn_view_working: "stmts c = Map.empty \<Longrightarrow> txn_view c t c1 \<Longrightarrow> committed c1 = committed c \<and> conn_working c1 t"
  by (simp add: conn_working_def txn_view_def txn_base_def)

text \<open>What \<open>works\<close> says from an idle connection.\<close>

lemma works_idle:
  assumes "works c (committed c) m Q" "conn_idle c" "run_state m c = (r, c1)"
  obtains t where "committed c1 = committed c" "conn_working c1 t" "Q r t"
proof -
  obtain t where "txn_view c t c1" "Q r t" using worksD [OF assms(1) idle_txn_view [OF assms(2)] assms(3)] by blast
  moreover have "stmts c = Map.empty" using assms(2) by (simp add: conn_idle_def conn_working_def)
  ultimately show ?thesis using that txn_view_working by blast
qed

lemma few_lines:
  assumes "lines_ok t"
  shows "length (lines_of w d k t) \<le> 15"
proof (cases "lines_of w d k t = []")
  case False
  then obtain l where "l \<in> set (order_line_t t)" "is_line_of w d k l" by (auto simp: lines_of_def filter_empty_conv)
  then obtain r where "r \<in> set (orders_t t)" "is_order w d k r" using assms by (auto simp: lines_ok_def is_line_of_def)
  then have "O_OL_CNT r \<le> 15" "O_OL_CNT r = int (length (lines_of w d k t))" using assms by (auto simp: lines_ok_def is_order_def)
  then show ?thesis by simp
qed simp

lemma set_all_local_twice [simp]: "set_all_local (set_all_local d) = set_all_local d"
  by (simp add: set_all_local_def)

lemma set_all_local_cnt [simp]: "no_o_ol_cnt (set_all_local d) = no_o_ol_cnt d"
  by (simp add: set_all_local_def)

text \<open>The operations, as computations within a transaction.\<close>

lemma run_assoc: "(m \<bind> f) \<bind> g = m \<bind> (\<lambda>x. f x \<bind> g)" "State_Monad.return x \<bind> g = g x"
  by (simp_all add: State_Monad.bind_def State_Monad.return_def split_def)

lemma delivery_op:
  "text_ok e \<Longrightarrow> works c t (some_status (execute_delivery_nonsp e d))
    (\<lambda>rc t1. rc = Some OK \<longrightarrow> districts_delivered (dl_w_id d) (dl_o_carrier_id d) [1..10] t t1)"
  unfolding some_status_def execute_delivery_nonsp_def delivery_nonsp_def
  by (intro works_bind works_return, assumption?) (erule delivery_districts_works, auto simp: OK_def ERROR_def)

lemma new_order_op:
  assumes "text_ok e"
  shows "works c t (execute_new_order_nonsp e d out) (\<lambda>(rc, r) t1. rc = Some OK \<longrightarrow> new_order_done e d t t1)"
  unfolding execute_new_order_nonsp_def
  by (rule works_bind [OF new_order_works [OF assms]])
    (auto intro!: works_return simp: OK_def ERROR_def split: prod.splits if_splits)

lemma sqlite_new_order_op:
  assumes "text_ok e"
  shows "works c t (sqlite_new_order e x) (\<lambda>(rc, d, r) t1. (rc = Some OK \<longrightarrow> new_order_done e (fst x) t t1) \<and> d = fst x)"
proof (cases x)
  case (Pair d out)
  show ?thesis unfolding sqlite_new_order_def Pair Let_def split_def fst_conv snd_conv
    by (rule works_bind [OF new_order_op [OF assms]]) (auto intro!: works_return)
qed

lemma payment_op:
  assumes "env_ok e"
  shows "works c t (sqlite_payment e x) (\<lambda>(rc, d, r) t1. (rc = Some OK \<longrightarrow> payment_done e (fst x) t t1) \<and>
    d\<lparr>py_c_id := 0, py_c_last := []\<rparr> = (fst x)\<lparr>py_c_id := 0, py_c_last := []\<rparr>)"
proof (cases x)
  case (Pair d out)
  show ?thesis unfolding sqlite_payment_def execute_payment_nonsp_def Pair Let_def split_def fst_conv snd_conv run_assoc
    by (rule works_bind [OF payment_works])
      (use assms in \<open>auto intro!: works_return simp: env_ok_def OK_def ERROR_def\<close>)
qed

lemma order_status_op:
  assumes "env_ok e" "lines_ok t"
  shows "works c t (sqlite_order_status e x) (\<lambda>_ t1. t1 = t)"
proof (cases x)
  case (Pair d out)
  show ?thesis unfolding sqlite_order_status_def execute_order_status_nonsp_def Pair Let_def split_def fst_conv snd_conv run_assoc
    by (rule works_bind [OF order_status_works])
      (use assms in \<open>auto intro!: works_return simp: env_ok_def few_lines\<close>)
qed

lemma stock_level_op:
  assumes "env_ok e"
  shows "works c t (execute_stock_level_nonsp e d l) (\<lambda>_ t1. t1 = t)"
  unfolding execute_stock_level_nonsp_def
  by (rule works_bind [OF stock_level_works]) (use assms in \<open>auto intro: works_return simp: env_ok_def\<close>)

lemma integrity_op:
  assumes "env_ok e"
  shows "works c t (some_status (execute_integrity_nonsp e d)) (\<lambda>_ t1. t1 = t)"
  unfolding some_status_def execute_integrity_nonsp_def
  by (rule works_bind [OF works_bind [OF integrity_works]]) (use assms in \<open>auto intro: works_return simp: env_ok_def\<close>)

lemma transactions_distinct [simp]:
  "DELIVERY \<noteq> INTEGRITY" "DELIVERY \<noteq> NEW_ORDER" "DELIVERY \<noteq> ORDER_STATUS" "DELIVERY \<noteq> PAYMENT" "DELIVERY \<noteq> STOCK_LEVEL"
  "INTEGRITY \<noteq> DELIVERY" "INTEGRITY \<noteq> NEW_ORDER" "INTEGRITY \<noteq> ORDER_STATUS" "INTEGRITY \<noteq> PAYMENT" "INTEGRITY \<noteq> STOCK_LEVEL"
  "NEW_ORDER \<noteq> DELIVERY" "NEW_ORDER \<noteq> INTEGRITY" "NEW_ORDER \<noteq> ORDER_STATUS" "NEW_ORDER \<noteq> PAYMENT" "NEW_ORDER \<noteq> STOCK_LEVEL"
  "ORDER_STATUS \<noteq> DELIVERY" "ORDER_STATUS \<noteq> INTEGRITY" "ORDER_STATUS \<noteq> NEW_ORDER" "ORDER_STATUS \<noteq> PAYMENT" "ORDER_STATUS \<noteq> STOCK_LEVEL"
  "PAYMENT \<noteq> DELIVERY" "PAYMENT \<noteq> INTEGRITY" "PAYMENT \<noteq> NEW_ORDER" "PAYMENT \<noteq> ORDER_STATUS" "PAYMENT \<noteq> STOCK_LEVEL"
  "STOCK_LEVEL \<noteq> DELIVERY" "STOCK_LEVEL \<noteq> INTEGRITY" "STOCK_LEVEL \<noteq> NEW_ORDER" "STOCK_LEVEL \<noteq> ORDER_STATUS" "STOCK_LEVEL \<noteq> PAYMENT"
  by (simp_all add: NEW_ORDER_def PAYMENT_def DELIVERY_def ORDER_STATUS_def STOCK_LEVEL_def INTEGRITY_def)

text \<open>The result of an execution: the request is kept, and success means that the transaction took place.\<close>

definition executed_as :: "sql_env \<Rightarrow> int \<Rightarrow> transaction_union \<Rightarrow> tables \<Rightarrow> (int option \<times> transaction_union) + unit \<Rightarrow> tables \<Rightarrow> bool" where
  "executed_as e tr td t r t1 = (case r of
     Inr _ \<Rightarrow> True
   | Inl (rc, td1) \<Rightarrow> same_request td td1 \<and> (rc = Some OK \<longrightarrow> transaction_done e tr td t t1))"

lemma execute_works:
  assumes "request_ok e td t"
  shows "works c t (execute_transaction (db_init_sqlite e stop) tr td) (executed_as e tr td t)"
proof -
  have e: "env_ok e" "text_ok e" "lines_ok t" using assms by (auto simp: request_ok_def env_ok_def consistent_def)
  consider "tr = INTEGRITY" | "tr = DELIVERY" | "tr = NEW_ORDER" | "tr = ORDER_STATUS" | "tr = PAYMENT" | "tr = STOCK_LEVEL"
    | "tr \<notin> {INTEGRITY, DELIVERY, NEW_ORDER, ORDER_STATUS, PAYMENT, STOCK_LEVEL}" by blast
  then show ?thesis
  proof cases
    case 1
    show ?thesis
      by (simp add: execute_transaction_def db_init_sqlite_def 1)
        (rule works_bind [OF integrity_op [OF e(1)]],
          auto intro!: works_return simp: executed_as_def same_request_def transaction_done_def)
  next
    case 2
    show ?thesis
      by (simp add: execute_transaction_def db_init_sqlite_def 2)
        (rule works_bind [OF delivery_op [OF e(2)]],
          auto intro!: works_return simp: executed_as_def same_request_def transaction_done_def)
  next
    case 3
    show ?thesis
      by (simp add: execute_transaction_def db_init_sqlite_def 3 Let_def split_def)
        (rule works_bind [OF sqlite_new_order_op [OF e(2)]],
          auto intro!: works_return simp: executed_as_def same_request_def transaction_done_def OK_def ERROR_def split: option.splits if_splits)
  next
    case 4
    show ?thesis
      by (simp add: execute_transaction_def db_init_sqlite_def 4)
        (rule works_bind [OF order_status_op [OF e(1,3)]],
          auto intro!: works_return simp: executed_as_def same_request_def transaction_done_def)
  next
    case 5
    show ?thesis
      by (simp add: execute_transaction_def db_init_sqlite_def 5)
        (rule works_bind [OF payment_op [OF e(1)]],
          auto intro!: works_return simp: executed_as_def same_request_def transaction_done_def)
  next
    case 6
    show ?thesis
      by (simp add: execute_transaction_def db_init_sqlite_def 6 split_def run_assoc)
        (rule works_bind [OF stock_level_op [OF e(1)]],
          auto intro!: works_return simp: executed_as_def same_request_def transaction_done_def)
  next
    case 7
    then show ?thesis by (auto simp: execute_transaction_def executed_as_def intro: works_return)
  qed
qed

lemma commit_law:
  assumes "conn_working c t" "run_state (commit_transaction_sqlite e) c = (st, c1)"
  shows "if st = OK then committed c1 = t \<and> conn_idle c1 else committed c1 = committed c \<and> conn_working c1 t"
  using assms
  by (auto simp: commit_transaction_sqlite_def exec_commit_def next_call_def change_def conn_working_def conn_idle_def view_def
      State_Monad.get_def run_bind OK_def ERROR_def split: if_splits option.splits)

lemma rollback_law:
  assumes "conn_working c t" "run_state (rollback_transaction_sqlite e) c = (st, c1)"
  shows "st \<noteq> OK \<and> committed c1 = committed c \<and> (if st = STATUS_ROLLBACK then conn_idle c1 else conn_working c1 t)"
  using assms
  by (auto simp: rollback_transaction_sqlite_def exec_rollback_def next_call_def change_def conn_working_def conn_idle_def view_def
      State_Monad.get_def run_bind OK_def ERROR_def STATUS_ROLLBACK_def split: if_splits option.splits)

lemma disconnect_law:
  assumes "conn_working c t" "run_state disconnect_from_db_sqlite c = (st, c1)"
  shows "committed c1 = committed c \<and> conn_down c1"
  using assms
  by (auto simp: disconnect_from_db_sqlite_def sqlite3_close_def change_def conn_working_def conn_down_def
      State_Monad.get_def run_bind list_all_iff split: if_splits)

lemma connect_law:
  assumes "run_state (connect_to_db_sqlite e) c = (st, c1)"
  shows "committed c1 = committed c \<and> (if st = OK then conn_idle c1 else conn_down c1)"
  using assms
  by (auto simp: connect_to_db_sqlite_def sqlite3_open_def sqlite3_close_def next_call_def change_def conn_idle_def conn_working_def
      conn_down_def view_def OK_def ERROR_def State_Monad.get_def run_bind split: if_splits)

lemma same_request_ok: "same_request td td1 \<Longrightarrow> request_ok e td t \<Longrightarrow> request_ok e td1 t"
  unfolding same_request_def request_ok_def by (metis set_all_local_cnt)

lemma execute_law:
  assumes "conn_idle c" "request_ok e td (committed c)"
    "run_state (execute_transaction (db_init_sqlite e stop) tr td) c = (Inl (rc, td1), c1)"
  shows "committed c1 = committed c \<and> same_request td td1 \<and> request_ok e td1 (committed c) \<and>
      (\<exists>t. conn_working c1 t \<and> (rc = Some OK \<longrightarrow> transaction_done e tr td (committed c) t))"
proof -
  obtain t where t: "committed c1 = committed c" "conn_working c1 t" "executed_as e tr td (committed c) (Inl (rc, td1)) t"
    by (rule works_idle [OF execute_works [OF assms(2)] assms(1,3)])
  have s: "same_request td td1" "rc = Some OK \<longrightarrow> transaction_done e tr td (committed c) t"
    using t(3) by (simp_all add: executed_as_def)
  show ?thesis using t(1,2) s same_request_ok [OF s(1) assms(2)] by blast
qed

lemma db_init_sqlite_sel [simp]:
  "db_commit (db_init_sqlite e stop) = commit_transaction_sqlite e"
  "db_rollback (db_init_sqlite e stop) = rollback_transaction_sqlite e"
  "db_connect (db_init_sqlite e stop) = connect_to_db_sqlite e"
  "db_disconnect (db_init_sqlite e stop) = disconnect_from_db_sqlite"
  "read_time (db_init_sqlite e stop) = read_clock e"
  "nano_sleep (db_init_sqlite e stop) = sleep_once e"
  "stop_time (db_init_sqlite e stop) = stop"
  by (simp_all add: db_init_sqlite_def)

lemma transaction_keeps_valid:
  assumes "request_ok e td t" "transaction_done e tr td t t1"
  shows "consistent t1"
  using assms new_order_consistent [of e "set_all_local (fst (un_new_order td))" t t1] payment_consistent deliveries_consistent
  by (auto simp: transaction_done_def request_ok_def split: if_splits)

text \<open>An error leaves the connection connected: a rollback or a commit was tried, or nothing was.\<close>

interpretation sqlite: atomic_backend "db_init_sqlite e stop" committed conn_idle conn_working conn_down
  "request_ok e" "transaction_done e" same_request for e stop
proof (unfold_locales, goal_cases)
  case 1 then show ?case by (rule execute_law)
next
  case (2 s t st s1) then show ?case using commit_law [of s t e st s1] by (cases "st = OK") (simp, metis db_init_sqlite_sel(1))
next
  case (3 s t st s1) then show ?case using rollback_law [of s t e st s1] by (cases "st = STATUS_ROLLBACK") auto
next
  case (4 s t st s1) then show ?case using disconnect_law [of s t st s1] by simp
next
  case (5 s st s1) then show ?case using connect_law [of e s st s1] by simp
next
  case 6 then show ?case by (auto simp: read_clock_def conn_down_def)
next
  case 7 then show ?case by (auto simp: sleep_once_def conn_down_def)
next
  case (8 td d tr t td1) then show ?case using transaction_keeps_valid [of e td d tr t] by (simp add: request_ok_def)
next
  case 9 then show ?case by (simp add: conn_idle_def)
next
  case 10 show ?case by (simp add: same_request_def)
next
  case 11 then show ?case by (simp add: same_request_def)
qed

text \<open>Waiting on SQLite: what the environment has to settle on.\<close>

definition env_settled :: "sql_env \<Rightarrow> int \<Rightarrow> nat \<Rightarrow> bool" where
  "env_settled e stop n \<longleftrightarrow> (\<forall>m \<ge> n. sleeps e m \<and> (if stop = 0 then \<not> fails e m else stop < clock e m))"

interpretation waiting: settling_backend "db_init_sqlite e stop" calls "env_settled e stop" for e stop
proof (unfold_locales, goal_cases)
  case 1 then show ?case by (auto simp: sleep_once_def env_settled_def)
next
  case 2 then show ?case by (auto simp: read_clock_def env_settled_def)
next
  case 3 then show ?case
    by (auto simp: connect_to_db_sqlite_def sqlite3_open_def sqlite3_close_def next_call_def change_def env_settled_def
        State_Monad.get_def run_bind split: if_splits)
next
  case 4 then show ?case by (auto simp: env_settled_def)
qed

end
