(* ===== verification/Transactions.thy ===== *)
theory Transactions
  imports Db_Properties
begin

text \<open>
  What the single transactions do, from an idle connection to SQLite and whatever calls fail: one that
  reports success has exactly the effect that its specification in \<open>Nonsp_Effects\<close> describes, inside a
  database transaction that is still open; the committed tables are unchanged.
\<close>

lemma upts: "[0..<4] = [0, 1, 2, 3 :: nat]" "[0..<5] = [0, 1, 2, 3, 4 :: nat]" "[0..<6] = [0, 1, 2, 3, 4, 5 :: nat]"
  "[0..<16] = [0, 1, 2, 3, 4, 5, 6, 7, 8, 9, 10, 11, 12, 13, 14, 15 :: nat]"
  by (simp_all add: upt_rec)

lemma execute_refines:
  assumes "works c (committed c) m Q" "conn_idle c" "run_state m c = (r, c1)"
  shows "committed c1 = committed c \<and> Q r (view c1)"
  by (rule works_idle [OF assms]) (simp add: conn_working_def)

text \<open>C22: A New-Order transaction that reports success takes the next number of the district and increases
  it, adds the order and its entry as a new order, and for each line an order line with the amount
  computed from the price, and lowers the stock by the quantity, or by 91 less where fewer than 10
  would remain; it changes nothing else.\<close>
theorem new_order_effect:
  assumes "conn_idle c" "text_ok e" "run_state (execute_new_order_nonsp e data out) c = ((Some OK, out1), c1)"
  shows "committed c1 = committed c \<and> new_order_done e data (committed c) (view c1)"
  using execute_refines [OF new_order_op [OF assms(2)] assms(1,3)] by simp

theorem new_order_effect_witness:
  "\<exists>out1 c1. run_state (execute_new_order_nonsp (sample_env (\<lambda>_. False) (\<lambda>_. 0)) sample_order (snd (un_new_order sample_request)))
      (sample_conn sample_tables) = ((Some OK, out1), c1) \<and> new_order_done (sample_env (\<lambda>_. False) (\<lambda>_. 0)) sample_order sample_tables (view c1)"
proof -
  define e where "e = sample_env (\<lambda>_. False) (\<lambda>_. 0)"
  have "\<exists>out1 c1. run_state (execute_new_order_nonsp e sample_order (snd (un_new_order sample_request))) (sample_conn sample_tables) = ((Some OK, out1), c1)"
    unfolding e_def
    by (simp add: run_simps sample_defs execute_new_order_nonsp_def new_order_nonsp_def new_order_line_def new_order_results_def
      atoi_fmt_f [of 50, simplified] fmt5 atof5 fls fl32s rne_of_int [of 10000000, simplified])
  then obtain out1 c1 where R: "run_state (execute_new_order_nonsp e sample_order (snd (un_new_order sample_request))) (sample_conn sample_tables)
      = ((Some OK, out1), c1)" by blast
  have "committed (sample_conn sample_tables) = sample_tables" by (simp add: sample_conn_def)
  moreover have "text_ok e" unfolding e_def by (rule sample_text_ok)
  ultimately show ?thesis using new_order_effect [OF sample_idle(1) _ R] R unfolding e_def by auto
qed



text \<open>Districts without new orders.\<close>

lemma nothing_to_deliver:
  "in_transaction c \<Longrightarrow> pending c = Some t \<Longrightarrow> new_order_t t = [] \<Longrightarrow>
   \<exists>c1. run_state (delivery_districts (sample_env (\<lambda>_. False) r) data ds) c = (1, c1) \<and> view c1 = t"
proof (induction ds arbitrary: c)
  case Nil
  then show ?case by (simp add: view_def)
next
  case (Cons d ds)
  have "\<exists>c1. run_state (delivery_district (sample_env (\<lambda>_. False) r) data d) c = (True, c1) \<and> in_transaction c1 \<and> pending c1 = Some t"
    using Cons.prems by (simp add: run_simps sample_env_def delivery_district_def)
  then show ?case using Cons.IH Cons.prems(3) by (auto simp: run_bind)
qed



text \<open>C34: An Order-Status transaction changes nothing, and when it reports success, it reports the newest order
  of the customer that the number or the last name selects, and at most as many lines as the order has.\<close>
theorem order_status_answer:
  assumes "conn_idle c" "env_ok e" "lines_ok (committed c)"
    and "run_state (execute_order_status_nonsp e data out) c = ((Some OK, out1), c1)"
  shows "committed c1 = committed c \<and> view c1 = committed c \<and> order_status_done e data (committed c) out1"
proof -
  have "works c (committed c) (execute_order_status_nonsp e data out)
      (\<lambda>(rc, out1) t1. t1 = committed c \<and> (rc = Some OK \<longrightarrow> order_status_done e data (committed c) out1))"
    unfolding execute_order_status_nonsp_def
    by (rule works_bind [OF order_status_works])
      (use assms(2) in \<open>auto intro!: works_return simp: env_ok_def few_lines [OF assms(3)] OK_def ERROR_def split: if_splits\<close>)
  from execute_refines [OF this assms(1,4)] show ?thesis by simp
qed

theorem order_status_answer_witness:
  "\<exists>out1 c1. run_state (execute_order_status_nonsp (sample_env (\<lambda>_. False) (\<lambda>_. 0)) (fst (un_order_status sample_request))
      ((snd (un_order_status sample_request))\<lparr>ou_c_id := 1\<rparr>)) (sample_conn ordered_tables) = ((Some OK, out1), c1) \<and>
    order_status_done (sample_env (\<lambda>_. False) (\<lambda>_. 0)) (fst (un_order_status sample_request)) ordered_tables out1"
proof -
  define e where "e = sample_env (\<lambda>_. False) (\<lambda>_. 0)"
  have "\<exists>out1 c1. run_state (execute_order_status_nonsp e (fst (un_order_status sample_request))
      ((snd (un_order_status sample_request))\<lparr>ou_c_id := 1\<rparr>)) (sample_conn ordered_tables) = ((Some OK, out1), c1)"
    unfolding e_def
    by (simp add: run_simps upts sample_defs execute_order_status_nonsp_def order_status_nonsp_def find_customer_def fetch_all_lines_def
       rows_left_def order_status_results_def)
  then obtain out1 c1 where R: "run_state (execute_order_status_nonsp e (fst (un_order_status sample_request))
      ((snd (un_order_status sample_request))\<lparr>ou_c_id := 1\<rparr>)) (sample_conn ordered_tables) = ((Some OK, out1), c1)" by blast
  have c: "committed (sample_conn ordered_tables) = ordered_tables" by (simp add: sample_conn_def)
  have "lines_ok ordered_tables" by (auto simp: lines_ok_def sample_defs lines_of_def is_line_of_def column_total_def is_order_def)
  moreover have "env_ok e" using sample_valid unfolding e_def request_ok_def by blast
  ultimately show ?thesis using order_status_answer [OF sample_idle(1) _ _ R, unfolded c] R unfolding e_def by auto
qed

text \<open>A Stock-Level transaction changes nothing, and when it reports success, its answer is the number of
  order lines among the last 20 orders of the district whose item is below the threshold in stock,
  counted once for each line, not once for each item.\<close>
theorem stock_level_answer:
  assumes "conn_idle c" "text_ok e" "run_state (execute_stock_level_nonsp e data l) c = ((OK, n), c1)"
  shows "committed c1 = committed c \<and> view c1 = committed c \<and>
    (\<exists>r \<in> set (district_t (committed c)). in_district (sl_w_id data) (sl_d_id data) r \<and>
      (let k = atoi (fmt_d (D_NEXT_O_ID r)) in
       n = atoi (fmt_d (int (low_stock_count (sl_d_id data) (sl_w_id data) (sl_threshold data) (k - 20) (k - 1) (committed c))))))"
proof -
  have "works c (committed c) (execute_stock_level_nonsp e data l)
      (\<lambda>(rc, n) t1. t1 = committed c \<and> (rc = OK \<longrightarrow> (\<exists>r \<in> set (district_t (committed c)). in_district (sl_w_id data) (sl_d_id data) r \<and>
      (let k = atoi (fmt_d (D_NEXT_O_ID r)) in
       n = atoi (fmt_d (int (low_stock_count (sl_d_id data) (sl_w_id data) (sl_threshold data) (k - 20) (k - 1) (committed c))))))))"
    unfolding execute_stock_level_nonsp_def
    by (rule works_bind [OF stock_level_works [OF assms(2)]]) (auto intro!: works_return simp: OK_def ERROR_def)
  from execute_refines [OF this assms(1,3)] show ?thesis by simp
qed

theorem stock_level_answer_witness:
  "\<exists>c1. run_state (execute_stock_level_nonsp (sample_env (\<lambda>_. False) (\<lambda>_. 0)) (fst (un_stock_level sample_request)) 0)
      (sample_conn ordered_tables) = ((OK, 1), c1) \<and> view c1 = ordered_tables"
proof -
  define e where "e = sample_env (\<lambda>_. False) (\<lambda>_. 0)"
  have "\<exists>c1. run_state (execute_stock_level_nonsp e (fst (un_stock_level sample_request)) 0) (sample_conn ordered_tables) = ((OK, 1), c1)"
    unfolding e_def
    by (simp add: run_simps sample_defs execute_stock_level_nonsp_def stock_level_nonsp_def)
  then obtain c1 where R: "run_state (execute_stock_level_nonsp e (fst (un_stock_level sample_request)) 0) (sample_conn ordered_tables) = ((OK, 1), c1)"
    by blast
  have c: "committed (sample_conn ordered_tables) = ordered_tables" by (simp add: sample_conn_def)
  have "text_ok e" unfolding e_def by (rule sample_text_ok)
  then show ?thesis using stock_level_answer [OF sample_idle(1) _ R, unfolded c] R unfolding e_def by auto
qed

end
