(* ===== verification/Pg_Sql.thy ===== *)
theory Pg_Sql
  imports Nonsp_Effects
begin

text \<open>
  The SQL statements of the stored procedures for PostgreSQL (\<open>src/storedproc/pgsql/c\<close>), their texts
  and what they mean on the tables of \<open>Sql_Tables\<close>. They are prepared once and executed with
  arguments, so nothing has to be printed or escaped. A \<open>float4\<close> argument enters the arithmetic of
  the database as a decimal number, which the function \<open>dec\<close> stands for, in millionths; that
  arithmetic is exact. Of the integer columns only the next order number can leave its range. Widths of columns are not represented, and texts are ordered by their bytes.
\<close>

section \<open>Statements\<close>

datatype pg_statement =
    Pg_delivery_1 int int
  | Pg_delivery_2 int int int
  | Pg_delivery_3 int int int int
  | Pg_delivery_5 int int int
  | Pg_delivery_6 int int int
  | Pg_delivery_7 int int int int
  | Pg_new_order_1 int
  | Pg_new_order_2 int int
  | Pg_new_order_4 int int int
  | Pg_new_order_5 int int int
  | Pg_new_order_6 int int int int int int
  | Pg_new_order_7 int
  | Pg_new_order_8 int int
  | Pg_new_order_9 int int int int int
  | Pg_new_order_10 int int int int int int int rat bytes
  | Pg_order_status_1 int int bytes
  | Pg_order_status_2 int int int
  | Pg_order_status_3 int int int
  | Pg_order_status_4 int int int
  | Pg_payment_1 rat int
  | Pg_payment_3 rat int int
  | Pg_payment_5 int int bytes
  | Pg_payment_6 int int int
  | Pg_payment_7_gc rat int int int
  | Pg_payment_7_bc rat bytes int int int
  | Pg_payment_8 int int int int int rat bytes bytes
  | Pg_stock_level_1 int int
  | Pg_stock_level_2 int int int int int

text \<open>The texts, with the arguments as \<open>$1\<close>, \<open>$2\<close> and so on.\<close>

definition delivery_texts :: "bytes list list" where
  "delivery_texts =
    [[''SELECT no_o_id'', ''FROM new_order'', ''WHERE no_w_id = $1'', ''  AND no_d_id = $2'',
      ''ORDER BY no_o_id ASC'', ''LIMIT 1'', ''FOR UPDATE''],
     [''DELETE FROM new_order'', ''WHERE no_o_id = $1'', ''  AND no_w_id = $2'', ''  AND no_d_id = $3''],
     [''UPDATE orders'', ''SET o_carrier_id = $1'', ''WHERE o_id = $2'', ''  AND o_w_id = $3'', ''  AND o_d_id = $4'',
      ''RETURNING o_c_id''],
     [''UPDATE order_line'', ''SET ol_delivery_d = current_timestamp'', ''WHERE ol_o_id = $1'', ''  AND ol_w_id = $2'',
      ''  AND ol_d_id = $3''],
     [''SELECT SUM(ol_amount)'', ''FROM order_line'', ''WHERE ol_o_id = $1'', ''  AND ol_w_id = $2'', ''  AND ol_d_id = $3''],
     [''UPDATE customer'', ''SET c_delivery_cnt = c_delivery_cnt + 1,'', ''    c_balance = c_balance + $1'',
      ''WHERE c_id = $2'', ''  AND c_w_id = $3'', ''  AND c_d_id = $4'']]"

definition new_order_texts :: "bytes list list" where
  "new_order_texts =
    [[''SELECT w_tax'', ''FROM warehouse'', ''WHERE w_id = $1''],
     [''UPDATE district'', ''SET d_next_o_id = d_next_o_id + 1'', ''WHERE d_w_id = $1'', ''  AND d_id = $2'',
      ''RETURNING d_tax, d_next_o_id - 1''],
     [''SELECT c_discount, c_last, c_credit'', ''FROM customer'', ''WHERE c_w_id = $1'', ''  AND c_d_id = $2'', ''  AND c_id = $3''],
     [''INSERT INTO new_order (no_o_id, no_w_id, no_d_id)'', ''VALUES ($1, $2, $3)''],
     [''INSERT INTO orders (o_id, o_d_id, o_w_id, o_c_id, o_entry_d,'',
      [CHR 0x09, CHR 0x09] @ ''    o_carrier_id, o_ol_cnt, o_all_local)'',
      ''VALUES ($1, $2, $3, $4, current_timestamp, NULL, $5, $6)''],
     [''SELECT i_price, i_name, i_data'', ''FROM item'', ''WHERE i_id = $1''],
     [''SELECT s_quantity, s_dist_01, s_dist_02, s_dist_03, s_dist_04,'',
      ''       s_dist_05, s_dist_06, s_dist_07, s_dist_08, s_dist_09,'', ''       s_dist_10, s_data'', ''FROM stock'',
      ''WHERE s_i_id = $1'', ''  AND s_w_id = $2''],
     [''UPDATE stock'', ''SET s_quantity = s_quantity - $1,'', ''    s_ytd = s_ytd + $2,'',
      ''    s_order_cnt = s_order_cnt + 1,'', ''    s_remote_cnt = s_remote_cnt + $3'', ''WHERE s_i_id = $4'', ''  AND s_w_id = $5''],
     [''INSERT INTO order_line (ol_o_id, ol_d_id, ol_w_id, ol_number,'',
      [CHR 0x09, CHR 0x09, CHR 0x09] @ ''ol_i_id, ol_supply_w_id, ol_delivery_d,'',
      [CHR 0x09, CHR 0x09, CHR 0x09] @ ''ol_quantity, ol_amount, ol_dist_info)'',
      ''VALUES ($1, $2, $3, $4, $5, $6, NULL, $7, $8, $9)'']]"

definition order_status_texts :: "bytes list list" where
  "order_status_texts =
    [[''SELECT c_id'', ''FROM customer'', ''WHERE c_w_id = $1'', ''  AND c_d_id = $2'', ''  AND c_last = $3'', ''ORDER BY c_first ASC''],
     [''SELECT c_first, c_middle, c_last, c_balance'', ''FROM customer'', ''WHERE c_w_id = $1'', ''  AND c_d_id = $2'', ''  AND c_id = $3''],
     [''SELECT o_id, o_carrier_id, o_entry_d, o_ol_cnt'', ''FROM orders'', ''WHERE o_w_id = $1'', ''  AND o_d_id = $2'',
      ''  AND o_c_id = $3'', ''ORDER BY o_id DESC'', ''LIMIT 1''],
     [''SELECT ol_i_id, ol_supply_w_id, ol_quantity, ol_amount,'', CHR 0x09 # ''ol_delivery_d'', ''FROM order_line'',
      ''WHERE ol_w_id = $1'', ''  AND ol_d_id = $2'', ''  AND ol_o_id = $3'']]"

definition payment_texts :: "bytes list list" where
  "payment_texts =
    [[''UPDATE warehouse'', ''SET w_ytd = w_ytd + $1'', ''WHERE w_id = $2'',
      ''RETURNING w_name, w_street_1, w_street_2, w_city, w_state, w_zip''],
     [''UPDATE district'', ''SET d_ytd = d_ytd + $1'', ''WHERE d_id = $2'', ''  AND d_w_id = $3'',
      ''RETURNING d_name, d_street_1, d_street_2, d_city, d_state, d_zip''],
     [''SELECT c_id'', ''FROM customer'', ''WHERE c_w_id = $1'', ''  AND c_d_id = $2'', ''  AND c_last = $3'', ''ORDER BY c_first ASC''],
     [''SELECT c_first, c_middle, c_last, c_street_1, c_street_2, c_city,'',
      ''       c_state, c_zip, c_phone, c_since, c_credit, c_credit_lim,'', ''       c_discount, c_balance'', ''FROM customer'',
      ''WHERE c_w_id = $1'', ''  AND c_d_id = $2'', ''  AND c_id = $3''],
     [''UPDATE customer'', ''SET c_balance = c_balance - $1,'', ''    c_ytd_payment = c_ytd_payment + $1,'',
      ''    c_payment_cnt = c_payment_cnt + 1'', ''WHERE c_id = $2'', ''  AND c_w_id = $3'', ''  AND c_d_id = $4'', ''RETURNING c_balance''],
     [''UPDATE customer'', ''SET c_balance = c_balance - $1,'', ''    c_ytd_payment = c_ytd_payment + $1,'',
      ''    c_payment_cnt = c_payment_cnt + 1,'', ''    c_data = substring($2 || c_data, 1, 500)'', ''WHERE c_id = $3'',
      ''  AND c_w_id = $4'', ''  AND c_d_id = $5'', ''RETURNING c_balance, substring(c_data, 1, 200)''],
     [''INSERT INTO history (h_c_id, h_c_d_id, h_c_w_id, h_d_id, h_w_id,'',
      [CHR 0x09, CHR 0x09] @ ''     h_date, h_amount, h_data)'',
      ''VALUES ($1, $2, $3, $4, $5, CURRENT_TIMESTAMP, $6, $7 || '' @ [CHR 0x27] @ ''    '' @ [CHR 0x27] @ '' || $8)'', ''RETURNING h_date'']]"

definition stock_level_texts :: "bytes list list" where
  "stock_level_texts =
    [[''SELECT d_next_o_id'', ''FROM district'', ''WHERE d_w_id = $1'', ''AND d_id = $2''],
     [''WITH'', ''ol AS ('', ''    SELECT DISTINCT ol_i_id'', ''    FROM order_line'', ''    WHERE ol_w_id = $1'',
      ''      AND ol_d_id = $2'', ''      AND ol_o_id BETWEEN ($4)'', ''                      AND ($5)'', '')'',
      ''SELECT count(*)'', ''FROM ol, stock'', ''WHERE s_w_id = $1'', ''  AND s_i_id = ol_i_id'', ''  AND s_quantity < $3'']]"

section \<open>Meaning\<close>

text \<open>The codes of the errors that a statement can raise, and the numbers that a column of type INTEGER holds.\<close>

definition ERRCODE_UNIQUE_VIOLATION :: bytes where
  "ERRCODE_UNIQUE_VIOLATION = ''23505''"

definition ERRCODE_NUMERIC_VALUE_OUT_OF_RANGE :: bytes where
  "ERRCODE_NUMERIC_VALUE_OUT_OF_RANGE = ''22003''"

definition int32 :: "int \<Rightarrow> bool" where
  "int32 n \<longleftrightarrow> - (2 ^ 31) \<le> n \<and> n < 2 ^ 31"

lemma atoi_int32 [simp]: "int32 n \<Longrightarrow> atoi (fmt_d n) = n"
  by (simp add: int32_def atoi_fmt_d)

text \<open>\<open>RETURNING\<close>: the rows that were updated, with their new values.\<close>

definition updated_rows :: "('r \<Rightarrow> bool) \<Rightarrow> ('r \<Rightarrow> 'r) \<Rightarrow> 'r list \<Rightarrow> 'r list" where
  "updated_rows P f rs = map f (filter P rs)"

definition stock_cells :: "stock_r \<Rightarrow> cell list" where
  "stock_cells r = Decimal (10 ^ 6 * S_QUANTITY r) # map text_cell (take 10 (S_DIST r)) @ [text_cell (S_DATA r)]"

text \<open>Payments with \<open>float4\<close>: the customer pays \<open>x\<close>, and \<open>note\<close> is put before his data.\<close>

definition pay :: "int \<Rightarrow> bytes option \<Rightarrow> customer_r \<Rightarrow> customer_r" where
  "pay x note r = r\<lparr>C_BALANCE := C_BALANCE r - x, C_YTD_PAYMENT := C_YTD_PAYMENT r + x, C_PAYMENT_CNT := C_PAYMENT_CNT r + 1,
     C_DATA := (case note of None \<Rightarrow> C_DATA r | Some u \<Rightarrow> map_option (\<lambda>v. take_chars 500 (u @ v)) (C_DATA r))\<rparr>"

text \<open>In ascending order NULL comes last.\<close>

definition pg_customers_named :: "int \<Rightarrow> int \<Rightarrow> bytes \<Rightarrow> tables \<Rightarrow> customer_r list" where
  "pg_customers_named w d nm t = (let rs = filter (\<lambda>r. C_W_ID r = w \<and> C_D_ID r = d \<and> C_LAST r = Some nm) (customer_t t)
     in sort_key C_FIRST (filter (\<lambda>r. C_FIRST r \<noteq> None) rs) @ filter (\<lambda>r. C_FIRST r = None) rs)"

definition recent_items :: "int \<Rightarrow> int \<Rightarrow> int \<Rightarrow> int \<Rightarrow> tables \<Rightarrow> int list" where
  "recent_items w d low high t = remdups (map OL_I_ID (filter (\<lambda>ol. OL_W_ID ol = w \<and> OL_D_ID ol = d \<and>
     low \<le> OL_O_ID ol \<and> OL_O_ID ol \<le> high) (order_line_t t)))"

definition low_items_count :: "int \<Rightarrow> int \<Rightarrow> int \<Rightarrow> int \<Rightarrow> int \<Rightarrow> tables \<Rightarrow> nat" where
  "low_items_count w d threshold low high t = length
     [(). i \<leftarrow> recent_items w d low high t, s \<leftarrow> stock_t t, S_W_ID s = w \<and> S_I_ID s = i \<and> S_QUANTITY s < threshold]"

fun run_pg :: "(rat \<Rightarrow> int) \<Rightarrow> bytes \<Rightarrow> pg_statement \<Rightarrow> tables \<Rightarrow> bytes + cell list list \<times> tables" where
  "run_pg dec now (Pg_delivery_1 w d) t =
     Inr (map (\<lambda>r. [Whole (NO_O_ID r)]) (take 1 (sort_key NO_O_ID
       (filter (\<lambda>r. NO_W_ID r = w \<and> NO_D_ID r = d) (new_order_t t)))), t)"
| "run_pg dec now (Pg_delivery_2 k w d) t =
     Inr (map (\<lambda>_. []) (filter (is_new_order w d k) (new_order_t t)),
       t\<lparr>new_order_t := filter (\<lambda>r. \<not> is_new_order w d k r) (new_order_t t)\<rparr>)"
| "run_pg dec now (Pg_delivery_3 carrier k w d) t =
     Inr (map (\<lambda>r. [Whole (O_C_ID r)]) (filter (is_order w d k) (orders_t t)),
       t\<lparr>orders_t := update_rows (is_order w d k) (O_CARRIER_ID_update (\<lambda>_. Some carrier)) (orders_t t)\<rparr>)"
| "run_pg dec now (Pg_delivery_5 k w d) t =
     Inr ([], t\<lparr>order_line_t := update_rows (is_line_of w d k) (OL_DELIVERY_D_update (\<lambda>_. Some now)) (order_line_t t)\<rparr>)"
| "run_pg dec now (Pg_delivery_6 k w d) t =
     Inr ([[sum_cell (map OL_AMOUNT (filter (is_line_of w d k) (order_line_t t)))]], t)"
| "run_pg dec now (Pg_delivery_7 x c w d) t =
     Inr ([], t\<lparr>customer_t := update_rows (is_customer w d c)
       (\<lambda>r. r\<lparr>C_DELIVERY_CNT := C_DELIVERY_CNT r + 1, C_BALANCE := C_BALANCE r + x\<rparr>) (customer_t t)\<rparr>)"
| "run_pg dec now (Pg_new_order_1 w) t = Inr (map (\<lambda>r. [Decimal (W_TAX r)]) (warehouses_with w t), t)"
| "run_pg dec now (Pg_new_order_2 w d) t =
     (if list_ex (\<lambda>r. in_district w d r \<and> \<not> int32 (D_NEXT_O_ID r + 1)) (district_t t) then Inl ERRCODE_NUMERIC_VALUE_OUT_OF_RANGE
      else Inr (map (\<lambda>r. [Decimal (D_TAX r), Whole (D_NEXT_O_ID r - 1)])
         (updated_rows (in_district w d) (\<lambda>r. r\<lparr>D_NEXT_O_ID := D_NEXT_O_ID r + 1\<rparr>) (district_t t)),
       t\<lparr>district_t := update_rows (in_district w d) (\<lambda>r. r\<lparr>D_NEXT_O_ID := D_NEXT_O_ID r + 1\<rparr>) (district_t t)\<rparr>))"
| "run_pg dec now (Pg_new_order_4 w d c) t =
     Inr (map (\<lambda>r. [Decimal (C_DISCOUNT r), text_cell (C_LAST r), text_cell (C_CREDIT r)]) (customers_with w d c t), t)"
| "run_pg dec now (Pg_new_order_5 k w d) t =
     (if list_ex (is_new_order w d k) (new_order_t t) then Inl ERRCODE_UNIQUE_VIOLATION
      else Inr ([], t\<lparr>new_order_t := new_order_t t @ [\<lparr>NO_O_ID = k, NO_D_ID = d, NO_W_ID = w\<rparr>]\<rparr>))"
| "run_pg dec now (Pg_new_order_6 k d w c cnt all_local) t =
     (if list_ex (is_order w d k) (orders_t t) then Inl ERRCODE_UNIQUE_VIOLATION
      else Inr ([], t\<lparr>orders_t := orders_t t @ [\<lparr>O_ID = k, O_D_ID = d, O_W_ID = w, O_C_ID = c, O_ENTRY_D = now,
       O_CARRIER_ID = None, O_OL_CNT = cnt, O_ALL_LOCAL = all_local\<rparr>]\<rparr>))"
| "run_pg dec now (Pg_new_order_7 i) t =
     Inr (map (\<lambda>r. [Decimal (I_PRICE r), text_cell (I_NAME r), text_cell (I_DATA r)])
       (filter (\<lambda>r. I_ID r = i) (item_t t)), t)"
| "run_pg dec now (Pg_new_order_8 i w) t = Inr (map stock_cells (filter (is_stock w i) (stock_t t)), t)"
| "run_pg dec now (Pg_new_order_9 dq q remote i w) t =
     Inr ([], t\<lparr>stock_t := update_rows (is_stock w i) (\<lambda>r. r\<lparr>S_QUANTITY := S_QUANTITY r - dq, S_YTD := S_YTD r + q,
       S_ORDER_CNT := S_ORDER_CNT r + 1, S_REMOTE_CNT := S_REMOTE_CNT r + remote\<rparr>) (stock_t t)\<rparr>)"
| "run_pg dec now (Pg_new_order_10 k d w n i supply q amount info) t =
     (if list_ex (\<lambda>r. is_line_of w d k r \<and> OL_NUMBER r = n) (order_line_t t) then Inl ERRCODE_UNIQUE_VIOLATION
      else Inr ([], t\<lparr>order_line_t := order_line_t t @ [\<lparr>OL_O_ID = k, OL_D_ID = d, OL_W_ID = w, OL_NUMBER = n,
       OL_I_ID = i, OL_SUPPLY_W_ID = supply, OL_DELIVERY_D = None, OL_QUANTITY = q, OL_AMOUNT = dec amount,
       OL_DIST_INFO = Some info\<rparr>]\<rparr>))"
| "run_pg dec now (Pg_order_status_1 w d nm) t = Inr (map (\<lambda>r. [Whole (C_ID r)]) (pg_customers_named w d nm t), t)"
| "run_pg dec now (Pg_order_status_2 w d c) t =
     Inr (map (\<lambda>r. [text_cell (C_FIRST r), text_cell (C_MIDDLE r), text_cell (C_LAST r), Decimal (C_BALANCE r)])
       (customers_with w d c t), t)"
| "run_pg dec now (Pg_order_status_3 w d c) t =
     Inr (map (\<lambda>r. [Whole (O_ID r), int_cell (O_CARRIER_ID r), Text (O_ENTRY_D r), Whole (O_OL_CNT r)])
       (take 1 (rev (sort_key O_ID (filter (\<lambda>r. O_W_ID r = w \<and> O_D_ID r = d \<and> O_C_ID r = c) (orders_t t))))), t)"
| "run_pg dec now (Pg_order_status_4 w d k) t =
     Inr (map (\<lambda>r. [Whole (OL_I_ID r), Whole (OL_SUPPLY_W_ID r), Decimal (10 ^ 6 * OL_QUANTITY r), Decimal (OL_AMOUNT r),
       text_cell (OL_DELIVERY_D r)]) (filter (is_line_of w d k) (order_line_t t)), t)"
| "run_pg dec now (Pg_payment_1 h w) t =
     Inr (map (\<lambda>r. address_cells (W_ADDRESS r)) (updated_rows (\<lambda>r. W_ID r = w) (\<lambda>r. r\<lparr>W_YTD := W_YTD r + dec h\<rparr>) (warehouse_t t)),
       t\<lparr>warehouse_t := update_rows (\<lambda>r. W_ID r = w) (\<lambda>r. r\<lparr>W_YTD := W_YTD r + dec h\<rparr>) (warehouse_t t)\<rparr>)"
| "run_pg dec now (Pg_payment_3 h d w) t =
     Inr (map (\<lambda>r. address_cells (D_ADDRESS r)) (updated_rows (in_district w d) (\<lambda>r. r\<lparr>D_YTD := D_YTD r + dec h\<rparr>) (district_t t)),
       t\<lparr>district_t := update_rows (in_district w d) (\<lambda>r. r\<lparr>D_YTD := D_YTD r + dec h\<rparr>) (district_t t)\<rparr>)"
| "run_pg dec now (Pg_payment_5 w d nm) t = Inr (map (\<lambda>r. [Whole (C_ID r)]) (pg_customers_named w d nm t), t)"
| "run_pg dec now (Pg_payment_6 w d c) t =
     Inr (map (\<lambda>r. map text_cell [C_FIRST r, C_MIDDLE r, C_LAST r, C_STREET_1 r, C_STREET_2 r, C_CITY r,
         C_STATE r, C_ZIP r, C_PHONE r, C_SINCE r, C_CREDIT r]
       @ [Decimal (C_CREDIT_LIM r), Decimal (C_DISCOUNT r), Decimal (C_BALANCE r)]) (customers_with w d c t), t)"
| "run_pg dec now (Pg_payment_7_gc h c w d) t =
     Inr (map (\<lambda>r. [Decimal (C_BALANCE r)]) (updated_rows (is_customer w d c) (pay (dec h) None) (customer_t t)),
       t\<lparr>customer_t := update_rows (is_customer w d c) (pay (dec h) None) (customer_t t)\<rparr>)"
| "run_pg dec now (Pg_payment_7_bc h s c w d) t =
     Inr (map (\<lambda>r. [Decimal (C_BALANCE r), text_cell (map_option (take_chars 200) (C_DATA r))])
         (updated_rows (is_customer w d c) (pay (dec h) (Some s)) (customer_t t)),
       t\<lparr>customer_t := update_rows (is_customer w d c) (pay (dec h) (Some s)) (customer_t t)\<rparr>)"
| "run_pg dec now (Pg_payment_8 c c_d c_w d w h w_name d_name) t =
     Inr ([[Text now]], t\<lparr>history_t := history_t t @ [\<lparr>H_C_ID = c, H_C_D_ID = c_d, H_C_W_ID = c_w, H_D_ID = d, H_W_ID = w,
       H_DATE = now, H_AMOUNT = dec h, H_DATA = w_name @ ''    '' @ d_name\<rparr>]\<rparr>)"
| "run_pg dec now (Pg_stock_level_1 w d) t =
     Inr (map (\<lambda>r. [Whole (D_NEXT_O_ID r)]) (filter (in_district w d) (district_t t)), t)"
| "run_pg dec now (Pg_stock_level_2 w d threshold low high) t =
     Inr ([[Whole (int (low_items_count w d threshold low high t))]], t)"

end
