(* ===== verification/Pg_Procs.thy ===== *)
theory Pg_Procs
  imports Pg_Sql
begin

text \<open>
  The stored procedures in C for PostgreSQL (\<open>src/storedproc/pgsql/c\<close>) as they run in a backend of the
  server, through the server programming interface (SPI). A procedure is a computation on the backend:
  the tables as its transaction sees them, and the plans that were prepared before. It ends with an
  error, which is raised by \<open>ereport\<close> or by a statement, or with the rows that the client gets; a null
  pointer that is used as a string is a segmentation fault of the backend. What follows the call of
  an SPI function is its continuation, since an error leaves the procedure at once.
\<close>

section \<open>The server programming interface\<close>

text \<open>
  The environment: which calls of SPI raise an error, the time at which the transaction began, and the
  output and input functions of the types: the text of a value, the decimal number that is stored for
  a \<open>float4\<close>, and the values that texts are read as, None for an error.
\<close>

record spi_env =
  spi_fails :: "nat \<Rightarrow> bool"
  spi_now :: bytes
  spi_text :: "cell \<Rightarrow> bytes"
  spi_decimal :: "rat \<Rightarrow> int"
  numeric_in :: "bytes \<Rightarrow> int option"
  int4_in :: "bytes \<Rightarrow> int option"
  float4_in :: "bytes \<Rightarrow> rat option"
  float8_in :: "bytes \<Rightarrow> rat option"

record backend =
  work :: tables
  planned :: "(bytes \<times> bytes list) list"
  spi_calls :: nat

datatype pg_error = Raised bytes | Segfault

type_synonym 'a proc = "(backend, pg_error + 'a) state"

definition raise_error :: "bytes \<Rightarrow> 'a proc" where
  "raise_error sqlstate = State_Monad.return (Inl (Raised sqlstate))"

definition give :: "'a \<Rightarrow> 'a proc" where
  "give x = State_Monad.return (Inr x)"

text \<open>The error codes that the procedures use.\<close>

definition ERRCODE_INTERNAL_ERROR :: bytes where
  "ERRCODE_INTERNAL_ERROR = ''XX000''"

definition ERRCODE_INVALID_PARAMETER_VALUE :: bytes where
  "ERRCODE_INVALID_PARAMETER_VALUE = ''22023''"

definition ERRCODE_INVALID_TEXT_REPRESENTATION :: bytes where
  "ERRCODE_INVALID_TEXT_REPRESENTATION = ''22P02''"

definition spi_call :: "spi_env \<Rightarrow> (backend, bool) state" where
  "spi_call e = State (\<lambda>b. (\<not> spi_fails e (spi_calls b), b\<lparr>spi_calls := spi_calls b + 1\<rparr>))"

text \<open>\<open>plan_queries\<close> of \<open>dbt2common.h\<close>: prepare those statements of a file that have no plan yet.\<close>

fun plan_queries :: "spi_env \<Rightarrow> bytes \<Rightarrow> bytes list list \<Rightarrow> 'a proc \<Rightarrow> 'a proc" where
  "plan_queries e file [] k = k"
| "plan_queries e file (s # ss) k = do {
     b \<leftarrow> State_Monad.get;
     if (file, s) \<in> set (planned b) then plan_queries e file ss k
     else do {
       ok \<leftarrow> spi_call e;
       if \<not> ok then raise_error ERRCODE_INTERNAL_ERROR
       else do { change (planned_update (Cons (file, s))); plan_queries e file ss k }
     }
   }"

text \<open>\<open>SPI_execute_plan\<close>, with the rows of the result.\<close>

definition spi_execute :: "spi_env \<Rightarrow> pg_statement \<Rightarrow> (cell list list \<Rightarrow> 'a proc) \<Rightarrow> 'a proc" where
  "spi_execute e s k = do {
     ok \<leftarrow> spi_call e;
     b \<leftarrow> State_Monad.get;
     if \<not> ok then raise_error ERRCODE_INTERNAL_ERROR
     else case run_pg (spi_decimal e) (spi_now e) s (work b) of
         Inl sqlstate \<Rightarrow> raise_error sqlstate
       | Inr (rows, t) \<Rightarrow> do { change (work_update (\<lambda>_. t)); k rows }
   }"

text \<open>A statement that has to give a row: the first one is used.\<close>

definition spi_row :: "spi_env \<Rightarrow> pg_statement \<Rightarrow> (cell list \<Rightarrow> 'a proc) \<Rightarrow> 'a proc" where
  "spi_row e s k = spi_execute e s (\<lambda>rows. case rows of
     [] \<Rightarrow> raise_error ERRCODE_INTERNAL_ERROR | r # _ \<Rightarrow> k r)"

text \<open>\<open>SPI_getvalue\<close> counts columns from 1; the result None is a null pointer.\<close>

definition spi_getvalue :: "spi_env \<Rightarrow> cell list \<Rightarrow> int \<Rightarrow> bytes option" where
  "spi_getvalue e row n =
     (if 1 \<le> n \<and> n \<le> int (length row)
      then (let x = row ! nat (n - 1) in if x = Null then None else Some (spi_text e x))
      else None)"

text \<open>The use of a string that may be a null pointer.\<close>

definition need :: "bytes option \<Rightarrow> (bytes \<Rightarrow> 'a proc) \<Rightarrow> 'a proc" where
  "need v k = (case v of None \<Rightarrow> State_Monad.return (Inl Segfault) | Some s \<Rightarrow> k s)"

fun need_all :: "bytes option list \<Rightarrow> (bytes list \<Rightarrow> 'a proc) \<Rightarrow> 'a proc" where
  "need_all [] k = k []"
| "need_all (v # vs) k = need v (\<lambda>s. need_all vs (\<lambda>ss. k (s # ss)))"

section \<open>Rows for the client\<close>

text \<open>The types of the columns that the functions return, and their values.\<close>

datatype pg_type = Integer_t | Real_t | Double_t | Text_t

datatype pg_value = Pg_null | Pg_int int | Pg_float4 rat | Pg_float8 rat | Pg_text bytes

definition type_in :: "spi_env \<Rightarrow> pg_type \<Rightarrow> bytes option \<Rightarrow> pg_value option" where
  "type_in e ty v = (case v of
     None \<Rightarrow> Some Pg_null
   | Some s \<Rightarrow> (case ty of
       Integer_t \<Rightarrow> map_option Pg_int (int4_in e s)
     | Real_t \<Rightarrow> map_option Pg_float4 (float4_in e s)
     | Double_t \<Rightarrow> map_option Pg_float8 (float8_in e s)
     | Text_t \<Rightarrow> Some (Pg_text s)))"

text \<open>\<open>BuildTupleFromCStrings\<close>\<close>

definition build_tuple :: "spi_env \<Rightarrow> pg_type list \<Rightarrow> bytes option list \<Rightarrow> pg_value list option" where
  "build_tuple e tys vs = those (map (\<lambda>(ty, v). type_in e ty v) (zip tys vs))"

text \<open>A set returning function is called for one row after the other.\<close>

definition return_rows :: "spi_env \<Rightarrow> pg_type list \<Rightarrow> bytes option list list \<Rightarrow> pg_value list list proc" where
  "return_rows e tys rows = (case those (map (build_tuple e tys) rows) of
     None \<Rightarrow> raise_error ERRCODE_INVALID_TEXT_REPRESENTATION | Some vss \<Rightarrow> give vss)"

text \<open>\<open>strncpy\<close> into a buffer that is zero.\<close>

definition staged :: "nat \<Rightarrow> bytes \<Rightarrow> bytes" where
  "staged n s = take n s"

section \<open>New-Order\<close>

definition new_order_columns :: "pg_type list" where
  "new_order_columns = [Integer_t, Integer_t, Text_t, Integer_t, Integer_t, Real_t, Real_t, Text_t,
     Real_t, Real_t, Integer_t, Text_t, Text_t, Real_t]"

record no_line_result =
  rl_ol_supply_w_id :: int
  rl_ol_i_id :: int
  rl_i_name :: bytes
  rl_ol_quantity :: int
  rl_s_quantity :: int
  rl_i_price :: rat
  rl_ol_amount :: rat
  rl_brand_generic :: char

record no_result =
  rs_w_tax :: rat
  rs_d_tax :: rat
  rs_o_id :: int
  rs_c_last :: bytes
  rs_c_credit :: bytes
  rs_c_discount :: rat
  rs_ol :: "no_line_result list"

text \<open>\<open>brand_generic\<close>: the data of the stock are only looked at if those of the item match.\<close>

definition pg_brand :: "bytes option \<Rightarrow> bytes option \<Rightarrow> (char \<Rightarrow> 'a proc) \<Rightarrow> 'a proc" where
  "pg_brand i_data s_data k = need i_data (\<lambda>i.
     if has_substring ''ORIGINAL'' i
     then need s_data (\<lambda>s. k (if has_substring ''ORIGINAL'' s then CHR ''B'' else CHR ''G''))
     else k (CHR ''G''))"

text \<open>The line \<open>i\<close> of an order.\<close>

definition proc_order_line ::
    "spi_env \<Rightarrow> int \<Rightarrow> int \<Rightarrow> int \<Rightarrow> nat \<Rightarrow> no_order_line_t \<Rightarrow> (no_line_result \<Rightarrow> 'a proc) \<Rightarrow> 'a proc" where
  "proc_order_line e w_id d_id d_next_o_id i ol k =
     (let i_id = ol_i_id ol; supply = ol_supply_w_id ol; q = ol_quantity ol in
      spi_execute e (Pg_new_order_7 i_id) (\<lambda>items.
      if i_id = 0 \<or> items = [] then raise_error ''DBT2R''
      else let item = hd items; i_data = spi_getvalue e item 3 in
      need (spi_getvalue e item 1) (\<lambda>i_price.
      need (spi_getvalue e item 2) (\<lambda>i_name.
      let amount = fl32 (fl (atof i_price * fl32 (of_int q))) in
      spi_row e (Pg_new_order_8 i_id supply) (\<lambda>stock.
      need (spi_getvalue e stock 1) (\<lambda>s_quantity.
      let my_s_dist = spi_getvalue e stock (1 + d_id); s_data = spi_getvalue e stock 12;
          decr_quantity = (if q + 10 \<le> atoi s_quantity then q else q - 91) in
      spi_execute e (Pg_new_order_9 decr_quantity q (if supply = w_id then 0 else 1) i_id supply) (\<lambda>_.
      need my_s_dist (\<lambda>info.
      spi_execute e (Pg_new_order_10 d_next_o_id d_id w_id (int i + 1) i_id supply q amount info) (\<lambda>_.
      pg_brand i_data s_data (\<lambda>b.
      k \<lparr>rl_ol_supply_w_id = supply, rl_ol_i_id = i_id, rl_i_name = staged 384 i_name, rl_ol_quantity = q,
         rl_s_quantity = atoi s_quantity, rl_i_price = fl32 (atof i_price), rl_ol_amount = amount,
         rl_brand_generic = b\<rparr>))))))))))"

fun proc_order_lines :: "spi_env \<Rightarrow> int \<Rightarrow> int \<Rightarrow> int \<Rightarrow> nat \<Rightarrow> no_order_line_t list \<Rightarrow>
    (no_line_result list \<Rightarrow> 'a proc) \<Rightarrow> 'a proc" where
  "proc_order_lines e w_id d_id d_next_o_id i [] k = k []"
| "proc_order_lines e w_id d_id d_next_o_id i (ol # ols) k =
     proc_order_line e w_id d_id d_next_o_id i ol (\<lambda>r.
       proc_order_lines e w_id d_id d_next_o_id (Suc i) ols (\<lambda>rs. k (r # rs)))"

text \<open>The values of a row; those of the order are the same in each.\<close>

definition new_order_values :: "no_result \<Rightarrow> no_line_result \<Rightarrow> bytes option list" where
  "new_order_values res pp = map Some
     [fmt_d (rl_ol_supply_w_id pp), fmt_d (rl_ol_i_id pp), rl_i_name pp, fmt_d (rl_ol_quantity pp), fmt_d (rl_s_quantity pp),
      fmt_f 2 (rl_i_price pp), fmt_f 2 (rl_ol_amount pp), [rl_brand_generic pp], fmt_f 4 (rs_w_tax res), fmt_f 4 (rs_d_tax res),
      fmt_d (rs_o_id res), rs_c_last res, rs_c_credit res, fmt_f 4 (rs_c_discount res)]"

text \<open>The function, on the parameters of \<open>order_line_1\<close> to \<open>order_line_15\<close>, with 0 for NULL.\<close>

definition new_order_proc :: "spi_env \<Rightarrow> int \<Rightarrow> int \<Rightarrow> int \<Rightarrow> int \<Rightarrow> int \<Rightarrow> no_order_line_t list \<Rightarrow> pg_value list list proc" where
  "new_order_proc e w_id d_id c_id o_all_local o_ol_cnt ols =
     (if o_ol_cnt < 1 \<or> 15 < o_ol_cnt then raise_error ERRCODE_INVALID_PARAMETER_VALUE
      else plan_queries e ''new_order'' new_order_texts (
      spi_row e (Pg_new_order_1 w_id) (\<lambda>w.
      need (spi_getvalue e w 1) (\<lambda>w_tax.
      spi_row e (Pg_new_order_2 w_id d_id) (\<lambda>d.
      need (spi_getvalue e d 1) (\<lambda>d_tax. need (spi_getvalue e d 2) (\<lambda>next_o_id.
      let d_next_o_id = atoi next_o_id in
      spi_row e (Pg_new_order_4 w_id d_id c_id) (\<lambda>c.
      need_all [spi_getvalue e c 1, spi_getvalue e c 2, spi_getvalue e c 3] (\<lambda>cs.
      spi_execute e (Pg_new_order_5 d_next_o_id w_id d_id) (\<lambda>_.
      spi_execute e (Pg_new_order_6 d_next_o_id d_id w_id c_id o_ol_cnt o_all_local) (\<lambda>_.
      proc_order_lines e w_id d_id d_next_o_id 0 (take (nat o_ol_cnt) ols) (\<lambda>rs.
      let res = \<lparr>rs_w_tax = fl32 (atof w_tax), rs_d_tax = fl32 (atof d_tax), rs_o_id = d_next_o_id,
            rs_c_last = staged 64 (cs ! 1), rs_c_credit = staged 2 (cs ! 2), rs_c_discount = fl32 (atof (cs ! 0)), rs_ol = rs\<rparr>
      in return_rows e new_order_columns (map (new_order_values res) (rs_ol res))))))))))))))"

section \<open>Delivery\<close>

definition delivery_columns :: "pg_type list" where
  "delivery_columns = [Integer_t, Integer_t]"

text \<open>The districts one after the other; the result lists what was delivered.\<close>

fun proc_districts :: "spi_env \<Rightarrow> int \<Rightarrow> int \<Rightarrow> int list \<Rightarrow> ((int \<times> int) list \<Rightarrow> 'a proc) \<Rightarrow> 'a proc" where
  "proc_districts e w_id o_carrier_id [] k = k []"
| "proc_districts e w_id o_carrier_id (d_id # ds) k =
     spi_execute e (Pg_delivery_1 w_id d_id) (\<lambda>rows.
     if rows = [] then proc_districts e w_id o_carrier_id ds k
     else need (spi_getvalue e (hd rows) 1) (\<lambda>no.
     let no_o_id = atoi no in
     spi_execute e (Pg_delivery_2 no_o_id w_id d_id) (\<lambda>deleted.
     if deleted = [] then raise_error ERRCODE_INTERNAL_ERROR
     else spi_row e (Pg_delivery_3 o_carrier_id no_o_id w_id d_id) (\<lambda>o'.
     need (spi_getvalue e o' 1) (\<lambda>c.
     let o_c_id = atoi c in
     spi_execute e (Pg_delivery_5 no_o_id w_id d_id) (\<lambda>_.
     spi_row e (Pg_delivery_6 no_o_id w_id d_id) (\<lambda>s.
     case spi_getvalue e s 1 of
       None \<Rightarrow> raise_error ERRCODE_INTERNAL_ERROR
     | Some ol_amount \<Rightarrow> (case numeric_in e ol_amount of
           None \<Rightarrow> raise_error ERRCODE_INVALID_TEXT_REPRESENTATION
         | Some x \<Rightarrow>
     spi_execute e (Pg_delivery_7 x o_c_id w_id d_id) (\<lambda>_.
     proc_districts e w_id o_carrier_id ds (\<lambda>ps. k ((d_id, no_o_id) # ps)))))))))))"

definition delivery_proc :: "spi_env \<Rightarrow> int \<Rightarrow> int \<Rightarrow> pg_value list list proc" where
  "delivery_proc e w_id o_carrier_id = plan_queries e ''delivery'' delivery_texts (
     proc_districts e w_id o_carrier_id [1..10] (\<lambda>ps.
     return_rows e delivery_columns (map (\<lambda>(d, o'). [Some (fmt_d d), Some (fmt_d o')]) ps)))"

section \<open>The customer\<close>

text \<open>The middle one of the customers that a query finds, or the one with the number \<open>c_id\<close>.\<close>

definition proc_customer :: "spi_env \<Rightarrow> int \<Rightarrow> pg_statement \<Rightarrow> (int \<Rightarrow> 'a proc) \<Rightarrow> 'a proc" where
  "proc_customer e c_id s k =
     (if c_id = 0
      then spi_execute e s (\<lambda>rows.
        if rows = [] then raise_error ERRCODE_INTERNAL_ERROR
        else need (spi_getvalue e (rows ! ((length rows - 1) div 2)) 1) (\<lambda>c. k (atoi c)))
      else k c_id)"

section \<open>Payment\<close>

definition payment_columns :: "pg_type list" where
  "payment_columns = replicate 21 Text_t @ [Double_t, Real_t, Double_t, Text_t, Text_t, Integer_t, Text_t, Text_t]"

text \<open>The name and the address of a warehouse or a district, in their buffers.\<close>

definition proc_address :: "spi_env \<Rightarrow> cell list \<Rightarrow> (bytes list \<Rightarrow> 'a proc) \<Rightarrow> 'a proc" where
  "proc_address e r k = need_all (map (spi_getvalue e r) [1..6]) (\<lambda>vs. k (map2 staged [160, 320, 320, 320, 32, 36] vs))"

text \<open>What is put before the data of a customer with bad credit.\<close>

definition my_c_data :: "int \<Rightarrow> int \<Rightarrow> int \<Rightarrow> int \<Rightarrow> int \<Rightarrow> rat \<Rightarrow> bytes" where
  "my_c_data c_id c_d_id c_w_id d_id w_id h_amount = take 500 (fmt_d c_id @ '' '' @ fmt_d c_d_id @ '' '' @ fmt_d c_w_id
     @ '' '' @ fmt_d d_id @ '' '' @ fmt_d w_id @ '' '' @ fmt_f 2 h_amount @ '' '')"

text \<open>The update of the customer; it gives the new balance and the data to show.\<close>

definition proc_pay :: "spi_env \<Rightarrow> bytes \<Rightarrow> rat \<Rightarrow> int \<Rightarrow> int \<Rightarrow> int \<Rightarrow> bytes \<Rightarrow> (bytes \<Rightarrow> bytes \<Rightarrow> 'a proc) \<Rightarrow> 'a proc" where
  "proc_pay e c_credit h_amount c_id c_w_id c_d_id note k =
     (if take 1 c_credit = ''G''
      then spi_row e (Pg_payment_7_gc h_amount c_id c_w_id c_d_id) (\<lambda>r.
        need (spi_getvalue e r 1) (\<lambda>c_balance. k c_balance []))
      else spi_row e (Pg_payment_7_bc h_amount note c_id c_w_id c_d_id) (\<lambda>r.
        need (spi_getvalue e r 1) (\<lambda>c_balance.
        need (spi_getvalue e r 2) (\<lambda>c_data. k c_balance (staged 800 c_data)))))"

text \<open>The values of the row, from those of the warehouse, the district and the customer.\<close>

definition payment_values ::
    "bytes list \<Rightarrow> bytes list \<Rightarrow> bytes list \<Rightarrow> bytes \<Rightarrow> bytes \<Rightarrow> bytes \<Rightarrow> int \<Rightarrow> bytes list" where
  "payment_values wv dv cv c_balance c_data h_date my_c_id =
     tl wv @ tl dv @
     map2 staged [256, 2, 64, 320, 320, 320, 16, 36, 64, 28, 2] (take 11 cv) @
     [fmt_f 2 (atof (cv ! 11)), fmt_f 4 (fl32 (atof (cv ! 12))), fmt_f 2 (atof c_balance), c_data, staged 28 h_date,
      fmt_d my_c_id, hd wv, hd dv]"

definition payment_proc :: "spi_env \<Rightarrow> int \<Rightarrow> int \<Rightarrow> int \<Rightarrow> int \<Rightarrow> int \<Rightarrow> bytes \<Rightarrow> rat \<Rightarrow> pg_value list list proc" where
  "payment_proc e w_id d_id c_id c_w_id c_d_id c_last h_amount =
     plan_queries e ''payment'' payment_texts (
     spi_row e (Pg_payment_1 h_amount w_id) (\<lambda>wr.
     proc_address e wr (\<lambda>wv. need (spi_getvalue e wr 1) (\<lambda>w_name.
     spi_row e (Pg_payment_3 h_amount d_id w_id) (\<lambda>dr.
     proc_address e dr (\<lambda>dv. need (spi_getvalue e dr 1) (\<lambda>d_name.
     proc_customer e c_id (Pg_payment_5 c_w_id c_d_id c_last) (\<lambda>my_c_id.
     spi_row e (Pg_payment_6 c_w_id c_d_id my_c_id) (\<lambda>cr.
     need_all (map (spi_getvalue e cr) [1..14]) (\<lambda>cv.
     proc_pay e (cv ! 10) h_amount my_c_id c_w_id c_d_id (my_c_data my_c_id c_d_id c_w_id d_id w_id h_amount) (\<lambda>c_balance c_data.
     spi_row e (Pg_payment_8 my_c_id c_d_id c_w_id d_id w_id h_amount w_name d_name) (\<lambda>hr.
     need (spi_getvalue e hr 1) (\<lambda>h_date.
     return_rows e payment_columns [map Some (payment_values wv dv cv c_balance c_data h_date my_c_id)])))))))))))))"

section \<open>Order-Status\<close>

definition order_status_columns :: "pg_type list" where
  "order_status_columns = [Integer_t, Integer_t, Real_t, Real_t, Text_t, Integer_t, Text_t, Text_t, Text_t, Double_t,
     Integer_t, Integer_t, Text_t]"

definition order_status_proc :: "spi_env \<Rightarrow> int \<Rightarrow> int \<Rightarrow> int \<Rightarrow> bytes \<Rightarrow> pg_value list list proc" where
  "order_status_proc e c_id c_w_id c_d_id c_last =
     plan_queries e ''order_status'' order_status_texts (
     proc_customer e c_id (Pg_order_status_1 c_w_id c_d_id c_last) (\<lambda>my_c_id.
     spi_row e (Pg_order_status_2 c_w_id c_d_id my_c_id) (\<lambda>c.
     spi_row e (Pg_order_status_3 c_w_id c_d_id my_c_id) (\<lambda>o'.
     need (spi_getvalue e o' 1) (\<lambda>id.
     let o_id = atoi id in
     spi_execute e (Pg_order_status_4 c_w_id c_d_id o_id) (\<lambda>rows.
     if rows = [] then raise_error ERRCODE_INTERNAL_ERROR
     else let header = [Some (fmt_d my_c_id), spi_getvalue e c 1, spi_getvalue e c 2, spi_getvalue e c 3, spi_getvalue e c 4,
            Some (fmt_d o_id), spi_getvalue e o' 2, spi_getvalue e o' 3]
       in return_rows e order_status_columns (map (\<lambda>r. map (spi_getvalue e r) [1..5] @ header) rows)))))))"

section \<open>Stock-Level\<close>

definition stock_level_proc :: "spi_env \<Rightarrow> int \<Rightarrow> int \<Rightarrow> int \<Rightarrow> pg_value list list proc" where
  "stock_level_proc e w_id d_id threshold =
     plan_queries e ''stock_level'' stock_level_texts (
     spi_row e (Pg_stock_level_1 w_id d_id) (\<lambda>d.
     need (spi_getvalue e d 1) (\<lambda>next_o_id.
     let d_next_o_id = atoi next_o_id in
     spi_row e (Pg_stock_level_2 w_id d_id threshold (d_next_o_id - 20) (d_next_o_id - 1)) (\<lambda>s.
     need (spi_getvalue e s 1) (\<lambda>low_stock. give [[Pg_int (atoi low_stock)]])))))"

end
