(* ===== verification/Libpq.thy ===== *)
theory Libpq
  imports Pg_Procs Db
begin

text \<open>
  The backend for PostgreSQL (\<open>src/src/libpq\<close>): each transaction is a block of its own that calls one
  stored procedure. The client library and the server are represented by what their documentation
  says: a connection has the committed tables and those of the open block, an error inside a block
  aborts it, and when the connection is lost the server rolls the block back. Where a connection is
  lost while \<open>COMMIT\<close> is under way, the block may have been committed or not.
\<close>

section \<open>The library and the server\<close>

text \<open>
  The fate of a command: it is executed, the server refuses it with an error, or the connection is
  lost, before the command takes effect or when only its answer is missing.
\<close>

datatype fate = Fine | Refused | Lost_before | Lost_after

text \<open>
  The environment, indexed by the commands so far: the fates, which statements of a procedure fail,
  the times, whether connecting succeeds. \<open>pg_types\<close> are the types of the server.
\<close>

record pg_env =
  begin_fate :: "nat \<Rightarrow> fate"
  call_fate :: "nat \<Rightarrow> fate"
  commit_fate :: "nat \<Rightarrow> fate"
  rollback_fate :: "nat \<Rightarrow> fate"
  statement_fails :: "nat \<Rightarrow> nat \<Rightarrow> bool"
  connects :: "nat \<Rightarrow> bool"
  start_time :: "nat \<Rightarrow> bytes"
  pg_clock :: "nat \<Rightarrow> int"
  pg_sleeps :: "nat \<Rightarrow> bool"
  pg_types :: spi_env

datatype link = No_handle | Broken | Connected

record pg_conn =
  pg_committed :: tables
  pg_block :: "tables option"
  pg_aborted :: bool
  pg_link :: link
  pg_plans :: "(bytes \<times> bytes list) list"
  pg_started :: bytes
  pg_calls :: nat

text \<open>An error as the client sees it: with the code of the server, or one of the connection.\<close>

datatype pq_error = Server bytes | No_connection | Connection_lost

definition IN_FAILED_TRANSACTION :: bytes where
  "IN_FAILED_TRANSACTION = ''25P02''"

definition pg_view :: "pg_conn \<Rightarrow> tables" where
  "pg_view c = (case pg_block c of None \<Rightarrow> pg_committed c | Some t \<Rightarrow> t)"

definition end_block :: "pg_conn \<Rightarrow> pg_conn" where
  "end_block c = c\<lparr>pg_block := None, pg_aborted := False\<rparr>"

definition lose :: "pg_conn \<Rightarrow> pg_conn" where
  "lose c = (end_block c)\<lparr>pg_link := Broken, pg_plans := []\<rparr>"

definition abort_block :: "pg_conn \<Rightarrow> pg_conn" where
  "abort_block c = (if pg_block c = None then c else c\<lparr>pg_aborted := True\<rparr>)"

definition commit_block :: "pg_conn \<Rightarrow> pg_conn" where
  "commit_block c = end_block (if pg_aborted c then c else c\<lparr>pg_committed := pg_view c\<rparr>)"

text \<open>A command on a connection: nothing is sent when there is none.\<close>

definition pq_command :: "(nat \<Rightarrow> fate) \<Rightarrow> (pg_conn \<Rightarrow> 'a \<times> pg_conn) \<Rightarrow> (pq_error \<Rightarrow> 'a) \<Rightarrow> (pg_conn \<Rightarrow> pg_conn) \<Rightarrow> (pg_conn \<Rightarrow> pg_conn) \<Rightarrow>
    (pg_conn, 'a) state" where
  "pq_command fates execute err refuse lose_after = State (\<lambda>c.
     if pg_link c \<noteq> Connected then (err No_connection, c)
     else let c1 = c\<lparr>pg_calls := pg_calls c + 1\<rparr> in
       (case fates (pg_calls c) of
          Fine \<Rightarrow> execute c1
        | Refused \<Rightarrow> (err (Server ''XX000''), refuse c1)
        | Lost_before \<Rightarrow> (err Connection_lost, lose c1)
        | Lost_after \<Rightarrow> (err Connection_lost, lose (lose_after c1))))"

text \<open>\<open>BEGIN\<close>; inside a block it is only warned about.\<close>

definition pq_begin :: "pg_env \<Rightarrow> (pg_conn, pq_error option) state" where
  "pq_begin e = pq_command (begin_fate e)
     (\<lambda>c. if pg_aborted c then (Some (Server IN_FAILED_TRANSACTION), c)
          else if pg_block c \<noteq> None then (None, c)
          else (None, c\<lparr>pg_block := Some (pg_committed c), pg_started := start_time e (pg_calls c)\<rparr>))
     Some abort_block id"

text \<open>\<open>COMMIT\<close>; it ends an aborted block, without an error, by rolling it back.\<close>

definition pq_commit :: "pg_env \<Rightarrow> (pg_conn, pq_error option) state" where
  "pq_commit e = pq_command (commit_fate e) (\<lambda>c. (None, commit_block c)) Some end_block commit_block"

definition pq_rollback :: "pg_env \<Rightarrow> (pg_conn, pq_error option) state" where
  "pq_rollback e = pq_command (rollback_fate e) (\<lambda>c. (None, end_block c)) Some abort_block id"

text \<open>The call of a procedure, in the block or, without one, in a transaction of its own.\<close>

definition call_env :: "pg_env \<Rightarrow> pg_conn \<Rightarrow> spi_env" where
  "call_env e c = (pg_types e)\<lparr>spi_fails := statement_fails e (pg_calls c), spi_now := pg_started c\<rparr>"

definition run_procedure :: "pg_env \<Rightarrow> (spi_env \<Rightarrow> pg_value list list proc) \<Rightarrow> pg_conn \<Rightarrow>
    (pq_error + pg_value list list) \<times> pg_conn" where
  "run_procedure e f c =
     (if pg_aborted c then (Inl (Server IN_FAILED_TRANSACTION), c)
      else case run_state (f (call_env e c)) \<lparr>work = pg_view c, planned = pg_plans c, spi_calls = 0\<rparr> of
          (Inr rows, b) \<Rightarrow> (Inr rows, if pg_block c = None then c\<lparr>pg_committed := work b, pg_plans := planned b\<rparr>
            else c\<lparr>pg_block := Some (work b), pg_plans := planned b\<rparr>)
        | (Inl (Raised sqlstate), b) \<Rightarrow> (Inl (Server sqlstate), abort_block (c\<lparr>pg_plans := planned b\<rparr>))
        | (Inl Segfault, b) \<Rightarrow> (Inl Connection_lost, lose c))"

definition pq_call :: "pg_env \<Rightarrow> (spi_env \<Rightarrow> pg_value list list proc) \<Rightarrow> (pg_conn, pq_error + pg_value list list) state" where
  "pq_call e f = pq_command (call_fate e) (run_procedure e f) Inl abort_block id"

section \<open>Transactions and connections\<close>

definition RECONNECT :: int where
  "RECONNECT = 6"

text \<open>\<open>PQstatus\<close> is \<open>CONNECTION_BAD\<close>.\<close>

definition connection_bad :: "(pg_conn, bool) state" where
  "connection_bad = State (\<lambda>c. (pg_link c \<noteq> Connected, c))"

definition commit_transaction_libpq :: "pg_env \<Rightarrow> (pg_conn, int) state" where
  "commit_transaction_libpq e = do {
     err \<leftarrow> pq_commit e;
     bad \<leftarrow> connection_bad;
     State_Monad.return (if err = None then OK else if bad then RECONNECT else ERROR)
   }"

definition connect_to_db_libpq :: "pg_env \<Rightarrow> (pg_conn, int) state" where
  "connect_to_db_libpq e = State (\<lambda>c.
     let c1 = (end_block c)\<lparr>pg_calls := pg_calls c + 1, pg_plans := []\<rparr>
     in if connects e (pg_calls c) then (OK, c1\<lparr>pg_link := Connected\<rparr>) else (ERROR, c1\<lparr>pg_link := No_handle\<rparr>))"

definition disconnect_from_db_libpq :: "(pg_conn, int) state" where
  "disconnect_from_db_libpq = State (\<lambda>c. (OK, (end_block c)\<lparr>pg_link := No_handle, pg_plans := []\<rparr>))"

definition rollback_transaction_libpq :: "pg_env \<Rightarrow> (pg_conn, int) state" where
  "rollback_transaction_libpq e = do {
     err \<leftarrow> pq_rollback e;
     bad \<leftarrow> connection_bad;
     State_Monad.return (if err \<noteq> None \<and> bad then RECONNECT else STATUS_ROLLBACK)
   }"

text \<open>What a transaction returns for an error of \<open>BEGIN\<close> or of the call.\<close>

definition error_status :: "pq_error \<Rightarrow> int" where
  "error_status err = (if err = No_connection then RECONNECT else ERROR)"

text \<open>
  \<open>BEGIN\<close> and the call; \<open>Inl\<close> is an early return. A freed handle counts as a connection that is
  lost; \<open>process_transaction\<close> connects again before it uses one, unless the stop time is over.
\<close>

definition begin_and_call :: "pg_env \<Rightarrow> (spi_env \<Rightarrow> pg_value list list proc) \<Rightarrow> (pg_conn, pq_error + pg_value list list) state" where
  "begin_and_call e f = do {
     err \<leftarrow> pq_begin e;
     case err of Some x \<Rightarrow> State_Monad.return (Inl x) | None \<Rightarrow> pq_call e f
   }"

section \<open>Values of results\<close>

text \<open>The values in binary format; every column has the type that it is read as.\<close>

definition libpq_get_int32 :: "pg_value list \<Rightarrow> nat \<Rightarrow> int" where
  "libpq_get_int32 row field = (case row ! field of Pg_int n \<Rightarrow> n | _ \<Rightarrow> 0)"

definition libpq_get_float4 :: "pg_value list \<Rightarrow> nat \<Rightarrow> rat" where
  "libpq_get_float4 row field = (case row ! field of Pg_float4 x \<Rightarrow> x | _ \<Rightarrow> 0)"

definition libpq_get_float8 :: "pg_value list \<Rightarrow> nat \<Rightarrow> rat" where
  "libpq_get_float8 row field = (case row ! field of Pg_float8 x \<Rightarrow> x | _ \<Rightarrow> 0)"

definition libpq_copy_text :: "bytes \<Rightarrow> nat \<Rightarrow> pg_value list \<Rightarrow> nat \<Rightarrow> bytes" where
  "libpq_copy_text dest n row field =
     (if n = 0 then dest else case row ! field of Pg_text s \<Rightarrow> take (n - 1) s | _ \<Rightarrow> [])"

text \<open>The first byte of a text, and a text as wide characters over \<open>old\<close>.\<close>

definition first_byte :: "pg_value list \<Rightarrow> nat \<Rightarrow> char" where
  "first_byte row field = (case row ! field of Pg_text (ch # _) \<Rightarrow> ch | _ \<Rightarrow> CHR 0x00)"

definition wide_text :: "wchar_t list \<Rightarrow> pg_value list \<Rightarrow> nat \<Rightarrow> wchar_t list" where
  "wide_text old row field = (case row ! field of Pg_text s \<Rightarrow> mbstowcs old (C_LAST_LEN + 1) s | _ \<Rightarrow> old)"

section \<open>The transactions\<close>

definition execute_delivery_libpq :: "pg_env \<Rightarrow> delivery_t \<Rightarrow> (pg_conn, int) state" where
  "execute_delivery_libpq e data = do {
     r \<leftarrow> begin_and_call e (\<lambda>se. delivery_proc se (dl_w_id data) (dl_o_carrier_id data));
     State_Monad.return (case r of Inl err \<Rightarrow> error_status err | Inr _ \<Rightarrow> OK)
   }"

definition execute_integrity_libpq :: "integrity_t \<Rightarrow> (pg_conn, int) state" where
  "execute_integrity_libpq data = State_Monad.return OK"

text \<open>
  The parameters of \<open>new_order\<close>. With a count of -1 the loop that clears the unused parameters also
  clears the three before them, which the procedure sees as 0.
\<close>

definition call_new_order :: "new_order_t \<Rightarrow> spi_env \<Rightarrow> pg_value list list proc" where
  "call_new_order data se = (let n = no_o_ol_cnt data in
     if n < 0 then new_order_proc se (no_w_id data) (no_d_id data) 0 0 0 []
     else new_order_proc se (no_w_id data) (no_d_id data) (no_c_id data) (no_o_all_local data) n (no_order_line data))"

definition line_from_row :: "pg_value list \<Rightarrow> no_order_line_t" where
  "line_from_row row = \<lparr>ol_i_id = libpq_get_int32 row 1, ol_supply_w_id = libpq_get_int32 row 0, ol_quantity = libpq_get_int32 row 3\<rparr>"

definition line_out_from_row :: "new_order_line_out \<Rightarrow> pg_value list \<Rightarrow> new_order_line_out" where
  "line_out_from_row old row = \<lparr>nl_i_price = libpq_get_float4 row 5, nl_i_name = libpq_copy_text (nl_i_name old) 388 row 2,
     nl_s_quantity = libpq_get_int32 row 4, nl_ol_amount = libpq_get_float4 row 6, nl_brand_generic = first_byte row 7\<rparr>"

definition new_order_answer :: "pg_value list list \<Rightarrow> new_order_t \<Rightarrow> new_order_out \<Rightarrow> new_order_t \<times> new_order_out" where
  "new_order_answer rows data out = (let rs = take 15 rows;
       out1 = out\<lparr>nw_rollback := 0, nw_total_amount := foldl (\<lambda>s r. fl (s + libpq_get_float4 r 6)) 0 rs,
         nw_lines := map (\<lambda>(old, r). line_out_from_row old r) (zip (nw_lines out) rs) @ drop (length rs) (nw_lines out)\<rparr>
     in (data\<lparr>no_order_line := map line_from_row rs @ drop (length rs) (no_order_line data)\<rparr>,
         case rows of
           [] \<Rightarrow> out1
         | r # _ \<Rightarrow> out1\<lparr>nw_w_tax := libpq_get_float4 r 8, nw_d_tax := libpq_get_float4 r 9, nw_o_id := libpq_get_int32 r 10,
             nw_c_last := libpq_copy_text (nw_c_last out) 68 r 11, nw_c_credit := libpq_copy_text (nw_c_credit out) 3 r 12,
             nw_c_discount := libpq_get_float4 r 13\<rparr>))"

text \<open>More than 15 lines, or fewer than -1, are written outside the arrays: None.\<close>

definition execute_new_order_libpq ::
    "pg_env \<Rightarrow> new_order_t \<times> new_order_out \<Rightarrow> (pg_conn, int option \<times> new_order_t \<times> new_order_out) state" where
  "execute_new_order_libpq e x = (let (data, out) = x in do {
     err \<leftarrow> pq_begin e;
     case err of
       Some err \<Rightarrow> State_Monad.return (Some (error_status err), data, out)
     | None \<Rightarrow>
         if no_o_ol_cnt data < - 1 \<or> 15 < no_o_ol_cnt data \<or> length (no_order_line data) < nat (no_o_ol_cnt data)
         then State_Monad.return (None, data, out)
         else do {
           r \<leftarrow> pq_call e (call_new_order data);
           State_Monad.return (case r of
               Inr rows \<Rightarrow> (Some OK, new_order_answer rows data out)
             | Inl err \<Rightarrow> if err = Server ''DBT2R'' then (Some ERROR, data, out\<lparr>nw_rollback := 1\<rparr>)
                 else if err = No_connection then (Some RECONNECT, data, out)
                 else (Some ERROR, data, out\<lparr>nw_rollback := 0\<rparr>))
         }
   })"

definition order_line_from_row :: "order_line_out \<Rightarrow> pg_value list \<Rightarrow> order_line_out" where
  "order_line_from_row old row = \<lparr>oo_ol_i_id = libpq_get_int32 row 0, oo_ol_supply_w_id = libpq_get_int32 row 1,
     oo_ol_quantity = c_trunc (libpq_get_float4 row 2), oo_ol_amount = libpq_get_float4 row 3,
     oo_ol_delivery_d = libpq_copy_text (oo_ol_delivery_d old) 29 row 4\<rparr>"

definition order_status_from_rows :: "pg_value list list \<Rightarrow> order_status_out \<Rightarrow> order_status_out" where
  "order_status_from_rows rows out = (let rs = take 15 rows;
       out1 = out\<lparr>ou_o_ol_cnt := int (length rs),
         ou_lines := map (\<lambda>(old, r). order_line_from_row old r) (zip (ou_lines out) rs) @ drop (length rs) (ou_lines out)\<rparr>
     in case rows of
          [] \<Rightarrow> out1
        | r # _ \<Rightarrow> out1\<lparr>ou_c_id := libpq_get_int32 r 5, ou_c_first := libpq_copy_text (ou_c_first out) 260 r 6,
            ou_c_middle := libpq_copy_text (ou_c_middle out) 3 r 7, ou_c_last := wide_text (ou_c_last out) r 8,
            ou_c_balance := libpq_get_float8 r 9, ou_o_id := libpq_get_int32 r 10, ou_o_carrier_id := libpq_get_int32 r 11,
            ou_o_entry_d := libpq_copy_text (ou_o_entry_d out) 29 r 12\<rparr>)"

text \<open>The number and the name of the customer are input and output.\<close>

definition execute_order_status_libpq ::
    "pg_env \<Rightarrow> order_status_t \<times> order_status_out \<Rightarrow> (pg_conn, int option \<times> order_status_t \<times> order_status_out) state" where
  "execute_order_status_libpq e x = (let (data, out) = x in do {
     r \<leftarrow> begin_and_call e (\<lambda>se. order_status_proc se (os_c_id data) (os_c_w_id data) (os_c_d_id data) (wcstombs 68 (os_c_last data)));
     State_Monad.return (case r of
         Inl err \<Rightarrow> (Some (error_status err), data, out)
       | Inr rows \<Rightarrow> (let out1 = order_status_from_rows rows (out\<lparr>ou_c_id := os_c_id data, ou_c_last := os_c_last data\<rparr>)
           in (Some OK, data\<lparr>os_c_id := ou_c_id out1, os_c_last := ou_c_last out1\<rparr>, out1)))
   })"

definition address_from_row :: "address_out \<Rightarrow> pg_value list \<Rightarrow> nat \<Rightarrow> nat \<Rightarrow> address_out" where
  "address_from_row a row name first = \<lparr>ao_name = libpq_copy_text (ao_name a) 164 row name,
     ao_street_1 = libpq_copy_text (ao_street_1 a) 324 row first, ao_street_2 = libpq_copy_text (ao_street_2 a) 324 row (first + 1),
     ao_city = libpq_copy_text (ao_city a) 324 row (first + 2), ao_state = libpq_copy_text (ao_state a) 36 row (first + 3),
     ao_zip = libpq_copy_text (ao_zip a) 40 row (first + 4)\<rparr>"

definition payment_from_rows :: "pg_value list list \<Rightarrow> payment_out \<Rightarrow> payment_out" where
  "payment_from_rows rows out = (case rows of
     [] \<Rightarrow> out
   | r # _ \<Rightarrow> \<lparr>pa_c_id = libpq_get_int32 r 26, pa_c_last = wide_text (pa_c_last out) r 12,
       pa_warehouse = address_from_row (pa_warehouse out) r 27 0, pa_district = address_from_row (pa_district out) r 28 5,
       pa_c_first = libpq_copy_text (pa_c_first out) 260 r 10, pa_c_middle = libpq_copy_text (pa_c_middle out) 3 r 11,
       pa_c_street_1 = libpq_copy_text (pa_c_street_1 out) 324 r 13, pa_c_street_2 = libpq_copy_text (pa_c_street_2 out) 324 r 14,
       pa_c_city = libpq_copy_text (pa_c_city out) 324 r 15, pa_c_state = libpq_copy_text (pa_c_state out) 36 r 16,
       pa_c_zip = libpq_copy_text (pa_c_zip out) 40 r 17, pa_c_phone = libpq_copy_text (pa_c_phone out) 68 r 18,
       pa_c_since = libpq_copy_text (pa_c_since out) 29 r 19, pa_c_credit = libpq_copy_text (pa_c_credit out) 3 r 20,
       pa_c_credit_lim = libpq_get_float8 r 21, pa_c_discount = libpq_get_float4 r 22, pa_c_balance = libpq_get_float8 r 23,
       pa_c_data = libpq_copy_text (pa_c_data out) 8004 r 24, pa_h_date = libpq_copy_text (pa_h_date out) 29 r 25\<rparr>)"

definition execute_payment_libpq ::
    "pg_env \<Rightarrow> payment_t \<times> payment_out \<Rightarrow> (pg_conn, int option \<times> payment_t \<times> payment_out) state" where
  "execute_payment_libpq e x = (let (data, out) = x in do {
     r \<leftarrow> begin_and_call e (\<lambda>se. payment_proc se (py_w_id data) (py_d_id data) (py_c_id data) (py_c_w_id data) (py_c_d_id data)
       (wcstombs 68 (py_c_last data)) (fl32 (py_h_amount data)));
     State_Monad.return (case r of
         Inl err \<Rightarrow> (Some (error_status err), data, out)
       | Inr rows \<Rightarrow> (let out1 = payment_from_rows rows (out\<lparr>pa_c_id := py_c_id data, pa_c_last := py_c_last data\<rparr>)
           in (Some OK, data\<lparr>py_c_id := pa_c_id out1, py_c_last := pa_c_last out1\<rparr>, out1)))
   })"

definition execute_stock_level_libpq :: "pg_env \<Rightarrow> stock_level_t \<times> int \<Rightarrow> (pg_conn, int option \<times> int) state" where
  "execute_stock_level_libpq e x = (let (data, low_stock) = x in do {
     r \<leftarrow> begin_and_call e (\<lambda>se. stock_level_proc se (sl_w_id data) (sl_d_id data) (sl_threshold data));
     State_Monad.return (case r of
         Inl err \<Rightarrow> (Some (error_status err), low_stock)
       | Inr [] \<Rightarrow> (Some OK, low_stock)
       | Inr (row # _) \<Rightarrow> (Some OK, libpq_get_int32 row 0))
   })"

section \<open>The context\<close>

definition read_pg_clock :: "pg_env \<Rightarrow> (pg_conn, int) state" where
  "read_pg_clock e = State (\<lambda>c. (pg_clock e (pg_calls c), c\<lparr>pg_calls := pg_calls c + 1\<rparr>))"

definition pg_sleep_once :: "pg_env \<Rightarrow> (pg_conn, bool) state" where
  "pg_sleep_once e = State (\<lambda>c. (pg_sleeps e (pg_calls c), c\<lparr>pg_calls := pg_calls c + 1\<rparr>))"

definition some_rc :: "(pg_conn, int) state \<Rightarrow> (pg_conn, int option) state" where
  "some_rc m = do { rc \<leftarrow> m; State_Monad.return (Some rc) }"

definition db_init_libpq :: "pg_env \<Rightarrow> int \<Rightarrow> pg_conn db_context" where
  "db_init_libpq e stop = \<lparr>
     stop_time = stop,
     db_connect = connect_to_db_libpq e,
     db_commit = commit_transaction_libpq e,
     db_disconnect = disconnect_from_db_libpq,
     db_rollback = rollback_transaction_libpq e,
     db_delivery = (\<lambda>d. some_rc (execute_delivery_libpq e d)),
     db_integrity = (\<lambda>d. some_rc (execute_integrity_libpq d)),
     db_new_order = execute_new_order_libpq e,
     db_order_status = execute_order_status_libpq e,
     db_payment = execute_payment_libpq e,
     db_stock_level = execute_stock_level_libpq e,
     read_time = read_pg_clock e,
     nano_sleep = pg_sleep_once e\<rparr>"

end
