(* ===== verification/Pg_Effects.thy ===== *)
theory Pg_Effects
  imports Pg_Procs Consistency
begin

text \<open>
  What the stored procedures of \<open>Pg_Procs\<close> do to the tables. \<open>yields\<close> speaks about a procedure that
  gives a result, whatever errors SPI may raise; \<open>ends\<close> about every outcome when it raises none. The
  effect of Delivery is the same as without stored procedures; New-Order takes the stock from the
  warehouse that a line names.
\<close>

section \<open>Reasoning about procedures\<close>

definition yields :: "tables \<Rightarrow> 'a proc \<Rightarrow> ('a \<Rightarrow> tables \<Rightarrow> bool) \<Rightarrow> bool" where
  "yields t m Q \<longleftrightarrow> (\<forall>b x b1. work b = t \<longrightarrow> run_state m b = (Inr x, b1) \<longrightarrow> Q x (work b1))"

definition ends :: "tables \<Rightarrow> 'a proc \<Rightarrow> (pg_error + 'a \<Rightarrow> tables \<Rightarrow> bool) \<Rightarrow> bool" where
  "ends t m Q \<longleftrightarrow> (\<forall>b. work b = t \<longrightarrow> (case run_state m b of (r, b1) \<Rightarrow> Q r (work b1)))"

lemma yieldsI: "(\<And>b x b1. work b = t \<Longrightarrow> run_state m b = (Inr x, b1) \<Longrightarrow> Q x (work b1)) \<Longrightarrow> yields t m Q"
  by (simp add: yields_def)

lemma proc_yieldsD: "yields t m Q \<Longrightarrow> run_state m b = (Inr x, b1) \<Longrightarrow> work b = t \<Longrightarrow> Q x (work b1)"
  by (simp add: yields_def)

lemma endsD: "ends (work b) m Q \<Longrightarrow> run_state m b = (r, b1) \<Longrightarrow> Q r (work b1)"
  by (fastforce simp: ends_def)

lemma yields_raise [simp]: "yields t (raise_error c) Q"
  by (simp add: yields_def raise_error_def State_Monad.return_def)

lemma yields_give: "Q x t \<Longrightarrow> yields t (give x) Q"
  by (simp add: yields_def give_def State_Monad.return_def)

lemma ends_raise: "Q (Inl (Raised c)) t \<Longrightarrow> ends t (raise_error c) Q"
  by (simp add: ends_def raise_error_def State_Monad.return_def)

lemma ends_give: "Q (Inr x) t \<Longrightarrow> ends t (give x) Q"
  by (simp add: ends_def give_def State_Monad.return_def)

lemma yields_if: "(b \<Longrightarrow> yields t m Q) \<Longrightarrow> (\<not> b \<Longrightarrow> yields t n Q) \<Longrightarrow> yields t (if b then m else n) Q"
  by simp

lemma yields_option:
  "(x = None \<Longrightarrow> yields t m Q) \<Longrightarrow> (\<And>y. x = Some y \<Longrightarrow> yields t (f y) Q) \<Longrightarrow> yields t (case x of None \<Rightarrow> m | Some y \<Rightarrow> f y) Q"
  by (cases x) simp_all

lemma yields_let: "yields t (f x) Q \<Longrightarrow> yields t (let v = x in f v) Q"
  by simp

lemma run_execute:
  "run_state (spi_execute e s k) b =
     (if spi_fails e (spi_calls b) then (Inl (Raised ERRCODE_INTERNAL_ERROR), b\<lparr>spi_calls := spi_calls b + 1\<rparr>)
      else case run_pg (spi_decimal e) (spi_now e) s (work b) of
          Inl c \<Rightarrow> (Inl (Raised c), b\<lparr>spi_calls := spi_calls b + 1\<rparr>)
        | Inr (rows, t) \<Rightarrow> run_state (k rows) (b\<lparr>spi_calls := spi_calls b + 1, work := t\<rparr>))"
  by (simp add: spi_execute_def spi_call_def raise_error_def change_def run_bind State_Monad.get_def State_Monad.return_def
      split: sum.split)

lemma yields_execute:
  assumes "\<And>rows t1. run_pg (spi_decimal e) (spi_now e) s t = Inr (rows, t1) \<Longrightarrow> yields t1 (k rows) Q"
  shows "yields t (spi_execute e s k) Q"
proof (rule yieldsI)
  fix b x b1
  assume b: "work b = t" and run: "run_state (spi_execute e s k) b = (Inr x, b1)"
  then obtain rows t1 where r: "run_pg (spi_decimal e) (spi_now e) s t = Inr (rows, t1)"
    "run_state (k rows) (b\<lparr>spi_calls := spi_calls b + 1, work := t1\<rparr>) = (Inr x, b1)"
    by (auto simp: run_execute split: if_splits sum.splits)
  from proc_yieldsD [OF assms [OF r(1)] r(2)] show "Q x (work b1)" by simp
qed

lemma ends_execute:
  assumes "\<And>n. \<not> spi_fails e n" "run_pg (spi_decimal e) (spi_now e) s t = Inr (rows, t1)" "ends t1 (k rows) Q"
  shows "ends t (spi_execute e s k) Q"
  using assms by (simp add: ends_def run_execute)

lemma yields_row:
  assumes "\<And>r rs t1. run_pg (spi_decimal e) (spi_now e) s t = Inr (r # rs, t1) \<Longrightarrow> yields t1 (k r) Q"
  shows "yields t (spi_row e s k) Q"
  unfolding spi_row_def by (rule yields_execute) (use assms in \<open>auto split: list.split\<close>)

lemma ends_row:
  assumes "\<And>n. \<not> spi_fails e n" "run_pg (spi_decimal e) (spi_now e) s t = Inr (r # rs, t1)" "ends t1 (k r) Q"
  shows "ends t (spi_row e s k) Q"
  unfolding spi_row_def by (rule ends_execute [OF assms(1,2)]) (simp add: assms(3))

lemma yields_need: "(\<And>s. v = Some s \<Longrightarrow> yields t (k s) Q) \<Longrightarrow> yields t (need v k) Q"
  by (cases v) (simp_all add: need_def yields_def State_Monad.return_def)

lemma ends_need: "v = Some s \<Longrightarrow> ends t (k s) Q \<Longrightarrow> ends t (need v k) Q"
  by (simp add: need_def)

lemma yields_need_all: "(\<And>ss. vs = map Some ss \<Longrightarrow> yields t (k ss) Q) \<Longrightarrow> yields t (need_all vs k) Q"
proof (induction vs arbitrary: k)
  case (Cons v vs)
  show ?case unfolding need_all.simps
    by (rule yields_need, rule Cons.IH) (use Cons.prems in auto)
qed simp

lemma ends_need_all: "vs = map Some ss \<Longrightarrow> ends t (k ss) Q \<Longrightarrow> ends t (need_all vs k) Q"
  by (induction ss arbitrary: vs k) (auto intro: ends_need)

lemma yields_plan: "yields t k Q \<Longrightarrow> yields t (plan_queries e file ss k) Q"
proof (induction ss)
  case (Cons s ss)
  show ?case
  proof (rule yieldsI)
    fix b x b1
    assume b: "work b = t" and run: "run_state (plan_queries e file (s # ss) k) b = (Inr x, b1)"
    then obtain b2 where "run_state (plan_queries e file ss k) b2 = (Inr x, b1)" "work b2 = t"
      by (auto simp: run_bind State_Monad.get_def spi_call_def raise_error_def State_Monad.return_def change_def split: if_splits)
    then show "Q x (work b1)" by (rule proc_yieldsD [OF Cons.IH [OF Cons.prems]])
  qed
qed simp

lemma ends_plan: "(\<And>n. \<not> spi_fails e n) \<Longrightarrow> ends t k Q \<Longrightarrow> ends t (plan_queries e file ss k) Q"
  by (induction ss) (auto simp: ends_def run_bind State_Monad.get_def spi_call_def change_def)

lemma yields_rows: "(\<And>vss. those (map (build_tuple e tys) rows) = Some vss \<Longrightarrow> Q vss t) \<Longrightarrow> yields t (return_rows e tys rows) Q"
  by (auto simp: return_rows_def intro: yields_give split: option.split)

lemma ends_rows: "those (map (build_tuple e tys) rows) = Some vss \<Longrightarrow> Q (Inr vss) t \<Longrightarrow> ends t (return_rows e tys rows) Q"
  by (simp add: return_rows_def ends_give)

lemmas yields_intros = yields_plan yields_let yields_row yields_execute yields_need yields_need_all yields_rows yields_give

lemma spi_value [simp]:
  "spi_getvalue e (x # xs) 1 = (if x = Null then None else Some (spi_text e x))"
  "1 < n \<Longrightarrow> spi_getvalue e (x # xs) n = spi_getvalue e xs (n - 1)"
  "spi_getvalue e [] n = None"
  by (auto simp: spi_getvalue_def Let_def nth_Cons' nat_diff_distrib numeral_2_eq_2)

text \<open>What the texts of whole numbers and of texts have to satisfy.\<close>

definition spi_text_ok :: "spi_env \<Rightarrow> bool" where
  "spi_text_ok e \<longleftrightarrow> (\<forall>n. spi_text e (Whole n) = fmt_d n) \<and> (\<forall>s. spi_text e (Text s) = s) \<and>
     (\<forall>m. numeric_in e (spi_text e (Decimal m)) = Some m)"

section \<open>New-Order\<close>

text \<open>Numbers in range, as the types of the columns ensure.\<close>

definition ids_ok :: "tables \<Rightarrow> bool" where
  "ids_ok t \<longleftrightarrow> (\<forall>r \<in> set (district_t t). int32 (D_NEXT_O_ID r)) \<and> (\<forall>r \<in> set (new_order_t t). int32 (NO_O_ID r)) \<and>
     (\<forall>r \<in> set (orders_t t). int32 (O_ID r) \<and> int32 (O_C_ID r)) \<and> (\<forall>r \<in> set (customer_t t). int32 (C_ID r))"

text \<open>The amount of an order line as a \<open>float4\<close>.\<close>

definition float_amount :: "(cell \<Rightarrow> bytes) \<Rightarrow> int \<Rightarrow> int \<Rightarrow> rat" where
  "float_amount tx price q = fl32 (fl (atof (tx (Decimal price)) * fl32 (of_int q)))"

text \<open>
  One line: the stock of the supplying warehouse falls by the quantity, or by 91 less where fewer than
  10 would remain, its statistics are updated, and the line is added without a delivery date.
\<close>

definition taken :: "int \<Rightarrow> int \<Rightarrow> bool \<Rightarrow> stock_r \<Rightarrow> stock_r" where
  "taken level q remote r = r\<lparr>S_QUANTITY := S_QUANTITY r - (if q + 10 \<le> level then q else q - 91), S_YTD := S_YTD r + q,
     S_ORDER_CNT := S_ORDER_CNT r + 1, S_REMOTE_CNT := S_REMOTE_CNT r + (if remote then 1 else 0)\<rparr>"

definition proc_line_done :: "spi_env \<Rightarrow> int \<Rightarrow> int \<Rightarrow> int \<Rightarrow> nat \<Rightarrow> no_order_line_t \<Rightarrow> tables \<Rightarrow> tables \<Rightarrow> bool" where
  "proc_line_done e w d k i ol t t1 \<longleftrightarrow> (let q = ol_quantity ol; s = ol_supply_w_id ol in
     \<exists>item stock info.
       item \<in> set (item_t t) \<and> I_ID item = ol_i_id ol \<and> ol_i_id ol \<noteq> 0 \<and>
       stock \<in> set (stock_t t) \<and> is_stock s (ol_i_id ol) stock \<and> spi_getvalue e (stock_cells stock) (1 + d) = Some info \<and>
       \<not> (\<exists>r \<in> set (order_line_t t). is_line_of w d k r \<and> OL_NUMBER r = int i + 1) \<and>
       t1 = t\<lparr>stock_t := update_rows (is_stock s (ol_i_id ol)) (taken (stock_read (spi_text e) stock) q (s \<noteq> w)) (stock_t t),
              order_line_t := order_line_t t @ [\<lparr>OL_O_ID = k, OL_D_ID = d, OL_W_ID = w, OL_NUMBER = int i + 1,
                OL_I_ID = ol_i_id ol, OL_SUPPLY_W_ID = s, OL_DELIVERY_D = None, OL_QUANTITY = q,
                OL_AMOUNT = spi_decimal e (float_amount (spi_text e) (I_PRICE item) q), OL_DIST_INFO = Some info\<rparr>]\<rparr>)"

fun proc_lines_done :: "spi_env \<Rightarrow> int \<Rightarrow> int \<Rightarrow> int \<Rightarrow> nat \<Rightarrow> no_order_line_t list \<Rightarrow> tables \<Rightarrow> tables \<Rightarrow> bool" where
  "proc_lines_done e w d k i [] t t1 = (t1 = t)"
| "proc_lines_done e w d k i (ol # ols) t t1 =
     (\<exists>t2. proc_line_done e w d k i ol t t2 \<and> proc_lines_done e w d k (Suc i) ols t2 t1)"

definition proc_new_order_done :: "spi_env \<Rightarrow> new_order_t \<Rightarrow> tables \<Rightarrow> tables \<Rightarrow> bool" where
  "proc_new_order_done e data t t1 \<longleftrightarrow> 1 \<le> no_o_ol_cnt data \<and> no_o_ol_cnt data \<le> 15 \<and> (\<exists>dr.
     dr \<in> set (district_t t) \<and> in_district (no_w_id data) (no_d_id data) dr \<and>
     (\<forall>r \<in> set (district_t t). in_district (no_w_id data) (no_d_id data) r \<longrightarrow> int32 (D_NEXT_O_ID r + 1)) \<and>
     (\<exists>r \<in> set (warehouse_t t). W_ID r = no_w_id data) \<and>
     (\<exists>r \<in> set (customer_t t). is_customer (no_w_id data) (no_d_id data) (no_c_id data) r) \<and>
     \<not> (\<exists>r \<in> set (new_order_t t). is_new_order (no_w_id data) (no_d_id data) (D_NEXT_O_ID dr) r) \<and>
     \<not> (\<exists>r \<in> set (orders_t t). is_order (no_w_id data) (no_d_id data) (D_NEXT_O_ID dr) r) \<and>
     proc_lines_done e (no_w_id data) (no_d_id data) (D_NEXT_O_ID dr) 0 (take (nat (no_o_ol_cnt data)) (no_order_line data))
       (order_entered data (D_NEXT_O_ID dr) (spi_now e) t) t1)"

lemma text_cell_some [simp]: "text_cell x = Null \<longleftrightarrow> x = None"
  by (simp add: text_cell_def split: option.split)

text \<open>The result of a line repeats the line.\<close>

definition result_of :: "no_order_line_t \<Rightarrow> no_line_result \<Rightarrow> bool" where
  "result_of ol r \<longleftrightarrow> rl_ol_supply_w_id r = ol_supply_w_id ol \<and> rl_ol_i_id r = ol_i_id ol \<and> rl_ol_quantity r = ol_quantity ol"

lemma order_line_yields:
  assumes "\<And>r t1. proc_line_done e w d k i ol t t1 \<Longrightarrow> result_of ol r \<Longrightarrow> yields t1 (c r) Q"
  shows "yields t (proc_order_line e w d k i ol c) Q"
proof -
  have rest: "yields t3 (c \<lparr>rl_ol_supply_w_id = ol_supply_w_id ol, rl_ol_i_id = ol_i_id ol, rl_i_name = nm, rl_ol_quantity = ol_quantity ol,
         rl_s_quantity = sq, rl_i_price = p, rl_ol_amount = am, rl_brand_generic = b\<rparr>) Q"
    if i: "run_pg (spi_decimal e) (spi_now e) (Pg_new_order_7 (ol_i_id ol)) t = Inr (items, ti)" "items \<noteq> []" "ol_i_id ol \<noteq> 0"
      "spi_getvalue e (hd items) 1 = Some price"
    and s: "run_pg (spi_decimal e) (spi_now e) (Pg_new_order_8 (ol_i_id ol) (ol_supply_w_id ol)) ti = Inr (stock # rest, ts)"
      "spi_getvalue e stock 1 = Some qty" "spi_getvalue e stock (1 + d) = Some info"
    and u: "run_pg (spi_decimal e) (spi_now e) (Pg_new_order_9 (if ol_quantity ol + 10 \<le> atoi qty then ol_quantity ol else ol_quantity ol - 91)
        (ol_quantity ol) (if ol_supply_w_id ol = w then 0 else 1) (ol_i_id ol) (ol_supply_w_id ol)) ts = Inr (r2, t2)"
    and l: "run_pg (spi_decimal e) (spi_now e) (Pg_new_order_10 k d w (int i + 1) (ol_i_id ol) (ol_supply_w_id ol) (ol_quantity ol)
        (fl32 (fl (atof price * fl32 (of_int (ol_quantity ol))))) info) t2 = Inr (r3, t3)"
    for items ti price stock rest ts qty info r2 t2 r3 t3 nm sq p am b
  proof (rule assms)
    show "result_of ol \<lparr>rl_ol_supply_w_id = ol_supply_w_id ol, rl_ol_i_id = ol_i_id ol, rl_i_name = nm, rl_ol_quantity = ol_quantity ol,
         rl_s_quantity = sq, rl_i_price = p, rl_ol_amount = am, rl_brand_generic = b\<rparr>" by (simp add: result_of_def)
    obtain i0 i1 where "items = i0 # i1" using i(2) by (cases items) auto
    then obtain item where item: "item \<in> set (item_t t)" "I_ID item = ol_i_id ol" "hd items = [Decimal (I_PRICE item), text_cell (I_NAME item), text_cell (I_DATA item)]"
      using i(1) first_row [of "\<lambda>r. [Decimal (I_PRICE r), text_cell (I_NAME r), text_cell (I_DATA r)]" "\<lambda>r. I_ID r = ol_i_id ol" "item_t t"] by auto
    have price: "price = spi_text e (Decimal (I_PRICE item))" using i(4) item(3) by simp
    obtain sr where sr: "sr \<in> set (stock_t t)" "is_stock (ol_supply_w_id ol) (ol_i_id ol) sr" "stock = stock_cells sr"
      using s(1) i(1) first_row [of stock_cells "is_stock (ol_supply_w_id ol) (ol_i_id ol)" "stock_t t" stock rest] by auto
    have qty: "atoi qty = stock_read (spi_text e) sr" using s(2) sr(3) by (simp add: stock_cells_def stock_read_def)
    have eq: "ti = t" "ts = t" using i(1) s(1) by auto
    have t2: "t2 = t\<lparr>stock_t := update_rows (is_stock (ol_supply_w_id ol) (ol_i_id ol))
        (taken (stock_read (spi_text e) sr) (ol_quantity ol) (ol_supply_w_id ol \<noteq> w)) (stock_t t)\<rparr>"
      using u by (auto simp: eq qty taken_def [abs_def])
    show "proc_line_done e w d k i ol t t3"
      unfolding proc_line_done_def Let_def
      by (intro exI [of _ item] exI [of _ sr] exI [of _ info])
        (use item sr i(3) s(3) l in \<open>auto simp: t2 price float_amount_def list_ex_iff split: if_splits\<close>)
  qed
  show ?thesis
    unfolding proc_order_line_def pg_brand_def
    by (intro yields_intros yields_if yields_raise; (unfold de_Morgan_disj, elim conjE, rule rest; assumption)?)
qed

lemma order_lines_yield:
  assumes "\<And>rs t1. proc_lines_done e w d k i ols t t1 \<Longrightarrow> list_all2 result_of ols rs \<Longrightarrow> yields t1 (c rs) Q"
  shows "yields t (proc_order_lines e w d k i ols c) Q"
  using assms
proof (induction ols arbitrary: i t c)
  case (Cons ol ols)
  show ?case unfolding proc_order_lines.simps
    by (rule order_line_yields, rule Cons.IH, rule Cons.prems) auto
qed simp

lemma district_number:
  assumes "ids_ok t" "spi_text_ok e"
    and "run_pg (spi_decimal e) (spi_now e) (Pg_new_order_2 w d) t = Inr (r # rs, t1)"
    and "spi_getvalue e r 2 = Some nx"
  obtains dr where "dr \<in> set (district_t t)" "in_district w d dr" "atoi nx = D_NEXT_O_ID dr"
    "\<forall>r \<in> set (district_t t). in_district w d r \<longrightarrow> int32 (D_NEXT_O_ID r + 1)"
    "t1 = t\<lparr>district_t := update_rows (in_district w d) (\<lambda>r. r\<lparr>D_NEXT_O_ID := D_NEXT_O_ID r + 1\<rparr>) (district_t t)\<rparr>"
proof -
  have u: "map (\<lambda>r. [Decimal (D_TAX r), Whole (D_NEXT_O_ID r)]) (filter (in_district w d) (district_t t)) = r # rs"
    "\<forall>r \<in> set (district_t t). in_district w d r \<longrightarrow> int32 (D_NEXT_O_ID r + 1)"
    "t1 = t\<lparr>district_t := update_rows (in_district w d) (\<lambda>r. r\<lparr>D_NEXT_O_ID := D_NEXT_O_ID r + 1\<rparr>) (district_t t)\<rparr>"
    using assms(3) by (auto simp: updated_rows_def list_ex_iff comp_def split: if_splits)
  from first_row [OF u(1)] obtain dr where dr: "dr \<in> set (district_t t)" "in_district w d dr" "r = [Decimal (D_TAX dr), Whole (D_NEXT_O_ID dr)]"
    by blast
  then have "atoi nx = D_NEXT_O_ID dr" using assms(1,2,4) by (auto simp: ids_ok_def spi_text_ok_def)
  with dr u show thesis by (intro that)
qed

text \<open>The rows of the answer are one for each line.\<close>

definition order_rows :: "spi_env \<Rightarrow> new_order_t \<Rightarrow> pg_value list list \<Rightarrow> bool" where
  "order_rows e data rows \<longleftrightarrow> (\<exists>res rs. those (map (build_tuple e new_order_columns) (map (new_order_values res) rs)) = Some rows \<and>
     list_all2 result_of (take (nat (no_o_ol_cnt data)) (no_order_line data)) rs)"

lemma new_order_proc_yields:
  assumes e: "ids_ok t" "spi_text_ok e"
  shows "yields t (new_order_proc e (no_w_id data) (no_d_id data) (no_c_id data) (no_o_all_local data) (no_o_ol_cnt data) (no_order_line data))
    (\<lambda>rows t1. proc_new_order_done e data t t1 \<and> order_rows e data rows)"
proof -
  have effect: "proc_new_order_done e data t t1"
    if c: "\<not> no_o_ol_cnt data < 1" "\<not> 15 < no_o_ol_cnt data"
    and w: "run_pg (spi_decimal e) (spi_now e) (Pg_new_order_1 (no_w_id data)) t = Inr (wr # ws, ta)"
    and d: "run_pg (spi_decimal e) (spi_now e) (Pg_new_order_2 (no_w_id data) (no_d_id data)) ta = Inr (dr # ds, tb)"
      "spi_getvalue e dr 2 = Some nx"
    and cu: "run_pg (spi_decimal e) (spi_now e) (Pg_new_order_4 (no_w_id data) (no_d_id data) (no_c_id data)) tb = Inr (cr # cs, tc)"
    and no: "run_pg (spi_decimal e) (spi_now e) (Pg_new_order_5 (atoi nx) (no_w_id data) (no_d_id data)) tc = Inr (r5, td)"
    and o': "run_pg (spi_decimal e) (spi_now e) (Pg_new_order_6 (atoi nx) (no_d_id data) (no_w_id data) (no_c_id data)
        (no_o_ol_cnt data) (no_o_all_local data)) td = Inr (r6, te)"
    and l: "proc_lines_done e (no_w_id data) (no_d_id data) (atoi nx) 0 (take (nat (no_o_ol_cnt data)) (no_order_line data)) te t1"
    for wr ws ta dr ds nx tb cr cs tc r5 td r6 te t1
  proof -
    have ta: "ta = t" and wh: "\<exists>r \<in> set (warehouse_t t). W_ID r = no_w_id data"
      using w first_row [of "\<lambda>r. [Decimal (W_TAX r)]" "\<lambda>r. W_ID r = no_w_id data" "warehouse_t t"] by (auto simp: warehouses_with_def)
    obtain di where di: "di \<in> set (district_t t)" "in_district (no_w_id data) (no_d_id data) di" "atoi nx = D_NEXT_O_ID di"
      "\<forall>r \<in> set (district_t t). in_district (no_w_id data) (no_d_id data) r \<longrightarrow> int32 (D_NEXT_O_ID r + 1)"
      "tb = t\<lparr>district_t := update_rows (in_district (no_w_id data) (no_d_id data)) (\<lambda>r. r\<lparr>D_NEXT_O_ID := D_NEXT_O_ID r + 1\<rparr>) (district_t t)\<rparr>"
      by (rule district_number [OF e d [unfolded ta]])
    have tc: "tc = tb" and c: "\<exists>r \<in> set (customer_t t). is_customer (no_w_id data) (no_d_id data) (no_c_id data) r"
      using cu first_row [of "\<lambda>r. [Decimal (C_DISCOUNT r), text_cell (C_LAST r), text_cell (C_CREDIT r)]"
        "is_customer (no_w_id data) (no_d_id data) (no_c_id data)" "customer_t t"] by (auto simp: customers_with_def di(5))
    show ?thesis
      unfolding proc_new_order_done_def using that(1,2) di wh c no o' l
      by (intro conjI exI [of _ di]) (auto simp: tc di(5) list_ex_iff order_entered_def Let_def split: if_splits)
  qed
  show ?thesis
    unfolding new_order_proc_def
    by (intro yields_intros yields_if yields_raise order_lines_yield conjI; unfold de_Morgan_disj; elim conjE)
      ((rule effect; assumption), auto simp: order_rows_def)
qed

lemma proc_lines_effect:
  "proc_lines_done e w d k i ols t t1 \<Longrightarrow> \<exists>ss ls. t1 = t\<lparr>stock_t := ss, order_line_t := order_line_t t @ ls\<rparr> \<and>
     length ls = length ols \<and> (\<forall>l \<in> set ls. is_line_of w d k l)"
proof (induction ols arbitrary: i t)
  case Nil
  show ?case by (rule exI [of _ "stock_t t"], rule exI [of _ "[]"]) (use Nil in simp)
next
  case (Cons ol ols)
  then obtain t2 where t2: "proc_line_done e w d k i ol t t2" "proc_lines_done e w d k (Suc i) ols t2 t1" by auto
  obtain ss l where l: "t2 = t\<lparr>stock_t := ss, order_line_t := order_line_t t @ [l]\<rparr>" "is_line_of w d k l"
    using t2(1) unfolding proc_line_done_def Let_def by (fastforce simp: is_line_of_def)
  obtain ss' ls where "t1 = t2\<lparr>stock_t := ss', order_line_t := order_line_t t2 @ ls\<rparr>"
     "length ls = length ols" "\<forall>l \<in> set ls. is_line_of w d k l"
    using Cons.IH [OF t2(2)] by blast
  then show ?case using l by (intro exI [of _ ss'] exI [of _ "l # ls"]) simp
qed

lemma proc_new_order_consistent:
  assumes "proc_new_order_done e data t t1" "consistent t" "nat (no_o_ol_cnt data) \<le> length (no_order_line data)"
  shows "consistent t1"
proof -
  define w d where "w = no_w_id data" and "d = no_d_id data"
  obtain dr where D: "1 \<le> no_o_ol_cnt data" "no_o_ol_cnt data \<le> 15" "dr \<in> set (district_t t)" "in_district w d dr"
      "\<not> (\<exists>r \<in> set (new_order_t t). is_new_order w d (D_NEXT_O_ID dr) r)" "\<not> (\<exists>r \<in> set (orders_t t). is_order w d (D_NEXT_O_ID dr) r)"
    and L: "proc_lines_done e w d (D_NEXT_O_ID dr) 0 (take (nat (no_o_ol_cnt data)) (no_order_line data))
       (order_entered data (D_NEXT_O_ID dr) (spi_now e) t) t1"
    using assms(1) unfolding proc_new_order_done_def w_def d_def by blast
  from proc_lines_effect [OF L] obtain ss ls where ls: "t1 = (order_entered data (D_NEXT_O_ID dr) (spi_now e) t)\<lparr>stock_t := ss,
       order_line_t := order_line_t (order_entered data (D_NEXT_O_ID dr) (spi_now e) t) @ ls\<rparr>"
    "length ls = length (take (nat (no_o_ol_cnt data)) (no_order_line data))" "\<forall>l \<in> set ls. is_line_of w d (D_NEXT_O_ID dr) l" by blast
  show ?thesis
    by (rule entered_consistent [OF assms(2) D(3-6) [unfolded w_def d_def] ls(1) ls(3) [unfolded w_def d_def]])
      (use ls(2) D(1,2) assms(3) in auto)
qed

lemma proc_line_ids: "proc_line_done e w d k i ol t t1 \<Longrightarrow> ids_ok t1 = ids_ok t"
  by (auto simp: proc_line_done_def Let_def ids_ok_def)

lemma proc_lines_ids: "proc_lines_done e w d k i ols t t1 \<Longrightarrow> ids_ok t1 = ids_ok t"
proof (induction ols arbitrary: i t)
  case (Cons ol ols)
  then show ?case using proc_line_ids by fastforce
qed simp

lemma proc_new_order_ids:
  assumes "proc_new_order_done e data t t1" "ids_ok t"
  shows "ids_ok t1"
proof -
  define w d where "w = no_w_id data" and "d = no_d_id data"
  obtain dr where D: "dr \<in> set (district_t t)" "in_district w d dr"
      "\<forall>r \<in> set (district_t t). in_district w d r \<longrightarrow> int32 (D_NEXT_O_ID r + 1)"
      "\<exists>r \<in> set (customer_t t). is_customer w d (no_c_id data) r"
    and L: "proc_lines_done e w d (D_NEXT_O_ID dr) 0 (take (nat (no_o_ol_cnt data)) (no_order_line data))
       (order_entered data (D_NEXT_O_ID dr) (spi_now e) t) t1"
    using assms(1) unfolding proc_new_order_done_def w_def d_def by blast
  have "int32 (no_c_id data)" using D(4) assms(2) by (auto simp: ids_ok_def is_customer_def)
  then have "ids_ok (order_entered data (D_NEXT_O_ID dr) (spi_now e) t)"
    using D(1,3) assms(2) by (auto simp: ids_ok_def order_entered_def Let_def w_def d_def dest!: set_update_rows)
  then show ?thesis using proc_lines_ids [OF L] by simp
qed

section \<open>Delivery\<close>

text \<open>In each district that has new orders the oldest one is delivered.\<close>

definition has_new_order :: "int \<Rightarrow> int \<Rightarrow> tables \<Rightarrow> bool" where
  "has_new_order w d t \<longleftrightarrow> (\<exists>r \<in> set (new_order_t t). NO_W_ID r = w \<and> NO_D_ID r = d)"

fun all_delivered :: "int \<Rightarrow> int \<Rightarrow> int list \<Rightarrow> tables \<Rightarrow> tables \<Rightarrow> bool" where
  "all_delivered w carrier [] t t1 = (t1 = t)"
| "all_delivered w carrier (d # ds) t t1 =
     (\<exists>t2. (if has_new_order w d t then district_delivered w carrier d t t2 else t2 = t) \<and> all_delivered w carrier ds t2 t1)"

lemma all_delivered_districts: "all_delivered w carrier ds t t1 \<Longrightarrow> districts_delivered w carrier ds t t1"
  by (induction ds arbitrary: t) (auto split: if_splits)

lemma district_delivered_ids: "district_delivered w carrier d t t1 \<Longrightarrow> ids_ok t \<Longrightarrow> ids_ok t1"
  by (auto simp: district_delivered_def order_delivered_def ids_ok_def dest!: set_update_rows)

lemma all_delivered_ids: "all_delivered w carrier ds t t1 \<Longrightarrow> ids_ok t \<Longrightarrow> ids_ok t1"
  by (induction ds arbitrary: t) (auto split: if_splits dest: district_delivered_ids)

lemma delivered_by_proc:
  assumes e: "ids_ok t" "spi_text_ok e"
    and no: "run_pg (spi_decimal e) (spi_now e) (Pg_delivery_1 w d) t = Inr (rows, ta)" "rows \<noteq> []" "spi_getvalue e (hd rows) 1 = Some k_text"
    and del: "run_pg (spi_decimal e) (spi_now e) (Pg_delivery_2 (atoi k_text) w d) ta = Inr (r2, tb)"
    and cu: "run_pg (spi_decimal e) (spi_now e) (Pg_delivery_3 carrier (atoi k_text) w d) tb = Inr (c # cs, tc)" "spi_getvalue e c 1 = Some c_text"
    and lin: "run_pg (spi_decimal e) (spi_now e) (Pg_delivery_5 (atoi k_text) w d) tc = Inr (r5, td)"
    and am: "run_pg (spi_decimal e) (spi_now e) (Pg_delivery_6 (atoi k_text) w d) td = Inr (a # as, te)" "spi_getvalue e a 1 = Some amount"
      "numeric_in e amount = Some x"
    and bal: "run_pg (spi_decimal e) (spi_now e) (Pg_delivery_7 x (atoi c_text) w d) te = Inr (r7, tf)"
  shows "has_new_order w d t \<and> district_delivered w carrier d t tf"
proof -
  obtain r rs where "rows = r # rs" using no(2) by (cases rows) auto
  then have N: "map (\<lambda>r. [Whole (NO_O_ID r)]) (take 1 (sort_key NO_O_ID
       (filter (\<lambda>r. NO_W_ID r = w \<and> NO_D_ID r = d) (new_order_t t)))) = r # rs" "ta = t" "hd rows = r" using no(1) by auto
  from first_sorted [OF N(1)] obtain nr where nr: "nr \<in> set (new_order_t t)" "NO_W_ID nr = w" "NO_D_ID nr = d" "r = [Whole (NO_O_ID nr)]"
    "\<forall>r \<in> set (new_order_t t). NO_W_ID r = w \<and> NO_D_ID r = d \<longrightarrow> NO_O_ID nr \<le> NO_O_ID r" by auto
  define k where "k = NO_O_ID nr"
  have kt: "atoi k_text = k" using no(3) N(3) nr(1,4) e by (auto simp: k_def ids_ok_def spi_text_ok_def)
  have tb: "tb = t\<lparr>new_order_t := filter (\<lambda>r. \<not> is_new_order w d k r) (new_order_t t)\<rparr>" using del by (simp add: kt N(2))
  have "map (\<lambda>r. [Whole (O_C_ID r)]) (filter (is_order w d k) (orders_t t)) = c # cs" using cu(1) by (simp add: kt tb)
  from first_row [OF this] obtain ord where ord: "ord \<in> set (orders_t t)" "is_order w d k ord" "c = [Whole (O_C_ID ord)]" by auto
  have ct: "atoi c_text = O_C_ID ord" using cu(2) ord(1,3) e by (auto simp: ids_ok_def spi_text_ok_def)
  have td: "td = tb\<lparr>orders_t := update_rows (is_order w d k) (O_CARRIER_ID_update (\<lambda>_. Some carrier)) (orders_t t),
     order_line_t := update_rows (is_line_of w d k) (OL_DELIVERY_D_update (\<lambda>_. Some (spi_now e))) (order_line_t t)\<rparr>"
    using cu(1) lin by (auto simp: kt tb)
  have same: "map OL_AMOUNT (filter (is_line_of w d k) (order_line_t td)) = map OL_AMOUNT (filter (is_line_of w d k) (order_line_t t))"
    by (simp add: td tb filter_update_rows map_update_rows is_line_of_def)
  define xs where "xs = map OL_AMOUNT (filter (is_line_of w d k) (order_line_t t))"
  have a: "a = [sum_cell xs]" "te = td" using am(1) same by (auto simp: kt xs_def)
  have "xs \<noteq> []" using am(2) a by (auto simp: sum_cell_def)
  then have x: "x = sum_list xs" using am(2,3) a e(2) by (auto simp: sum_cell_def spi_text_ok_def)
  have l: "\<exists>l \<in> set (order_line_t t). is_line_of w d k l" using \<open>xs \<noteq> []\<close> by (auto simp: xs_def filter_empty_conv)
  have "tf = order_delivered w d carrier k (O_C_ID ord) (spi_now e) t"
    using bal by (simp add: ct a(2) td tb order_delivered_def xs_def x)
  moreover have "has_new_order w d t" using nr(1-3) by (auto simp: has_new_order_def)
  ultimately show ?thesis using nr ord l unfolding district_delivered_def k_def by blast
qed

lemma districts_yield:
  assumes "spi_text_ok e" "ids_ok t" "\<And>ps t1. all_delivered w carrier ds t t1 \<Longrightarrow> yields t1 (k ps) Q"
  shows "yields t (proc_districts e w carrier ds k) Q"
  using assms(2,3)
proof (induction ds arbitrary: t k)
  case (Cons d ds)
  have none: "yields ta (proc_districts e w carrier ds k) Q"
    if "run_pg (spi_decimal e) (spi_now e) (Pg_delivery_1 w d) t = Inr (rows, ta)" "rows = []" for rows ta
  proof -
    have none: "ta = t" "filter (\<lambda>r. NO_W_ID r = w \<and> NO_D_ID r = d) (new_order_t t) = []"
    proof -
      have "sort_key NO_O_ID (filter (\<lambda>r. NO_W_ID r = w \<and> NO_D_ID r = d) (new_order_t t)) = []" using that by auto
      then show "filter (\<lambda>r. NO_W_ID r = w \<and> NO_D_ID r = d) (new_order_t t) = []" by (metis set_empty set_sort)
    qed (use that in simp)
    then have "\<not> has_new_order w d t" by (auto simp: has_new_order_def filter_empty_conv)
    with none(1) show ?thesis using Cons.prems by (intro Cons.IH) auto
  qed
  have one: "yields tf (proc_districts e w carrier ds (\<lambda>ps. k (p # ps))) Q"
    if "has_new_order w d t \<and> district_delivered w carrier d t tf" for p tf
    by (rule Cons.IH) (use that Cons.prems in \<open>auto dest: district_delivered_ids\<close>)
  show ?case unfolding proc_districts.simps Let_def
    by (intro yields_intros yields_if yields_raise yields_option; (rule none; assumption)?; rule one, rule delivered_by_proc [OF Cons.prems(1) assms(1)]; assumption)
qed simp

lemma delivery_proc_yields:
  assumes "ids_ok t" "spi_text_ok e"
  shows "yields t (delivery_proc e w carrier) (\<lambda>rows t1. all_delivered w carrier [1..10] t t1)"
  unfolding delivery_proc_def by (intro yields_intros districts_yield assms)

section \<open>Payment\<close>

text \<open>The customer: by number, or the middle one of those with the name.\<close>

definition pg_customer :: "int \<Rightarrow> int \<Rightarrow> int \<Rightarrow> bytes \<Rightarrow> tables \<Rightarrow> int option" where
  "pg_customer c_id w d nm t =
     (if c_id \<noteq> 0 then Some c_id
      else let cs = pg_customers_named w d nm t
        in if cs = [] then None else Some (C_ID (cs ! ((length cs - 1) div 2))))"

lemma pg_customer_cong: "customer_t t = customer_t t1 \<Longrightarrow> pg_customer c_id w d nm t = pg_customer c_id w d nm t1"
  by (simp add: pg_customer_def pg_customers_named_def)

lemma set_pg_customers_named: "set (pg_customers_named w d nm t) \<subseteq> set (customer_t t)"
  by (auto simp: pg_customers_named_def Let_def)

lemma customer_yields:
  assumes "ids_ok t" "spi_text_ok e" "s = Pg_payment_5 w d nm \<or> s = Pg_order_status_1 w d nm"
    and "\<And>c. pg_customer c_id w d nm t = Some c \<Longrightarrow> yields t (k c) Q"
  shows "yields t (proc_customer e c_id s k) Q"
proof (cases "c_id = 0")
  case False
  then show ?thesis using assms(4) by (simp add: proc_customer_def pg_customer_def)
next
  case True
  have found: "yields t1 (k (atoi c)) Q"
    if r: "run_pg (spi_decimal e) (spi_now e) s t = Inr (rows, t1)" "rows \<noteq> []"
      "spi_getvalue e (rows ! ((length rows - 1) div 2)) 1 = Some c" for rows t1 c
  proof -
    define cs where "cs = pg_customers_named w d nm t"
    have rows: "rows = map (\<lambda>r. [Whole (C_ID r)]) cs" "t1 = t" using r(1) assms(3) by (auto simp: cs_def)
    have m: "(length cs - 1) div 2 < length cs" using r(2) rows(1) by (cases cs) auto
    then have "cs ! ((length cs - 1) div 2) \<in> set (customer_t t)" using set_pg_customers_named [of w d nm t] nth_mem [OF m] unfolding cs_def by blast
    then have "atoi c = C_ID (cs ! ((length cs - 1) div 2))"
      using r(3) m assms(1,2) by (auto simp: rows(1) ids_ok_def spi_text_ok_def)
    then show ?thesis using assms(4) r(2) True rows unfolding pg_customer_def cs_def by (auto simp: Let_def)
  qed
  show ?thesis unfolding proc_customer_def if_P [OF True]
    by (intro yields_intros yields_if yields_raise; rule found; assumption)
qed

definition proc_payment_done :: "spi_env \<Rightarrow> payment_t \<Rightarrow> tables \<Rightarrow> tables \<Rightarrow> bool" where
  "proc_payment_done e data t t1 \<longleftrightarrow> (let w = py_w_id data; d = py_d_id data; h = fl32 (py_h_amount data); x = spi_decimal e h in
     \<exists>c wr dr cr credit w_name d_name.
       wr \<in> set (warehouse_t t) \<and> W_ID wr = w \<and> A_NAME (W_ADDRESS wr) = Some w_name \<and>
       dr \<in> set (district_t t) \<and> in_district w d dr \<and> A_NAME (D_ADDRESS dr) = Some d_name \<and>
       pg_customer (py_c_id data) (py_c_w_id data) (py_c_d_id data) (wcstombs 68 (py_c_last data)) t = Some c \<and>
       cr \<in> set (customer_t t) \<and> is_customer (py_c_w_id data) (py_c_d_id data) c cr \<and> C_CREDIT cr = Some credit \<and>
       t1 = t\<lparr>warehouse_t := update_rows (\<lambda>r. W_ID r = w) (\<lambda>r. r\<lparr>W_YTD := W_YTD r + x\<rparr>) (warehouse_t t),
         district_t := update_rows (in_district w d) (\<lambda>r. r\<lparr>D_YTD := D_YTD r + x\<rparr>) (district_t t),
         customer_t := update_rows (is_customer (py_c_w_id data) (py_c_d_id data) c)
           (pay x (if take 1 credit = ''G'' then None
              else Some (my_c_data c (py_c_d_id data) (py_c_w_id data) d w h))) (customer_t t),
         history_t := history_t t @ [\<lparr>H_C_ID = c, H_C_D_ID = py_c_d_id data, H_C_W_ID = py_c_w_id data, H_D_ID = d,
           H_W_ID = w, H_DATE = spi_now e, H_AMOUNT = x, H_DATA = w_name @ ''    '' @ d_name\<rparr>]\<rparr>)"

lemma pay_yields:
  assumes "\<And>b c t1. t1 = t\<lparr>customer_t := update_rows (is_customer w d i) (pay (spi_decimal e h) (if take 1 credit = ''G'' then None
      else Some note)) (customer_t t)\<rparr> \<Longrightarrow> yields t1 (k b c) Q"
  shows "yields t (proc_pay e credit h i w d note k) Q"
  unfolding proc_pay_def by (intro yields_intros yields_if assms) auto

lemma address_yields: "(\<And>vs. yields t (k vs) Q) \<Longrightarrow> yields t (proc_address e r k) Q"
  by (simp add: proc_address_def yields_intros)

lemma payment_by_proc:
  assumes e: "spi_text_ok e" and h: "h = fl32 (py_h_amount data)"
    and w: "run_pg (spi_decimal e) (spi_now e) (Pg_payment_1 h (py_w_id data)) t = Inr (wr # ws, ta)" "spi_getvalue e wr 1 = Some w_name"
    and d: "run_pg (spi_decimal e) (spi_now e) (Pg_payment_3 h (py_d_id data) (py_w_id data)) ta = Inr (dr # ds, tb)" "spi_getvalue e dr 1 = Some d_name"
    and c: "pg_customer (py_c_id data) (py_c_w_id data) (py_c_d_id data) (wcstombs 68 (py_c_last data)) tb = Some c"
    and cu: "run_pg (spi_decimal e) (spi_now e) (Pg_payment_6 (py_c_w_id data) (py_c_d_id data) c) tb = Inr (cr # cs, tc)"
      "map (spi_getvalue e cr) [1..14] = map Some cv"
    and u: "td = tc\<lparr>customer_t := update_rows (is_customer (py_c_w_id data) (py_c_d_id data) c)
       (pay (spi_decimal e h) (if take 1 (cv ! 10) = ''G'' then None
          else Some (my_c_data c (py_c_d_id data) (py_c_w_id data) (py_d_id data) (py_w_id data) h))) (customer_t tc)\<rparr>"
    and hi: "run_pg (spi_decimal e) (spi_now e) (Pg_payment_8 c (py_c_d_id data) (py_c_w_id data) (py_d_id data) (py_w_id data) h w_name d_name) td
       = Inr (hr # hs, te)"
  shows "proc_payment_done e data t te"
proof -
  have "map (\<lambda>r. address_cells (W_ADDRESS r)) (filter (\<lambda>r. W_ID r = py_w_id data) (warehouse_t t)) = wr # ws"
    using w(1) by (auto simp: updated_rows_def comp_def)
  from first_row [OF this] obtain wh where wh: "wh \<in> set (warehouse_t t)" "W_ID wh = py_w_id data" "wr = address_cells (W_ADDRESS wh)" by auto
  have "map (\<lambda>r. address_cells (D_ADDRESS r)) (filter (in_district (py_w_id data) (py_d_id data)) (district_t t)) = dr # ds"
    using w(1) d(1) by (auto simp: updated_rows_def comp_def)
  from first_row [OF this] obtain di where di: "di \<in> set (district_t t)" "in_district (py_w_id data) (py_d_id data) di"
    "dr = address_cells (D_ADDRESS di)" by auto
  have names: "A_NAME (W_ADDRESS wh) = Some w_name" "A_NAME (D_ADDRESS di) = Some d_name"
    using w(2) d(2) wh(3) di(3) e by (auto simp: address_cells_def spi_text_ok_def text_cell_def split: option.splits)
  have tb: "customer_t tb = customer_t t" using w(1) d(1) by auto
  define cells where "cells = (\<lambda>r :: customer_r. map text_cell [C_FIRST r, C_MIDDLE r, C_LAST r, C_STREET_1 r, C_STREET_2 r, C_CITY r,
         C_STATE r, C_ZIP r, C_PHONE r, C_SINCE r, C_CREDIT r] @ [Decimal (C_CREDIT_LIM r), Decimal (C_DISCOUNT r), Decimal (C_BALANCE r)])"
  have tc: "tc = tb" "map cells (filter (is_customer (py_c_w_id data) (py_c_d_id data) c) (customer_t t)) = cr # cs"
    using cu(1) by (auto simp: customers_with_def cells_def tb)
  from first_row [OF tc(2)] obtain cust where cust: "cust \<in> set (customer_t t)" "is_customer (py_c_w_id data) (py_c_d_id data) c cust" "cr = cells cust"
    by auto
  have "map (spi_getvalue e cr) [1..14] ! 10 = Some (cv ! 10)"
  proof -
    have "length cv = 14" using arg_cong [OF cu(2), of length] by simp
    then show ?thesis unfolding cu(2) by simp
  qed
  then have "spi_getvalue e cr 11 = Some (cv ! 10)" by (simp add: nth_upto)
  then have credit: "C_CREDIT cust = Some (cv ! 10)"
    using e by (auto simp: cust(3) cells_def spi_text_ok_def text_cell_def split: option.splits if_splits)
  have "pg_customer (py_c_id data) (py_c_w_id data) (py_c_d_id data) (wcstombs 68 (py_c_last data)) t = Some c"
    using c pg_customer_cong [OF tb] by simp
  then show ?thesis
    unfolding proc_payment_done_def Let_def h [symmetric]
    by (intro exI [of _ c] exI [of _ wh] exI [of _ di] exI [of _ cust] exI [of _ "cv ! 10"] exI [of _ w_name] exI [of _ d_name])
      (use wh di cust credit names w(1) d(1) hi in \<open>auto simp: u tc(1)\<close>)
qed

lemma run_pg_ids: "run_pg dec now (Pg_payment_1 h w) t = Inr (rs, t1) \<Longrightarrow> ids_ok t \<Longrightarrow> ids_ok t1"
  "run_pg dec now (Pg_payment_3 h d w) t = Inr (rs, t1) \<Longrightarrow> ids_ok t \<Longrightarrow> ids_ok t1"
  by (auto simp: ids_ok_def dest!: set_update_rows)

lemma payment_proc_yields:
  assumes "ids_ok t" "spi_text_ok e"
  shows "yields t (payment_proc e (py_w_id data) (py_d_id data) (py_c_id data) (py_c_w_id data) (py_c_d_id data)
    (wcstombs 68 (py_c_last data)) (fl32 (py_h_amount data))) (\<lambda>rows t1. proc_payment_done e data t t1)"
  unfolding payment_proc_def
  by (intro yields_intros address_yields pay_yields customer_yields [OF _ assms(2) disjI1 [OF refl]];
      (rule run_pg_ids(2), assumption, rule run_pg_ids(1), assumption, rule assms(1))?; rule payment_by_proc [OF assms(2) refl]; assumption)

lemma proc_payment_consistent:
  assumes "proc_payment_done e data t t1" "consistent t"
  shows "consistent t1"
proof -
  define x where "x = spi_decimal e (fl32 (py_h_amount data))"
  have c: "keys_ok t" "money_ok t" "numbering_ok t" "carriers_ok t" "lines_ok t" using assms(2) by (simp_all add: consistent_def)
  obtain wr dr cs h where t1: "t1 = t\<lparr>warehouse_t := update_rows (\<lambda>r. W_ID r = py_w_id data) (\<lambda>r. r\<lparr>W_YTD := W_YTD r + x\<rparr>) (warehouse_t t),
         district_t := update_rows (in_district (py_w_id data) (py_d_id data)) (\<lambda>r. r\<lparr>D_YTD := D_YTD r + x\<rparr>) (district_t t),
         customer_t := cs, history_t := history_t t @ [h]\<rparr>"
    and wd: "wr \<in> set (warehouse_t t)" "W_ID wr = py_w_id data" "dr \<in> set (district_t t)" "in_district (py_w_id data) (py_d_id data) dr"
      "H_W_ID h = py_w_id data" "H_D_ID h = py_d_id data" "H_AMOUNT h = x"
    using assms(1) unfolding proc_payment_done_def Let_def x_def by fastforce
  show ?thesis unfolding consistent_def
    using payment_keeps_rest [OF t1] c payment_keeps_money [OF c(1,2) wd] t1 by blast
qed

lemma proc_payment_ids: "proc_payment_done e data t t1 \<Longrightarrow> ids_ok t \<Longrightarrow> ids_ok t1"
  by (auto simp: proc_payment_done_def Let_def ids_ok_def pay_def dest!: set_update_rows)

section \<open>Transactions that only read\<close>

definition cell_value :: "spi_env \<Rightarrow> cell \<Rightarrow> bytes option" where
  "cell_value e x = (if x = Null then None else Some (spi_text e x))"

text \<open>The rows that Order-Status returns: the customer \<open>cr\<close>, his newest order \<open>r\<close>, and one row for each of its lines.\<close>

definition newest_order_of :: "int \<Rightarrow> int \<Rightarrow> int \<Rightarrow> tables \<Rightarrow> orders_r \<Rightarrow> bool" where
  "newest_order_of w d c t r \<longleftrightarrow> r \<in> set (orders_t t) \<and> O_W_ID r = w \<and> O_D_ID r = d \<and> O_C_ID r = c \<and>
     (\<forall>r1 \<in> set (orders_t t). O_W_ID r1 = w \<and> O_D_ID r1 = d \<and> O_C_ID r1 = c \<longrightarrow> O_ID r1 \<le> O_ID r)"

definition order_status_row :: "spi_env \<Rightarrow> int \<Rightarrow> customer_r \<Rightarrow> orders_r \<Rightarrow> order_line_r \<Rightarrow> bytes option list" where
  "order_status_row e c cr r l = map (cell_value e) [Whole (OL_I_ID l), Whole (OL_SUPPLY_W_ID l), Decimal (10 ^ 6 * OL_QUANTITY l),
       Decimal (OL_AMOUNT l), text_cell (OL_DELIVERY_D l)] @
     [Some (fmt_d c), cell_value e (text_cell (C_FIRST cr)), cell_value e (text_cell (C_MIDDLE cr)), cell_value e (text_cell (C_LAST cr)),
      cell_value e (Decimal (C_BALANCE cr)), Some (fmt_d (O_ID r)), cell_value e (int_cell (O_CARRIER_ID r)), Some (O_ENTRY_D r)]"

definition proc_order_status_done :: "spi_env \<Rightarrow> int \<Rightarrow> int \<Rightarrow> int \<Rightarrow> bytes \<Rightarrow> tables \<Rightarrow> pg_value list list \<Rightarrow> bool" where
  "proc_order_status_done e c_id w d nm t rows \<longleftrightarrow> (\<exists>c cr r. pg_customer c_id w d nm t = Some c \<and>
     cr \<in> set (customer_t t) \<and> is_customer w d c cr \<and> newest_order_of w d c t r \<and> lines_of w d (O_ID r) t \<noteq> [] \<and>
     those (map (\<lambda>l. build_tuple e order_status_columns (order_status_row e c cr r l)) (lines_of w d (O_ID r) t)) = Some rows)"

lemma spi_getvalue_upto: "map (spi_getvalue e r) [1..int (length r)] = map (cell_value e) r"
  by (rule nth_equalityI) (auto simp: spi_getvalue_def cell_value_def nth_upto Let_def)

lemma newest_by_proc:
  assumes "run_pg dec now (Pg_order_status_3 w d c) t = Inr (s # ss, t1)"
  obtains r where "t1 = t" "newest_order_of w d c t r" "s = [Whole (O_ID r), int_cell (O_CARRIER_ID r), Text (O_ENTRY_D r), Whole (O_OL_CNT r)]"
proof -
  define P where "P = (\<lambda>r :: orders_r. O_W_ID r = w \<and> O_D_ID r = d \<and> O_C_ID r = c)"
  obtain rest where "map (\<lambda>r. [Whole (O_ID r), int_cell (O_CARRIER_ID r), Text (O_ENTRY_D r), Whole (O_OL_CNT r)])
       (rev (sort_key O_ID (filter P (orders_t t)))) = s # rest" "t1 = t"
    using assms unfolding P_def by (cases "rev (sort_key O_ID (filter (\<lambda>r. O_W_ID r = w \<and> O_D_ID r = d \<and> O_C_ID r = c) (orders_t t)))") auto
  from first_of_reversed [OF this(1)] this(2) show thesis by (auto simp: newest_order_of_def P_def intro: that)
qed

lemma order_status_proc_yields:
  assumes e: "ids_ok t" "spi_text_ok e"
  shows "yields t (order_status_proc e c_id w d nm) (\<lambda>rows t1. t1 = t \<and> proc_order_status_done e c_id w d nm t rows)"
proof -
  have answer: "tc = t \<and> proc_order_status_done e c_id w d nm t vss"
    if c: "pg_customer c_id w d nm t = Some c"
    and cu: "run_pg (spi_decimal e) (spi_now e) (Pg_order_status_2 w d c) t = Inr (cr # cs, ta)"
    and o': "run_pg (spi_decimal e) (spi_now e) (Pg_order_status_3 w d c) ta = Inr (s # ss, tb)" "spi_getvalue e s 1 = Some k"
    and l: "run_pg (spi_decimal e) (spi_now e) (Pg_order_status_4 w d (atoi k)) tb = Inr (rows, tc)" "rows \<noteq> []"
      "those (map (build_tuple e order_status_columns) (map (\<lambda>r. map (spi_getvalue e r) [1..5] @ [Some (fmt_d c), spi_getvalue e cr 1, spi_getvalue e cr 2,
        spi_getvalue e cr 3, spi_getvalue e cr 4, Some (fmt_d (atoi k)), spi_getvalue e s 2, spi_getvalue e s 3]) rows)) = Some vss"
    for c cr cs ta s ss tb k rows tc vss
  proof -
    have ta: "ta = t" "map (\<lambda>r. [text_cell (C_FIRST r), text_cell (C_MIDDLE r), text_cell (C_LAST r), Decimal (C_BALANCE r)])
        (filter (is_customer w d c) (customer_t t)) = cr # cs" using cu by (auto simp: customers_with_def)
    from first_row [OF ta(2)] obtain cust where cust: "cust \<in> set (customer_t t)" "is_customer w d c cust"
      "cr = [text_cell (C_FIRST cust), text_cell (C_MIDDLE cust), text_cell (C_LAST cust), Decimal (C_BALANCE cust)]" by auto
    obtain r where r: "tb = t" "newest_order_of w d c t r" "s = [Whole (O_ID r), int_cell (O_CARRIER_ID r), Text (O_ENTRY_D r), Whole (O_OL_CNT r)]"
      using newest_by_proc [OF o'(1) [unfolded ta(1)]] by blast
    have k: "atoi k = O_ID r" using o'(2) r(2,3) e by (auto simp: newest_order_of_def ids_ok_def spi_text_ok_def)
    have rows: "tc = t" "rows = map (\<lambda>l. [Whole (OL_I_ID l), Whole (OL_SUPPLY_W_ID l), Decimal (10 ^ 6 * OL_QUANTITY l), Decimal (OL_AMOUNT l),
       text_cell (OL_DELIVERY_D l)]) (lines_of w d (O_ID r) t)" using l(1) by (auto simp: r(1) k lines_of_def)
    have tuple: "map (spi_getvalue e [Whole (OL_I_ID l), Whole (OL_SUPPLY_W_ID l), Decimal (10 ^ 6 * OL_QUANTITY l), Decimal (OL_AMOUNT l),
         text_cell (OL_DELIVERY_D l)]) [1..5] @ [Some (fmt_d c), spi_getvalue e cr 1, spi_getvalue e cr 2,
        spi_getvalue e cr 3, spi_getvalue e cr 4, Some (fmt_d (atoi k)), spi_getvalue e s 2, spi_getvalue e s 3] = order_status_row e c cust r l" for l
      using spi_getvalue_upto [of e "[Whole (OL_I_ID l), Whole (OL_SUPPLY_W_ID l), Decimal (10 ^ 6 * OL_QUANTITY l), Decimal (OL_AMOUNT l),
         text_cell (OL_DELIVERY_D l)]"] e(2) by (simp add: order_status_row_def cust(3) r(3) k cell_value_def spi_text_ok_def)
    have "those (map (\<lambda>l. build_tuple e order_status_columns (order_status_row e c cust r l)) (lines_of w d (O_ID r) t)) = Some vss"
      using l(3) unfolding rows(2) map_map comp_def tuple .
    then show ?thesis unfolding proc_order_status_done_def
      using c cust r(2) rows l(2) by (intro conjI exI [of _ c] exI [of _ cust] exI [of _ r]) simp_all
  qed
  show ?thesis
    unfolding order_status_proc_def Let_def
    by (intro yields_intros yields_if yields_raise customer_yields [OF e disjI2 [OF refl]]; rule answer; assumption)
qed

text \<open>Stock-Level counts every item once.\<close>

definition low_items :: "int \<Rightarrow> int \<Rightarrow> int \<Rightarrow> tables \<Rightarrow> nat \<Rightarrow> bool" where
  "low_items w d threshold t n \<longleftrightarrow> (\<exists>r \<in> set (district_t t). in_district w d r \<and>
     n = low_items_count w d threshold (D_NEXT_O_ID r - 20) (D_NEXT_O_ID r - 1) t)"

lemma stock_level_proc_yields:
  assumes e: "ids_ok t" "spi_text_ok e"
  shows "yields t (stock_level_proc e w d threshold)
    (\<lambda>rows t1. t1 = t \<and> (\<exists>n. low_items w d threshold t n \<and> rows = [[Pg_int (atoi (fmt_d (int n)))]]))"
proof -
  have answer: "tb = t \<and> (\<exists>n. low_items w d threshold t n \<and> [[Pg_int (atoi v)]] = [[Pg_int (atoi (fmt_d (int n)))]])"
    if "run_pg (spi_decimal e) (spi_now e) (Pg_stock_level_1 w d) t = Inr (dr # ds, ta)" "spi_getvalue e dr 1 = Some k"
      "run_pg (spi_decimal e) (spi_now e) (Pg_stock_level_2 w d threshold (atoi k - 20) (atoi k - 1)) ta = Inr (s # ss, tb)" "spi_getvalue e s 1 = Some v"
    for dr ds ta k s ss tb v
  proof -
    have D: "ta = t" "map (\<lambda>r. [Whole (D_NEXT_O_ID r)]) (filter (in_district w d) (district_t t)) = dr # ds" using that(1) by auto
    from first_row [OF D(2)] obtain r where r: "r \<in> set (district_t t)" "in_district w d r" "dr = [Whole (D_NEXT_O_ID r)]" by auto
    have "atoi k = D_NEXT_O_ID r" using that(2) r e by (auto simp: ids_ok_def spi_text_ok_def)
    then have s: "s = [Whole (int (low_items_count w d threshold (D_NEXT_O_ID r - 20) (D_NEXT_O_ID r - 1) t))]" "tb = t"
      using that(3) D(1) by auto
    then have "v = fmt_d (int (low_items_count w d threshold (D_NEXT_O_ID r - 20) (D_NEXT_O_ID r - 1) t))"
      using that(4) e(2) by (simp add: spi_text_ok_def)
    moreover have "low_items w d threshold t (low_items_count w d threshold (D_NEXT_O_ID r - 20) (D_NEXT_O_ID r - 1) t)"
      using r(1,2) by (auto simp: low_items_def)
    ultimately show ?thesis using s(2) by blast
  qed
  show ?thesis
    unfolding stock_level_proc_def Let_def by (intro yields_intros; rule answer; assumption)
qed

end
