(* ===== verification/Db_Libpq.thy ===== *)
theory Db_Libpq
  imports Libpq Pg_Effects Db_Sqlite
begin

text \<open>
  The database context of PostgreSQL satisfies the interface of \<open>Db\<close>, if no acknowledgement of a
  \<open>COMMIT\<close> gets lost and the server refuses no \<open>ROLLBACK\<close>: then a transaction is executed once or leaves
  no trace, as with SQLite.
\<close>

section \<open>States of a connection\<close>

definition acknowledged :: "pg_env \<Rightarrow> bool" where
  "acknowledged e \<longleftrightarrow> (\<forall>n. commit_fate e n \<noteq> Lost_after) \<and> (\<forall>n. rollback_fate e n \<noteq> Refused)"

definition pg_wf :: "pg_conn \<Rightarrow> bool" where
  "pg_wf c \<longleftrightarrow> (pg_aborted c \<longrightarrow> pg_block c \<noteq> None) \<and> (pg_link c \<noteq> Connected \<longrightarrow> pg_block c = None)"

text \<open>What a \<open>COMMIT\<close> would make permanent.\<close>

definition pg_target :: "pg_conn \<Rightarrow> tables" where
  "pg_target c = (if pg_aborted c then pg_committed c else pg_view c)"

definition pg_working :: "pg_env \<Rightarrow> pg_conn \<Rightarrow> tables \<Rightarrow> bool" where
  "pg_working e c t \<longleftrightarrow> acknowledged e \<and> pg_wf c \<and> t = pg_target c"

definition pg_idle :: "pg_env \<Rightarrow> pg_conn \<Rightarrow> bool" where
  "pg_idle e c \<longleftrightarrow> acknowledged e \<and> pg_wf c \<and> pg_block c = None"

lemmas pg_state_defs = pg_working_def pg_idle_def pg_wf_def pg_target_def pg_view_def end_block_def lose_def abort_block_def commit_block_def

lemma run_command:
  "run_state (pq_command fates ex err refuse after) c =
     (if pg_link c \<noteq> Connected then (err No_connection, c)
      else case fates (pg_calls c) of
          Fine \<Rightarrow> ex (c\<lparr>pg_calls := pg_calls c + 1\<rparr>)
        | Refused \<Rightarrow> (err (Server ''XX000''), refuse (c\<lparr>pg_calls := pg_calls c + 1\<rparr>))
        | Lost_before \<Rightarrow> (err Connection_lost, lose (c\<lparr>pg_calls := pg_calls c + 1\<rparr>))
        | Lost_after \<Rightarrow> (err Connection_lost, lose (after (c\<lparr>pg_calls := pg_calls c + 1\<rparr>))))"
  by (simp add: pq_command_def Let_def split: fate.split)

lemma begin_law:
  assumes "pg_idle e c" "run_state (pq_begin e) c = (err, c1)"
  shows "pg_committed c1 = pg_committed c \<and> pg_wf c1 \<and>
    (if err = None then pg_block c1 = Some (pg_committed c) \<and> \<not> pg_aborted c1 else pg_block c1 = None)"
  using assms by (auto simp: pq_begin_def run_command pg_state_defs split: if_splits fate.splits)

lemma call_law:
  assumes "pg_wf c" "pg_block c = Some t" "\<not> pg_aborted c" "run_state (pq_call e f) c = (r, c1)"
    and "\<And>g now. yields t (f ((pg_types e)\<lparr>spi_fails := g, spi_now := now\<rparr>)) (Q now)"
  shows "pg_committed c1 = pg_committed c \<and> pg_wf c1 \<and> (\<forall>rows. r = Inr rows \<longrightarrow> (\<exists>now. Q now rows (pg_target c1)))"
proof -
  have link: "pg_link c = Connected" using assms(1,2) by (auto simp: pg_wf_def)
  define c2 where "c2 = c\<lparr>pg_calls := pg_calls c + 1\<rparr>"
  obtain x b where run: "run_state (f (call_env e c2)) \<lparr>work = t, planned = pg_plans c, spi_calls = 0\<rparr> = (x, b)"
    by (cases "run_state (f (call_env e c2)) \<lparr>work = t, planned = pg_plans c, spi_calls = 0\<rparr>")
  have view: "pg_view c2 = t" "pg_block c2 = Some t" "\<not> pg_aborted c2" "pg_committed c2 = pg_committed c" "pg_plans c2 = pg_plans c"
    "pg_link c2 = Connected"
    using assms(2,3) link by (simp_all add: c2_def pg_view_def)
  have Q: "Q (pg_started c2) rows (work b)" if "x = Inr rows" for rows
    using proc_yieldsD [OF assms(5) run [unfolded call_env_def that]] by simp
  have procedure: "run_procedure e f c2 = (case (x, b) of
      (Inr rows, b) \<Rightarrow> (Inr rows, c2\<lparr>pg_block := Some (work b), pg_plans := planned b\<rparr>)
    | (Inl (Raised sqlstate), b) \<Rightarrow> (Inl (Server sqlstate), abort_block (c2\<lparr>pg_plans := planned b\<rparr>))
    | (Inl Segfault, b) \<Rightarrow> (Inl Connection_lost, lose c2))"
    using run view by (simp add: run_procedure_def)
  have "(r, c1) = (case call_fate e (pg_calls c) of
      Fine \<Rightarrow> run_procedure e f c2 | Refused \<Rightarrow> (Inl (Server ''XX000''), abort_block c2)
    | Lost_before \<Rightarrow> (Inl Connection_lost, lose c2) | Lost_after \<Rightarrow> (Inl Connection_lost, lose (id c2)))"
    unfolding assms(4) [symmetric] pq_call_def run_command c2_def [symmetric] using link by simp
  then show ?thesis
    using view Q unfolding procedure
    by (cases "call_fate e (pg_calls c)") (auto simp: pg_state_defs split: sum.splits pg_error.splits)
qed

lemma begin_and_call_law:
  assumes "pg_idle e c" "run_state (begin_and_call e f) c = (r, c1)"
    and "\<And>g now. yields (pg_committed c) (f ((pg_types e)\<lparr>spi_fails := g, spi_now := now\<rparr>)) (Q now)"
  shows "pg_committed c1 = pg_committed c \<and> pg_wf c1 \<and> (\<forall>rows. r = Inr rows \<longrightarrow> (\<exists>now. Q now rows (pg_target c1)))"
proof -
  obtain err c2 where B: "run_state (pq_begin e) c = (err, c2)" by (cases "run_state (pq_begin e) c")
  note b = begin_law [OF assms(1) B]
  show ?thesis
  proof (cases err)
    case None
    then have "run_state (pq_call e f) c2 = (r, c1)" using assms(2) B by (simp add: begin_and_call_def run_bind)
    from call_law [OF _ _ _ this assms(3)] b None show ?thesis by simp
  next
    case (Some x)
    then have "r = Inl x" "c1 = c2" using assms(2) B by (auto simp: begin_and_call_def run_bind State_Monad.return_def)
    then show ?thesis using b by simp
  qed
qed

section \<open>The laws of the interface\<close>

lemma pg_commit_law:
  assumes "pg_working e c t" "run_state (commit_transaction_libpq e) c = (st, c1)"
  shows "if st = OK then pg_committed c1 = t \<and> pg_idle e c1 else pg_committed c1 = pg_committed c \<and> (\<exists>t1. pg_working e c1 t1)"
  using assms
  by (cases "pg_block c") (auto simp: commit_transaction_libpq_def connection_bad_def pq_commit_def run_command run_bind State_Monad.return_def
      pg_state_defs acknowledged_def OK_def ERROR_def RECONNECT_def split: if_splits fate.splits)

lemma pg_rollback_law:
  assumes "pg_working e c t" "run_state (rollback_transaction_libpq e) c = (st, c1)"
  shows "st \<noteq> OK \<and> pg_committed c1 = pg_committed c \<and> (if st = STATUS_ROLLBACK then pg_idle e c1 else \<exists>t1. pg_working e c1 t1)"
  using assms
  by (auto simp: rollback_transaction_libpq_def connection_bad_def pq_rollback_def run_command run_bind State_Monad.return_def
      pg_state_defs acknowledged_def OK_def STATUS_ROLLBACK_def RECONNECT_def split: if_splits fate.splits)

lemma pg_disconnect_law:
  assumes "pg_working e c t" "run_state disconnect_from_db_libpq c = (st, c1)"
  shows "pg_committed c1 = pg_committed c \<and> pg_idle e c1"
  using assms by (auto simp: disconnect_from_db_libpq_def pg_state_defs)

lemma pg_connect_law:
  assumes "pg_idle e c" "run_state (connect_to_db_libpq e) c = (st, c1)"
  shows "pg_committed c1 = pg_committed c \<and> pg_idle e c1"
  using assms by (auto simp: connect_to_db_libpq_def pg_state_defs Let_def split: if_splits)

section \<open>The transactions\<close>

text \<open>The types: texts of values, and printed numbers are read back.\<close>

definition types_ok :: "spi_env \<Rightarrow> bool" where
  "types_ok se \<longleftrightarrow> spi_text_ok se \<and> (\<forall>n. int32 n \<longrightarrow> int4_in se (fmt_d n) = Some n)"

definition order_in_range :: "new_order_t \<Rightarrow> bool" where
  "order_in_range d \<longleftrightarrow> (\<forall>l \<in> set (no_order_line d). int32 (ol_i_id l) \<and> int32 (ol_supply_w_id l) \<and> int32 (ol_quantity l))"

definition pg_request_ok :: "pg_env \<Rightarrow> transaction_union \<Rightarrow> tables \<Rightarrow> bool" where
  "pg_request_ok e td t \<longleftrightarrow> types_ok (pg_types e) \<and> consistent t \<and> ids_ok t \<and> order_in_range (fst (un_new_order td))"

text \<open>What a transaction does to the tables, at the time \<open>now\<close>.\<close>

definition pg_transaction_done :: "spi_env \<Rightarrow> int \<Rightarrow> transaction_union \<Rightarrow> tables \<Rightarrow> tables \<Rightarrow> bool" where
  "pg_transaction_done se tr td t t1 \<longleftrightarrow> (\<exists>now.
     if tr = NEW_ORDER then (let d = set_all_local (fst (un_new_order td)) in
       nat (no_o_ol_cnt d) \<le> length (no_order_line d) \<and> proc_new_order_done (se\<lparr>spi_now := now\<rparr>) d t t1)
     else if tr = PAYMENT then proc_payment_done (se\<lparr>spi_now := now\<rparr>) (fst (un_payment td)) t t1
     else if tr = DELIVERY then all_delivered (dl_w_id (un_delivery td)) (dl_o_carrier_id (un_delivery td)) [1..10] t t1
     else t1 = t)"

lemma fails_irrelevant [simp]:
  "spi_text_ok (se\<lparr>spi_fails := g, spi_now := now\<rparr>) = spi_text_ok se"
  "spi_getvalue (se\<lparr>spi_fails := g\<rparr>) = spi_getvalue se"
  "spi_getvalue (se\<lparr>spi_now := now\<rparr>) = spi_getvalue se"
  "build_tuple (se\<lparr>spi_fails := g, spi_now := now\<rparr>) = build_tuple se"
  by (auto simp: spi_text_ok_def spi_getvalue_def build_tuple_def type_in_def fun_eq_iff Let_def cong: option.case_cong pg_type.case_cong)

lemma new_order_fails [simp]:
  "proc_new_order_done (se\<lparr>spi_fails := g, spi_now := now\<rparr>) = proc_new_order_done (se\<lparr>spi_now := now\<rparr>)"
proof -
  have "proc_lines_done (se\<lparr>spi_fails := g, spi_now := now\<rparr>) w d k i ols t t1 = proc_lines_done (se\<lparr>spi_now := now\<rparr>) w d k i ols t t1"
    for w d k i ols t t1
    by (induction ols arbitrary: i t) (simp_all add: proc_line_done_def)
  then show ?thesis by (simp add: proc_new_order_done_def fun_eq_iff)
qed

lemma payment_fails [simp]:
  "proc_payment_done (se\<lparr>spi_fails := g, spi_now := now\<rparr>) = proc_payment_done (se\<lparr>spi_now := now\<rparr>)"
  by (simp add: proc_payment_done_def fun_eq_iff)

lemma those_Some: "those xs = Some ys \<longleftrightarrow> xs = map Some ys"
proof (induction xs arbitrary: ys)
  case (Cons x xs)
  show ?case by (cases x; cases ys) (auto simp: Cons map_option_eq_Some)
qed auto

text \<open>The client writes the lines of the order over those that it sent; they are the same.\<close>

lemma answer_line:
  assumes ty: "types_ok se" and l: "int32 (ol_i_id ol)" "int32 (ol_supply_w_id ol)" "int32 (ol_quantity ol)" "result_of ol r"
    and row: "build_tuple se new_order_columns (new_order_values res r) = Some row"
  shows "line_from_row row = ol"
proof -
  have t: "map (\<lambda>(ty, v). type_in se ty v) (zip new_order_columns (new_order_values res r)) = map Some row"
    using row by (simp add: build_tuple_def those_Some)
  have i: "int4_in se (fmt_d n) = Some n" if "int32 n" for n using ty that by (simp add: types_ok_def)
  have "row ! 0 = Pg_int (ol_supply_w_id ol)" "row ! 1 = Pg_int (ol_i_id ol)" "row ! 3 = Pg_int (ol_quantity ol)"
    using t l(4) i [OF l(1)] i [OF l(2)] i [OF l(3)]
    by (auto simp: new_order_columns_def new_order_values_def type_in_def result_of_def map_eq_Cons_conv Cons_eq_map_conv)
  then show ?thesis by (simp add: line_from_row_def libpq_get_int32_def)
qed

lemma answer_lines:
  assumes ty: "types_ok se" and range: "order_in_range d" and cnt: "no_o_ol_cnt d \<le> 15" "nat (no_o_ol_cnt d) \<le> length (no_order_line d)"
    and rows: "order_rows se d rows"
  shows "fst (new_order_answer rows d out) = d"
proof -
  obtain res rs where rs: "map (build_tuple se new_order_columns) (map (new_order_values res) rs) = map Some rows"
    "list_all2 result_of (take (nat (no_o_ol_cnt d)) (no_order_line d)) rs"
    using rows by (auto simp: order_rows_def those_Some)
  define n where "n = nat (no_o_ol_cnt d)"
  have len: "length rows = n" "length rs = n"
    using arg_cong [OF rs(1), of length] list_all2_lengthD [OF rs(2)] cnt(2) by (simp_all add: n_def)
  have "map line_from_row rows = take n (no_order_line d)"
  proof (rule nth_equalityI)
    show "length (map line_from_row rows) = length (take n (no_order_line d))" using len cnt(2) by (simp add: n_def)
    fix i assume "i < length (map line_from_row rows)"
    then have i: "i < n" using len by simp
    have mem: "no_order_line d ! i \<in> set (no_order_line d)" using i cnt(2) by (simp add: n_def)
    have "result_of (no_order_line d ! i) (rs ! i)" using list_all2_nthD2 [OF rs(2), of i] i len by (simp add: n_def)
    moreover have "build_tuple se new_order_columns (new_order_values res (rs ! i)) = Some (rows ! i)"
      using arg_cong [OF rs(1), of "\<lambda>l. l ! i"] i len by simp
    ultimately have "line_from_row (rows ! i) = no_order_line d ! i"
      using answer_line [OF ty] range mem by (auto simp: order_in_range_def)
    then show "map line_from_row rows ! i = take n (no_order_line d) ! i" using i len by simp
  qed
  moreover have "take 15 rows = rows" using len cnt(1) by (simp add: n_def)
  moreover have "length rows = n" by (rule len)
  ultimately have "map line_from_row (take 15 rows) @ drop (length (take 15 rows)) (no_order_line d) = no_order_line d" by simp
  then show ?thesis by (simp add: new_order_answer_def Let_def)
qed

lemma new_order_libpq:
  assumes c: "pg_idle e c" and ty: "types_ok (pg_types e)" and ids: "ids_ok (pg_committed c)" and range: "order_in_range d"
    and run: "run_state (execute_new_order_libpq e (d, out)) c = ((rc, d1, out1), c1)"
  shows "pg_committed c1 = pg_committed c \<and> pg_wf c1 \<and> d1 = d \<and> (rc = Some OK \<longrightarrow> nat (no_o_ol_cnt d) \<le> length (no_order_line d) \<and>
    (\<exists>now. proc_new_order_done ((pg_types e)\<lparr>spi_now := now\<rparr>) d (pg_committed c) (pg_target c1)))"
proof -
  obtain err c2 where B: "run_state (pq_begin e) c = (err, c2)" by (cases "run_state (pq_begin e) c")
  note b = begin_law [OF c B]
  consider (early) "rc \<noteq> Some OK" "d1 = d" "c1 = c2"
    | (call) r where "err = None" "\<not> no_o_ol_cnt d < - 1" "no_o_ol_cnt d \<le> 15" "nat (no_o_ol_cnt d) \<le> length (no_order_line d)"
      "run_state (pq_call e (call_new_order d)) c2 = (r, c1)"
      "case r of Inr rows \<Rightarrow> (rc, d1, out1) = (Some OK, new_order_answer rows d out) | Inl _ \<Rightarrow> rc \<noteq> Some OK \<and> d1 = d"
    using run B
    by (cases err; cases "run_state (pq_call e (call_new_order d)) c2")
      (auto simp: execute_new_order_libpq_def run_bind State_Monad.return_def error_status_def OK_def ERROR_def RECONNECT_def
        split: if_splits sum.splits)
  then show ?thesis
  proof cases
    case early
    then show ?thesis using b by (cases err) auto
  next
    case call
    have blk: "pg_wf c2" "pg_block c2 = Some (pg_committed c)" "\<not> pg_aborted c2" using b call(1) by simp_all
    have texts: "spi_text_ok ((pg_types e)\<lparr>spi_fails := g, spi_now := now\<rparr>)" for g now using ty by (simp add: types_ok_def)
    have "yields (pg_committed c) (call_new_order d ((pg_types e)\<lparr>spi_fails := g, spi_now := now\<rparr>))
        (\<lambda>rows t1. proc_new_order_done ((pg_types e)\<lparr>spi_now := now\<rparr>) d (pg_committed c) t1 \<and> order_rows (pg_types e) d rows)" for g now
    proof (cases "no_o_ol_cnt d < 0")
      case True
      then show ?thesis by (simp add: call_new_order_def Let_def new_order_proc_def)
    next
      case False
      then show ?thesis using new_order_proc_yields [OF ids texts, where data = d] by (simp add: call_new_order_def order_rows_def)
    qed
    note l = call_law [OF blk call(5) this]
    have "d1 = d \<and> (rc = Some OK \<longrightarrow> (\<exists>now. proc_new_order_done ((pg_types e)\<lparr>spi_now := now\<rparr>) d (pg_committed c) (pg_target c1)))"
    proof (cases r)
      case (Inr rows)
      then have "d1 = fst (new_order_answer rows d out)" "order_rows (pg_types e) d rows" using call(6) l by (auto simp: prod_eq_iff)
      then show ?thesis using answer_lines [OF ty range call(3,4)] Inr l by auto
    qed (use call(6) in auto)
    then show ?thesis using l b call(4) by simp
  qed
qed

lemma delivery_libpq:
  assumes c: "pg_idle e c" and ty: "types_ok (pg_types e)" and ids: "ids_ok (pg_committed c)"
    and run: "run_state (execute_delivery_libpq e d) c = (rc, c1)"
  shows "pg_committed c1 = pg_committed c \<and> pg_wf c1 \<and>
    (rc = OK \<longrightarrow> all_delivered (dl_w_id d) (dl_o_carrier_id d) [1..10] (pg_committed c) (pg_target c1))"
proof -
  define f where "f = (\<lambda>se. delivery_proc se (dl_w_id d) (dl_o_carrier_id d))"
  obtain r where R: "run_state (begin_and_call e f) c = (r, c1)" "rc = (case r of Inl err \<Rightarrow> error_status err | Inr _ \<Rightarrow> OK)"
    using run by (cases "run_state (begin_and_call e f) c") (auto simp: execute_delivery_libpq_def f_def run_bind State_Monad.return_def)
  have "yields (pg_committed c) (f ((pg_types e)\<lparr>spi_fails := g, spi_now := now\<rparr>))
      (\<lambda>rows t1. all_delivered (dl_w_id d) (dl_o_carrier_id d) [1..10] (pg_committed c) t1)" for g now
    unfolding f_def by (rule delivery_proc_yields [OF ids]) (use ty in \<open>simp add: types_ok_def\<close>)
  from begin_and_call_law [OF c R(1) this] R(2) show ?thesis
    by (cases r) (auto simp: error_status_def OK_def ERROR_def RECONNECT_def)
qed

lemma payment_libpq:
  assumes c: "pg_idle e c" and ty: "types_ok (pg_types e)" and ids: "ids_ok (pg_committed c)"
    and run: "run_state (execute_payment_libpq e (d, out)) c = ((rc, d1, out1), c1)"
  shows "pg_committed c1 = pg_committed c \<and> pg_wf c1 \<and> d1\<lparr>py_c_id := 0, py_c_last := []\<rparr> = d\<lparr>py_c_id := 0, py_c_last := []\<rparr> \<and>
    (rc = Some OK \<longrightarrow> (\<exists>now. proc_payment_done ((pg_types e)\<lparr>spi_now := now\<rparr>) d (pg_committed c) (pg_target c1)))"
proof -
  define f where "f = (\<lambda>se. payment_proc se (py_w_id d) (py_d_id d) (py_c_id d) (py_c_w_id d) (py_c_d_id d)
       (wcstombs 68 (py_c_last d)) (fl32 (py_h_amount d)))"
  obtain r where R: "run_state (begin_and_call e f) c = (r, c1)"
    "case r of Inl err \<Rightarrow> rc = Some (error_status err) \<and> d1 = d | Inr _ \<Rightarrow> \<exists>i l. d1 = d\<lparr>py_c_id := i, py_c_last := l\<rparr>"
    using run by (cases "run_state (begin_and_call e f) c")
      (auto simp: execute_payment_libpq_def f_def [symmetric] run_bind State_Monad.return_def Let_def split: sum.splits)
  have "yields (pg_committed c) (f ((pg_types e)\<lparr>spi_fails := g, spi_now := now\<rparr>))
      (\<lambda>rows t1. proc_payment_done ((pg_types e)\<lparr>spi_now := now\<rparr>) d (pg_committed c) t1)" for g now
  proof -
    have "spi_text_ok ((pg_types e)\<lparr>spi_fails := g, spi_now := now\<rparr>)" using ty by (simp add: types_ok_def)
    from payment_proc_yields [OF ids this, where data = d] show ?thesis by (simp add: f_def)
  qed
  from begin_and_call_law [OF c R(1) this] R(2) show ?thesis
    by (cases r) (auto simp: error_status_def OK_def ERROR_def RECONNECT_def)
qed

lemma order_status_libpq:
  assumes c: "pg_idle e c" and ty: "types_ok (pg_types e)" and ids: "ids_ok (pg_committed c)"
    and run: "run_state (execute_order_status_libpq e (d, out)) c = ((rc, d1, out1), c1)"
  shows "pg_committed c1 = pg_committed c \<and> pg_wf c1 \<and> (rc = Some OK \<longrightarrow> pg_target c1 = pg_committed c \<and>
    (\<exists>rows. proc_order_status_done (pg_types e) (os_c_id d) (os_c_w_id d) (os_c_d_id d) (wcstombs 68 (os_c_last d)) (pg_committed c) rows \<and>
       out1 = order_status_from_rows rows (out\<lparr>ou_c_id := os_c_id d, ou_c_last := os_c_last d\<rparr>)))"
proof -
  define f where "f = (\<lambda>se. order_status_proc se (os_c_id d) (os_c_w_id d) (os_c_d_id d) (wcstombs 68 (os_c_last d)))"
  obtain r where R: "run_state (begin_and_call e f) c = (r, c1)"
    "case r of Inl err \<Rightarrow> rc = Some (error_status err)
      | Inr rows \<Rightarrow> out1 = order_status_from_rows rows (out\<lparr>ou_c_id := os_c_id d, ou_c_last := os_c_last d\<rparr>)"
    using run by (cases "run_state (begin_and_call e f) c")
      (auto simp: execute_order_status_libpq_def f_def [symmetric] run_bind State_Monad.return_def Let_def split: sum.splits)
  have "yields (pg_committed c) (f ((pg_types e)\<lparr>spi_fails := g, spi_now := now\<rparr>)) (\<lambda>rows t1. t1 = pg_committed c \<and>
      proc_order_status_done (pg_types e) (os_c_id d) (os_c_w_id d) (os_c_d_id d) (wcstombs 68 (os_c_last d)) (pg_committed c) rows)" for g now
  proof -
    have "spi_text_ok ((pg_types e)\<lparr>spi_fails := g, spi_now := now\<rparr>)" using ty by (simp add: types_ok_def)
    from order_status_proc_yields [OF ids this] show ?thesis
      by (simp add: f_def proc_order_status_done_def order_status_row_def cell_value_def cong: if_cong)
  qed
  from begin_and_call_law [OF c R(1) this] R(2) show ?thesis
    by (cases r) (auto simp: error_status_def OK_def ERROR_def RECONNECT_def)
qed

lemma stock_level_libpq:
  assumes c: "pg_idle e c" and ty: "types_ok (pg_types e)" and ids: "ids_ok (pg_committed c)"
    and run: "run_state (execute_stock_level_libpq e (d, l)) c = ((rc, n), c1)"
  shows "pg_committed c1 = pg_committed c \<and> pg_wf c1 \<and> (rc = Some OK \<longrightarrow> pg_target c1 = pg_committed c \<and>
    (\<exists>k. low_items (sl_w_id d) (sl_d_id d) (sl_threshold d) (pg_committed c) k \<and> n = atoi (fmt_d (int k))))"
proof -
  define f where "f = (\<lambda>se. stock_level_proc se (sl_w_id d) (sl_d_id d) (sl_threshold d))"
  obtain r where R: "run_state (begin_and_call e f) c = (r, c1)"
    "case r of Inl err \<Rightarrow> rc = Some (error_status err) | Inr rows \<Rightarrow> n = (case rows of [] \<Rightarrow> l | row # _ \<Rightarrow> libpq_get_int32 row 0)"
    using run by (cases "run_state (begin_and_call e f) c")
      (auto simp: execute_stock_level_libpq_def f_def [symmetric] run_bind State_Monad.return_def split: sum.splits list.splits)
  have "yields (pg_committed c) (f ((pg_types e)\<lparr>spi_fails := g, spi_now := now\<rparr>)) (\<lambda>rows t1. t1 = pg_committed c \<and>
      (\<exists>k. low_items (sl_w_id d) (sl_d_id d) (sl_threshold d) (pg_committed c) k \<and> rows = [[Pg_int (atoi (fmt_d (int k)))]]))" for g now
    unfolding f_def by (rule stock_level_proc_yields [OF ids]) (use ty in \<open>simp add: types_ok_def\<close>)
  from begin_and_call_law [OF c R(1) this] R(2) show ?thesis
    by (cases r) (auto simp: error_status_def OK_def ERROR_def RECONNECT_def libpq_get_int32_def)
qed

section \<open>The interface\<close>

lemma pg_execute_law:
  assumes c: "pg_idle e c" and ok: "pg_request_ok e td (pg_committed c)"
    and run: "run_state (execute_transaction (db_init_libpq e stop) tr td) c = (Inl (rc, td1), c1)"
  shows "pg_committed c1 = pg_committed c \<and> same_request td td1 \<and> pg_request_ok e td1 (pg_committed c) \<and>
    (\<exists>t. pg_working e c1 t \<and> (rc = Some OK \<longrightarrow> pg_transaction_done (pg_types e) tr td (pg_committed c) t))"
proof -
  have k: "types_ok (pg_types e)" "ids_ok (pg_committed c)" "order_in_range (fst (un_new_order td))" "acknowledged e"
    using ok c by (simp_all add: pg_request_ok_def pg_idle_def)
  have "pg_committed c1 = pg_committed c \<and> pg_wf c1 \<and> same_request td td1 \<and> order_in_range (fst (un_new_order td1)) \<and>
      (rc = Some OK \<longrightarrow> pg_transaction_done (pg_types e) tr td (pg_committed c) (pg_target c1))"
  proof -
    consider "tr = INTEGRITY" | "tr = DELIVERY" | "tr = NEW_ORDER" | "tr = ORDER_STATUS" | "tr = PAYMENT" | "tr = STOCK_LEVEL"
      | "tr \<notin> {INTEGRITY, DELIVERY, NEW_ORDER, ORDER_STATUS, PAYMENT, STOCK_LEVEL}" by blast
    then show ?thesis
    proof cases
      case 1
      then show ?thesis using run c k(3)
        by (auto simp: execute_transaction_def db_init_libpq_def some_rc_def execute_integrity_libpq_def run_bind State_Monad.return_def
            same_request_def pg_transaction_done_def pg_state_defs)
    next
      case 2
      obtain r c2 where R: "run_state (execute_delivery_libpq e (un_delivery td)) c = (r, c2)"
        by (cases "run_state (execute_delivery_libpq e (un_delivery td)) c")
      then have "rc = Some r" "td1 = td" "c1 = c2" using run 2
        by (simp_all add: execute_transaction_def db_init_libpq_def some_rc_def run_bind State_Monad.return_def)
      then show ?thesis using delivery_libpq [OF c k(1,2) R] k(3) 2 by (simp add: same_request_def pg_transaction_done_def)
    next
      case 3
      define d where "d = set_all_local (fst (un_new_order td))"
      have range: "order_in_range d" using k(3) by (simp add: d_def order_in_range_def set_all_local_def)
      obtain r d1 o1 c2 where R: "run_state (execute_new_order_libpq e (d, snd (un_new_order td))) c = ((r, d1, o1), c2)"
        by (cases "run_state (execute_new_order_libpq e (d, snd (un_new_order td))) c") auto
      note n = new_order_libpq [OF c k(1,2) range R]
      have "c1 = c2" "rc = Some OK \<longrightarrow> r = Some OK" "\<exists>o2. td1 = td\<lparr>un_new_order := (d1, o2)\<rparr>" using run 3 R
        by (auto simp: execute_transaction_def db_init_libpq_def run_bind State_Monad.return_def d_def [symmetric] Let_def OK_def ERROR_def
            split: option.splits if_splits)
      then show ?thesis using n 3 range
        by (auto simp: same_request_def pg_transaction_done_def d_def Let_def)
    next
      case 4
      obtain r d1 o1 c2 where R: "run_state (execute_order_status_libpq e (fst (un_order_status td), snd (un_order_status td))) c = ((r, d1, o1), c2)"
        by (cases "run_state (execute_order_status_libpq e (fst (un_order_status td), snd (un_order_status td))) c") auto
      then have "rc = r" "td1 = td\<lparr>un_order_status := (d1, o1)\<rparr>" "c1 = c2" using run 4
        by (auto simp: execute_transaction_def db_init_libpq_def run_bind State_Monad.return_def)
      then show ?thesis using order_status_libpq [OF c k(1,2) R] k(3) 4 by (auto simp: same_request_def pg_transaction_done_def)
    next
      case 5
      obtain r d1 o1 c2 where R: "run_state (execute_payment_libpq e (fst (un_payment td), snd (un_payment td))) c = ((r, d1, o1), c2)"
        by (cases "run_state (execute_payment_libpq e (fst (un_payment td), snd (un_payment td))) c") auto
      then have "rc = r" "td1 = td\<lparr>un_payment := (d1, o1)\<rparr>" "c1 = c2" using run 5
        by (auto simp: execute_transaction_def db_init_libpq_def run_bind State_Monad.return_def)
      then show ?thesis using payment_libpq [OF c k(1,2) R] k(3) 5 by (auto simp: same_request_def pg_transaction_done_def)
    next
      case 6
      obtain r n c2 where R: "run_state (execute_stock_level_libpq e (fst (un_stock_level td), snd (un_stock_level td))) c = ((r, n), c2)"
        by (cases "run_state (execute_stock_level_libpq e (fst (un_stock_level td), snd (un_stock_level td))) c") auto
      then have "rc = r" "td1 = td\<lparr>un_stock_level := (fst (un_stock_level td), n)\<rparr>" "c1 = c2" using run 6
        by (auto simp: execute_transaction_def db_init_libpq_def run_bind State_Monad.return_def)
      then show ?thesis using stock_level_libpq [OF c k(1,2) R] k(3) 6 by (auto simp: same_request_def pg_transaction_done_def)
    next
      case 7
      then show ?thesis using run by (auto simp: execute_transaction_def State_Monad.return_def)
    qed
  qed
  then show ?thesis using k(1,2,4) ok by (auto simp: pg_working_def pg_request_ok_def)
qed

lemma pg_keeps_valid:
  assumes "pg_request_ok e td t" "pg_transaction_done (pg_types e) tr td t t1"
  shows "consistent t1 \<and> ids_ok t1"
proof -
  have c: "consistent t" "ids_ok t" using assms(1) by (simp_all add: pg_request_ok_def)
  show ?thesis
    using assms(2) proc_new_order_consistent [OF _ c(1)] proc_new_order_ids [OF _ c(2)] proc_payment_consistent [OF _ c(1)]
      proc_payment_ids [OF _ c(2)] deliveries_consistent [OF all_delivered_districts c(1)] all_delivered_ids [OF _ c(2)] c
    unfolding pg_transaction_done_def Let_def by (auto split: if_splits)
qed

lemma db_init_libpq_sel [simp]:
  "db_commit (db_init_libpq e stop) = commit_transaction_libpq e"
  "db_rollback (db_init_libpq e stop) = rollback_transaction_libpq e"
  "db_connect (db_init_libpq e stop) = connect_to_db_libpq e"
  "db_disconnect (db_init_libpq e stop) = disconnect_from_db_libpq"
  "read_time (db_init_libpq e stop) = read_pg_clock e"
  "nano_sleep (db_init_libpq e stop) = pg_sleep_once e"
  "stop_time (db_init_libpq e stop) = stop"
  by (simp_all add: db_init_libpq_def)

interpretation libpq: atomic_backend "db_init_libpq e stop" pg_committed "pg_idle e" "pg_working e" "pg_idle e"
  "pg_request_ok e" "pg_transaction_done (pg_types e)" same_request for e stop
proof (unfold_locales, goal_cases)
  case 1 then show ?case by (rule pg_execute_law)
next
  case (2 s t st s1) then show ?case using pg_commit_law [of e s t st s1] by simp
next
  case (3 s t st s1) then show ?case using pg_rollback_law [of e s t st s1] by simp
next
  case (4 s t st s1) then show ?case using pg_disconnect_law [of e s t st s1] by simp
next
  case (5 s st s1) then show ?case using pg_connect_law [of e s st s1] by simp
next
  case 6 then show ?case by (auto simp: read_pg_clock_def pg_state_defs)
next
  case 7 then show ?case by (auto simp: pg_sleep_once_def pg_state_defs)
next
  case (8 td d tr t td1) then show ?case using pg_keeps_valid [of e td d tr t] by (simp add: pg_request_ok_def)
next
  case 9 then show ?case by (auto simp: pg_state_defs)
next
  case 10 then show ?case by (simp add: same_request_def)
next
  case 11 then show ?case by (simp add: same_request_def)
qed

text \<open>From the call \<open>n\<close> on, the environment is settled.\<close>

definition pg_settled :: "pg_env \<Rightarrow> int \<Rightarrow> nat \<Rightarrow> bool" where
  "pg_settled e stop n \<longleftrightarrow> (\<forall>m \<ge> n. pg_sleeps e m \<and> (if stop = 0 then connects e m else pg_clock e m > stop))"

interpretation pg_waiting: settling_backend "db_init_libpq e stop" pg_calls "pg_settled e stop" for e stop
proof (unfold_locales, goal_cases)
  case 1 then show ?case by (auto simp: pg_sleep_once_def pg_settled_def)
next
  case 2 then show ?case by (auto simp: read_pg_clock_def pg_settled_def)
next
  case 3 then show ?case by (auto simp: connect_to_db_libpq_def pg_settled_def end_block_def Let_def split: if_splits)
next
  case 4 then show ?case by (auto simp: pg_settled_def)
qed

end
