(* ===== verification/Pg_Success.thy ===== *)
theory Pg_Success
  imports Db_Libpq
begin

text \<open>
  When nothing fails: an order for which everything is present is placed, and an order with an item
  that does not exist is rolled back.
\<close>

section \<open>Orders that can be placed\<close>

text \<open>The numbers that are printed for the client are in the range of a \<open>float4\<close>.\<close>

definition in_float_range :: "rat \<Rightarrow> bool" where
  "in_float_range x \<longleftrightarrow> \<bar>x\<bar> < 10 ^ 38"

definition item_present :: "spi_env \<Rightarrow> no_order_line_t \<Rightarrow> tables \<Rightarrow> bool" where
  "item_present se ol t \<longleftrightarrow> ol_i_id ol \<noteq> 0 \<and> (\<exists>r \<in> set (item_t t). I_ID r = ol_i_id ol) \<and>
     (\<forall>r \<in> set (item_t t). I_ID r = ol_i_id ol \<longrightarrow> I_NAME r \<noteq> None \<and> I_DATA r \<noteq> None \<and>
        in_float_range (fl32 (atof (spi_text se (Decimal (I_PRICE r))))) \<and> in_float_range (float_amount (spi_text se) (I_PRICE r) (ol_quantity ol)))"

definition stock_present :: "no_order_line_t \<Rightarrow> tables \<Rightarrow> bool" where
  "stock_present ol t \<longleftrightarrow> (\<exists>r \<in> set (stock_t t). is_stock (ol_supply_w_id ol) (ol_i_id ol) r) \<and>
     (\<forall>r \<in> set (stock_t t). is_stock (ol_supply_w_id ol) (ol_i_id ol) r \<longrightarrow>
        length (S_DIST r) = 10 \<and> None \<notin> set (S_DIST r) \<and> S_DATA r \<noteq> None)"

text \<open>The item of a line does not exist.\<close>

definition item_missing :: "no_order_line_t \<Rightarrow> tables \<Rightarrow> bool" where
  "item_missing ol t \<longleftrightarrow> ol_i_id ol = 0 \<or> (\<forall>r \<in> set (item_t t). I_ID r \<noteq> ol_i_id ol)"

text \<open>What is needed before the lines.\<close>

definition order_present :: "spi_env \<Rightarrow> new_order_t \<Rightarrow> tables \<Rightarrow> bool" where
  "order_present se d t \<longleftrightarrow> 1 \<le> no_o_ol_cnt d \<and> no_o_ol_cnt d \<le> 15 \<and> nat (no_o_ol_cnt d) \<le> length (no_order_line d) \<and>
     1 \<le> no_d_id d \<and> no_d_id d \<le> 10 \<and> order_in_range d \<and>
     (\<exists>r \<in> set (warehouse_t t). W_ID r = no_w_id d) \<and>
     (\<forall>r \<in> set (warehouse_t t). W_ID r = no_w_id d \<longrightarrow> in_float_range (fl32 (atof (spi_text se (Decimal (W_TAX r)))))) \<and>
     (\<exists>r \<in> set (district_t t). in_district (no_w_id d) (no_d_id d) r) \<and>
     (\<forall>r \<in> set (district_t t). in_district (no_w_id d) (no_d_id d) r \<longrightarrow> int32 (D_NEXT_O_ID r + 1) \<and>
        in_float_range (fl32 (atof (spi_text se (Decimal (D_TAX r)))))) \<and>
     (\<exists>r \<in> set (customer_t t). is_customer (no_w_id d) (no_d_id d) (no_c_id d) r) \<and>
     (\<forall>r \<in> set (customer_t t). is_customer (no_w_id d) (no_d_id d) (no_c_id d) r \<longrightarrow> C_LAST r \<noteq> None \<and> C_CREDIT r \<noteq> None \<and>
        in_float_range (fl32 (atof (spi_text se (Decimal (C_DISCOUNT r))))))"

definition types_total :: "spi_env \<Rightarrow> bool" where
  "types_total se \<longleftrightarrow> types_ok se \<and> (\<forall>p x. in_float_range x \<longrightarrow> float4_in se (fmt_f p x) \<noteq> None)"

section \<open>Lines\<close>

lemma int32_atoi: "int32 (atoi s)"
  by (simp add: atoi_def Let_def cast_int_def int32_def split_def)

lemma those_ex: "(\<forall>x \<in> set xs. x \<noteq> None) \<Longrightarrow> \<exists>ys. those xs = Some ys"
  by (induction xs) auto

lemma rows_present: "\<exists>r \<in> set rs. P r \<Longrightarrow> \<exists>x xs. filter P rs = x # xs \<and> x \<in> set rs \<and> P x"
  by (metis filter_eq_Cons_iff filter_empty_conv neq_Nil_conv in_set_conv_decomp)

definition small_result :: "no_line_result \<Rightarrow> bool" where
  "small_result r \<longleftrightarrow> in_float_range (rl_i_price r) \<and> in_float_range (rl_ol_amount r) \<and> int32 (rl_s_quantity r)"

text \<open>What a line that was placed leaves for the next one.\<close>

definition after_line :: "int \<Rightarrow> int \<Rightarrow> int \<Rightarrow> nat \<Rightarrow> tables \<Rightarrow> tables \<Rightarrow> bool" where
  "after_line w d k i t t1 \<longleftrightarrow> (\<exists>P f l. t1 = t\<lparr>stock_t := update_rows P f (stock_t t), order_line_t := order_line_t t @ [l]\<rparr> \<and>
     (\<forall>r. S_W_ID (f r) = S_W_ID r \<and> S_I_ID (f r) = S_I_ID r \<and> S_DIST (f r) = S_DIST r \<and> S_DATA (f r) = S_DATA r) \<and>
     OL_NUMBER l = int i + 1)"

lemma after_lineI:
  assumes "t1 = t\<lparr>stock_t := update_rows P f (stock_t t), order_line_t := order_line_t t @ [l]\<rparr>" "OL_NUMBER l = int i + 1"
    and "\<And>r. S_W_ID (f r) = S_W_ID r \<and> S_I_ID (f r) = S_I_ID r \<and> S_DIST (f r) = S_DIST r \<and> S_DATA (f r) = S_DATA r"
  shows "after_line w d k i t t1"
  using assms unfolding after_line_def by blast

lemma after_line_keeps:
  assumes "after_line w d k i t t1"
  shows "item_present se ol t1 = item_present se ol t" "stock_present ol t \<Longrightarrow> stock_present ol t1" "item_missing ol t1 = item_missing ol t"
    "(\<forall>r \<in> set (order_line_t t). is_line_of w d k r \<longrightarrow> OL_NUMBER r \<le> int i) \<Longrightarrow>
      \<forall>r \<in> set (order_line_t t1). is_line_of w d k r \<longrightarrow> OL_NUMBER r \<le> int (Suc i)"
proof -
  obtain P f l where t1: "t1 = t\<lparr>stock_t := update_rows P f (stock_t t), order_line_t := order_line_t t @ [l]\<rparr>"
    and f: "\<And>r. S_W_ID (f r) = S_W_ID r \<and> S_I_ID (f r) = S_I_ID r \<and> S_DIST (f r) = S_DIST r \<and> S_DATA (f r) = S_DATA r"
    and l: "OL_NUMBER l = int i + 1" using assms unfolding after_line_def by blast
  have s: "is_stock a b (f r) = is_stock a b r" for a b r using f by (simp add: is_stock_def)
  show "item_present se ol t1 = item_present se ol t" "item_missing ol t1 = item_missing ol t"
    by (simp_all add: t1 item_present_def item_missing_def)
  show "stock_present ol t1" if "stock_present ol t"
    using that f by (auto simp: t1 stock_present_def ex_update_rows s dest!: set_update_rows split: if_splits)
  show "\<forall>r \<in> set (order_line_t t1). is_line_of w d k r \<longrightarrow> OL_NUMBER r \<le> int (Suc i)"
    if "\<forall>r \<in> set (order_line_t t). is_line_of w d k r \<longrightarrow> OL_NUMBER r \<le> int i" using that l by (fastforce simp: t1)
qed

lemma ends_brand:
  assumes "i_data \<noteq> None" "s_data \<noteq> None" "\<And>b. ends t (k b) Q"
  shows "ends t (pg_brand i_data s_data k) Q"
  using assms by (auto simp: pg_brand_def intro!: ends_need)

lemma ends_line:
  assumes e: "\<And>n. \<not> spi_fails e n" and i: "item_present e ol t" and s: "stock_present ol t" and d: "1 \<le> d" "d \<le> 10"
    and fresh: "\<forall>r \<in> set (order_line_t t). is_line_of w d k r \<longrightarrow> OL_NUMBER r \<le> int i"
    and c: "\<And>r t1. after_line w d k i t t1 \<Longrightarrow> result_of ol r \<Longrightarrow> small_result r \<Longrightarrow> ends t1 (c r) Q"
  shows "ends t (proc_order_line e w d k i ol c) Q"
proof -
  obtain item irest where I: "filter (\<lambda>r. I_ID r = ol_i_id ol) (item_t t) = item # irest" "item \<in> set (item_t t)" "I_ID item = ol_i_id ol"
    using rows_present [of "item_t t" "\<lambda>r. I_ID r = ol_i_id ol"] i by (auto simp: item_present_def)
  obtain nm dt where nm: "I_NAME item = Some nm" "I_DATA item = Some dt" using i I(2,3) by (auto simp: item_present_def)
  obtain st srest where S: "filter (is_stock (ol_supply_w_id ol) (ol_i_id ol)) (stock_t t) = st # srest" "st \<in> set (stock_t t)"
    "is_stock (ol_supply_w_id ol) (ol_i_id ol) st" using rows_present [of "stock_t t" "is_stock (ol_supply_w_id ol) (ol_i_id ol)"] s by (auto simp: stock_present_def)
  have sd: "length (S_DIST st) = 10" "None \<notin> set (S_DIST st)" "S_DATA st \<noteq> None" using s S(2,3) by (auto simp: stock_present_def)
  have dist: "\<exists>info. spi_getvalue e (stock_cells st) (1 + d) = Some info"
  proof -
    have "nat (d - 1) < length (S_DIST st)" using d sd(1) by simp
    then have "S_DIST st ! nat (d - 1) \<noteq> None" using sd(2) nth_mem by metis
    moreover have "nat d - Suc 0 < 10" using d by linarith
    ultimately show ?thesis using d sd(1) by (simp add: stock_cells_def spi_getvalue_def Let_def nth_Cons' nth_append nat_diff_distrib)
  qed
  have data: "spi_getvalue e (stock_cells st) 12 \<noteq> None"
    using sd(1,3) by (simp add: stock_cells_def spi_getvalue_def Let_def nth_append)
  obtain info where info: "spi_getvalue e (stock_cells st) (1 + d) = Some info" using dist by blast
  have none: "\<not> list_ex (\<lambda>r. is_line_of w d k r \<and> OL_NUMBER r = int i + 1) (order_line_t t)"
    using fresh by (fastforce simp: list_ex_iff)
  note range = i [unfolded item_present_def]
  define cells where "cells = [Decimal (I_PRICE item), text_cell (I_NAME item), text_cell (I_DATA item)]"
  have g: "spi_getvalue e cells 1 = Some (spi_text e (Decimal (I_PRICE item)))" "spi_getvalue e cells 2 = Some (spi_text e (Text nm))"
    "spi_getvalue e cells 3 \<noteq> None" "spi_getvalue e (stock_cells st) 1 = Some (spi_text e (Decimal (10 ^ 6 * S_QUANTITY st)))"
    by (simp_all add: cells_def nm text_cell_def stock_cells_def)
  have items: "run_pg (spi_decimal e) (spi_now e) (Pg_new_order_7 (ol_i_id ol)) t =
      Inr (cells # map (\<lambda>r. [Decimal (I_PRICE r), text_cell (I_NAME r), text_cell (I_DATA r)]) irest, t)"
    by (simp add: I(1) cells_def)
  have stocks: "run_pg (spi_decimal e) (spi_now e) (Pg_new_order_8 (ol_i_id ol) (ol_supply_w_id ol)) t =
      Inr (stock_cells st # map stock_cells srest, t)" by (simp add: S(1))
  show ?thesis
    unfolding proc_order_line_def Let_def
    apply (rule ends_execute [OF e items])
    apply (subst if_not_P, simp add: range, unfold list.sel)
    apply (rule ends_need, rule g)
    apply (rule ends_need, rule g)
    apply (rule ends_row [OF e stocks])
    apply (rule ends_need, rule g)
    apply (rule ends_execute [OF e], rule run_pg.simps)
    apply (rule ends_need, rule info)
    apply (rule ends_execute [OF e], simp add: none)
    apply (rule ends_brand, rule g, rule data)
    apply (rule c)
    subgoal by (rule after_lineI, rule refl) simp_all
    subgoal by (simp add: result_of_def)
    subgoal using range I(2,3) by (simp add: small_result_def int32_atoi float_amount_def)
    done
qed

text \<open>A missing item ends the order with the error that asks for a rollback.\<close>

lemma ends_missing:
  assumes e: "\<And>n. \<not> spi_fails e n" and i: "item_missing ol t" and Q: "\<And>t1. Q (Inl (Raised ''DBT2R'')) t1"
  shows "ends t (proc_order_line e w d k i ol c) Q"
proof -
  have none: "ol_i_id ol = 0 \<or> map (\<lambda>r. [Decimal (I_PRICE r), text_cell (I_NAME r), text_cell (I_DATA r)])
      (filter (\<lambda>r. I_ID r = ol_i_id ol) (item_t t)) = []" using i by (auto simp: item_missing_def filter_empty_conv)
  show ?thesis
    unfolding proc_order_line_def Let_def
    by (rule ends_execute [OF e run_pg.simps(12)], subst if_P [OF none], rule ends_raise, rule Q)
qed

section \<open>All lines\<close>

definition lines_good :: "spi_env \<Rightarrow> no_order_line_t list \<Rightarrow> tables \<Rightarrow> bool" where
  "lines_good e ols t \<longleftrightarrow> (\<forall>ol \<in> set ols. item_present e ol t \<and> stock_present ol t)"

lemma lines_good_keep: "after_line w d k i t t1 \<Longrightarrow> lines_good e ols t \<Longrightarrow> lines_good e ols t1"
  by (simp add: lines_good_def after_line_keeps)

lemma ends_lines:
  assumes "\<And>n. \<not> spi_fails e n" "lines_good e ols t" "1 \<le> d" "d \<le> 10"
    and "\<forall>r \<in> set (order_line_t t). is_line_of w d k r \<longrightarrow> OL_NUMBER r \<le> int i"
    and "\<And>rs t1. list_all2 result_of ols rs \<Longrightarrow> \<forall>r \<in> set rs. small_result r \<Longrightarrow> ends t1 (c rs) Q"
  shows "ends t (proc_order_lines e w d k i ols c) Q"
  using assms(2,5,6)
proof (induction ols arbitrary: i t c)
  case (Cons ol ols)
  show ?case unfolding proc_order_lines.simps
  proof (rule ends_line [OF assms(1) _ _ assms(3,4) Cons.prems(2)])
    fix r t1
    assume s: "after_line w d k i t t1" "result_of ol r" "small_result r"
    show "ends t1 (proc_order_lines e w d k (Suc i) ols (\<lambda>rs. c (r # rs))) Q"
    proof (rule Cons.IH)
      show "lines_good e ols t1" using lines_good_keep [OF s(1), of e ols] Cons.prems(1) by (simp add: lines_good_def)
      show "\<forall>r \<in> set (order_line_t t1). is_line_of w d k r \<longrightarrow> OL_NUMBER r \<le> int (Suc i)"
        by (rule after_line_keeps(4) [OF s(1) Cons.prems(2)])
    qed (use s in \<open>simp add: Cons.prems(3)\<close>)
  qed (use Cons.prems(1) in \<open>simp_all add: lines_good_def\<close>)
qed simp

lemma ends_lines_missing:
  assumes "\<And>n. \<not> spi_fails e n" "lines_good e good t" "item_missing bad t" "1 \<le> d" "d \<le> 10"
    and "\<forall>r \<in> set (order_line_t t). is_line_of w d k r \<longrightarrow> OL_NUMBER r \<le> int i"
    and "\<And>t1. Q (Inl (Raised ''DBT2R'')) t1"
  shows "ends t (proc_order_lines e w d k i (good @ bad # rest) c) Q"
  using assms(2,3,6)
proof (induction good arbitrary: i t c)
  case Nil
  show ?case unfolding append_Nil proc_order_lines.simps by (rule ends_missing) (use assms(1,7) Nil(2) in simp_all)
next
  case (Cons ol ols)
  show ?case unfolding append_Cons proc_order_lines.simps
  proof (rule ends_line [OF assms(1) _ _ assms(4,5) Cons.prems(3)])
    fix r t1
    assume s: "after_line w d k i t t1"
    show "ends t1 (proc_order_lines e w d k (Suc i) (ols @ bad # rest) (\<lambda>rs. c (r # rs))) Q"
    proof (rule Cons.IH)
      show "lines_good e ols t1" using lines_good_keep [OF s, of e ols] Cons.prems(1) by (simp add: lines_good_def)
      show "item_missing bad t1" using Cons.prems(2) after_line_keeps(3) [OF s] by simp
      show "\<forall>r \<in> set (order_line_t t1). is_line_of w d k r \<longrightarrow> OL_NUMBER r \<le> int (Suc i)"
        by (rule after_line_keeps(4) [OF s Cons.prems(3)])
    qed
  qed (use Cons.prems(1) in \<open>simp_all add: lines_good_def\<close>)
qed

section \<open>The whole order\<close>

text \<open>In consistent tables the next order number of a district is not in use.\<close>

lemma next_number_fresh:
  assumes c: "consistent t" and d: "dr \<in> set (district_t t)" "in_district w d dr"
  shows "\<not> list_ex (is_new_order w d (D_NEXT_O_ID dr)) (new_order_t t)" "\<not> list_ex (is_order w d (D_NEXT_O_ID dr)) (orders_t t)"
    "\<forall>r \<in> set (order_line_t t). \<not> is_line_of w d (D_NEXT_O_ID dr) r"
proof -
  have k: "D_W_ID dr = w" "D_ID dr = d" using d(2) by (simp_all add: in_district_def)
  have n: "numbers_ok (D_NEXT_O_ID dr) (order_ids w d (orders_t t)) (new_order_ids w d (new_order_t t))"
    using c d(1) k by (auto simp: consistent_def numbering_ok_def)
  have below: "x \<noteq> D_NEXT_O_ID dr" if "x \<in> set xs" "xs \<noteq> [] \<longrightarrow> Max (set xs) = D_NEXT_O_ID dr - 1" for x xs
  proof -
    have "xs \<noteq> []" using that(1) by auto
    then show ?thesis using Max_ge [OF List.finite_set that(1)] that(2) by simp
  qed
  have os: "O_ID r \<noteq> D_NEXT_O_ID dr" if "r \<in> set (orders_t t)" "O_W_ID r = w" "O_D_ID r = d" for r
    by (rule below [of _ "order_ids w d (orders_t t)"]) (use that n in \<open>auto simp: order_ids_def numbers_ok_def\<close>)
  have ns: "NO_O_ID r \<noteq> D_NEXT_O_ID dr" if "r \<in> set (new_order_t t)" "NO_W_ID r = w" "NO_D_ID r = d" for r
    by (rule below [of _ "new_order_ids w d (new_order_t t)"]) (use that n in \<open>auto simp: new_order_ids_def numbers_ok_def\<close>)
  show "\<not> list_ex (is_new_order w d (D_NEXT_O_ID dr)) (new_order_t t)" using ns by (auto simp: list_ex_iff is_new_order_def)
  show o': "\<not> list_ex (is_order w d (D_NEXT_O_ID dr)) (orders_t t)" using os by (auto simp: list_ex_iff is_order_def)
  show "\<forall>r \<in> set (order_line_t t). \<not> is_line_of w d (D_NEXT_O_ID dr) r"
    using c o' unfolding consistent_def lines_ok_def list_ex_iff is_line_of_def by metis
qed

lemma entered_keeps [simp]:
  "order_line_t (order_entered data k now t) = order_line_t t" "item_t (order_entered data k now t) = item_t t"
  "stock_t (order_entered data k now t) = stock_t t"
  by (simp_all add: order_entered_def Let_def)

lemma order_entered_lines [simp]:
  "lines_good e ols (order_entered data k now t) = lines_good e ols t" "item_missing ol (order_entered data k now t) = item_missing ol t"
  by (simp_all add: lines_good_def item_present_def stock_present_def item_missing_def)

lemma ends_order:
  assumes e: "\<And>n. \<not> spi_fails e n" and c: "consistent t" "ids_ok t" and x: "types_total e" and p: "order_present e data t"
    and L: "\<And>dr (res :: no_line_result list \<Rightarrow> no_result). dr \<in> set (district_t t) \<Longrightarrow> in_district (no_w_id data) (no_d_id data) dr \<Longrightarrow>
      \<forall>rs. in_float_range (rs_w_tax (res rs)) \<and> in_float_range (rs_d_tax (res rs)) \<and> in_float_range (rs_c_discount (res rs)) \<and>
        int32 (rs_o_id (res rs)) \<and> rs_ol (res rs) = rs \<Longrightarrow>
      ends (order_entered data (D_NEXT_O_ID dr) (spi_now e) t)
        (proc_order_lines e (no_w_id data) (no_d_id data) (D_NEXT_O_ID dr) 0 (take (nat (no_o_ol_cnt data)) (no_order_line data))
          (\<lambda>rs. return_rows e new_order_columns (map (new_order_values (res rs)) rs))) Q"
  shows "ends t (new_order_proc e (no_w_id data) (no_d_id data) (no_c_id data) (no_o_all_local data) (no_o_ol_cnt data) (no_order_line data)) Q"
proof -
  define w d where "w = no_w_id data" and "d = no_d_id data"
  note P = p [unfolded order_present_def, folded w_def d_def]
  have T: "spi_text_ok e" using x by (simp add: types_total_def types_ok_def)
  obtain wr ws where W: "filter (\<lambda>r. W_ID r = w) (warehouse_t t) = wr # ws" "wr \<in> set (warehouse_t t)" "W_ID wr = w"
    using rows_present [of "warehouse_t t" "\<lambda>r. W_ID r = w"] P by auto
  obtain dr ds where D: "filter (in_district w d) (district_t t) = dr # ds" "dr \<in> set (district_t t)" "in_district w d dr"
    using rows_present [of "district_t t" "in_district w d"] P by auto
  obtain cr cs where C: "filter (is_customer w d (no_c_id data)) (customer_t t) = cr # cs" "cr \<in> set (customer_t t)"
    "is_customer w d (no_c_id data) cr" using rows_present [of "customer_t t" "is_customer w d (no_c_id data)"] P by auto
  obtain nm cred where nm: "C_LAST cr = Some nm" "C_CREDIT cr = Some cred" using P C(2,3) by auto
  have k: "int32 (D_NEXT_O_ID dr)" using c(2) D(2) by (simp add: ids_ok_def)
  have s: "atoi (spi_text e (Whole (D_NEXT_O_ID dr))) = D_NEXT_O_ID dr" using k T by (simp add: spi_text_ok_def)
  note fresh = next_number_fresh [OF c(1) D(2,3)]
  define u where "u = t\<lparr>district_t := update_rows (in_district w d) (\<lambda>r. r\<lparr>D_NEXT_O_ID := D_NEXT_O_ID r + 1\<rparr>) (district_t t)\<rparr>"
  have r1: "run_pg (spi_decimal e) (spi_now e) (Pg_new_order_1 w) t = Inr ([Decimal (W_TAX wr)] # map (\<lambda>r. [Decimal (W_TAX r)]) ws, t)"
    by (simp add: warehouses_with_def W(1))
  have r2: "\<exists>rest. run_pg (spi_decimal e) (spi_now e) (Pg_new_order_2 w d) t = Inr ([Decimal (D_TAX dr), Whole (D_NEXT_O_ID dr)] # rest, u)"
    using P by (simp add: updated_rows_def D(1) list_ex_iff u_def)
  then obtain rest where r2: "run_pg (spi_decimal e) (spi_now e) (Pg_new_order_2 w d) t = Inr ([Decimal (D_TAX dr), Whole (D_NEXT_O_ID dr)] # rest, u)"
    by blast
  have r4: "\<exists>rest. run_pg (spi_decimal e) (spi_now e) (Pg_new_order_4 w d (no_c_id data)) u =
      Inr ([Decimal (C_DISCOUNT cr), Text nm, Text cred] # rest, u)"
    by (simp add: customers_with_def u_def C(1) nm text_cell_def)
  then obtain rest1 where r4: "run_pg (spi_decimal e) (spi_now e) (Pg_new_order_4 w d (no_c_id data)) u =
      Inr ([Decimal (C_DISCOUNT cr), Text nm, Text cred] # rest1, u)" by blast
  define v where "v = u\<lparr>new_order_t := new_order_t u @ [\<lparr>NO_O_ID = D_NEXT_O_ID dr, NO_D_ID = d, NO_W_ID = w\<rparr>]\<rparr>"
  have r5: "run_pg (spi_decimal e) (spi_now e) (Pg_new_order_5 (D_NEXT_O_ID dr) w d) u = Inr ([], v)"
    using fresh(1) by (simp add: u_def v_def)
  have r6: "run_pg (spi_decimal e) (spi_now e) (Pg_new_order_6 (D_NEXT_O_ID dr) d w (no_c_id data) (no_o_ol_cnt data) (no_o_all_local data)) v =
      Inr ([], order_entered data (D_NEXT_O_ID dr) (spi_now e) t)"
    using fresh(2) by (simp add: u_def v_def order_entered_def w_def d_def Let_def)
  show ?thesis
    unfolding new_order_proc_def w_def [symmetric] d_def [symmetric] Let_def
    apply (subst if_not_P)
    subgoal using P by simp
    apply (rule ends_plan [OF e])
    apply (rule ends_row [OF e r1])
    apply (rule ends_need, simp)
    apply (rule ends_row [OF e r2])
    apply (rule ends_need, simp)
    apply (rule ends_need, simp)
    apply (unfold s)
    apply (rule ends_row [OF e r4])
    apply (rule ends_need_all [of _ "[spi_text e (Decimal (C_DISCOUNT cr)), spi_text e (Text nm), spi_text e (Text cred)]"], simp)
    apply (rule ends_execute [OF e r5])
    apply (rule ends_execute [OF e r6])
    using L [OF D(2) D(3) [unfolded w_def d_def], of "\<lambda>rs. \<lparr>rs_w_tax = fl32 (atof (spi_text e (Decimal (W_TAX wr)))),
      rs_d_tax = fl32 (atof (spi_text e (Decimal (D_TAX dr)))), rs_o_id = D_NEXT_O_ID dr, rs_c_last = staged 64 (spi_text e (Text nm)),
      rs_c_credit = staged 2 (spi_text e (Text cred)), rs_c_discount = fl32 (atof (spi_text e (Decimal (C_DISCOUNT cr)))), rs_ol = rs\<rparr>"]
      P W(2,3) D(2,3) C(2,3) k
    by (simp add: w_def d_def)
qed

text \<open>The rows can be built.\<close>

lemma ends_answer:
  assumes x: "types_total e" and r: "in_float_range (rs_w_tax res)" "in_float_range (rs_d_tax res)" "in_float_range (rs_c_discount res)" "int32 (rs_o_id res)"
    and l: "list_all2 result_of ols rs" "\<forall>r \<in> set rs. small_result r"
      "\<forall>l \<in> set ols. int32 (ol_i_id l) \<and> int32 (ol_supply_w_id l) \<and> int32 (ol_quantity l)"
    and Q: "\<And>rows. length rows = length ols \<Longrightarrow> Q (Inr rows) t"
  shows "ends t (return_rows e new_order_columns (map (new_order_values res) rs)) Q"
proof -
  have f: "\<exists>y. float4_in e (fmt_f p z) = Some y" if "in_float_range z" for p z using x that by (auto simp: types_total_def)
  have i: "int4_in e (fmt_d n) = Some n" if "int32 n" for n using x that by (simp add: types_total_def types_ok_def)
  have "build_tuple e new_order_columns (new_order_values res r) \<noteq> None" if m: "r \<in> set rs" for r
  proof -
    obtain j where j: "j < length rs" "rs ! j = r" using m by (auto simp: in_set_conv_nth)
    have ol: "ols ! j \<in> set ols" "result_of (ols ! j) r" using list_all2_nthD2 [OF l(1) j(1)] list_all2_lengthD [OF l(1)] j by auto
    have q: "small_result r" using l(2) m by blast
    have n: "int32 (rl_ol_supply_w_id r)" "int32 (rl_ol_i_id r)" "int32 (rl_ol_quantity r)" "int32 (rl_s_quantity r)"
      using ol l(3) q by (auto simp: result_of_def small_result_def)
    obtain a b c d g where "float4_in e (fmt_f 2 (rl_i_price r)) = Some a" "float4_in e (fmt_f 2 (rl_ol_amount r)) = Some b"
      "float4_in e (fmt_f 4 (rs_w_tax res)) = Some c" "float4_in e (fmt_f 4 (rs_d_tax res)) = Some d"
      "float4_in e (fmt_f 4 (rs_c_discount res)) = Some g"
      using f q r by (meson small_result_def)
    then show ?thesis using n [THEN i] i [OF r(4)]
      by (simp add: build_tuple_def new_order_columns_def new_order_values_def type_in_def)
  qed
  then have "\<forall>x \<in> set (map (build_tuple e new_order_columns) (map (new_order_values res) rs)). x \<noteq> None" by simp
  then obtain rows where rows: "those (map (build_tuple e new_order_columns) (map (new_order_values res) rs)) = Some rows"
    using those_ex by blast
  have "length rows = length rs" using arg_cong [OF rows [unfolded those_Some], of length] by simp
  then show ?thesis using list_all2_lengthD [OF l(1)] by (intro ends_rows [OF rows] Q) simp
qed

lemma ends_yields: "ends t m Q \<Longrightarrow> yields t m P \<Longrightarrow> ends t m (\<lambda>r t1. Q r t1 \<and> (\<forall>x. r = Inr x \<longrightarrow> P x t1))"
  by (fastforce simp: ends_def yields_def split_def prod_eq_iff)

lemma new_order_proc_succeeds:
  assumes e: "\<And>n. \<not> spi_fails e n" and c: "consistent t" "ids_ok t" and x: "types_total e" and p: "order_present e data t"
    and l: "lines_good e (take (nat (no_o_ol_cnt data)) (no_order_line data)) t"
  shows "ends t (new_order_proc e (no_w_id data) (no_d_id data) (no_c_id data) (no_o_all_local data) (no_o_ol_cnt data) (no_order_line data))
    (\<lambda>r t1. \<exists>rows. r = Inr rows \<and> length rows = nat (no_o_ol_cnt data))"
proof (rule ends_order [OF e c x p])
  fix dr and res :: "no_line_result list \<Rightarrow> no_result"
  assume d: "dr \<in> set (district_t t)" "in_district (no_w_id data) (no_d_id data) dr"
    and r: "\<forall>rs. in_float_range (rs_w_tax (res rs)) \<and> in_float_range (rs_d_tax (res rs)) \<and> in_float_range (rs_c_discount (res rs)) \<and>
        int32 (rs_o_id (res rs)) \<and> rs_ol (res rs) = rs"
  define ols where "ols = take (nat (no_o_ol_cnt data)) (no_order_line data)"
  have len: "length ols = nat (no_o_ol_cnt data)" using p by (simp add: ols_def order_present_def)
  have range: "\<forall>l \<in> set ols. int32 (ol_i_id l) \<and> int32 (ol_supply_w_id l) \<and> int32 (ol_quantity l)"
    using p by (auto simp: ols_def order_present_def order_in_range_def dest: in_set_takeD)
  show "ends (order_entered data (D_NEXT_O_ID dr) (spi_now e) t)
      (proc_order_lines e (no_w_id data) (no_d_id data) (D_NEXT_O_ID dr) 0 (take (nat (no_o_ol_cnt data)) (no_order_line data))
        (\<lambda>rs. return_rows e new_order_columns (map (new_order_values (res rs)) rs)))
      (\<lambda>r t1. \<exists>rows. r = Inr rows \<and> length rows = nat (no_o_ol_cnt data))"
    unfolding ols_def [symmetric]
  proof (rule ends_lines [OF e])
    show "lines_good e ols (order_entered data (D_NEXT_O_ID dr) (spi_now e) t)" using l by (simp add: ols_def)
    show "\<forall>r \<in> set (order_line_t (order_entered data (D_NEXT_O_ID dr) (spi_now e) t)). is_line_of (no_w_id data) (no_d_id data) (D_NEXT_O_ID dr) r \<longrightarrow>
        OL_NUMBER r \<le> int 0" using next_number_fresh(3) [OF c(1) d] by simp
  next
    fix rs t1
    assume "list_all2 result_of ols rs" "\<forall>r \<in> set rs. small_result r"
    then show "ends t1 (return_rows e new_order_columns (map (new_order_values (res rs)) rs))
        (\<lambda>r t1. \<exists>rows. r = Inr rows \<and> length rows = nat (no_o_ol_cnt data))"
      using r range len by (intro ends_answer [OF x]) auto
  qed (use p in \<open>simp_all add: order_present_def\<close>)
qed

lemma new_order_proc_missing:
  assumes e: "\<And>n. \<not> spi_fails e n" and c: "consistent t" "ids_ok t" and x: "types_total e" and p: "order_present e data t"
    and l: "take (nat (no_o_ol_cnt data)) (no_order_line data) = good @ bad # rest" "lines_good e good t" "item_missing bad t"
  shows "ends t (new_order_proc e (no_w_id data) (no_d_id data) (no_c_id data) (no_o_all_local data) (no_o_ol_cnt data) (no_order_line data))
    (\<lambda>r t1. r = Inl (Raised ''DBT2R''))"
proof (rule ends_order [OF e c x p])
  fix dr and res :: "no_line_result list \<Rightarrow> no_result"
  assume d: "dr \<in> set (district_t t)" "in_district (no_w_id data) (no_d_id data) dr"
  show "ends (order_entered data (D_NEXT_O_ID dr) (spi_now e) t)
      (proc_order_lines e (no_w_id data) (no_d_id data) (D_NEXT_O_ID dr) 0 (take (nat (no_o_ol_cnt data)) (no_order_line data))
        (\<lambda>rs. return_rows e new_order_columns (map (new_order_values (res rs)) rs)))
      (\<lambda>r t1. r = Inl (Raised ''DBT2R''))"
    unfolding l(1)
    by (rule ends_lines_missing [OF e]) (use l(2,3) p next_number_fresh(3) [OF c(1) d] in \<open>simp_all add: order_present_def\<close>)
qed

section \<open>Processing an order\<close>

text \<open>Nothing fails but, perhaps, a \<open>COMMIT\<close>, and the connection is ready.\<close>

definition pg_fine :: "pg_env \<Rightarrow> bool" where
  "pg_fine e \<longleftrightarrow> (\<forall>n. begin_fate e n = Fine \<and> call_fate e n = Fine \<and> rollback_fate e n = Fine \<and> connects e n) \<and>
     (\<forall>m n. \<not> statement_fails e m n)"

definition pg_ready :: "pg_conn \<Rightarrow> bool" where
  "pg_ready c \<longleftrightarrow> pg_link c = Connected \<and> pg_block c = None \<and> \<not> pg_aborted c"

lemma call_fine:
  assumes "pg_fine e" "pg_link c = Connected" "pg_block c = Some t" "\<not> pg_aborted c"
    and "\<And>now. ends t (f ((pg_types e)\<lparr>spi_fails := statement_fails e (pg_calls c + 1), spi_now := now\<rparr>)) Q"
  obtains x t1 c1 where "Q x t1" "run_state (pq_call e f) c = ((case x of Inr rows \<Rightarrow> Inr rows | Inl (Raised code) \<Rightarrow> Inl (Server code)
      | Inl Segfault \<Rightarrow> Inl Connection_lost), c1)" "pg_committed c1 = pg_committed c" "pg_calls c1 = pg_calls c + 1"
    "\<forall>rows. x = Inr rows \<longrightarrow> pg_link c1 = Connected \<and> pg_block c1 = Some t1 \<and> \<not> pg_aborted c1"
    "\<forall>code. x = Inl (Raised code) \<longrightarrow> pg_link c1 = Connected"
proof -
  define c2 where "c2 = c\<lparr>pg_calls := pg_calls c + 1\<rparr>"
  have c2: "pg_link c2 = Connected" "pg_block c2 = Some t" "\<not> pg_aborted c2" "pg_view c2 = t" "pg_committed c2 = pg_committed c"
    "pg_calls c2 = pg_calls c + 1" using assms(2-4) by (simp_all add: c2_def pg_view_def)
  obtain x b where R: "run_state (f (call_env e c2)) \<lparr>work = t, planned = pg_plans c2, spi_calls = 0\<rparr> = (x, b)"
    by (cases "run_state (f (call_env e c2)) \<lparr>work = t, planned = pg_plans c2, spi_calls = 0\<rparr>")
  have Q: "Q x (work b)" using endsD [OF _ R, of Q] assms(5) [of "pg_started c2"] by (simp add: call_env_def c2(6))
  have C: "run_state (pq_call e f) c = run_procedure e f c2"
    using assms(1,2) by (simp add: pq_call_def run_command pg_fine_def c2_def)
  show thesis
  proof (cases x)
    case (Inr rows)
    then have "run_procedure e f c2 = (Inr rows, c2\<lparr>pg_block := Some (work b), pg_plans := planned b\<rparr>)"
      using R c2 by (simp add: run_procedure_def)
    then show thesis by (intro that [of x "work b" "c2\<lparr>pg_block := Some (work b), pg_plans := planned b\<rparr>"]) (use C c2 Inr Q in auto)
  next
    case (Inl err)
    show thesis
    proof (cases err)
      case (Raised code)
      then have "run_procedure e f c2 = (Inl (Server code), abort_block (c2\<lparr>pg_plans := planned b\<rparr>))"
        using R c2 Inl by (simp add: run_procedure_def)
      then show thesis by (intro that [of x "work b" "abort_block (c2\<lparr>pg_plans := planned b\<rparr>)"]) (use C c2 Inl Raised Q in \<open>auto simp: abort_block_def\<close>)
    next
      case Segfault
      then have "run_procedure e f c2 = (Inl Connection_lost, lose c2)" using R c2 Inl by (simp add: run_procedure_def)
      then show thesis by (intro that [of x "work b" "lose c2"]) (use C c2 Inl Segfault Q in \<open>auto simp: lose_def end_block_def\<close>)
    qed
  qed
qed

lemma begin_fine:
  assumes "pg_fine e" "pg_ready c"
  shows "run_state (pq_begin e) c = (None, c\<lparr>pg_calls := pg_calls c + 1, pg_block := Some (pg_committed c),
    pg_started := start_time e (pg_calls c + 1)\<rparr>)"
  using assms by (simp add: pq_begin_def run_command pg_fine_def pg_ready_def)

lemma begin_and_call_fine:
  assumes e: "pg_fine e" and c: "pg_ready c"
    and f: "\<And>g now. (\<And>n. \<not> g n) \<Longrightarrow> ends (pg_committed c) (f ((pg_types e)\<lparr>spi_fails := g, spi_now := now\<rparr>)) (\<lambda>r t1. r = Inr rows)"
  shows "\<exists>c1. run_state (begin_and_call e f) c = (Inr rows, c1)"
proof -
  define c2 where "c2 = c\<lparr>pg_calls := pg_calls c + 1, pg_block := Some (pg_committed c), pg_started := start_time e (pg_calls c + 1)\<rparr>"
  have B: "run_state (pq_begin e) c = (None, c2)" using begin_fine [OF e c] by (simp add: c2_def)
  have c2: "pg_link c2 = Connected" "pg_block c2 = Some (pg_committed c)" "\<not> pg_aborted c2"
    using c by (simp_all add: c2_def pg_ready_def)
  have "ends (pg_committed c) (f ((pg_types e)\<lparr>spi_fails := statement_fails e (pg_calls c2 + 1), spi_now := now\<rparr>)) (\<lambda>r t1. r = Inr rows)"
    for now by (rule f) (use e in \<open>simp add: pg_fine_def\<close>)
  then obtain x c1 where "x = Inr rows"
    "run_state (pq_call e f) c2 = ((case x of Inr rows \<Rightarrow> Inr rows | Inl (Raised code) \<Rightarrow> Inl (Server code)
      | Inl Segfault \<Rightarrow> Inl Connection_lost), c1)"
    by (rule call_fine [where f = f and Q = "\<lambda>r t1. r = Inr rows", OF e c2])
  then show ?thesis using B by (simp add: begin_and_call_def run_bind)
qed

lemma fails_irrelevant_present [simp]:
  "types_total (se\<lparr>spi_fails := g, spi_now := now\<rparr>) = types_total se"
  "order_present (se\<lparr>spi_fails := g, spi_now := now\<rparr>) = order_present se"
  "lines_good (se\<lparr>spi_fails := g, spi_now := now\<rparr>) = lines_good se"
  by (auto simp: types_total_def types_ok_def order_present_def lines_good_def item_present_def fun_eq_iff)

lemma order_executed:
  assumes e: "pg_fine e" and c: "pg_ready c" "consistent (pg_committed c)" "ids_ok (pg_committed c)" and x: "types_total (pg_types e)"
    and d: "d = set_all_local (fst (un_new_order td))" and p: "order_present (pg_types e) d (pg_committed c)"
    and l: "lines_good (pg_types e) (take (nat (no_o_ol_cnt d)) (no_order_line d)) (pg_committed c)"
  shows "\<exists>o1 c1 t1 now. run_state (execute_transaction (db_init_libpq e stop) NEW_ORDER td) c =
      (Inl (Some OK, td\<lparr>un_new_order := (d, o1)\<rparr>), c1) \<and> pg_link c1 = Connected \<and> pg_block c1 = Some t1 \<and> \<not> pg_aborted c1 \<and>
    pg_calls c1 = pg_calls c + 2 \<and> proc_new_order_done ((pg_types e)\<lparr>spi_now := now\<rparr>) d (pg_committed c) t1"
proof -
  define c2 where "c2 = c\<lparr>pg_calls := pg_calls c + 1, pg_block := Some (pg_committed c), pg_started := start_time e (pg_calls c + 1)\<rparr>"
  have B: "run_state (pq_begin e) c = (None, c2)" using begin_fine [OF e c(1)] by (simp add: c2_def)
  have c2: "pg_link c2 = Connected" "pg_block c2 = Some (pg_committed c)" "\<not> pg_aborted c2" "pg_calls c2 = pg_calls c + 1"
    using c(1) by (simp_all add: c2_def pg_ready_def)
  have cnt: "1 \<le> no_o_ol_cnt d" "no_o_ol_cnt d \<le> 15" "nat (no_o_ol_cnt d) \<le> length (no_order_line d)" "order_in_range d"
    using p by (simp_all add: order_present_def)
  have ty: "types_ok (pg_types e)" using x by (simp add: types_total_def)
  define Q where "Q = (\<lambda>(r :: pg_error + pg_value list list) t1. (\<exists>rows. r = Inr rows \<and> length rows = nat (no_o_ol_cnt d)) \<and>
     (\<forall>rows. r = Inr rows \<longrightarrow> (\<exists>now. proc_new_order_done ((pg_types e)\<lparr>spi_now := now\<rparr>) d (pg_committed c) t1) \<and> order_rows (pg_types e) d rows))"
  have "ends (pg_committed c) (call_new_order d ((pg_types e)\<lparr>spi_fails := statement_fails e (pg_calls c2 + 1), spi_now := now\<rparr>)) Q" for now
  proof -
    define se where "se = (pg_types e)\<lparr>spi_fails := statement_fails e (pg_calls c2 + 1), spi_now := now\<rparr>"
    have s: "spi_text_ok se" "proc_new_order_done se = proc_new_order_done ((pg_types e)\<lparr>spi_now := now\<rparr>)" "order_rows se = order_rows (pg_types e)"
      using ty by (simp_all add: se_def types_ok_def order_rows_def fun_eq_iff)
    have run: "call_new_order d se = new_order_proc se (no_w_id d) (no_d_id d) (no_c_id d) (no_o_all_local d) (no_o_ol_cnt d) (no_order_line d)"
      using cnt(1) by (simp add: call_new_order_def)
    have "ends (pg_committed c) (call_new_order d se) (\<lambda>r t1. \<exists>rows. r = Inr rows \<and> length rows = nat (no_o_ol_cnt d))"
      unfolding run by (rule new_order_proc_succeeds) (use e c(2,3) x p l in \<open>simp_all add: se_def pg_fine_def\<close>)
    moreover have "yields (pg_committed c) (call_new_order d se)
        (\<lambda>rows t1. (\<exists>now. proc_new_order_done ((pg_types e)\<lparr>spi_now := now\<rparr>) d (pg_committed c) t1) \<and> order_rows (pg_types e) d rows)"
      using new_order_proc_yields [OF c(3) s(1), of d] unfolding run s(2,3) yields_def by blast
    ultimately show ?thesis unfolding Q_def se_def [symmetric] by (rule ends_yields)
  qed
  then obtain x t1 c1 where X: "Q x t1"
    "run_state (pq_call e (call_new_order d)) c2 = ((case x of Inr rows \<Rightarrow> Inr rows | Inl (Raised code) \<Rightarrow> Inl (Server code)
      | Inl Segfault \<Rightarrow> Inl Connection_lost), c1)" "pg_calls c1 = pg_calls c2 + 1"
    "\<forall>rows. x = Inr rows \<longrightarrow> pg_link c1 = Connected \<and> pg_block c1 = Some t1 \<and> \<not> pg_aborted c1"
    by (rule call_fine [where f = "call_new_order d" and Q = Q, OF e c2(1-3)])
  then obtain rows now where C: "run_state (pq_call e (call_new_order d)) c2 = (Inr rows, c1)"
    "pg_link c1 = Connected" "pg_block c1 = Some t1" "\<not> pg_aborted c1" "order_rows (pg_types e) d rows"
    "proc_new_order_done ((pg_types e)\<lparr>spi_now := now\<rparr>) d (pg_committed c) t1" by (auto simp: Q_def)
  define o1 where "o1 = snd (new_order_answer rows d (snd (un_new_order td)))"
  have A: "new_order_answer rows d (snd (un_new_order td)) = (d, o1)"
    using answer_lines [OF ty cnt(4,2,3) C(5)] by (simp add: o1_def prod_eq_iff)
  have N: "run_state (execute_new_order_libpq e (d, snd (un_new_order td))) c = ((Some OK, d, o1), c1)"
    using B C(1) cnt A by (simp add: execute_new_order_libpq_def run_bind State_Monad.return_def)
  have rb: "nw_rollback o1 = 0" by (simp add: o1_def new_order_answer_def Let_def split: list.split)
  have E: "run_state (execute_transaction (db_init_libpq e stop) NEW_ORDER td) c =
      (Inl (Some OK, td\<lparr>un_new_order := (d, adjust_total o1)\<rparr>), c1)"
    using N rb by (simp add: execute_transaction_def db_init_libpq_def run_bind State_Monad.return_def d [symmetric] Let_def OK_def ERROR_def
        NEW_ORDER_def INTEGRITY_def DELIVERY_def)
  show ?thesis
    by (intro exI [of _ "adjust_total o1"] exI [of _ c1] exI [of _ t1] exI [of _ now]) (use E C X(3) c2(4) in simp)
qed

lemma order_processed:
  assumes e: "pg_fine e" "\<And>n. commit_fate e n = Fine" and c: "pg_ready c" "consistent (pg_committed c)" "ids_ok (pg_committed c)"
    and x: "types_total (pg_types e)"
    and d: "d = set_all_local (fst (un_new_order td))" and p: "order_present (pg_types e) d (pg_committed c)"
    and l: "lines_good (pg_types e) (take (nat (no_o_ol_cnt d)) (no_order_line d)) (pg_committed c)"
  shows "\<exists>td1 c1 now. process_transaction (db_init_libpq e stop) NEW_ORDER td c = Some ((Some OK, td1), c1) \<and>
    proc_new_order_done ((pg_types e)\<lparr>spi_now := now\<rparr>) d (pg_committed c) (pg_committed c1)"
proof -
  obtain o1 c1 t1 now where E: "run_state (execute_transaction (db_init_libpq e stop) NEW_ORDER td) c =
      (Inl (Some OK, td\<lparr>un_new_order := (d, o1)\<rparr>), c1)" "pg_link c1 = Connected" "pg_block c1 = Some t1" "\<not> pg_aborted c1"
    "proc_new_order_done ((pg_types e)\<lparr>spi_now := now\<rparr>) d (pg_committed c) t1"
    using order_executed [OF e(1) c x d p l] by blast
  obtain c3 where M: "run_state (commit_transaction_libpq e) c1 = (OK, c3)" "pg_committed c3 = t1"
    using E(2-4) e by (simp add: commit_transaction_libpq_def pq_commit_def run_command run_bind connection_bad_def State_Monad.return_def
        commit_block_def end_block_def pg_view_def)
  show ?thesis using E(1,5) M by (auto simp: process_transaction_def numeral_2_eq_2)
qed

text \<open>What an order needs, it leaves for the same order to be placed again.\<close>

lemma line_keeps_present:
  assumes "proc_line_done e w d k i ol t t1"
  shows "item_t t1 = item_t t" "warehouse_t t1 = warehouse_t t" "customer_t t1 = customer_t t" "district_t t1 = district_t t"
    "stock_present ol' t \<Longrightarrow> stock_present ol' t1"
proof -
  obtain P f l where t1: "t1 = t\<lparr>stock_t := update_rows P f (stock_t t), order_line_t := order_line_t t @ [l]\<rparr>"
    and f: "\<forall>r. S_W_ID (f r) = S_W_ID r \<and> S_I_ID (f r) = S_I_ID r \<and> S_DIST (f r) = S_DIST r \<and> S_DATA (f r) = S_DATA r"
    using assms unfolding proc_line_done_def Let_def by (elim exE conjE) (rule that, assumption, simp add: taken_def)
  show "item_t t1 = item_t t" "warehouse_t t1 = warehouse_t t" "customer_t t1 = customer_t t" "district_t t1 = district_t t"
    by (simp_all add: t1)
  have s: "is_stock a b (f r) = is_stock a b r" for a b r using f by (simp add: is_stock_def)
  show "stock_present ol' t1" if "stock_present ol' t"
    using that f by (auto simp: t1 stock_present_def ex_update_rows s dest!: set_update_rows split: if_splits)
qed

lemma lines_keep_present:
  "proc_lines_done e w d k i ols t t1 \<Longrightarrow> item_t t1 = item_t t \<and> warehouse_t t1 = warehouse_t t \<and> customer_t t1 = customer_t t \<and>
    district_t t1 = district_t t \<and> (stock_present ol' t \<longrightarrow> stock_present ol' t1)"
proof (induction ols arbitrary: i t)
  case (Cons ol ols)
  then obtain t2 where t2: "proc_line_done e w d k i ol t t2" "proc_lines_done e w d k (Suc i) ols t2 t1" by auto
  show ?case using line_keeps_present(1-4) [OF t2(1)] line_keeps_present(5) [OF t2(1), of ol'] Cons.IH [OF t2(2)] by simp
qed simp

lemma order_keeps_present:
  assumes n: "proc_new_order_done se data t t1" and p: "order_present se1 data t" and l: "lines_good se1 ols t"
    and k: "\<forall>r \<in> set (district_t t). in_district (no_w_id data) (no_d_id data) r \<longrightarrow> int32 (D_NEXT_O_ID r + 2)"
  shows "order_present se1 data t1" "lines_good se1 ols t1"
proof -
  obtain k where L: "proc_lines_done se (no_w_id data) (no_d_id data) k 0 (take (nat (no_o_ol_cnt data)) (no_order_line data))
       (order_entered data k (spi_now se) t) t1" using n unfolding proc_new_order_done_def by (elim exE conjE) (rule that)
  have keep: "item_t t1 = item_t (order_entered data k (spi_now se) t) \<and> warehouse_t t1 = warehouse_t (order_entered data k (spi_now se) t) \<and>
      customer_t t1 = customer_t (order_entered data k (spi_now se) t) \<and> district_t t1 = district_t (order_entered data k (spi_now se) t)"
    using lines_keep_present [OF L] by simp
  have stock: "stock_present ol t \<Longrightarrow> stock_present ol t1" for ol
    using lines_keep_present [OF L, of ol] by (simp add: stock_present_def)
  have t1: "item_t t1 = item_t t" "warehouse_t t1 = warehouse_t t" "customer_t t1 = customer_t t"
    "district_t t1 = update_rows (in_district (no_w_id data) (no_d_id data)) (\<lambda>r. r\<lparr>D_NEXT_O_ID := D_NEXT_O_ID r + 1\<rparr>) (district_t t)"
    using keep by (simp_all add: order_entered_def Let_def)
  show "lines_good se1 ols t1"
    using l stock by (simp add: lines_good_def item_present_def t1(1))
  have dist: "in_district w d (r\<lparr>D_NEXT_O_ID := n\<rparr>) = in_district w d r" for w d r n by (simp add: in_district_def)
  have P: "\<forall>r \<in> set (district_t t). in_district (no_w_id data) (no_d_id data) r \<longrightarrow>
      in_float_range (fl32 (atof (spi_text se1 (Decimal (D_TAX r)))))" "\<exists>r \<in> set (district_t t). in_district (no_w_id data) (no_d_id data) r"
    using p by (simp_all add: order_present_def)
  have D: "int32 (D_NEXT_O_ID r1 + 1) \<and> in_float_range (fl32 (atof (spi_text se1 (Decimal (D_TAX r1)))))"
    if r1: "r1 \<in> set (district_t t1)" "in_district (no_w_id data) (no_d_id data) r1" for r1
  proof -
    obtain r where r: "r \<in> set (district_t t)"
      "r1 = (if in_district (no_w_id data) (no_d_id data) r then r\<lparr>D_NEXT_O_ID := D_NEXT_O_ID r + 1\<rparr> else r)"
      using set_update_rows [OF r1(1) [unfolded t1(4)]] by (elim bexE) (rule that)
    have i: "in_district (no_w_id data) (no_d_id data) r" using r1(2) r(2) by (simp add: dist split: if_splits)
    have "int32 (D_NEXT_O_ID r + 2)" using k r(1) i by simp
    moreover have "in_float_range (fl32 (atof (spi_text se1 (Decimal (D_TAX r)))))" using P(1) r(1) i by simp
    ultimately show ?thesis using r(2) i by (simp add: add.assoc)
  qed
  have "\<exists>r \<in> set (district_t t1). in_district (no_w_id data) (no_d_id data) r"
    using P(2) unfolding t1(4) by (simp add: ex_update_rows dist)
  moreover have "\<forall>r \<in> set (district_t t1). in_district (no_w_id data) (no_d_id data) r \<longrightarrow> int32 (D_NEXT_O_ID r + 1) \<and>
      in_float_range (fl32 (atof (spi_text se1 (Decimal (D_TAX r)))))" by (intro ballI impI D)
  ultimately show "order_present se1 data t1"
    using p by (simp add: order_present_def t1(2,3))
qed

lemma lost_commit:
  assumes e: "pg_fine e" "commit_fate e (pg_calls c + 2) = Lost_after" "\<And>n. pg_calls c + 2 < n \<Longrightarrow> commit_fate e n = Fine"
    and c: "pg_ready c" "consistent (pg_committed c)" "ids_ok (pg_committed c)" and x: "types_total (pg_types e)"
    and d: "d = set_all_local (fst (un_new_order td))" and p: "order_present (pg_types e) d (pg_committed c)"
    and l: "lines_good (pg_types e) (take (nat (no_o_ol_cnt d)) (no_order_line d)) (pg_committed c)"
    and k: "\<forall>r \<in> set (district_t (pg_committed c)). in_district (no_w_id d) (no_d_id d) r \<longrightarrow> int32 (D_NEXT_O_ID r + 2)"
  shows "\<exists>td1 c1 t1 now1 now2. process_transaction (db_init_libpq e 0) NEW_ORDER td c = Some ((Some OK, td1), c1) \<and>
    proc_new_order_done ((pg_types e)\<lparr>spi_now := now1\<rparr>) d (pg_committed c) t1 \<and>
    proc_new_order_done ((pg_types e)\<lparr>spi_now := now2\<rparr>) d t1 (pg_committed c1)"
proof -
  obtain o1 c1 t1 now where E: "run_state (execute_transaction (db_init_libpq e 0) NEW_ORDER td) c =
      (Inl (Some OK, td\<lparr>un_new_order := (d, o1)\<rparr>), c1)" "pg_link c1 = Connected" "pg_block c1 = Some t1" "\<not> pg_aborted c1"
    "pg_calls c1 = pg_calls c + 2" "proc_new_order_done ((pg_types e)\<lparr>spi_now := now\<rparr>) d (pg_committed c) t1"
    using order_executed [OF e(1) c x d p l, of 0] by (elim exE conjE) (rule that)
  define c2 where "c2 = (end_block c1)\<lparr>pg_calls := pg_calls c1 + 1, pg_committed := t1, pg_link := Broken, pg_plans := []\<rparr>"
  have M: "run_state (commit_transaction_libpq e) c1 = (RECONNECT, c2)"
    using E(2-5) e(2) by (simp add: commit_transaction_libpq_def pq_commit_def run_command run_bind connection_bad_def State_Monad.return_def
        commit_block_def end_block_def pg_view_def lose_def c2_def)
  define c3 where "c3 = (end_block c2)\<lparr>pg_link := No_handle, pg_plans := []\<rparr>"
  have D: "run_state (disconnect_from_db (db_init_libpq e 0)) c2 = (OK, c3)"
    by (simp add: disconnect_from_db_def disconnect_from_db_libpq_def run_bind State_Monad.return_def c3_def)
  define c4 where "c4 = c3\<lparr>pg_calls := pg_calls c3 + 3, pg_link := Connected\<rparr>"
  have C: "connect_to_db (db_init_libpq e 0) (c3\<lparr>pg_calls := pg_calls c3 + 1\<rparr>) = Some (OK, c4)"
    using e(1) by (subst connect_to_db.simps) (simp add: read_pg_clock_def past_stop_def connect_to_db_libpq_def pg_fine_def c4_def c3_def
        end_block_def Let_def)
  have R: "reconnect (db_init_libpq e 0) c3 = Some (True, c4)"
    using C by (subst reconnect.simps) (simp add: read_pg_clock_def past_stop_def)
  have c4: "pg_ready c4" "pg_committed c4 = t1" "pg_calls c4 = pg_calls c + 6"
    by (simp_all add: c4_def c3_def c2_def end_block_def pg_ready_def E(5))
  have len: "nat (no_o_ol_cnt d) \<le> length (no_order_line d)" using p by (simp add: order_present_def)
  have t1: "consistent t1" "ids_ok t1" using proc_new_order_consistent [OF E(6) c(2) len] proc_new_order_ids [OF E(6) c(3)] by auto
  note again = order_keeps_present [OF E(6) p l k]
  have d1: "d = set_all_local (fst (un_new_order (td\<lparr>un_new_order := (d, o1)\<rparr>)))" by (simp add: d set_all_local_def)
  define td1 where "td1 = td\<lparr>un_new_order := (d, o1)\<rparr>"
  have "\<exists>o2 c5 t2 now2. run_state (execute_transaction (db_init_libpq e 0) NEW_ORDER td1) c4 =
      (Inl (Some OK, td1\<lparr>un_new_order := (d, o2)\<rparr>), c5) \<and> pg_link c5 = Connected \<and> pg_block c5 = Some t2 \<and> \<not> pg_aborted c5 \<and>
    pg_calls c5 = pg_calls c4 + 2 \<and> proc_new_order_done ((pg_types e)\<lparr>spi_now := now2\<rparr>) d t1 t2"
    unfolding td1_def by (rule order_executed [OF e(1) c4(1), unfolded c4(2), OF t1 x d1 again])
  then obtain o2 c5 t2 now2 where F: "run_state (execute_transaction (db_init_libpq e 0) NEW_ORDER td1) c4 =
      (Inl (Some OK, td1\<lparr>un_new_order := (d, o2)\<rparr>), c5)" "pg_link c5 = Connected" "pg_block c5 = Some t2" "\<not> pg_aborted c5"
    "pg_calls c5 = pg_calls c4 + 2" "proc_new_order_done ((pg_types e)\<lparr>spi_now := now2\<rparr>) d t1 t2"
    by (elim exE conjE) (rule that)
  obtain c6 where G: "run_state (commit_transaction_libpq e) c5 = (OK, c6)" "pg_committed c6 = t2"
    using F(2-5) e(3) [of "pg_calls c5"] c4(3) by (simp add: commit_transaction_libpq_def pq_commit_def run_command run_bind connection_bad_def State_Monad.return_def
        commit_block_def end_block_def pg_view_def)
  have "process_transaction (db_init_libpq e 0) NEW_ORDER td c = Some ((Some OK, td1\<lparr>un_new_order := (d, o2)\<rparr>), c6)"
    using E(1) [folded td1_def] M D R F(1) G by (simp add: process_transaction_def numeral_2_eq_2 OK_def RECONNECT_def ERROR_def)
  then show ?thesis using E(6) F(6) unfolding G(2) [symmetric] by blast
qed

lemma missing_processed:
  assumes e: "pg_fine e" and c: "pg_ready c" "consistent (pg_committed c)" "ids_ok (pg_committed c)" and x: "types_total (pg_types e)"
    and d: "d = set_all_local (fst (un_new_order td))" and p: "order_present (pg_types e) d (pg_committed c)"
    and l: "take (nat (no_o_ol_cnt d)) (no_order_line d) = good @ bad # rest" "lines_good (pg_types e) good (pg_committed c)"
      "item_missing bad (pg_committed c)"
  shows "\<exists>td1 c1. process_transaction (db_init_libpq e stop) NEW_ORDER td c = Some ((Some STATUS_ROLLBACK, td1), c1) \<and>
    nw_rollback (snd (un_new_order td1)) = 1 \<and> pg_committed c1 = pg_committed c"
proof -
  define c2 where "c2 = c\<lparr>pg_calls := pg_calls c + 1, pg_block := Some (pg_committed c), pg_started := start_time e (pg_calls c + 1)\<rparr>"
  have B: "run_state (pq_begin e) c = (None, c2)" using begin_fine [OF e c(1)] by (simp add: c2_def)
  have c2: "pg_link c2 = Connected" "pg_block c2 = Some (pg_committed c)" "\<not> pg_aborted c2" "pg_committed c2 = pg_committed c"
    using c(1) by (simp_all add: c2_def pg_ready_def)
  have cnt: "1 \<le> no_o_ol_cnt d" "no_o_ol_cnt d \<le> 15" "nat (no_o_ol_cnt d) \<le> length (no_order_line d)" using p by (simp_all add: order_present_def)
  have "ends (pg_committed c) (call_new_order d ((pg_types e)\<lparr>spi_fails := statement_fails e (pg_calls c2 + 1), spi_now := now\<rparr>))
      (\<lambda>r t1. r = Inl (Raised ''DBT2R''))" for now
    using new_order_proc_missing [of "(pg_types e)\<lparr>spi_fails := statement_fails e (pg_calls c2 + 1), spi_now := now\<rparr>" "pg_committed c" d good bad rest]
      e c(2,3) x p l cnt(1) by (simp add: call_new_order_def pg_fine_def)
  then obtain x t1 c1 where X: "x = Inl (Raised ''DBT2R'')"
    "run_state (pq_call e (call_new_order d)) c2 = ((case x of Inr rows \<Rightarrow> Inr rows | Inl (Raised code) \<Rightarrow> Inl (Server code)
      | Inl Segfault \<Rightarrow> Inl Connection_lost), c1)" "pg_committed c1 = pg_committed c2"
    "\<forall>code. x = Inl (Raised code) \<longrightarrow> pg_link c1 = Connected"
    by (rule call_fine [where f = "call_new_order d" and Q = "\<lambda>r t1. r = Inl (Raised ''DBT2R'')", OF e c2(1-3)])
  have C: "run_state (pq_call e (call_new_order d)) c2 = (Inl (Server ''DBT2R''), c1)"
    "pg_link c1 = Connected" "pg_committed c1 = pg_committed c" using X c2(4) by simp_all
  have N: "run_state (execute_new_order_libpq e (d, snd (un_new_order td))) c =
      ((Some ERROR, d, (snd (un_new_order td))\<lparr>nw_rollback := 1\<rparr>), c1)"
    using B C cnt by (simp add: execute_new_order_libpq_def run_bind State_Monad.return_def)
  have E: "run_state (execute_transaction (db_init_libpq e stop) NEW_ORDER td) c =
      (Inl (Some ERROR, td\<lparr>un_new_order := (d, (snd (un_new_order td))\<lparr>nw_rollback := 1\<rparr>)\<rparr>), c1)"
    using N by (simp add: execute_transaction_def db_init_libpq_def run_bind State_Monad.return_def d [symmetric] Let_def OK_def ERROR_def
        NEW_ORDER_def INTEGRITY_def DELIVERY_def)
  have M: "\<exists>c3. run_state (rollback_transaction_libpq e) c1 = (STATUS_ROLLBACK, c3) \<and> pg_committed c3 = pg_committed c"
    using C(2,3) e by (simp add: rollback_transaction_libpq_def pq_rollback_def run_command run_bind connection_bad_def State_Monad.return_def
        pg_fine_def end_block_def)
  show ?thesis using E M by (auto simp: process_transaction_def numeral_2_eq_2 ERROR_def OK_def)
qed

end
