(* ===== verification/Pg_Properties.thy ===== *)
theory Pg_Properties
  imports Pg_Success Db_Properties
begin

text \<open>
  What the database interface guarantees on PostgreSQL with the stored procedures in C: atomicity and
  consistency, the waiting loops, orders that are placed and orders that are rolled back, and what
  happens when the acknowledgement of a \<open>COMMIT\<close> gets lost. The example is the small database of
  \<open>Db_Properties\<close>.
\<close>

section \<open>The small database on PostgreSQL\<close>

definition sample_types :: spi_env where
  "sample_types = \<lparr>spi_fails = (\<lambda>_. False), spi_now = [],
     spi_text = (\<lambda>x. case x of Null \<Rightarrow> [] | Whole n \<Rightarrow> fmt_d n | Decimal m \<Rightarrow> fmt_f 6 (of_int m / 10 ^ 6) | Text s \<Rightarrow> s),
     spi_decimal = (\<lambda>x. rne (x * 10 ^ 6)), numeric_in = sql_number, int4_in = (\<lambda>s. Some (atoi s)),
     float4_in = (\<lambda>s. Some (fl32 (atof s))), float8_in = (\<lambda>s. Some (atof s))\<rparr>"

text \<open>Nothing fails, except that the answer of the command \<open>lost\<close> does not arrive if it is a \<open>COMMIT\<close>.\<close>

definition sample_pg :: "nat option \<Rightarrow> pg_env" where
  "sample_pg lost = \<lparr>begin_fate = (\<lambda>_. Fine), call_fate = (\<lambda>_. Fine),
     commit_fate = (\<lambda>n. if lost = Some n then Lost_after else Fine), rollback_fate = (\<lambda>_. Fine),
     statement_fails = (\<lambda>_ _. False), connects = (\<lambda>_. True), start_time = (\<lambda>_. ''2024-01-01''), pg_clock = (\<lambda>_. 0),
     pg_sleeps = (\<lambda>_. True), pg_types = sample_types\<rparr>"

definition sample_pg_conn :: "tables \<Rightarrow> pg_conn" where
  "sample_pg_conn t = \<lparr>pg_committed = t, pg_block = None, pg_aborted = False, pg_link = Connected, pg_plans = [],
     pg_started = [], pg_calls = 0\<rparr>"

text \<open>The same order with an item that does not exist.\<close>

definition unused_item_request :: transaction_union where
  "unused_item_request = sample_request\<lparr>un_new_order := (sample_order\<lparr>no_order_line :=
     [\<lparr>ol_i_id = 2, ol_supply_w_id = 1, ol_quantity = 2\<rparr>]\<rparr>, snd (un_new_order sample_request))\<rparr>"

lemma sample_fine: "pg_fine (sample_pg l)" "\<And>n. commit_fate (sample_pg None) n = Fine"
  "pg_types (sample_pg l) = sample_types"
  by (simp_all add: sample_pg_def pg_fine_def)

lemma sample_pg_ready: "pg_ready (sample_pg_conn t)" "pg_committed (sample_pg_conn t) = t" "pg_calls (sample_pg_conn t) = 0"
  "acknowledged (sample_pg None)" "pg_idle (sample_pg None) (sample_pg_conn t)"
  by (simp_all add: pg_ready_def sample_pg_conn_def acknowledged_def sample_pg_def pg_idle_def pg_wf_def)

lemma sample_types_total: "types_total sample_types"
proof -
  have "rne (of_int m / 10 ^ 6 * 10 ^ 6 :: rat) = m" for m using rne_of_int [of m] by simp
  then have "sql_number (fmt_f 6 (of_int m / 10 ^ 6)) = Some m" for m by (simp only: sql_number_fmt_f)
  then show ?thesis by (simp add: types_total_def types_ok_def spi_text_ok_def sample_types_def)
qed

lemma sample_ids: "ids_ok sample_tables"
  by (simp add: ids_ok_def sample_tables_def sample_customer_def int32_def)

lemma fmt0: "fmt_f 6 0 = ''0.000000''"
proof -
  have "rne 0 = 0" using rne_of_int [of 0] by simp
  moreover have "zero_fill 6 [digit 0] = ''000000''" "digit 0 = CHR ''0''" by code_simp+
  ultimately show ?thesis by (simp add: fmt_f_def digits_single)
qed

lemma fl32_0: "fl32 0 = 0"
  using rnd_exact [of 0 0] by (simp add: fl32_def)

lemma small_values: "in_float_range (fl32 (atof (fmt_f 6 0)))" "in_float_range (fl32 (atof (fmt_f 6 5)))"
proof -
  have "atof ''0.000000'' = fl 0" by (simp add: atof_def is_space_def is_digit_def digits_value_def)
  moreover have "ilog2 5 = 2" by (rule ilog2_unique; simp add: power_int_def)
  then have "fl32 5 = 5" using rnd_exact [of "-21" "5 * 2 ^ 21"] by (simp add: fl32_def power_int_def power_divide)
  ultimately show "in_float_range (fl32 (atof (fmt_f 6 0)))" "in_float_range (fl32 (atof (fmt_f 6 5)))"
    by (simp_all add: fmt0 fmt5 atof5 fls in_float_range_def fl32_0)
qed

lemma sample_order_present:
  "order_present sample_types (set_all_local sample_order) sample_tables"
  "lines_good sample_types (take (nat (no_o_ol_cnt (set_all_local sample_order))) (no_order_line (set_all_local sample_order))) sample_tables"
  using small_values
  by (simp_all add: order_present_def order_in_range_def lines_good_def item_present_def stock_present_def sample_types_def sample_defs
      set_all_local_def in_district_def is_customer_def is_stock_def int32_def float_amount_def fmt5 atof5 fls fl32s in_float_range_def replicate_10)

lemma sample_missing:
  "order_present sample_types (set_all_local (fst (un_new_order unused_item_request))) sample_tables"
  "item_missing \<lparr>ol_i_id = 2, ol_supply_w_id = 1, ol_quantity = 2\<rparr> sample_tables"
  using small_values
  by (simp_all add: order_present_def order_in_range_def item_missing_def sample_types_def sample_defs unused_item_request_def
      set_all_local_def in_district_def is_customer_def int32_def)

lemma sample_order_processed:
  "\<exists>td1 c1 now. process_transaction (db_init_libpq (sample_pg None) stop) NEW_ORDER sample_request (sample_pg_conn sample_tables) =
      Some ((Some OK, td1), c1) \<and>
    proc_new_order_done (sample_types\<lparr>spi_now := now\<rparr>) (set_all_local sample_order) sample_tables (pg_committed c1)"
  using order_processed [of "sample_pg None" "sample_pg_conn sample_tables" "set_all_local sample_order" sample_request stop]
    sample_fine sample_pg_ready sample_consistent sample_ids sample_types_total sample_order_present
  by (simp add: sample_request_def)

lemma sample_pg_request: "pg_request_ok (sample_pg l) sample_request sample_tables"
  using sample_types_total sample_consistent sample_ids
  by (simp add: pg_request_ok_def sample_fine types_total_def order_in_range_def sample_request_def sample_order_def int32_def)

section \<open>Atomicity and consistency\<close>





section \<open>Orders\<close>



text \<open>C6: An order in which an item does not exist, after lines that are in order, is rolled back: the
  answer is the one for a rollback, the result says so, and no table has changed, although the order,
  the new order and the lines before had been entered.\<close>
theorem unused_item_rolled_back:
  assumes "pg_fine e" "pg_ready c" "consistent (pg_committed c)" "ids_ok (pg_committed c)" "types_total (pg_types e)"
    and "d = set_all_local (fst (un_new_order td))" "order_present (pg_types e) d (pg_committed c)"
    and "take (nat (no_o_ol_cnt d)) (no_order_line d) = good @ bad # rest" "lines_good (pg_types e) good (pg_committed c)"
    and "item_missing bad (pg_committed c)"
  shows "\<exists>td1 c1. process_transaction (db_init_libpq e stop) NEW_ORDER td c = Some ((Some STATUS_ROLLBACK, td1), c1) \<and>
    nw_rollback (snd (un_new_order td1)) = 1 \<and> pg_committed c1 = pg_committed c"
  by (rule missing_processed [OF assms])

theorem unused_item_rolled_back_witness:
  "\<exists>td1 c1. process_transaction (db_init_libpq (sample_pg None) 0) NEW_ORDER unused_item_request (sample_pg_conn sample_tables) =
      Some ((Some STATUS_ROLLBACK, td1), c1) \<and> pg_committed c1 = sample_tables"
  using unused_item_rolled_back [of "sample_pg None" "sample_pg_conn sample_tables" _ unused_item_request "[]"
      "\<lparr>ol_i_id = 2, ol_supply_w_id = 1, ol_quantity = 2\<rparr>" "[]" 0, OF _ _ _ _ _ refl]
    sample_fine sample_pg_ready sample_consistent sample_ids sample_types_total sample_missing
  by (auto simp: lines_good_def unused_item_request_def sample_order_def set_all_local_def)



section \<open>The other transactions\<close>

definition item_low :: "int \<Rightarrow> int \<Rightarrow> int \<Rightarrow> int \<Rightarrow> tables \<Rightarrow> int \<Rightarrow> bool" where
  "item_low w d threshold next t i \<longleftrightarrow>
     (\<exists>l \<in> set (order_line_t t). OL_W_ID l = w \<and> OL_D_ID l = d \<and> next - 20 \<le> OL_O_ID l \<and> OL_O_ID l < next \<and> OL_I_ID l = i) \<and>
     (\<exists>s \<in> set (stock_t t). is_stock w i s \<and> S_QUANTITY s < threshold)"

lemma pairs_length: "length [(). i \<leftarrow> xs, s \<leftarrow> ss, P i s] = (\<Sum>i\<leftarrow>xs. length (filter (P i) ss))"
proof -
  have "length (concat (map (\<lambda>s. if P i s then [()] else []) ss)) = length (filter (P i) ss)" for i by (induction ss) auto
  then show ?thesis by (induction xs) auto
qed

lemma low_items_distinct:
  assumes "distinct (map (\<lambda>s. (S_W_ID s, S_I_ID s)) (stock_t t))"
  shows "low_items_count w d threshold (next - 20) (next - 1) t = card {i. item_low w d threshold next t i}"
proof -
  define P where "P = (\<lambda>i (s :: stock_r). S_W_ID s = w \<and> S_I_ID s = i \<and> S_QUANTITY s < threshold)"
  define js where "js = recent_items w d (next - 20) (next - 1) t"
  have one: "length (filter (P i) ss) = (if \<exists>s \<in> set ss. P i s then 1 else 0)"
    if "distinct (map (\<lambda>s. (S_W_ID s, S_I_ID s)) ss)" for i ss
    using that
  proof (induction ss)
    case (Cons s ss)
    have "\<not> (P i s \<and> P i s1)" if s1: "s1 \<in> set ss" for s1
    proof -
      have "(S_W_ID s, S_I_ID s) \<noteq> (S_W_ID s1, S_I_ID s1)" using Cons.prems imageI [OF s1, of "\<lambda>s. (S_W_ID s, S_I_ID s)"] by auto
      then show ?thesis by (auto simp: P_def)
    qed
    then show ?case using Cons by auto
  qed simp
  have sum: "(\<Sum>i\<leftarrow>xs. if Q i then 1 else 0) = length (filter Q xs)" for Q and xs :: "int list" by (induction xs) auto
  have "low_items_count w d threshold (next - 20) (next - 1) t = (\<Sum>i\<leftarrow>js. length (filter (P i) (stock_t t)))"
    unfolding low_items_count_def js_def [symmetric] P_def by (rule pairs_length)
  also have "\<dots> = length (filter (\<lambda>i. \<exists>s \<in> set (stock_t t). P i s) js)" by (simp add: one [OF assms] sum)
  also have "\<dots> = card (set (filter (\<lambda>i. \<exists>s \<in> set (stock_t t). P i s) js))"
    by (rule distinct_card [symmetric]) (simp add: js_def recent_items_def)
  also have "set (filter (\<lambda>i. \<exists>s \<in> set (stock_t t). P i s) js) = {i. item_low w d threshold next t i}"
    by (auto simp: js_def recent_items_def item_low_def P_def is_stock_def image_iff)
  finally show ?thesis .
qed

text \<open>A Stock-Level transaction on PostgreSQL changes nothing, and when it reports success, its answer is
  the number of items of the last 20 orders of the district whose stock is below the threshold, each
  counted once.\<close>
theorem stock_level_answer_libpq:
  assumes "pg_idle e c" "types_ok (pg_types e)" "ids_ok (pg_committed c)"
    and "distinct (map (\<lambda>s. (S_W_ID s, S_I_ID s)) (stock_t (pg_committed c)))"
    and "run_state (execute_stock_level_libpq e (data, l)) c = ((Some OK, n), c1)"
  shows "pg_committed c1 = pg_committed c \<and> pg_target c1 = pg_committed c \<and>
    (\<exists>r \<in> set (district_t (pg_committed c)). in_district (sl_w_id data) (sl_d_id data) r \<and>
      n = atoi (fmt_d (int (card {i. item_low (sl_w_id data) (sl_d_id data) (sl_threshold data) (D_NEXT_O_ID r) (pg_committed c) i}))))"
  using stock_level_libpq [OF assms(1-3,5)] by (auto simp: low_items_def low_items_distinct [OF assms(4)])

definition sample_ordered :: tables where
  "sample_ordered = ordered_tables\<lparr>order_line_t := map (OL_DELIVERY_D_update (\<lambda>_. None)) (order_line_t ordered_tables @
     [\<lparr>OL_O_ID = 1, OL_D_ID = 1, OL_W_ID = 1, OL_NUMBER = 2, OL_I_ID = 1, OL_SUPPLY_W_ID = 1,
       OL_DELIVERY_D = None, OL_QUANTITY = 2, OL_AMOUNT = 10000000, OL_DIST_INFO = Some ''dist''\<rparr>])\<rparr>"

lemma sample_stock_level:
  assumes "\<And>n. \<not> spi_fails e n" "spi_text e = spi_text sample_types"
  shows "ends sample_ordered (stock_level_proc e 1 1 60) (\<lambda>r t1. r = Inr [[Pg_int 1]])"
proof -
  have a: "run_pg (spi_decimal e) (spi_now e) (Pg_stock_level_1 1 1) sample_ordered = Inr ([[Whole 2]], sample_ordered)"
    by (simp add: sample_ordered_def ordered_tables_def in_district_def)
  have b: "run_pg (spi_decimal e) (spi_now e) (Pg_stock_level_2 1 1 60 (2 - 20) (2 - 1)) sample_ordered = Inr ([[Whole 1]], sample_ordered)"
    by (simp add: sample_ordered_def ordered_tables_def low_items_count_def recent_items_def)
  have t: "spi_text e (Whole n) = fmt_d n" for n by (simp add: assms(2) sample_types_def)
  show ?thesis
    unfolding stock_level_proc_def Let_def
    apply (rule ends_plan [OF assms(1)])
    apply (rule ends_row [OF assms(1) a])
    apply (rule ends_need, simp)
    apply (simp only: t atoi_fmt_d [of 2, simplified])
    apply (rule ends_row [OF assms(1) b])
    apply (rule ends_need, simp)
    apply (rule ends_give)
    by (simp add: t atoi_fmt_d)
qed

theorem stock_level_answer_libpq_witness:
  "\<exists>c1. run_state (execute_stock_level_libpq (sample_pg None) (\<lparr>sl_w_id = 1, sl_d_id = 1, sl_threshold = 60\<rparr>, 0)) (sample_pg_conn sample_ordered) =
      ((Some OK, 1), c1) \<and> pg_committed c1 = sample_ordered"
proof -
  have "ends (pg_committed (sample_pg_conn sample_ordered)) (stock_level_proc ((pg_types (sample_pg None))\<lparr>spi_fails := g, spi_now := now\<rparr>) 1 1 60)
      (\<lambda>r t1. r = Inr [[Pg_int 1]])" if "\<And>n. \<not> g n" for g now
    unfolding sample_pg_ready(2) sample_fine(3) by (rule sample_stock_level) (use that in simp_all)
  then obtain c1 where C: "run_state (begin_and_call (sample_pg None) (\<lambda>se. stock_level_proc se 1 1 60)) (sample_pg_conn sample_ordered) =
      (Inr [[Pg_int 1]], c1)"
    using begin_and_call_fine [where f = "\<lambda>se. stock_level_proc se 1 1 60", OF sample_fine(1) sample_pg_ready(1)] by blast
  then have R: "run_state (execute_stock_level_libpq (sample_pg None) (\<lparr>sl_w_id = 1, sl_d_id = 1, sl_threshold = 60\<rparr>, 0)) (sample_pg_conn sample_ordered) =
      ((Some OK, 1), c1)"
    by (simp add: execute_stock_level_libpq_def run_bind State_Monad.return_def libpq_get_int32_def)
  have "ids_ok sample_ordered" "distinct (map (\<lambda>s. (S_W_ID s, S_I_ID s)) (stock_t sample_ordered))"
    by (simp_all add: ids_ok_def sample_ordered_def ordered_tables_def sample_tables_def sample_customer_def int32_def)
  then show ?thesis
    using stock_level_answer_libpq [OF sample_pg_ready(5) _ _ _ R] R sample_types_total
    by (auto simp: sample_pg_ready sample_fine types_total_def)
qed

end
