(* ===== verification/Pg_Types.thy ===== *)
theory Pg_Types
  imports Pg_Effects
begin

text \<open>
  The rows that the stored procedures return have the columns that the functions are declared with: the
  client reads them in binary format and relies on their types.
\<close>

fun has_type :: "pg_type \<Rightarrow> pg_value \<Rightarrow> bool" where
  "has_type ty Pg_null = True"
| "has_type ty (Pg_int n) = (ty = Integer_t)"
| "has_type ty (Pg_float4 x) = (ty = Real_t)"
| "has_type ty (Pg_float8 x) = (ty = Double_t)"
| "has_type ty (Pg_text s) = (ty = Text_t)"

text \<open>A table of rows with these columns.\<close>

definition typed_rows :: "pg_type list \<Rightarrow> pg_value list list \<Rightarrow> bool" where
  "typed_rows tys rows \<longleftrightarrow> list_all (list_all2 has_type tys) rows"

lemma type_in_typed: "type_in e ty v = Some x \<Longrightarrow> has_type ty x"
  by (auto simp: type_in_def split: option.splits pg_type.splits)

lemma those_map: "those xs = Some ys \<Longrightarrow> xs = map Some ys"
proof (induction xs arbitrary: ys)
  case (Cons x xs)
  then show ?case by (cases x) (auto split: option.splits)
qed simp

lemma build_tuple_typed:
  assumes "build_tuple e tys vs = Some row" "length vs = length tys"
  shows "list_all2 has_type tys row"
proof -
  have row: "map (\<lambda>(ty, v). type_in e ty v) (zip tys vs) = map Some row"
    using those_map assms(1) unfolding build_tuple_def by blast
  have len: "length row = length tys" using arg_cong [OF row, of length] assms(2) by simp
  moreover have "has_type (tys ! i) (row ! i)" if "i < length tys" for i
    using arg_cong [OF row, of "\<lambda>l. l ! i"] that assms(2) len by (auto intro: type_in_typed)
  ultimately show ?thesis by (simp add: list_all2_conv_all_nth)
qed

lemma typed_rows_yield:
  assumes "list_all (\<lambda>vs. length vs = length tys) vss"
  shows "yields t (return_rows e tys vss) (\<lambda>rows t1. typed_rows tys rows)"
proof (rule yields_rows)
  fix rows assume "those (map (build_tuple e tys) vss) = Some rows"
  then have rows: "map (build_tuple e tys) vss = map Some rows" by (rule those_map)
  have "list_all2 has_type tys row" if m: "row \<in> set rows" for row
  proof -
    obtain i where i: "i < length rows" "rows ! i = row" using m unfolding in_set_conv_nth by blast
    have len: "length rows = length vss" using arg_cong [OF rows, of length] by simp
    have "build_tuple e tys (vss ! i) = Some row" using arg_cong [OF rows, of "\<lambda>l. l ! i"] i len by simp
    moreover have "length (vss ! i) = length tys" using assms i(1) len by (simp add: list_all_length)
    ultimately show ?thesis by (rule build_tuple_typed)
  qed
  then show "typed_rows tys rows" by (simp add: typed_rows_def list_all_iff)
qed

section \<open>The parts of the procedures\<close>

lemmas yields_steps = yields_plan yields_let yields_row yields_execute yields_need yields_need_all yields_if yields_raise yields_option

lemma any_line_yields: "(\<And>r t1. yields t1 (k r) Q) \<Longrightarrow> yields t (proc_order_line e w d n i ol k) Q"
  unfolding proc_order_line_def pg_brand_def by (intro yields_steps)

lemma any_lines_yield: "(\<And>rs t1. yields t1 (k rs) Q) \<Longrightarrow> yields t (proc_order_lines e w d n i ols k) Q"
proof (induction ols arbitrary: i t k)
  case (Cons ol ols)
  show ?case unfolding proc_order_lines.simps by (rule any_line_yields, rule Cons.IH, rule Cons.prems)
qed simp

lemma any_districts_yield: "(\<And>ps t1. yields t1 (k ps) Q) \<Longrightarrow> yields t (proc_districts e w carrier ds k) Q"
proof (induction ds arbitrary: t k)
  case (Cons d ds)
  show ?case unfolding proc_districts.simps by (intro yields_steps; rule Cons.IH; rule Cons.prems)
qed simp

lemma any_customer_yields: "(\<And>c t1. yields t1 (k c) Q) \<Longrightarrow> yields t (proc_customer e c_id s k) Q"
  unfolding proc_customer_def by (intro yields_steps)

lemma any_pay_yields: "(\<And>b c t1. yields t1 (k b c) Q) \<Longrightarrow> yields t (proc_pay e credit h i w d note k) Q"
  unfolding proc_pay_def by (intro yields_steps)

lemma six_parts_yield:
  assumes "\<And>vs. length vs = 6 \<Longrightarrow> yields t (k vs) Q"
  shows "yields t (proc_address e r k) Q"
  unfolding proc_address_def
proof (rule yields_need_all)
  fix ss assume "map (spi_getvalue e r) [1..6] = map Some ss"
  then have "length (map (spi_getvalue e r) [1..6]) = length (map Some ss)" by (rule arg_cong)
  then have "length ss = 6" by simp
  then show "yields t (k (map2 staged [160, 320, 320, 320, 32, 36] ss)) Q" by (intro assms) simp
qed

lemma delivery_typed: "yields t (delivery_proc e w carrier) (\<lambda>rows t1. typed_rows delivery_columns rows)"
  unfolding delivery_proc_def
  by (intro yields_plan any_districts_yield typed_rows_yield) (auto simp: list_all_iff delivery_columns_def)

lemma new_order_typed:
  "yields t (new_order_proc e w d c l n ols) (\<lambda>rows t1. typed_rows new_order_columns rows)"
  unfolding new_order_proc_def
  by (intro yields_steps any_lines_yield typed_rows_yield) (auto simp: list_all_iff new_order_columns_def new_order_values_def)

lemma order_status_typed:
  "yields t (order_status_proc e c w d nm) (\<lambda>rows t1. typed_rows order_status_columns rows)"
  unfolding order_status_proc_def
  by (intro yields_steps any_customer_yields typed_rows_yield) (auto simp: list_all_iff order_status_columns_def)

lemma payment_typed:
  "yields t (payment_proc e w d c c_w c_d nm h) (\<lambda>rows t1. typed_rows payment_columns rows)"
proof -
  have row: "list_all (\<lambda>vs. length vs = length payment_columns) [map Some (payment_values wv dv cv b cd hd_text i)]"
    if "length wv = 6" "length dv = 6" "map f [1..14] = map Some cv" for wv dv cv b cd hd_text i and f :: "int \<Rightarrow> bytes option"
  proof -
    have "length cv = 14" using arg_cong [OF that(3), of length] by simp
    then show ?thesis using that(1,2) by (simp add: payment_columns_def payment_values_def)
  qed
  show ?thesis
    unfolding payment_proc_def
    by (intro yields_steps six_parts_yield any_customer_yields any_pay_yields typed_rows_yield) (rule row; assumption)+
qed

lemma stock_level_typed: "yields t (stock_level_proc e w d threshold) (\<lambda>rows t1. typed_rows [Integer_t] rows)"
  unfolding stock_level_proc_def by (intro yields_steps yields_give) (simp add: typed_rows_def)

text \<open>The rows of a result, if the procedure gave one.\<close>

definition result_typed :: "pg_type list \<Rightarrow> pg_value list list proc \<Rightarrow> backend \<Rightarrow> bool" where
  "result_typed tys m b = (case run_state m b of (Inr rows, b1) \<Rightarrow> typed_rows tys rows | (Inl err, b1) \<Rightarrow> True)"

lemma yields_typed: "(\<And>t. yields t m (\<lambda>rows t1. typed_rows tys rows)) \<Longrightarrow> result_typed tys m b"
  using proc_yieldsD by (fastforce simp: result_typed_def split: prod.split sum.split)


end
