(* ===== verification/Driver_Main.thy ===== *)
theory Driver_Main
  imports Driver Nonsp
begin

text \<open>
  The command line and the main program of the driver (\<open>src/src/driver_main.c\<close>) as it is built with
  one thread per terminal, and the integrity check of \<open>src/src/driver.c\<close>: pairs of a flag and its
  value, the defaults of the range of warehouses, the checks, and the start of the terminals.
\<close>

section \<open>Arguments\<close>

record driver_main =
  dm_driver :: driver
  perform_integrity_check :: bool
  output_path :: "bytes option"
  fork_per_processor :: int

definition set_cardinality :: "int \<Rightarrow> bytes \<Rightarrow> driver \<Rightarrow> driver" where
  "set_cardinality tbl v d = d\<lparr>dr_cardinality := snd (set_table_cardinality tbl (atoi v) (dr_cardinality d))\<rparr>"

definition set_share :: "int \<Rightarrow> bytes \<Rightarrow> driver \<Rightarrow> driver" where
  "set_share transaction v d = d\<lparr>dr_mix := snd (set_transaction_mix transaction (atof v) (dr_mix d))\<rparr>"

text \<open>The flags that set a field of the driver's settings; the database options have no effect here.\<close>

definition driver_flag :: "bytes \<Rightarrow> bytes \<Rightarrow> driver \<Rightarrow> driver option" where
  "driver_flag flag v d =
     (if flag = ''a'' then Some d
      else if flag = ''b'' then Some d
      else if flag = ''d'' then Some (snd (set_client_hostname v d))
      else if flag = ''p'' then Some (snd (set_client_port (atoi v) d))
      else if flag = ''L'' then Some (d\<lparr>terminals_limit := atoi v\<rparr>)
      else if flag = ''l'' then Some (snd (set_duration (atoi v) d))
      else if flag = ''w'' then Some (set_cardinality TABLE_WAREHOUSE v d)
      else if flag = ''c'' then Some (set_cardinality TABLE_CUSTOMER v d)
      else if flag = ''i'' then Some (set_cardinality TABLE_ITEM v d)
      else if flag = ''o'' then Some (set_cardinality TABLE_ORDER v d)
      else if flag = ''s'' then Some (set_cardinality TABLE_STOCK v d)
      else if flag = ''n'' then Some (set_cardinality TABLE_NEW_ORDER v d)
      else if flag = ''q'' then Some (set_share PAYMENT v d)
      else if flag = ''r'' then Some (set_share ORDER_STATUS v d)
      else if flag = ''e'' then Some (set_share DELIVERY v d)
      else if flag = ''t'' then Some (set_share STOCK_LEVEL v d)
      else if flag = ''wmin'' then Some (d\<lparr>w_id_min := atoi v\<rparr>)
      else if flag = ''wmax'' then Some (d\<lparr>w_id_max := atoi v\<rparr>)
      else if flag = ''ktd'' then Some (d\<lparr>key_time := (key_time d)\<lparr>pt_delivery := atoi v\<rparr>\<rparr>)
      else if flag = ''ktn'' then Some (d\<lparr>key_time := (key_time d)\<lparr>pt_new_order := atoi v\<rparr>\<rparr>)
      else if flag = ''kto'' then Some (d\<lparr>key_time := (key_time d)\<lparr>pt_order_status := atoi v\<rparr>\<rparr>)
      else if flag = ''ktp'' then Some (d\<lparr>key_time := (key_time d)\<lparr>pt_payment := atoi v\<rparr>\<rparr>)
      else if flag = ''kts'' then Some (d\<lparr>key_time := (key_time d)\<lparr>pt_stock_level := atoi v\<rparr>\<rparr>)
      else if flag = ''ttd'' then Some (d\<lparr>think_time := (think_time d)\<lparr>pt_delivery := atoi v\<rparr>\<rparr>)
      else if flag = ''ttn'' then Some (d\<lparr>think_time := (think_time d)\<lparr>pt_new_order := atoi v\<rparr>\<rparr>)
      else if flag = ''tto'' then Some (d\<lparr>think_time := (think_time d)\<lparr>pt_order_status := atoi v\<rparr>\<rparr>)
      else if flag = ''ttp'' then Some (d\<lparr>think_time := (think_time d)\<lparr>pt_payment := atoi v\<rparr>\<rparr>)
      else if flag = ''tts'' then Some (d\<lparr>think_time := (think_time d)\<lparr>pt_stock_level := atoi v\<rparr>\<rparr>)
      else if flag = ''tpw'' then Some (d\<lparr>terminals_per_warehouse := atoi v\<rparr>)
      else if flag = ''sleep'' then Some (d\<lparr>client_conn_sleep := atoi v\<rparr>)
      else if flag = ''spread'' then Some (d\<lparr>spread := atoi v\<rparr>)
      else if flag = ''altered'' then Some (d\<lparr>mode_altered := atoi v\<rparr>)
      else None)"

text \<open>
  One flag with its value. The test for a slash at the end of the path looks at the byte that ends the
  string, so it never removes one. \<open>alloc n\<close>: whether \<open>malloc\<close> of \<open>n\<close> bytes succeeds.
\<close>

definition string_byte :: "bytes \<Rightarrow> nat \<Rightarrow> char" where
  "string_byte s i = (if i < length s then s ! i else CHR 0x00)"

definition set_output :: "(nat \<Rightarrow> bool) \<Rightarrow> bytes \<Rightarrow> driver_main \<Rightarrow> driver_main option" where
  "set_output alloc v m = (let n = length v in
     if \<not> alloc (n + 1) then None
     else Some (m\<lparr>output_path := Some (if string_byte v n = CHR ''/'' then take n v else v)\<rparr>))"

definition main_flag :: "(nat \<Rightarrow> bool) \<Rightarrow> bytes \<Rightarrow> bytes \<Rightarrow> driver_main \<Rightarrow> driver_main option" where
  "main_flag alloc flag v m =
     (if flag = ''z'' then Some (m\<lparr>perform_integrity_check := True\<rparr>)
      else if flag = ''outdir'' then set_output alloc v m
      else if flag = ''fpp'' then Some (m\<lparr>fork_per_processor := atoi v\<rparr>)
      else (case driver_flag flag v (dm_driver m) of
          None \<Rightarrow> None
        | Some d \<Rightarrow> Some (m\<lparr>dm_driver := d\<rparr>)))"

text \<open>The loop over the pairs; None for an error. The first byte of a flag is not looked at.\<close>

fun parse_pairs :: "(nat \<Rightarrow> bool) \<Rightarrow> bytes list \<Rightarrow> driver_main \<Rightarrow> driver_main option" where
  "parse_pairs alloc [] m = Some m"
| "parse_pairs alloc [arg] m = None"
| "parse_pairs alloc (arg # v # args) m =
     (if length arg < 2 then None
      else Option.bind (main_flag alloc (tl arg) v m) (parse_pairs alloc args))"

definition parse_arguments :: "(nat \<Rightarrow> bool) \<Rightarrow> bytes list \<Rightarrow> driver_main \<Rightarrow> driver_main option" where
  "parse_arguments alloc argv m =
     (if length argv < 9 then None
      else (case parse_pairs alloc (tl argv) m of
          None \<Rightarrow> None
        | Some m1 \<Rightarrow>
            if output_path m1 = None then (if alloc 2 then Some (m1\<lparr>output_path := Some ''.''\<rparr>) else None)
            else Some m1))"

section \<open>The main program\<close>

text \<open>
  The integrity check of the driver: without a connection the main thread ends (and with it the
  process, with status 0), otherwise the status is that of the reply, or the byte pattern on the stack
  if there was none.
\<close>

datatype checked = Thread_exit | Checked int

definition integrity_terminal_worker :: "int \<Rightarrow> int option \<Rightarrow> int \<Rightarrow> checked" where
  "integrity_terminal_worker sockfd answer stack =
     (if sockfd < 1 then Thread_exit else Checked (case answer of Some st \<Rightarrow> st | None \<Rightarrow> stack))"

record main_env =
  alloc_ok :: "nat \<Rightarrow> bool"
  logging_ok :: bool
  integrity :: checked
  threads :: thread_env

text \<open>
  The exit status, and what the terminals did if they were started. \<open>main\<close> does not look at the result
  of \<open>start_driver\<close>.
\<close>

datatype main_run = Exit int | Ran "driver_run option" driver

definition initial_main :: driver_main where
  "initial_main = \<lparr>dm_driver = snd (init_driver (driver_globals (snd init_common))), perform_integrity_check = False,
     output_path = None, fork_per_processor = 1\<rparr>"

definition default_range :: "driver \<Rightarrow> driver" where
  "default_range d = (let d1 = (if w_id_min d = 0 then d\<lparr>w_id_min := 1\<rparr> else d)
     in if w_id_max d1 = 0 then d1\<lparr>w_id_max := warehouses (dr_cardinality d1)\<rparr> else d1)"

definition run_main :: "main_env \<Rightarrow> bytes list \<Rightarrow> main_run" where
  "run_main e argv = (case parse_arguments (alloc_ok e) argv initial_main of
     None \<Rightarrow> Exit 1
   | Some m \<Rightarrow>
       if \<not> logging_ok e then Exit 1
       else let d = default_range (dm_driver m) in
         if w_id_min d > w_id_max d then Exit 1
         else if w_id_max d > warehouses (dr_cardinality d) then Exit 1
         else (case recalculate_mix (dr_mix d) of (rc, mix) \<Rightarrow>
           let d1 = d\<lparr>dr_mix := mix\<rparr> in
           if rc \<noteq> OK then Exit 1
           else if perform_integrity_check m \<and> integrity e = Thread_exit then Exit 0
           else if perform_integrity_check m \<and> integrity e \<noteq> Checked OK then Exit 1
           else Ran (start_driver (threads e) d1) d1))"

section \<open>Properties\<close>

text \<open>The arguments for the settings with a numeric value.\<close>

definition setting :: "bytes \<Rightarrow> int \<Rightarrow> bytes list" where
  "setting flag n = [CHR ''-'' # flag, fmt_d n]"

definition settings_arguments :: "driver \<Rightarrow> bytes list" where
  "settings_arguments d = concat [
     setting ''p'' (client_port d), setting ''L'' (terminals_limit d), setting ''l'' (duration d),
     setting ''w'' (warehouses (dr_cardinality d)), setting ''c'' (customers (dr_cardinality d)),
     setting ''i'' (items (dr_cardinality d)), setting ''o'' (orders (dr_cardinality d)),
     setting ''n'' (new_orders (dr_cardinality d)),
     setting ''wmin'' (w_id_min d), setting ''wmax'' (w_id_max d),
     setting ''ktd'' (pt_delivery (key_time d)), setting ''ktn'' (pt_new_order (key_time d)),
     setting ''kto'' (pt_order_status (key_time d)), setting ''ktp'' (pt_payment (key_time d)),
     setting ''kts'' (pt_stock_level (key_time d)),
     setting ''ttd'' (pt_delivery (think_time d)), setting ''ttn'' (pt_new_order (think_time d)),
     setting ''tto'' (pt_order_status (think_time d)), setting ''ttp'' (pt_payment (think_time d)),
     setting ''tts'' (pt_stock_level (think_time d)),
     setting ''tpw'' (terminals_per_warehouse d), setting ''sleep'' (client_conn_sleep d),
     setting ''spread'' (spread d), setting ''altered'' (mode_altered d)]"

definition settings_values :: "driver \<Rightarrow> int list" where
  "settings_values d = [client_port d, terminals_limit d, duration d, warehouses (dr_cardinality d),
     customers (dr_cardinality d), items (dr_cardinality d), orders (dr_cardinality d), new_orders (dr_cardinality d),
     w_id_min d, w_id_max d,
     pt_delivery (key_time d), pt_new_order (key_time d), pt_order_status (key_time d), pt_payment (key_time d),
     pt_stock_level (key_time d),
     pt_delivery (think_time d), pt_new_order (think_time d), pt_order_status (think_time d), pt_payment (think_time d),
     pt_stock_level (think_time d),
     terminals_per_warehouse d, client_conn_sleep d, spread d, mode_altered d]"

lemma parse_setting:
  assumes "flag \<noteq> []" "flag \<noteq> ''z''" "flag \<noteq> ''outdir''" "flag \<noteq> ''fpp''" "driver_flag flag (fmt_d n) (dm_driver m) = Some d"
  shows "parse_pairs alloc (setting flag n @ args) m = parse_pairs alloc args (m\<lparr>dm_driver := d\<rparr>)"
  using assms by (cases flag) (auto simp add: setting_def main_flag_def)

text \<open>The flags that \<open>settings_arguments\<close> uses, on a value that is read back.\<close>

lemmas flag_simps = driver_flag_def set_client_port_def set_duration_def set_cardinality_def set_table_cardinality_def table_defs

lemma settings_parsed:
  assumes "\<forall>n \<in> set (settings_values d). - (2 ^ 31) \<le> n \<and> n < 2 ^ 31"
  shows "parse_pairs alloc (settings_arguments d) m = Some (m\<lparr>dm_driver := d\<lparr>hostname := hostname (dm_driver m),
    dr_mix := dr_mix (dm_driver m), stop_time := stop_time (dm_driver m),
    dr_cardinality := (dr_cardinality d)\<lparr>districts := districts (dr_cardinality (dm_driver m))\<rparr>\<rparr>\<rparr>)"
proof -
  have r: "atoi (fmt_d n) = n" if "n \<in> set (settings_values d)" for n
    using assms that by (intro atoi_fmt_d) auto
  note v = r [unfolded settings_values_def, simplified]
  show ?thesis
    by (simp add: settings_arguments_def parse_setting parse_setting [where args = "[]", simplified] flag_simps v)
qed

text \<open>C37: The command line that lists settings with their flags is read back: whatever 32 bit numbers they
  are, negative ones included, \<open>parse_arguments\<close> restores each of them, and leaves the host name, the
  transaction mix and the other settings as they were.\<close>
theorem arguments_read_back:
  assumes "\<forall>n \<in> set (settings_values d). - (2 ^ 31) \<le> n \<and> n < 2 ^ 31" "output_path m = None" "alloc 2"
  shows "parse_arguments alloc (program # settings_arguments d) m =
    Some (m\<lparr>dm_driver := d\<lparr>hostname := hostname (dm_driver m), dr_mix := dr_mix (dm_driver m), stop_time := stop_time (dm_driver m),
      dr_cardinality := (dr_cardinality d)\<lparr>districts := districts (dr_cardinality (dm_driver m))\<rparr>\<rparr>, output_path := Some ''.''\<rparr>)"
proof -
  have "\<not> length (program # settings_arguments d) < 9" by (simp add: settings_arguments_def setting_def)
  then show ?thesis using assms(2,3) unfolding parse_arguments_def if_not_P by (simp add: settings_parsed [OF assms(1)])
qed

theorem arguments_read_back_witness:
  "\<exists>m. parse_arguments (\<lambda>_. True) (''driver'' # settings_arguments (sample_driver\<lparr>client_conn_sleep := -7\<rparr>)) initial_main = Some m \<and>
    client_conn_sleep (dm_driver m) = -7 \<and> w_id_max (dm_driver m) = 1"
proof -
  have "\<forall>n \<in> set (settings_values (sample_driver\<lparr>client_conn_sleep := -7\<rparr>)). - (2 ^ 31) \<le> n \<and> n < 2 ^ 31"
    by (simp add: settings_values_def sample_driver_def driver_globals_def init_common_def CUSTOMER_CARDINALITY_def
        ITEM_CARDINALITY_def ORDER_CARDINALITY_def NEW_ORDER_CARDINALITY_def)
  from arguments_read_back [OF this, of initial_main "\<lambda>_. True" "''driver''"] show ?thesis
    by (simp add: initial_main_def sample_driver_def)
qed

lemma default_range_fields:
  "w_id_min (default_range d) = (if w_id_min d = 0 then 1 else w_id_min d)"
  "w_id_max (default_range d) = (if w_id_max d = 0 then warehouses (dr_cardinality d) else w_id_max d)"
  "dr_cardinality (default_range d) = dr_cardinality d" "dr_mix (default_range d) = dr_mix d"
  "terminals_limit (default_range d) = terminals_limit d" "spread (default_range d) = spread d"
  by (simp_all add: default_range_def Let_def)

text \<open>Terminals are started only for a range of warehouses that is not empty and ends inside the
  database, and with a transaction mix that leaves a share of at least zero for New-Order and whose
  thresholds have been computed, whatever the command line and whatever fails before.\<close>
theorem terminals_checked:
  assumes "run_main e argv = Ran r d"
  shows "r = start_driver (threads e) d \<and> w_id_min d \<noteq> 0 \<and> w_id_min d \<le> w_id_max d \<and>
    w_id_max d \<le> warehouses (dr_cardinality d) \<and> 0 \<le> new_order_actual (dr_mix d) \<and>
    new_order_threshold (dr_mix d) = new_order_actual (dr_mix d) \<and>
    payment_threshold (dr_mix d) = fl (new_order_threshold (dr_mix d) + payment_actual (dr_mix d))"
proof -
  obtain m where m: "parse_arguments (alloc_ok e) argv initial_main = Some m"
    using assms by (auto simp: run_main_def split: option.splits)
  define d0 where "d0 = default_range (dm_driver m)"
  obtain rc mix where x: "recalculate_mix (dr_mix d0) = (rc, mix)" by (cases "recalculate_mix (dr_mix d0)")
  have c: "d = d0\<lparr>dr_mix := mix\<rparr>" "r = start_driver (threads e) d" "rc = OK" "w_id_min d0 \<le> w_id_max d0"
    "w_id_max d0 \<le> warehouses (dr_cardinality d0)"
    using assms m x by (auto simp: run_main_def Let_def d0_def split: if_splits)
  then have ok: "recalculate_mix (dr_mix d0) = (OK, dr_mix d)" using x by simp
  have "w_id_min d0 \<noteq> 0" by (simp add: d0_def default_range_fields)
  then show ?thesis using c recalculate_ok(1-3) [OF ok] by simp
qed

text \<open>Arguments for a run without Payment, Order-Status, Delivery and Stock-Level transactions.\<close>

definition plain_arguments :: "bytes list" where
  "plain_arguments = [''driver'', ''-q'', ''0'', ''-r'', ''0'', ''-e'', ''0'', ''-t'', ''0'']"

definition sample_main :: main_env where
  "sample_main = \<lparr>alloc_ok = (\<lambda>_. True), logging_ok = True, integrity = Thread_exit, threads = all_well\<rparr>"

lemma atof_0: "atof ''0'' = 0"
  by (simp add: atof_def is_space_def is_digit_def digits_value_def)

lemma run_main_ran:
  assumes "parse_arguments (alloc_ok e) argv initial_main = Some m" "d = default_range (dm_driver m)" "logging_ok e"
    "\<not> perform_integrity_check m" "w_id_min d \<le> w_id_max d" "w_id_max d \<le> warehouses (dr_cardinality d)"
    "recalculate_mix (dr_mix d) = (OK, mix)"
  shows "run_main e argv = Ran (start_driver (threads e) (d\<lparr>dr_mix := mix\<rparr>)) (d\<lparr>dr_mix := mix\<rparr>)"
  using assms by (simp add: run_main_def Let_def)



end
