(* ===== verification/Event_Driver.thy ===== *)
theory Event_Driver
  imports Driver
begin

text \<open>
  The driver with one event loop per process (\<open>src/src/driver2.c\<close>): how the warehouses are
  distributed over the processes, the terminals that a process starts, and its loop, in which the end
  of the thinking time, the end of the keying time and an answer of the client each run a callback.
  The library \<open>libev\<close> chooses the next callback among the active watchers, so the loop is a step
  relation; the answers, the times and the success of the system calls are arguments.
\<close>

section \<open>Processes\<close>

text \<open>The number of processes: one per processor and \<open>fork_per_processor\<close>, at most one per warehouse.\<close>

definition warehouse_count :: "driver \<Rightarrow> int" where
  "warehouse_count d = w_id_max d - w_id_min d + 1"

definition max_fork :: "int \<Rightarrow> int \<Rightarrow> driver \<Rightarrow> int" where
  "max_fork nprocs fork_per_processor d =
     (if warehouse_count d < nprocs * fork_per_processor then warehouse_count d else nprocs * fork_per_processor)"

definition partition_size :: "driver \<Rightarrow> int \<Rightarrow> rat" where
  "partition_size d m = fl (of_int (warehouse_count d) / of_int m)"

text \<open>The warehouses of part \<open>l\<close> of \<open>m\<close>, from \<open>mymin\<close> to \<open>mymax\<close>; \<open>ps\<close> is the partition size.\<close>

definition mymin :: "driver \<Rightarrow> rat \<Rightarrow> int \<Rightarrow> int" where
  "mymin d ps l = w_id_min d + c_trunc (fl (of_int l * ps))"

definition mymax :: "driver \<Rightarrow> rat \<Rightarrow> int \<Rightarrow> int \<Rightarrow> int" where
  "mymax d ps m l = (if l \<noteq> m - 1 then w_id_min d + c_trunc (fl (of_int (l + 1) * ps)) - 1 else w_id_max d)"

text \<open>
  The loop that forks: the numbers and parts of the children, and what the parent does then: it takes
  the last part itself, or returns because \<open>fork\<close> failed. Without a part (when \<open>fork_per_processor\<close>
  is not positive) the loop is left at once, and both bounds are 0.
\<close>

record part =
  part_no :: int
  part_min :: int
  part_max :: int

function fork_loop :: "(int \<Rightarrow> bool) \<Rightarrow> driver \<Rightarrow> rat \<Rightarrow> int \<Rightarrow> int \<Rightarrow> part list \<times> part option" where
  "fork_loop fork_ok d ps m l =
     (if l < m then
        let p = \<lparr>part_no = l, part_min = mymin d ps l, part_max = mymax d ps m l\<rparr>
        in if l = m - 1 then ([], Some p)
           else if \<not> fork_ok l then ([], None)
           else (case fork_loop fork_ok d ps m (l + 1) of (children, parent) \<Rightarrow> (p # children, parent))
      else ([], Some \<lparr>part_no = l, part_min = 0, part_max = 0\<rparr>))"
  by auto
termination by (relation "measure (\<lambda>(fork_ok, d, ps, m, l). nat (m - l))") auto

declare fork_loop.simps [simp del]

text \<open>The processors that a process may run on: a child adds its own to the set of its parent.\<close>

definition processor_set :: "int \<Rightarrow> int \<Rightarrow> int \<Rightarrow> int set" where
  "processor_set nprocs m l = (if l = m - 1 then {c_mod (m - 1) nprocs} else {c_mod (m - 1) nprocs, c_mod l nprocs})"

text \<open>How long the parent sleeps after a fork, in milliseconds, the ramp-up time and the stop time.\<close>

definition fork_sleep_ms :: "driver \<Rightarrow> part \<Rightarrow> int" where
  "fork_sleep_ms d p = client_conn_sleep d * (part_max p - part_min p + 1) * terminals_per_warehouse d"

definition event_start_times :: "driver \<Rightarrow> int \<Rightarrow> int \<times> int" where
  "event_start_times d now =
     (let t = cast_int (c_trunc (fl (fl (fl (of_int (client_conn_sleep d) / 1000) *
            of_int (terminals_per_warehouse d)) * of_int (warehouse_count d))))
      in (t, cast_int (now + duration d + t)))"

section \<open>Terminals\<close>

text \<open>
  The part of \<open>struct rte_events\<close> that the two event drivers share: the watchers of the keying time and
  of the thinking time with their delays in seconds, None when they are not active, the home, the mean
  think time and the transaction with its data and its status. The times of the request and the
  answer are part of the measured response time.
\<close>

record rte_events =
  kt :: "int option"
  tt :: "rat option"
  rte_w_id :: int
  rte_d_id :: int
  mean_think_time :: int
  rte_transaction :: int
  rte_data :: "transaction_data_t option"
  rte_status :: int

text \<open>The terminals of this driver have a connection to the client, None when it is closed, too.\<close>

record rte_net = rte_events +
  recvtxn :: bool
  socketfd :: "int option"

record 't event_loop =
  loop_rng :: rng
  rte :: "'t list"
  happened :: "(nat \<times> event) list"

definition new_terminal :: "int \<Rightarrow> int \<Rightarrow> int \<Rightarrow> rte_net" where
  "new_terminal fd w_id d_id = \<lparr>kt = None, tt = Some 0, rte_w_id = w_id, rte_d_id = d_id, mean_think_time = 0,
     rte_transaction = 0, rte_data = None, rte_status = 0, recvtxn = False, socketfd = Some fd\<rparr>"

definition connect_terminal :: "(nat \<Rightarrow> int) \<Rightarrow> nat \<Rightarrow> int \<Rightarrow> int \<Rightarrow> rte_net option" where
  "connect_terminal connect k w_id d_id = (if connect k < 1 then None else Some (new_terminal (connect k) w_id d_id))"

text \<open>
  The loops that start the terminals; \<open>mk\<close> makes the terminal \<open>k\<close>, or fails. The array has \<open>cap\<close>
  elements; a loop that does not advance runs beyond it.
\<close>

datatype 't started = Started "'t list" | No_client "'t list" | Outside_array

function start_row :: "nat \<Rightarrow> int \<Rightarrow> (nat \<Rightarrow> int \<Rightarrow> int \<Rightarrow> 't option) \<Rightarrow> int \<Rightarrow> int \<Rightarrow> int \<Rightarrow> 't list \<Rightarrow> 't started" where
  "start_row cap step mk mx j i ts =
     (if i < mx + 1 then
        (if cap \<le> length ts then Outside_array
         else (case mk (length ts) i (j + 1) of
             None \<Rightarrow> No_client ts
           | Some t \<Rightarrow> start_row cap step mk mx j (i + step) (ts @ [t])))
      else Started ts)"
  by auto
termination by (relation "measure (\<lambda>(cap, step, mk, mx, j, i, ts). cap - length ts)") auto

declare start_row.simps [simp del]

fun start_rows :: "nat \<Rightarrow> int \<Rightarrow> (nat \<Rightarrow> int \<Rightarrow> int \<Rightarrow> 't option) \<Rightarrow> part \<Rightarrow> int list \<Rightarrow> 't list \<Rightarrow> 't started" where
  "start_rows cap step mk p [] ts = Started ts"
| "start_rows cap step mk p (j # js) ts =
     (case start_row cap step mk (part_max p) j (part_min p) ts of
        Started ts' \<Rightarrow> start_rows cap step mk p js ts'
      | No_client ts' \<Rightarrow> No_client ts'
      | Outside_array \<Rightarrow> Outside_array)"

definition start_all :: "(nat \<Rightarrow> int \<Rightarrow> int \<Rightarrow> 't option) \<Rightarrow> driver \<Rightarrow> part \<Rightarrow> 't started" where
  "start_all mk d p = start_rows (nat ((part_max p - part_min p + 1) * terminals_per_warehouse d))
     (spread d) mk p [0..terminals_per_warehouse d - 1] []"

definition start_terminals :: "(nat \<Rightarrow> int) \<Rightarrow> driver \<Rightarrow> part \<Rightarrow> rte_net started" where
  "start_terminals connect = start_all (connect_terminal connect)"

section \<open>Callbacks\<close>

text \<open>The callback when the thinking time is over, or for the first transaction.\<close>

definition thinking_time_cb :: "driver \<Rightarrow> nat \<Rightarrow> ('a rte_events_scheme, 'b) event_loop_scheme \<Rightarrow>
    ('a rte_events_scheme, 'b) event_loop_scheme" where
  "thinking_time_cb d k s = (let t = rte s ! k in
     case run_state (round_input d (rte_w_id t) (rte_d_id t)) (loop_rng s) of
       ((w_id, d_id, (transaction, keying_time, mean), input), r) \<Rightarrow>
         s\<lparr>loop_rng := r,
           rte := (rte s)[k := t\<lparr>tt := None, kt := Some keying_time, rte_w_id := w_id, rte_d_id := d_id,
             mean_think_time := mean, rte_transaction := transaction, rte_data := input\<rparr>],
           happened := happened s @ [(k, Key keying_time)]\<rparr>)"

text \<open>The callback when the keying time is over: the request is sent, the result is not looked at.\<close>

definition keying_time_cb :: "nat \<Rightarrow> rte_net event_loop \<Rightarrow> rte_net event_loop" where
  "keying_time_cb k s = (let t = rte s ! k in
     s\<lparr>rte := (rte s)[k := t\<lparr>kt := None, recvtxn := True\<rparr>],
       happened := happened s @ [(k, Send (rte_transaction t) (the (rte_data t)))]\<rparr>)"

definition status_code :: "int \<Rightarrow> char" where
  "status_code st = (if st = OK then CHR ''C'' else if st = STATUS_ROLLBACK then CHR ''R''
     else if st = ERROR then CHR ''E'' else CHR ''X'')"

definition go_on_thinking :: "(rat \<Rightarrow> rat) \<Rightarrow> driver \<Rightarrow> int \<Rightarrow> 'a rte_events_scheme \<Rightarrow> rng \<Rightarrow> 'a rte_events_scheme \<times> rng" where
  "go_on_thinking log_c d now t r =
     (if stop_time d = 0 \<or> now < stop_time d then
        case run_state (get_think_time log_c (mean_think_time t)) r of
          (ms, r') \<Rightarrow> (t\<lparr>tt := Some (fl (of_int ms / 1000))\<rparr>, r')
      else (t, r))"

text \<open>
  The callback for an answer of the client: the status that the exchange leaves (None if it leaves it
  as it was), the response time and the time, with which it is logged and compared with the stop time.
\<close>

definition transaction_receive_cb ::
    "(rat \<Rightarrow> rat) \<Rightarrow> driver \<Rightarrow> nat \<Rightarrow> int option \<Rightarrow> rat \<Rightarrow> int \<Rightarrow> rte_net event_loop \<Rightarrow> rte_net event_loop" where
  "transaction_receive_cb log_c d k answer rt now s = (let
       t = (rte s ! k)\<lparr>rte_status := (case answer of Some st \<Rightarrow> st | None \<Rightarrow> rte_status (rte s ! k))\<rparr>;
       (t1, r) = go_on_thinking log_c d now t (loop_rng s);
       t2 = (if stop_time d = 0 \<or> now < stop_time d then t1\<lparr>recvtxn := False\<rparr>
         else t1\<lparr>recvtxn := False, socketfd := None\<rparr>)
     in s\<lparr>loop_rng := r, rte := (rte s)[k := t2],
          happened := happened s @ [(k, Log_line now (rte_transaction t) (status_code (rte_status t)) rt (rte_w_id t) (rte_d_id t))]\<rparr>)"

section \<open>The loop\<close>

text \<open>One callback of an active watcher; the loop is over when there is none.\<close>

datatype callback = Thought nat | Keyed nat | Answered nat "int option" rat int

inductive loop_step :: "(rat \<Rightarrow> rat) \<Rightarrow> driver \<Rightarrow> rte_net event_loop \<Rightarrow> callback \<Rightarrow> rte_net event_loop \<Rightarrow> bool"
  for log_c :: "rat \<Rightarrow> rat" and d :: driver where
  step_thought: "k < length (rte s) \<Longrightarrow> tt (rte s ! k) \<noteq> None \<Longrightarrow> loop_step log_c d s (Thought k) (thinking_time_cb d k s)"
| step_keyed: "k < length (rte s) \<Longrightarrow> kt (rte s ! k) \<noteq> None \<Longrightarrow> loop_step log_c d s (Keyed k) (keying_time_cb k s)"
| step_answered: "k < length (rte s) \<Longrightarrow> recvtxn (rte s ! k) \<Longrightarrow>
    loop_step log_c d s (Answered k answer rt now) (transaction_receive_cb log_c d k answer rt now s)"

inductive_cases loop_stepE: "loop_step log_c d s cb s'"

inductive loop_run :: "(rat \<Rightarrow> rat) \<Rightarrow> driver \<Rightarrow> rte_net event_loop \<Rightarrow> callback list \<Rightarrow> rte_net event_loop \<Rightarrow> bool"
  for log_c :: "rat \<Rightarrow> rat" and d :: driver where
  run_none: "loop_run log_c d s [] s"
| run_more: "loop_run log_c d s cbs s1 \<Longrightarrow> loop_step log_c d s1 cb s2 \<Longrightarrow> loop_run log_c d s (cbs @ [cb]) s2"

definition initial_loop :: "64 word \<Rightarrow> 't list \<Rightarrow> 't event_loop" where
  "initial_loop local_seed ts = \<lparr>loop_rng = pcg64f_srandom_r (ucast local_seed), rte = ts, happened = []\<rparr>"

section \<open>The parts\<close>

lemma c_trunc_mono: "0 \<le> x \<Longrightarrow> x \<le> y \<Longrightarrow> c_trunc x \<le> c_trunc y"
  by (simp add: c_trunc_def floor_mono)

lemma partition_size_nonneg: "0 \<le> warehouse_count d \<Longrightarrow> 0 < m \<Longrightarrow> 0 \<le> partition_size d m"
  by (simp add: partition_size_def fl_nonneg)

lemma mymin_0: "mymin d ps 0 = w_id_min d"
  by (simp add: mymin_def c_trunc_def)

lemma mymin_Suc: "l \<noteq> m - 1 \<Longrightarrow> mymin d ps (l + 1) = mymax d ps m l + 1"
  by (simp add: mymin_def mymax_def)

lemma mymin_mono:
  assumes "0 \<le> ps" "0 \<le> l" "l \<le> l'"
  shows "mymin d ps l \<le> mymin d ps l'"
proof -
  have "(of_int l :: rat) * ps \<le> of_int l' * ps" using assms by (intro mult_right_mono) simp_all
  then have "fl (of_int l * ps) \<le> fl (of_int l' * ps)" by (rule fl_mono)
  moreover have "0 \<le> fl (of_int l * ps)" using assms by (intro fl_nonneg) simp
  ultimately show ?thesis by (simp add: mymin_def c_trunc_mono)
qed

text \<open>The relative error of the quotient is too small to push the last part beyond the warehouses.\<close>

lemma mymin_last:
  assumes "0 < m" "m \<le> warehouse_count d" "warehouse_count d < 2 ^ 31"
  shows "mymin d (partition_size d m) (m - 1) \<le> w_id_max d + 1"
proof -
  define n where "n = warehouse_count d"
  define q :: rat where "q = of_int n / of_int m"
  have mn: "0 < m" "m \<le> n" "n < 2 ^ 31" using assms by (simp_all add: n_def)
  have q1: "1 \<le> q" using mn by (simp add: q_def)
  have "(2 :: rat) powi (- 1022) \<le> 2 powi 0" by (rule powi2_mono) simp
  then have "2 powi (- 1022) \<le> \<bar>q\<bar>" using q1 by simp
  then have "\<bar>fl q - q\<bar> \<le> \<bar>q\<bar> / 2 ^ 53" by (rule fl_rel_err)
  then have e: "fl q \<le> q + q / 2 ^ 53" using q1 by linarith
  have ge: "(of_int (m - 1) :: rat) \<ge> 0" using mn by simp
  have "of_int (m - 1) * fl q \<le> of_int (m - 1) * (q + q / 2 ^ 53)" by (rule mult_left_mono [OF e ge])
  also have "\<dots> = of_int m * q - q + of_int (m - 1) * q / 2 ^ 53" by (simp add: algebra_simps add_divide_distrib diff_divide_distrib)
  also have "\<dots> \<le> of_int m * q"
  proof -
    have "(of_int (m - 1) :: rat) \<le> 2 ^ 53" using mn by simp
    then have "of_int (m - 1) * q \<le> 2 ^ 53 * q" using q1 by (intro mult_right_mono) simp_all
    then show ?thesis by simp
  qed
  also have "\<dots> = of_int n" using mn by (simp add: q_def)
  finally have "fl (of_int (m - 1) * fl q) \<le> fl (of_int n)" by (rule fl_mono)
  then have le: "fl (of_int (m - 1) * fl q) \<le> of_int n" using mn by simp
  have "0 \<le> fl (of_int (m - 1) * fl q)" using ge q1 by (intro fl_nonneg mult_nonneg_nonneg) (simp_all add: fl_nonneg)
  then have "c_trunc (fl (of_int (m - 1) * fl q)) < n + 1" using le by (intro c_trunc_less) simp_all
  then show ?thesis by (simp add: mymin_def partition_size_def n_def q_def warehouse_count_def)
qed

lemma max_fork_bounds:
  "0 < nprocs * fpp \<Longrightarrow> 0 < warehouse_count d \<Longrightarrow> 0 < max_fork nprocs fpp d \<and> max_fork nprocs fpp d \<le> warehouse_count d"
  by (simp add: max_fork_def)

lemma upto_join: "(a :: int) \<le> b \<Longrightarrow> b \<le> c + 1 \<Longrightarrow> [a..b - 1] @ [b..c] = [a..c]"
proof (cases "b \<le> c")
  case False
  assume "b \<le> c + 1"
  then have "b - 1 = c" using False by simp
  then show ?thesis using False by simp
qed (simp add: upto_split1 [of a b c])

abbreviation part_range :: "part \<Rightarrow> int list" where
  "part_range p \<equiv> [part_min p..part_max p]"

text \<open>The size may belong to a division into more parts than there are processes.\<close>

lemma fork_loop_parts:
  assumes "0 < m" "m \<le> m0" "m0 \<le> warehouse_count d" "warehouse_count d < 2 ^ 31" "\<And>l. fork_ok l"
  defines "ps \<equiv> partition_size d m0"
  shows "0 \<le> l \<Longrightarrow> l < m \<Longrightarrow> \<exists>children p. fork_loop fork_ok d ps m l = (children, Some p) \<and> length children = nat (m - 1 - l) \<and>
    part_min p = mymin d ps (m - 1) \<and> concat (map part_range (children @ [p])) = [mymin d ps l..w_id_max d] \<and>
    (\<forall>p \<in> set (children @ [p]). w_id_min d \<le> part_min p \<and> part_max p \<le> w_id_max d \<and> part_min p \<le> part_max p + 1)"
proof (induction "nat (m - l)" arbitrary: l rule: less_induct)
  case less
  have m0: "0 < m0" using assms(1,2) by simp
  have ps: "0 \<le> ps" using partition_size_nonneg [OF _ m0, of d] assms(3) m0 by (simp add: ps_def)
  have low: "w_id_min d \<le> mymin d ps l" using mymin_mono [OF ps, of 0 l] less.prems by (simp add: mymin_0)
  have top: "mymin d ps l' \<le> w_id_max d + 1" if "0 \<le> l'" "l' < m" for l'
    using mymin_mono [OF ps, of l' "m0 - 1" d] mymin_last [OF m0 assms(3,4)] that assms(2) by (simp add: ps_def)
  show ?case
  proof (cases "l = m - 1")
    case True
    then show ?thesis using low top [of l] less.prems by (subst fork_loop.simps) (simp add: mymax_def)
  next
    case False
    then have l: "l + 1 < m" using less.prems by simp
    obtain children p where r: "fork_loop fork_ok d ps m (l + 1) = (children, Some p)" "length children = nat (m - 1 - (l + 1))"
      "part_min p = mymin d ps (m - 1)" "concat (map part_range (children @ [p])) = [mymin d ps (l + 1)..w_id_max d]"
      "\<forall>p \<in> set (children @ [p]). w_id_min d \<le> part_min p \<and> part_max p \<le> w_id_max d \<and> part_min p \<le> part_max p + 1"
      using less.hyps [of "l + 1"] less.prems l by auto
    define c where "c = \<lparr>part_no = l, part_min = mymin d ps l, part_max = mymax d ps m l\<rparr>"
    have f: "fork_loop fork_ok d ps m l = (c # children, Some p)"
      using False less.prems r(1) assms(5) by (subst fork_loop.simps) (simp add: c_def)
    have b: "mymax d ps m l = mymin d ps (l + 1) - 1" using mymin_Suc [OF False] by simp
    have le: "mymin d ps l \<le> mymin d ps (l + 1)" using mymin_mono [OF ps] less.prems(1) by simp
    have up: "mymin d ps (l + 1) \<le> w_id_max d + 1" using top [of "l + 1"] less.prems l by simp
    have "concat (map part_range ((c # children) @ [p])) = [mymin d ps l..w_id_max d]"
      using upto_join [OF le up] r(4) by (simp add: c_def b)
    moreover have "w_id_min d \<le> part_min c \<and> part_max c \<le> w_id_max d \<and> part_min c \<le> part_max c + 1"
      using low b up le by (simp add: c_def)
    moreover have "length (c # children) = nat (m - 1 - l)" using r(2) l by simp
    ultimately show ?thesis using f r(3,5) by (intro exI [of _ "c # children"] exI [of _ p]) simp
  qed
qed

lemma fork_loop_last: "fork_loop fork_ok d ps m l = (children, Some p) \<Longrightarrow> l < m \<Longrightarrow> part_max p = w_id_max d"
proof (induction fork_ok d ps m l arbitrary: children rule: fork_loop.induct)
  case (1 fork_ok d ps m l)
  show ?case
  proof (cases "l = m - 1")
    case True
    then show ?thesis using "1.prems" by (auto simp: fork_loop.simps [of _ _ _ m "m - 1"] mymax_def)
  next
    case False
    then obtain c where "fork_ok l" "fork_loop fork_ok d ps m (l + 1) = (c, Some p)"
      using "1.prems" by (auto simp: fork_loop.simps [of _ _ _ _ l] Let_def split: if_splits prod.splits)
    then show ?thesis using "1.IH" [OF "1.prems"(2) refl False] False "1.prems"(2) by simp
  qed
qed

section \<open>Starting the terminals\<close>

lemma start_row_ok:
  assumes "0 < step" "\<And>k w n. \<exists>t. mk k w n = Some t \<and> h t = (w, n)"
  shows "length ts + length (warehouse_list step i mx) \<le> cap \<Longrightarrow>
    \<exists>ts'. start_row cap step mk mx j i ts = Started (ts @ ts') \<and> map h ts' = map (\<lambda>i. (i, j + 1)) (warehouse_list step i mx)"
proof (induction "nat (mx + 1 - i)" arbitrary: i ts rule: less_induct)
  case less
  show ?case
  proof (cases "i \<le> mx")
    case False
    then show ?thesis using assms(1) by (subst start_row.simps) (simp add: warehouse_list_Nil)
  next
    case True
    obtain t where t: "mk (length ts) i (j + 1) = Some t" "h t = (i, j + 1)" using assms(2) by blast
    have len: "length ts + 1 + length (warehouse_list step (i + step) mx) \<le> cap"
      using less.prems True assms(1) by (simp add: warehouse_list_Cons)
    then obtain ts' where r: "start_row cap step mk mx j (i + step) (ts @ [t]) = Started ((ts @ [t]) @ ts')"
      "map h ts' = map (\<lambda>i. (i, j + 1)) (warehouse_list step (i + step) mx)"
      using less.hyps [of "i + step" "ts @ [t]"] True assms(1) by auto
    have "start_row cap step mk mx j i ts = Started (ts @ t # ts')"
      using True len t(1) r(1) by (subst start_row.simps) simp
    moreover have "map h (t # ts') = map (\<lambda>i. (i, j + 1)) (warehouse_list step i mx)"
      using r(2) t(2) True assms(1) by (simp add: warehouse_list_Cons)
    ultimately show ?thesis by (intro exI [of _ "t # ts'"]) simp
  qed
qed

lemma start_rows_ok:
  assumes "0 < step" "\<And>k w n. \<exists>t. mk k w n = Some t \<and> h t = (w, n)"
  shows "length ts + length js * length (warehouse_list step (part_min p) (part_max p)) \<le> cap \<Longrightarrow>
    \<exists>ts'. start_rows cap step mk p js ts = Started (ts @ ts') \<and>
      map h ts' = [(i, j + 1). j \<leftarrow> js, i \<leftarrow> warehouse_list step (part_min p) (part_max p)]"
proof (induction js arbitrary: ts)
  case (Cons j js)
  let ?ws = "warehouse_list step (part_min p) (part_max p)"
  obtain ts1 where a: "start_row cap step mk (part_max p) j (part_min p) ts = Started (ts @ ts1)"
    "map h ts1 = map (\<lambda>i. (i, j + 1)) ?ws"
    using start_row_ok [where mk = mk and h = h and cap = cap and ts = ts and i = "part_min p" and mx = "part_max p" and j = j, OF assms]
      Cons.prems by auto
  have "length ts1 = length ?ws" using arg_cong [OF a(2), of length] by simp
  then obtain ts2 where b: "start_rows cap step mk p js (ts @ ts1) = Started ((ts @ ts1) @ ts2)"
    "map h ts2 = [(i, j + 1). j \<leftarrow> js, i \<leftarrow> ?ws]"
    using Cons.IH [of "ts @ ts1"] Cons.prems by auto
  show ?case using a b by (intro exI [of _ "ts1 @ ts2"]) auto
qed simp

lemma warehouse_list_length: "0 < step \<Longrightarrow> i \<le> mx + 1 \<Longrightarrow> length (warehouse_list step i mx) \<le> nat (mx - i + 1)"
proof -
  assume a: "0 < step" "i \<le> mx + 1"
  have "(mx - i) div step \<le> mx - i"
  proof (cases "i \<le> mx")
    case True
    then show ?thesis using a zdiv_mono2 [of "mx - i" 1 step] by simp
  next
    case False
    then have "mx - i = - 1" using a by simp
    then show ?thesis using a by (simp add: div_eq_minus1)
  qed
  then show ?thesis by (simp add: warehouse_list_def)
qed

definition home_of :: "'a rte_events_scheme \<Rightarrow> int \<times> int" where
  "home_of t = (rte_w_id t, rte_d_id t)"

text \<open>What a process needs of its terminals at the start.\<close>

lemma start_all_ok:
  assumes "0 < spread d" "part_min p \<le> part_max p + 1" "\<And>k w n. \<exists>t. mk k w n = Some t \<and> home_of t = (w, n)"
  shows "\<exists>ts. start_all mk d p = Started ts \<and>
    map home_of ts = [(i, j). j \<leftarrow> [1..terminals_per_warehouse d], i \<leftarrow> warehouse_list (spread d) (part_min p) (part_max p)]"
proof -
  let ?ws = "warehouse_list (spread d) (part_min p) (part_max p)" and ?js = "[0..terminals_per_warehouse d - 1]"
  let ?cap = "nat ((part_max p - part_min p + 1) * terminals_per_warehouse d)"
  have "length ?js * length ?ws \<le> nat (terminals_per_warehouse d) * nat (part_max p - part_min p + 1)"
    using warehouse_list_length [OF assms(1,2)] by (intro mult_mono) simp_all
  also have "\<dots> = ?cap"
    using nat_mult_distrib [of "part_max p - part_min p + 1" "terminals_per_warehouse d"] assms(2)
    by (simp add: mult.commute [of "nat (terminals_per_warehouse d)"])
  finally have cap: "length [] + length ?js * length ?ws \<le> ?cap" by simp
  have js: "[1..n] = map (\<lambda>j. j + 1) [0..n - 1]" for n :: int
    by (rule nth_equalityI) simp_all
  have e: "[(i, j + 1). j \<leftarrow> ?js, i \<leftarrow> ?ws] = [(i, j). j \<leftarrow> [1..terminals_per_warehouse d], i \<leftarrow> ?ws]"
    by (simp add: js comp_def)
  show ?thesis
    using start_rows_ok [where mk = mk and h = home_of and cap = ?cap and ts = "[]" and js = ?js and p = p, OF assms(1,3) cap]
    unfolding start_all_def e by simp
qed

text \<open>A step that does not advance.\<close>

lemma start_row_stuck:
  assumes "step \<le> 0" "\<And>k w n. \<exists>t. mk k w n = Some t"
  shows "i \<le> mx \<Longrightarrow> start_row cap step mk mx j i ts = Outside_array"
proof (induction "cap - length ts" arbitrary: i ts rule: less_induct)
  case less
  obtain t where "mk (length ts) i (j + 1) = Some t" using assms(2) by blast
  then show ?case using less assms(1) by (subst start_row.simps) auto
qed

section \<open>The loop\<close>

text \<open>
  A terminal waits for exactly one thing, or has closed its connection; with a request being keyed in
  or answered, its data are valid for its home warehouse.
\<close>

definition waits_once :: "rte_net \<Rightarrow> bool" where
  "waits_once t \<longleftrightarrow> (if socketfd t = None then tt t = None \<and> kt t = None \<and> \<not> recvtxn t
     else (tt t \<noteq> None) \<and> kt t = None \<and> \<not> recvtxn t \<or> tt t = None \<and> kt t \<noteq> None \<and> \<not> recvtxn t \<or>
       tt t = None \<and> kt t = None \<and> recvtxn t)"

definition at_home :: "driver \<Rightarrow> 'a rte_events_scheme \<Rightarrow> bool" where
  "at_home d t \<longleftrightarrow> w_id_min d \<le> rte_w_id t \<and> rte_w_id t \<le> w_id_max d"

definition keyed_ok :: "driver \<Rightarrow> 'a rte_events_scheme \<Rightarrow> bool" where
  "keyed_ok d t \<longleftrightarrow> home_ok d (rte_w_id t) (rte_d_id t) \<and>
     (\<exists>x. rte_data t = Some x \<and> transaction_ok (dr_cardinality d) (mode_altered d) (rte_w_id t) x)"

definition terminal_inv :: "driver \<Rightarrow> rte_net \<Rightarrow> bool" where
  "terminal_inv d t \<longleftrightarrow> waits_once t \<and> at_home d t \<and> (kt t \<noteq> None \<or> recvtxn t \<longrightarrow> keyed_ok d t)"

definition requests :: "nat \<Rightarrow> (nat \<times> event) list \<Rightarrow> nat" where
  "requests k es = length (filter (\<lambda>(k', e). k' = k \<and> (case e of Send _ _ \<Rightarrow> True | _ \<Rightarrow> False)) es)"

definition log_lines :: "nat \<Rightarrow> (nat \<times> event) list \<Rightarrow> nat" where
  "log_lines k es = length (filter (\<lambda>(k', e). k' = k \<and> (case e of Log_line _ _ _ _ _ _ \<Rightarrow> True | _ \<Rightarrow> False)) es)"

definition loop_inv :: "driver \<Rightarrow> rte_net event_loop \<Rightarrow> bool" where
  "loop_inv d s \<longleftrightarrow> list_all (terminal_inv d) (rte s) \<and> list_all (\<lambda>(k, e). event_ok d e) (happened s) \<and>
     (\<forall>k < length (rte s). requests k (happened s) = log_lines k (happened s) + (if recvtxn (rte s ! k) then 1 else 0))"

lemma counts_snoc:
  "requests k (es @ [(k', e)]) = requests k es + (if k' = k \<and> (case e of Send _ _ \<Rightarrow> True | _ \<Rightarrow> False) then 1 else 0)"
  "log_lines k (es @ [(k', e)]) = log_lines k es + (if k' = k \<and> (case e of Log_line _ _ _ _ _ _ \<Rightarrow> True | _ \<Rightarrow> False) then 1 else 0)"
  by (simp_all add: requests_def log_lines_def)

lemma list_all_update: "list_all P xs \<Longrightarrow> P y \<Longrightarrow> list_all P (xs[k := y])"
  by (auto simp: list_all_iff dest!: set_update_subset_insert [THEN subsetD])

lemma loop_inv_nth: "loop_inv d s \<Longrightarrow> k < length (rte s) \<Longrightarrow> terminal_inv d (rte s ! k)"
  by (simp add: loop_inv_def list_all_length)

lemma thinking_inv:
  assumes "driver_ok d" "loop_inv d s" "k < length (rte s)" "tt (rte s ! k) \<noteq> None"
  shows "loop_inv d (thinking_time_cb d k s)"
proof -
  let ?t = "rte s ! k"
  obtain w n tr ktime mean x r where run: "run_state (round_input d (rte_w_id ?t) (rte_d_id ?t)) (loop_rng s) =
      ((w, n, (tr, ktime, mean), x), r)" by (metis surj_pair)
  have inv: "terminal_inv d ?t" by (rule loop_inv_nth [OF assms(2,3)])
  then have home: "w_id_min d \<le> rte_w_id ?t" "rte_w_id ?t \<le> w_id_max d" by (simp_all add: terminal_inv_def at_home_def)
  have ok: "home_ok d w n" "\<exists>y. x = Some y \<and> transaction_ok (dr_cardinality d) (mode_altered d) w y"
    using yieldsD [OF round_input_ok [OF assms(1) home], of "rte_d_id ?t" "loop_rng s"] run by simp_all
  define t1 where "t1 = ?t\<lparr>tt := None, kt := Some ktime, rte_w_id := w, rte_d_id := n, mean_think_time := mean,
    rte_transaction := tr, rte_data := x\<rparr>"
  have "terminal_inv d t1"
    using inv assms(4) ok unfolding terminal_inv_def waits_once_def at_home_def keyed_ok_def home_ok_def t1_def by (auto split: if_splits)
  moreover have "recvtxn t1 = recvtxn ?t" by (simp add: t1_def)
  moreover have "thinking_time_cb d k s = s\<lparr>loop_rng := r, rte := (rte s)[k := t1], happened := happened s @ [(k, Key ktime)]\<rparr>"
    by (simp add: thinking_time_cb_def run t1_def Let_def)
  ultimately show ?thesis using assms(2,3)
    by (auto simp: loop_inv_def list_all_update counts_snoc event_ok_def nth_list_update)
qed

lemma keying_inv:
  assumes "loop_inv d s" "k < length (rte s)" "kt (rte s ! k) \<noteq> None"
  shows "loop_inv d (keying_time_cb k s)"
proof -
  let ?t = "rte s ! k"
  have inv: "terminal_inv d ?t" by (rule loop_inv_nth [OF assms(1,2)])
  then have k: "keyed_ok d ?t" "\<not> recvtxn ?t" using assms(3) by (auto simp: terminal_inv_def waits_once_def split: if_splits)
  have "terminal_inv d (?t\<lparr>kt := None, recvtxn := True\<rparr>)"
    using inv assms(3) k unfolding terminal_inv_def waits_once_def at_home_def keyed_ok_def by (auto split: if_splits)
  moreover have "event_ok d (Send (rte_transaction ?t) (the (rte_data ?t)))"
    using k(1) by (auto simp: event_ok_def keyed_ok_def home_ok_def)
  ultimately show ?thesis using assms(1,2) k(2)
    by (auto simp: keying_time_cb_def Let_def loop_inv_def list_all_update counts_snoc nth_list_update)
qed

lemma think_fields:
  assumes "go_on_thinking log_c d now t r = (t1, r1)"
  shows "kt t1 = kt t" "rte_w_id t1 = rte_w_id t" "rte_d_id t1 = rte_d_id t" "rte_data t1 = rte_data t"
    "recvtxn (t1 :: rte_net) = recvtxn t" "socketfd t1 = socketfd t"
    "tt t1 = None \<longleftrightarrow> \<not> (stop_time d = 0 \<or> now < stop_time d) \<and> tt t = None"
  using assms by (auto simp: go_on_thinking_def split: if_splits prod.splits)

lemma receive_inv:
  assumes "loop_inv d s" "k < length (rte s)" "recvtxn (rte s ! k)"
  shows "loop_inv d (transaction_receive_cb log_c d k answer rt now s)"
proof -
  define t where "t = (rte s ! k)\<lparr>rte_status := (case answer of Some st \<Rightarrow> st | None \<Rightarrow> rte_status (rte s ! k))\<rparr>"
  obtain t1 r where T: "go_on_thinking log_c d now t (loop_rng s) = (t1, r)"
    by (cases "go_on_thinking log_c d now t (loop_rng s)")
  define t2 where "t2 = (if stop_time d = 0 \<or> now < stop_time d then t1\<lparr>recvtxn := False\<rparr>
    else t1\<lparr>recvtxn := False, socketfd := None\<rparr>)"
  have inv: "terminal_inv d (rte s ! k)" by (rule loop_inv_nth [OF assms(1,2)])
  then have k: "keyed_ok d (rte s ! k)" using assms(3) by (simp add: terminal_inv_def)
  have "terminal_inv d t2"
    using inv assms(3) think_fields [OF T] unfolding terminal_inv_def waits_once_def at_home_def t2_def t_def
    by (auto split: if_splits)
  moreover have "\<not> recvtxn t2" by (simp add: t2_def)
  moreover have "event_ok d (Log_line now (rte_transaction t) (status_code (rte_status t)) rt (rte_w_id t) (rte_d_id t))"
    using k by (simp add: event_ok_def keyed_ok_def t_def)
  moreover have "transaction_receive_cb log_c d k answer rt now s = s\<lparr>loop_rng := r, rte := (rte s)[k := t2],
      happened := happened s @ [(k, Log_line now (rte_transaction t) (status_code (rte_status t)) rt (rte_w_id t) (rte_d_id t))]\<rparr>"
    by (simp add: transaction_receive_cb_def T t2_def Let_def flip: t_def)
  ultimately show ?thesis using assms
    by (auto simp: loop_inv_def list_all_update counts_snoc nth_list_update)
qed

lemma step_inv: "driver_ok d \<Longrightarrow> loop_inv d s \<Longrightarrow> loop_step log_c d s cb s' \<Longrightarrow> loop_inv d s'"
  by (auto elim!: loop_stepE intro: thinking_inv keying_inv receive_inv)

lemma run_inv: "loop_run log_c d s cbs s' \<Longrightarrow> driver_ok d \<Longrightarrow> loop_inv d s \<Longrightarrow> loop_inv d s'"
  by (induction rule: loop_run.induct) (auto intro: step_inv)

lemma run_length: "loop_run log_c d s cbs s' \<Longrightarrow> length (rte s') = length (rte s)"
  by (induction rule: loop_run.induct)
    (auto elim!: loop_stepE simp: thinking_time_cb_def keying_time_cb_def transaction_receive_cb_def Let_def split: prod.split)

lemma start_row_homes:
  assumes "\<And>k w n t. mk k w n = Some t \<Longrightarrow> P w t" "0 < step"
  shows "start_row cap step mk mx j i ts = Started ts' \<Longrightarrow> t \<in> set ts' \<Longrightarrow> t \<in> set ts \<or> (\<exists>w. P w t \<and> i \<le> w \<and> w \<le> mx)"
  using assms
proof (induction cap step mk mx j i ts rule: start_row.induct)
  case (1 cap step mk mx j i ts)
  show ?case
  proof (cases "i < mx + 1")
    case False
    then show ?thesis using "1.prems" by (simp add: start_row.simps [of cap step mk mx j i])
  next
    case True
    then obtain u where c: "\<not> cap \<le> length ts" and u: "mk (length ts) i (j + 1) = Some u"
      and r: "start_row cap step mk mx j (i + step) (ts @ [u]) = Started ts'"
      using "1.prems"(1) by (auto simp: start_row.simps [of cap step mk mx j i] split: if_splits option.splits)
    have "P i u" using "1.prems"(3) u by blast
    moreover have "t \<in> set (ts @ [u]) \<or> (\<exists>w. P w t \<and> i + step \<le> w \<and> w \<le> mx)"
      by (rule "1.IH" [OF True c u r "1.prems"(2,3,4)])
    ultimately show ?thesis using True "1.prems"(4) by force
  qed
qed

lemma start_rows_homes:
  assumes "\<And>k w n t. mk k w n = Some t \<Longrightarrow> P w t" "0 < step"
  shows "start_rows cap step mk p js ts = Started ts' \<Longrightarrow> t \<in> set ts' \<Longrightarrow>
    t \<in> set ts \<or> (\<exists>w. P w t \<and> part_min p \<le> w \<and> w \<le> part_max p)"
proof (induction js arbitrary: ts)
  case (Cons j js)
  obtain ts1 where r: "start_row cap step mk (part_max p) j (part_min p) ts = Started ts1"
    "start_rows cap step mk p js ts1 = Started ts'" using Cons.prems(1) by (auto split: started.splits)
  from Cons.IH [OF r(2) Cons.prems(2)] show ?case
  proof
    assume "t \<in> set ts1"
    then show ?thesis by (rule start_row_homes [where P = P and mk = mk, OF _ assms(2) r(1), rotated]) (erule assms(1))
  qed (rule disjI2)
qed simp

lemma start_all_homes:
  assumes "\<And>k w n t. mk k w n = Some t \<Longrightarrow> P w t" "0 < spread d" "start_all mk d p = Started ts" "t \<in> set ts"
  shows "\<exists>w. P w t \<and> part_min p \<le> w \<and> w \<le> part_max p"
proof -
  have "t \<in> set [] \<or> (\<exists>w. P w t \<and> part_min p \<le> w \<and> w \<le> part_max p)"
    by (rule start_rows_homes [where P = P and mk = mk, OF _ assms(2) assms(3) [unfolded start_all_def] assms(4)]) (erule assms(1))
  then show ?thesis by simp
qed

lemma initial_inv:
  assumes "start_terminals connect d p = Started ts" "0 < spread d" "w_id_min d \<le> part_min p" "part_max p \<le> w_id_max d"
  shows "loop_inv d (initial_loop local_seed ts)"
proof -
  have "\<not> recvtxn t \<and> terminal_inv d t" if t: "t \<in> set ts" for t
  proof -
    have "\<exists>w. (\<exists>fd n. t = new_terminal fd w n) \<and> part_min p \<le> w \<and> w \<le> part_max p"
      by (rule start_all_homes [where P = "\<lambda>w t. \<exists>fd n. t = new_terminal fd w n", OF _ assms(2) assms(1) [unfolded start_terminals_def] t])
        (auto simp: connect_terminal_def split: if_splits)
    then show ?thesis using assms(3,4) by (auto simp: new_terminal_def terminal_inv_def waits_once_def at_home_def)
  qed
  then show ?thesis
    by (simp add: loop_inv_def initial_loop_def list_all_iff requests_def log_lines_def)
qed

text \<open>How many callbacks a terminal has left when the stop time is over.\<close>

definition callbacks_left :: "rte_net \<Rightarrow> nat" where
  "callbacks_left t = (if tt t \<noteq> None then 3 else if kt t \<noteq> None then 2 else if recvtxn t then 1 else 0)"

definition loop_left :: "rte_net event_loop \<Rightarrow> nat" where
  "loop_left s = sum_list (map callbacks_left (rte s))"

definition stopped :: "driver \<Rightarrow> callback \<Rightarrow> bool" where
  "stopped d cb = (case cb of Answered k answer rt now \<Rightarrow> stop_time d \<noteq> 0 \<and> stop_time d \<le> now | _ \<Rightarrow> True)"

lemma left_update:
  assumes "k < length ts" "callbacks_left t < callbacks_left (ts ! k)"
  shows "sum_list (map callbacks_left (ts[k := t])) < sum_list (map callbacks_left ts)"
proof -
  have "callbacks_left (ts ! k) \<le> sum_list (map callbacks_left ts)"
    using assms(1) by (intro member_le_sum_list) simp_all
  then show ?thesis using assms by (simp add: map_update sum_list_update)
qed

lemma step_left:
  assumes "loop_inv d s" "loop_step log_c d s cb s'" "stopped d cb"
  shows "loop_left s' < loop_left s"
  using assms(2)
proof (rule loop_stepE)
  fix k y assume c: "cb = Thought k" "s' = thinking_time_cb d k s" "k < length (rte s)" "tt (rte s ! k) = Some y"
  have "waits_once (rte s ! k)" using loop_inv_nth [OF assms(1) c(3)] by (simp add: terminal_inv_def)
  then show ?thesis using c(3,4) unfolding c(2)
    by (auto simp: loop_left_def thinking_time_cb_def Let_def callbacks_left_def waits_once_def intro!: left_update
        split: prod.split if_splits)
next
  fix k y assume c: "cb = Keyed k" "s' = keying_time_cb k s" "k < length (rte s)" "kt (rte s ! k) = Some y"
  have "waits_once (rte s ! k)" using loop_inv_nth [OF assms(1) c(3)] by (simp add: terminal_inv_def)
  then show ?thesis using c(3,4) unfolding c(2)
    by (auto simp: loop_left_def keying_time_cb_def Let_def callbacks_left_def waits_once_def intro!: left_update split: if_splits)
next
  fix k answer rt now
  assume c: "cb = Answered k answer rt now" "s' = transaction_receive_cb log_c d k answer rt now s" "k < length (rte s)"
    "recvtxn (rte s ! k)"
  have "waits_once (rte s ! k)" using loop_inv_nth [OF assms(1) c(3)] by (simp add: terminal_inv_def)
  then have "tt (rte s ! k) = None" "kt (rte s ! k) = None" using c(4) by (auto simp: waits_once_def split: if_splits)
  moreover have "\<not> (stop_time d = 0 \<or> now < stop_time d)" using assms(3) c(1) by (simp add: stopped_def)
  ultimately show ?thesis using c(3,4) unfolding c(2)
    by (auto simp: loop_left_def transaction_receive_cb_def go_on_thinking_def Let_def callbacks_left_def intro!: left_update)
qed

lemma run_left:
  "loop_run log_c d s cbs s' \<Longrightarrow> driver_ok d \<Longrightarrow> loop_inv d s \<Longrightarrow> \<forall>cb \<in> set cbs. stopped d cb \<Longrightarrow>
    length cbs + loop_left s' \<le> loop_left s"
proof (induction rule: loop_run.induct)
  case (run_more s cbs s1 cb s2)
  have "length cbs + loop_left s1 \<le> loop_left s" using run_more by simp
  moreover have "loop_left s2 < loop_left s1"
    using step_left [OF run_inv [OF run_more(1,4,5)] run_more(2)] run_more(6) by simp
  ultimately show ?case by simp
qed simp

lemma left_bound: "loop_left s \<le> 3 * length (rte s)"
proof -
  have "sum_list (map callbacks_left ts) \<le> 3 * length ts" for ts
    by (induction ts) (auto simp: callbacks_left_def)
  then show ?thesis by (simp add: loop_left_def)
qed

lemma no_step_closed:
  assumes "loop_inv d s" "\<nexists>cb s'. loop_step log_c d s cb s'" "k < length (rte s)"
  shows "socketfd (rte s ! k) = None \<and> requests k (happened s) = log_lines k (happened s)"
proof -
  have off: "tt (rte s ! k) = None" "kt (rte s ! k) = None" "\<not> recvtxn (rte s ! k)"
    using assms(2) step_thought [OF assms(3)] step_keyed [OF assms(3)] step_answered [OF assms(3)] by blast+
  moreover have "waits_once (rte s ! k)" using loop_inv_nth [OF assms(1,3)] by (simp add: terminal_inv_def)
  ultimately show ?thesis using assms(1,3) by (auto simp: waits_once_def loop_inv_def split: if_splits)
qed

section \<open>Properties\<close>

lemma warehouse_list_1: "warehouse_list 1 a b = [a..b]"
  by (rule nth_equalityI) (simp_all add: warehouse_list_def)

lemma mset_homes:
  fixes js ws :: "int list"
  assumes "distinct js" "distinct ws"
  shows "mset [(i, j). j \<leftarrow> js, i \<leftarrow> ws] = mset (List.product ws js)"
proof -
  have p: "[(i, j). j \<leftarrow> js, i \<leftarrow> ws] = map prod.swap (List.product js ws)" by (induction js) (simp_all add: comp_def)
  have "distinct (map prod.swap (List.product js ws))" using assms by (simp add: distinct_map distinct_product)
  moreover have "distinct (List.product ws js)" using assms by (simp add: distinct_product)
  moreover have "set (map prod.swap (List.product js ws)) = set (List.product ws js)" by auto
  ultimately show ?thesis unfolding p by (simp only: set_eq_iff_mset_eq_distinct)
qed

lemma product_append: "List.product (xs @ ys) zs = List.product xs zs @ List.product ys zs"
  by (induction xs) simp_all

lemma parts_terminals:
  assumes "spread d = 1" "\<And>k w n. \<exists>t. mk k w n = Some t \<and> home_of t = (w, n)"
  shows "\<forall>p \<in> set ps. part_min p \<le> part_max p + 1 \<Longrightarrow>
    \<exists>tss. map (start_all mk d) ps = map Started tss \<and>
      mset (map home_of (concat tss)) = mset (List.product (concat (map part_range ps)) [1..terminals_per_warehouse d])"
proof (induction ps)
  case (Cons p ps)
  obtain tss where r: "map (start_all mk d) ps = map Started tss"
    "mset (map home_of (concat tss)) = mset (List.product (concat (map part_range ps)) [1..terminals_per_warehouse d])"
    using Cons by auto
  have s: "0 < spread d" "part_min p \<le> part_max p + 1" using assms(1) Cons.prems by simp_all
  obtain ts where t: "start_all mk d p = Started ts"
    "map home_of ts = [(i, j). j \<leftarrow> [1..terminals_per_warehouse d], i \<leftarrow> part_range p]"
    using start_all_ok [where mk = mk and d = d and p = p, OF s assms(2)]
    by (auto simp: assms(1) warehouse_list_1)
  have "mset (map home_of ts) = mset (List.product (part_range p) [1..terminals_per_warehouse d])"
    unfolding t(2) by (rule mset_homes) simp_all
  then have "mset (map home_of (concat (ts # tss))) =
      mset (List.product (concat (map part_range (p # ps))) [1..terminals_per_warehouse d])"
    using r(2) by (simp add: product_append)
  then show ?case using t(1) r(1) by (intro exI [of _ "ts # tss"]) simp
qed simp

lemma processes_terminals:
  assumes "0 < m" "m \<le> m0" "m0 \<le> warehouse_count d" "warehouse_count d < 2 ^ 31" "spread d = 1" "\<And>l. fork_ok l"
    and "\<And>k w n. \<exists>t. mk k w n = Some t \<and> home_of t = (w, n)"
  shows "\<exists>children p tss. fork_loop fork_ok d (partition_size d m0) m 0 = (children, Some p) \<and> length children + 1 = nat m \<and>
    part_min p = mymin d (partition_size d m0) (m - 1) \<and> part_max p = w_id_max d \<and>
    map (start_all mk d) (children @ [p]) = map Started tss \<and>
    mset (map home_of (concat tss)) = mset (List.product [w_id_min d..w_id_max d] [1..terminals_per_warehouse d])"
proof -
  let ?ps = "partition_size d m0"
  obtain children p where f: "fork_loop fork_ok d ?ps m 0 = (children, Some p)" "length children = nat (m - 1 - 0)"
    "part_min p = mymin d ?ps (m - 1)" "concat (map part_range (children @ [p])) = [mymin d ?ps 0..w_id_max d]"
    "\<forall>p \<in> set (children @ [p]). w_id_min d \<le> part_min p \<and> part_max p \<le> w_id_max d \<and> part_min p \<le> part_max p + 1"
    using fork_loop_parts [where fork_ok = fork_ok, OF assms(1-4,6) order_refl assms(1)] by blast
  have "\<forall>p \<in> set (children @ [p]). part_min p \<le> part_max p + 1" using f(5) by blast
  then obtain tss where "map (start_all mk d) (children @ [p]) = map Started tss"
    "mset (map home_of (concat tss)) = mset (List.product (concat (map part_range (children @ [p]))) [1..terminals_per_warehouse d])"
    using parts_terminals [where mk = mk, OF assms(5,7)] by blast
  moreover have "part_max p = w_id_max d" using fork_loop_last [OF f(1)] assms(1) by simp
  ultimately have "fork_loop fork_ok d ?ps m 0 = (children, Some p) \<and> length children + 1 = nat m \<and>
      part_min p = mymin d ?ps (m - 1) \<and> part_max p = w_id_max d \<and>
      map (start_all mk d) (children @ [p]) = map Started tss \<and>
      mset (map home_of (concat tss)) = mset (List.product [w_id_min d..w_id_max d] [1..terminals_per_warehouse d])"
    using f(1-3) assms(1) unfolding f(4) mymin_0 by simp
  then show ?thesis by blast
qed

text \<open>C18: With the default \<open>spread\<close>, and when no call fails, the processes of the event driver together
  emulate every terminal of every warehouse of the range exactly once: the bounds that the processes
  compute with floating point numbers divide the range without a gap and without an overlap, and no
  process writes beyond its array of terminals.\<close>
theorem processes_cover:
  assumes "0 < nprocs * fork_per_processor" "w_id_min d \<le> w_id_max d" "warehouse_count d < 2 ^ 31" "spread d = 1"
    and "\<And>l. fork_ok l" "\<And>k. 1 \<le> connect k"
  shows "\<exists>children p tss. fork_loop fork_ok d (partition_size d (max_fork nprocs fork_per_processor d))
      (max_fork nprocs fork_per_processor d) 0 = (children, Some p) \<and>
    length children + 1 = nat (max_fork nprocs fork_per_processor d) \<and>
    map (start_terminals connect d) (children @ [p]) = map Started tss \<and>
    mset (map home_of (concat tss)) = mset (List.product [w_id_min d..w_id_max d] [1..terminals_per_warehouse d])"
proof -
  define m where "m = max_fork nprocs fork_per_processor d"
  have m: "0 < m" "m \<le> warehouse_count d" using max_fork_bounds [OF assms(1)] assms(2) by (simp_all add: m_def warehouse_count_def)
  have "\<exists>t. connect_terminal connect k w n = Some t \<and> home_of t = (w, n)" for k w n
    using assms(6) [of k] by (simp add: connect_terminal_def new_terminal_def home_of_def)
  then show ?thesis
    using processes_terminals [where mk = "connect_terminal connect" and fork_ok = fork_ok, OF m(1) order_refl m(2) assms(3,4,5)]
    unfolding m_def start_terminals_def by blast
qed

theorem processes_cover_witness:
  "\<exists>children p. fork_loop (\<lambda>_. True) (sample_driver\<lparr>w_id_max := 10\<rparr>) (partition_size (sample_driver\<lparr>w_id_max := 10\<rparr>) 4) 4 0 = (children, Some p) \<and> length children = 3"
  using processes_cover [where nprocs = 2 and fork_per_processor = 2 and d = "sample_driver\<lparr>w_id_max := 10\<rparr>" and fork_ok = "\<lambda>_. True"
      and connect = "\<lambda>_. 3"]
  by (auto simp: sample_driver_def driver_globals_def warehouse_count_def max_fork_def)

text \<open>C19: However the callbacks of a process are interleaved, each of its terminals waits for exactly one
  thing (the end of its thinking or keying time or an answer) until it closes its connection, all
  requests are valid for a warehouse of the range, and a terminal has logged every request that it has
  sent, except for the one that it waits for.\<close>
theorem event_loop_ok:
  assumes "driver_ok d" "0 < spread d" "w_id_min d \<le> part_min p" "part_max p \<le> w_id_max d"
    and "start_terminals connect d p = Started ts" "loop_run log_c d (initial_loop local_seed ts) cbs s"
    and "k < length ts"
  shows "waits_once (rte s ! k) \<and> list_all (\<lambda>(k, e). event_ok d e) (happened s) \<and>
    requests k (happened s) = log_lines k (happened s) + (if recvtxn (rte s ! k) then 1 else 0)"
proof -
  have inv: "loop_inv d s" by (rule run_inv [OF assms(6,1) initial_inv [OF assms(5,2-4)]])
  have "k < length (rte s)" using run_length [OF assms(6)] assms(7) by (simp add: initial_loop_def)
  then show ?thesis using loop_inv_nth [OF inv] inv by (simp add: terminal_inv_def loop_inv_def)
qed

definition sample_part :: part where
  "sample_part = \<lparr>part_no = 0, part_min = 1, part_max = 1\<rparr>"

definition sample_stations :: driver where
  "sample_stations = sample_driver\<lparr>terminals_per_warehouse := 1\<rparr>"

lemma sample_stations_ok: "driver_ok sample_stations" "0 < spread sample_stations" "w_id_min sample_stations \<le> part_min sample_part"
  "part_max sample_part \<le> w_id_max sample_stations" "stop_time sample_stations = 100"
  using sample_driver_ok by (simp_all add: sample_stations_def sample_part_def sample_driver_def driver_globals_def driver_ok_def)

lemma sample_stations_start: "start_terminals (\<lambda>_. 3) sample_stations sample_part = Started [new_terminal 3 1 1]"
  by (simp add: start_terminals_def sample_stations_def sample_driver_def driver_globals_def sample_part_def start_row.simps start_all_def connect_terminal_def)

text \<open>One transaction of the only terminal, answered when the stop time is over.\<close>

lemma sample_run:
  "\<exists>s. loop_run id sample_stations (initial_loop 5 [new_terminal 3 1 1]) [Thought 0, Keyed 0, Answered 0 (Some OK) 1 100] s"
proof -
  let ?s0 = "initial_loop 5 [new_terminal 3 1 1]"
  define s1 where "s1 = thinking_time_cb sample_stations 0 ?s0"
  have a: "loop_step id sample_stations ?s0 (Thought 0) s1" unfolding s1_def
    by (rule step_thought) (simp_all add: initial_loop_def new_terminal_def)
  have s1: "0 < length (rte s1)" "kt (rte s1 ! 0) \<noteq> None"
    by (simp_all add: s1_def thinking_time_cb_def initial_loop_def Let_def split: prod.split)
  have b: "loop_step id sample_stations s1 (Keyed 0) (keying_time_cb 0 s1)" by (rule step_keyed [OF s1])
  have s2: "0 < length (rte (keying_time_cb 0 s1))" "recvtxn (rte (keying_time_cb 0 s1) ! 0)"
    using s1(1) by (simp_all add: keying_time_cb_def Let_def)
  show ?thesis
    using run_more [OF run_more [OF run_more [OF run_none a] b] step_answered [OF s2]] by auto
qed

theorem event_loop_ok_witness:
  "\<exists>s. loop_run id sample_stations (initial_loop 5 [new_terminal 3 1 1]) [Thought 0, Keyed 0, Answered 0 (Some OK) 1 100] s \<and>
    waits_once (rte s ! 0)"
proof -
  obtain s where run: "loop_run id sample_stations (initial_loop 5 [new_terminal 3 1 1]) [Thought 0, Keyed 0, Answered 0 (Some OK) 1 100] s"
    using sample_run by blast
  show ?thesis using event_loop_ok [OF sample_stations_ok(1-4) sample_stations_start run, of 0] run by auto
qed

text \<open>C20: Once the stop time is over the loop of a process ends: whatever it has done before, at most
  three more callbacks per terminal can run, and when no watcher is active any more every terminal has
  closed its connection and has logged every request that it sent.\<close>
theorem event_loop_ends:
  assumes "driver_ok d" "0 < spread d" "w_id_min d \<le> part_min p" "part_max p \<le> w_id_max d"
    and "start_terminals connect d p = Started ts" "loop_run log_c d (initial_loop local_seed ts) before s"
    and "loop_run log_c d s cbs s'" "\<forall>cb \<in> set cbs. stopped d cb"
  shows "length cbs \<le> 3 * length ts \<and>
    ((\<nexists>cb s''. loop_step log_c d s' cb s'') \<longrightarrow>
      (\<forall>k < length ts. socketfd (rte s' ! k) = None \<and> requests k (happened s') = log_lines k (happened s')))"
proof -
  have inv: "loop_inv d s" by (rule run_inv [OF assms(6,1) initial_inv [OF assms(5,2-4)]])
  have inv': "loop_inv d s'" by (rule run_inv [OF assms(7,1) inv])
  have len: "length (rte s) = length ts" "length (rte s') = length ts"
    using run_length [OF assms(6)] run_length [OF assms(7)] by (simp_all add: initial_loop_def)
  have "length cbs \<le> 3 * length ts"
    using run_left [OF assms(7,1) inv assms(8)] left_bound [of s] len(1) by simp
  then show ?thesis using no_step_closed [OF inv'] len(2) by auto
qed

theorem event_loop_ends_witness:
  "\<exists>s. loop_run id sample_stations (initial_loop 5 [new_terminal 3 1 1]) [Thought 0, Keyed 0, Answered 0 (Some OK) 1 100] s \<and>
    length [Thought 0, Keyed 0, Answered 0 (Some OK) 1 100] \<le> 3 * length [new_terminal 3 1 1]"
proof -
  obtain s where run: "loop_run id sample_stations (initial_loop 5 [new_terminal 3 1 1]) [Thought 0, Keyed 0, Answered 0 (Some OK) 1 100] s"
    using sample_run by blast
  have over: "\<forall>cb \<in> set [Thought 0, Keyed 0, Answered 0 (Some OK) 1 100]. stopped sample_stations cb"
    by (simp add: stopped_def sample_stations_ok)
  show ?thesis using event_loop_ends [OF sample_stations_ok(1-4) sample_stations_start run_none run over] run by blast
qed

end
