(* ===== verification/Direct_Driver.thy ===== *)
theory Direct_Driver
  imports Event_Driver Pg_Properties
begin

text \<open>
  The event driver without a client (\<open>src/src/driver3.c\<close>): each process has one connection to the
  database, and the end of the keying time processes the transaction in its callback. Distributing the
  warehouses and starting the terminals are as in \<open>Event_Driver\<close>, and so is the callback at the end
  of the thinking time. What the loop does to the tables follows from the database interface.
\<close>

section \<open>Processes\<close>

text \<open>The option \<open>-L\<close> limits the processes, but only after the size of a part has been computed.\<close>

definition limited_fork :: "driver \<Rightarrow> int \<Rightarrow> int" where
  "limited_fork d m = (if 0 < terminals_limit d \<and> terminals_limit d < m then terminals_limit d else m)"

definition direct_fork_loop :: "(int \<Rightarrow> bool) \<Rightarrow> int \<Rightarrow> int \<Rightarrow> driver \<Rightarrow> part list \<times> part option" where
  "direct_fork_loop fork_ok nprocs fork_per_processor d = (let m = max_fork nprocs fork_per_processor d
     in fork_loop fork_ok d (partition_size d m) (limited_fork d m) 0)"

definition direct_start_times :: "driver \<Rightarrow> int \<Rightarrow> int \<Rightarrow> int \<times> int" where
  "direct_start_times d m now =
     (let t = cast_int (c_trunc (fl (fl (of_int (client_conn_sleep d) / 1000) * of_int (limited_fork d m - 1))))
      in (t, cast_int (now + duration d + t)))"

section \<open>Terminals\<close>

record rte_direct = rte_events +
  rte_td :: transaction_union

record ('t, 's) direct_loop = "'t event_loop" +
  database :: 's

text \<open>The union after \<open>memset\<close>.\<close>

definition zero_address :: address_out where
  "zero_address = \<lparr>ao_name = [], ao_street_1 = [], ao_street_2 = [], ao_city = [], ao_state = [], ao_zip = []\<rparr>"

definition zero_union :: transaction_union where
  "zero_union = \<lparr>un_delivery = \<lparr>dl_w_id = 0, dl_o_carrier_id = 0\<rparr>,
     un_new_order = (\<lparr>no_w_id = 0, no_d_id = 0, no_c_id = 0, no_o_ol_cnt = 0, no_o_all_local = 0,
         no_order_line = replicate 15 \<lparr>ol_i_id = 0, ol_supply_w_id = 0, ol_quantity = 0\<rparr>\<rparr>,
       \<lparr>nw_o_id = 0, nw_total_amount = 0, nw_w_tax = 0, nw_d_tax = 0, nw_c_last = [], nw_c_credit = [], nw_c_discount = 0,
        nw_rollback = 0, nw_lines = replicate 15 \<lparr>nl_i_price = 0, nl_i_name = [], nl_s_quantity = 0, nl_ol_amount = 0,
          nl_brand_generic = CHR 0x00\<rparr>\<rparr>),
     un_order_status = (\<lparr>os_c_d_id = 0, os_c_w_id = 0, os_c_id = 0, os_c_last = []\<rparr>,
       \<lparr>ou_c_id = 0, ou_c_last = [], ou_c_balance = 0, ou_c_first = [], ou_c_middle = [], ou_o_id = 0, ou_o_carrier_id = 0,
        ou_o_entry_d = [], ou_o_ol_cnt = 0, ou_lines = replicate 15 \<lparr>oo_ol_i_id = 0, oo_ol_supply_w_id = 0,
          oo_ol_quantity = 0, oo_ol_amount = 0, oo_ol_delivery_d = []\<rparr>\<rparr>),
     un_payment = (\<lparr>py_c_d_id = 0, py_c_w_id = 0, py_d_id = 0, py_h_amount = 0, py_w_id = 0, py_c_id = 0, py_c_last = []\<rparr>,
       \<lparr>pa_c_id = 0, pa_c_last = [], pa_warehouse = zero_address, pa_district = zero_address, pa_c_first = [],
        pa_c_middle = [], pa_c_street_1 = [], pa_c_street_2 = [], pa_c_city = [], pa_c_state = [], pa_c_zip = [], pa_c_phone = [],
        pa_c_since = [], pa_c_credit = [], pa_c_credit_lim = 0, pa_c_discount = 0, pa_c_balance = 0, pa_c_data = [], pa_h_date = []\<rparr>),
     un_stock_level = (\<lparr>sl_w_id = 0, sl_d_id = 0, sl_threshold = 0\<rparr>, 0),
     un_integrity = \<lparr>in_w_id = 0\<rparr>\<rparr>"

definition direct_terminal :: "nat \<Rightarrow> int \<Rightarrow> int \<Rightarrow> rte_direct option" where
  "direct_terminal k w_id d_id = Some \<lparr>kt = None, tt = Some 0, rte_w_id = w_id, rte_d_id = d_id, mean_think_time = 0,
     rte_transaction = 0, rte_data = None, rte_status = 0, rte_td = zero_union\<rparr>"

text \<open>The generated data in their member of the union.\<close>

definition load_input :: "transaction_data_t \<Rightarrow> transaction_union \<Rightarrow> transaction_union" where
  "load_input x u = (case x of
     Delivery d \<Rightarrow> u\<lparr>un_delivery := d\<rparr>
   | New_order d \<Rightarrow> u\<lparr>un_new_order := (d, snd (un_new_order u))\<rparr>
   | Order_status d \<Rightarrow> u\<lparr>un_order_status := (d, snd (un_order_status u))\<rparr>
   | Payment d \<Rightarrow> u\<lparr>un_payment := (d, snd (un_payment u))\<rparr>
   | Stock_level d \<Rightarrow> u\<lparr>un_stock_level := (d, snd (un_stock_level u))\<rparr>
   | Integrity d \<Rightarrow> u\<lparr>un_integrity := d\<rparr>)"

section \<open>Callbacks\<close>

text \<open>The callback when the thinking time is over is the same as in the other event driver.\<close>

definition thinking_time_cb_direct :: "driver \<Rightarrow> nat \<Rightarrow> (rte_direct, 's) direct_loop \<Rightarrow> (rte_direct, 's) direct_loop" where
  "thinking_time_cb_direct d k s = thinking_time_cb d k s"

text \<open>
  The callback when the keying time is over: the request, its answer and the new state. None if the
  processing does not end or is undefined.
\<close>

definition request_of :: "rte_direct \<Rightarrow> int \<times> transaction_union" where
  "request_of t = (rte_transaction t, load_input (the (rte_data t)) (rte_td t))"

definition keying_time_cb_direct ::
    "(rat \<Rightarrow> rat) \<Rightarrow> 's db_context \<Rightarrow> driver \<Rightarrow> nat \<Rightarrow> rat \<Rightarrow> int \<Rightarrow> (rte_direct, 's) direct_loop \<Rightarrow>
     ((int \<times> transaction_union) \<times> (rte_direct, 's) direct_loop) option" where
  "keying_time_cb_direct log_c dbc d k rt now s = (let t = rte s ! k in
     case process_transaction dbc (fst (request_of t)) (snd (request_of t)) (database s) of
       None \<Rightarrow> None
     | Some ((None, _), _) \<Rightarrow> None
     | Some ((Some st, td), b) \<Rightarrow>
         (let (t1, r) = go_on_thinking log_c d now (t\<lparr>kt := None, rte_status := st, rte_td := td\<rparr>) (loop_rng s)
          in Some ((st, td), s\<lparr>loop_rng := r, rte := (rte s)[k := t1],
               happened := happened s @ [(k, Log_line now (rte_transaction t) (status_code st) rt (rte_w_id t) (rte_d_id t))],
               database := b\<rparr>)))"

text \<open>The loop; a step that processes a transaction is labelled with the request and the answer.\<close>

datatype direct_callback = Thought_over nat | Processed nat "int \<times> transaction_union" "int \<times> transaction_union" rat int

inductive direct_step ::
    "(rat \<Rightarrow> rat) \<Rightarrow> 's db_context \<Rightarrow> driver \<Rightarrow> (rte_direct, 's) direct_loop \<Rightarrow> direct_callback \<Rightarrow> (rte_direct, 's) direct_loop \<Rightarrow> bool"
  for log_c :: "rat \<Rightarrow> rat" and dbc :: "'s db_context" and d :: driver where
  direct_thought: "k < length (rte s) \<Longrightarrow> tt (rte s ! k) \<noteq> None \<Longrightarrow>
    direct_step log_c dbc d s (Thought_over k) (thinking_time_cb_direct d k s)"
| direct_keyed: "k < length (rte s) \<Longrightarrow> kt (rte s ! k) \<noteq> None \<Longrightarrow>
    keying_time_cb_direct log_c dbc d k rt now s = Some (answer, s') \<Longrightarrow>
    direct_step log_c dbc d s (Processed k (request_of (rte s ! k)) answer rt now) s'"

inductive_cases direct_stepE: "direct_step log_c dbc d s cb s'"

inductive direct_run ::
    "(rat \<Rightarrow> rat) \<Rightarrow> 's db_context \<Rightarrow> driver \<Rightarrow> (rte_direct, 's) direct_loop \<Rightarrow> direct_callback list \<Rightarrow> (rte_direct, 's) direct_loop \<Rightarrow> bool"
  for log_c :: "rat \<Rightarrow> rat" and dbc :: "'s db_context" and d :: driver where
  direct_none: "direct_run log_c dbc d s [] s"
| direct_more: "direct_run log_c dbc d s cbs s1 \<Longrightarrow> direct_step log_c dbc d s1 cb s2 \<Longrightarrow> direct_run log_c dbc d s (cbs @ [cb]) s2"

text \<open>The requests of a run with the answers they got, in the order of their processing.\<close>

fun processed :: "direct_callback list \<Rightarrow> ((int \<times> transaction_union) \<times> (int \<times> transaction_union)) list" where
  "processed [] = []"
| "processed (Thought_over k # cbs) = processed cbs"
| "processed (Processed k request answer rt now # cbs) = (request, answer) # processed cbs"

definition requests_made :: "direct_callback list \<Rightarrow> (int \<times> transaction_union) list" where
  "requests_made cbs = map fst (processed cbs)"

definition answers_given :: "direct_callback list \<Rightarrow> (int option \<times> transaction_union) list" where
  "answers_given cbs = map (\<lambda>(_, st, td). (Some st, td)) (processed cbs)"

text \<open>After connecting, the loop begins with the terminals of the part.\<close>

definition initial_direct :: "64 word \<Rightarrow> rte_direct list \<Rightarrow> 's \<Rightarrow> (rte_direct, 's) direct_loop" where
  "initial_direct local_seed ts b = \<lparr>loop_rng = pcg64f_srandom_r (ucast local_seed), rte = ts, happened = [], database = b\<rparr>"

section \<open>The database\<close>

lemma processed_append [simp]: "processed (xs @ ys) = processed xs @ processed ys"
  by (induction xs rule: processed.induct) simp_all

lemma serial_snoc:
  "serial eff same ns as d0 d1 \<Longrightarrow> \<forall>a \<in> set as. fst a \<noteq> None \<Longrightarrow> serial eff same [n] [a] d1 d2 \<Longrightarrow>
    serial eff same (ns @ [n]) (as @ [a]) d0 d2"
proof (induction ns arbitrary: as d0)
  case Nil
  then show ?case by (cases n) simp
next
  case (Cons m ns)
  obtain tr td where m: "m = (tr, td)" by (cases m)
  obtain st td' as' where a: "as = (st, td') # as'" using Cons.prems(1) m by (auto split: list.splits)
  have st: "st \<noteq> None" "\<forall>a \<in> set as'. fst a \<noteq> None" using Cons.prems(2) a by simp_all
  show ?case
  proof (cases "st = Some OK")
    case True
    then obtain td0 d2' where e: "same td td0 \<and> eff tr td0 d0 d2'" "serial eff same ns as' d2' d1"
      using Cons.prems(1) m a by auto
    have "serial eff same (ns @ [n]) (as' @ [a]) d2' d2" by (rule Cons.IH [OF e(2) st(2) Cons.prems(3)])
    then show ?thesis using e(1) True m a by auto
  next
    case False
    then have "serial eff same ns as' d0 d1" using Cons.prems(1) m a st(1) by simp
    then have "serial eff same (ns @ [n]) (as' @ [a]) d0 d2" by (rule Cons.IH [OF _ st(2) Cons.prems(3)])
    then show ?thesis using False m a st(1) by simp
  qed
qed

context atomic_backend
begin

text \<open>Any answer but an error leaves the connection ready for the next transaction, also with a stop time.\<close>

lemma attempts_ready:
  "idle s \<Longrightarrow> valid td (durable s) \<Longrightarrow> st0 \<noteq> OK \<Longrightarrow> attempts dbc tr n st0 td s = Some ((Some st, td1), s1) \<Longrightarrow>
    valid td1 (durable s) \<and> (st \<noteq> ERROR \<longrightarrow> idle s1)"
proof (induction n arbitrary: s td st0)
  case 0
  then show ?case by auto
next
  case (Suc n)
  obtain x sa where X: "run_state (execute_transaction dbc tr td) s = (x, sa)"
    by (cases "run_state (execute_transaction dbc tr td) s") auto
  show ?case
  proof (cases x)
    case (Inr u)
    then show ?thesis using Suc.prems(2,4) X by auto
  next
    case (Inl y)
    obtain rc0 tda where y: "y = (rc0, tda)" by (cases y)
    obtain t where E: "durable sa = durable s" "valid tda (durable s)" "working sa t"
      using execute [OF Suc.prems(1,2) X [unfolded Inl y]] by blast
    obtain rc where rc: "rc0 = Some rc" using Suc.prems(4) X Inl y by (cases rc0) auto
    define z where "z = (if rc = OK then run_state (db_commit dbc) sa
            else if rc = ERROR then run_state (db_rollback dbc) sa else (st0, sa))"
    obtain st1 sb where z: "z = (st1, sb)" by (cases z)
    have run: "(if rc = OK \<and> st1 = OK \<or> rc = ERROR \<and> st1 = STATUS_ROLLBACK then Some ((Some st1, tda), sb)
           else (case run_state (disconnect_from_db dbc) sb of
             (_, s3) \<Rightarrow> Option.bind (reconnect dbc s3) (\<lambda>(ok, s4).
               if ok then attempts dbc tr n st1 tda s4
               else Some ((Some ERROR, tda), s4)))) = Some ((Some st, td1), s1)"
      using Suc.prems(4) X Inl y rc z unfolding z_def by simp
    have Z: "rc = OK \<and> st1 = OK \<or> rc = ERROR \<and> st1 = STATUS_ROLLBACK \<Longrightarrow> idle sb"
      "\<not> (rc = OK \<and> st1 = OK \<or> rc = ERROR \<and> st1 = STATUS_ROLLBACK) \<Longrightarrow> durable sb = durable s \<and> st1 \<noteq> OK \<and> (\<exists>t1. working sb t1)"
      using commit [OF E(3), of st1 sb] rollback [OF E(3), of st1 sb] z E(1,3) Suc.prems(3)
      by (auto simp: z_def OK_def ERROR_def split: if_splits)
    show ?thesis
    proof (cases "rc = OK \<and> st1 = OK \<or> rc = ERROR \<and> st1 = STATUS_ROLLBACK")
      case True
      then have "td1 = tda" "s1 = sb" using run by auto
      then show ?thesis using Z(1) [OF True] E(2) by simp
    next
      case False
      obtain v sc where C: "run_state (db_disconnect dbc) sb = (v, sc)" by (cases "run_state (db_disconnect dbc) sb") auto
      then have "run_state (disconnect_from_db dbc) sb = (if v \<noteq> OK then ERROR else OK, sc)"
        by (simp add: disconnect_from_db_def run_bind State_Monad.return_def)
      then obtain ok sd where D: "reconnect dbc sc = Some (ok, sd)"
        "(if ok then attempts dbc tr n st1 tda sd else Some ((Some ERROR, tda), sd)) = Some ((Some st, td1), s1)"
        using run False by (auto simp: bind_eq_Some_conv)
      obtain t1 where W: "durable sb = durable s" "st1 \<noteq> OK" "working sb t1" using Z(2) [OF False] by blast
      note c = disconnect [OF W(3) C]
      note d = reconnect_down [OF D(1) conjunct2 [OF c]]
      have dur: "durable sd = durable s" using c d W(1) by simp
      show ?thesis
      proof (cases ok)
        case True
        have "valid td1 (durable sd) \<and> (st \<noteq> ERROR \<longrightarrow> idle s1)"
          by (rule Suc.IH [of sd tda st1]) (use d True E(2) dur W(2) D(2) in simp_all)
        then show ?thesis by (simp add: dur)
      qed (use D(2) E(2) in simp)
    qed
  qed
qed

lemma process_ready:
  "idle s \<Longrightarrow> valid td (durable s) \<Longrightarrow> process_transaction dbc tr td s = Some ((Some st, td1), s1) \<Longrightarrow>
    valid td1 (durable s) \<and> (st \<noteq> ERROR \<longrightarrow> idle s1)"
  unfolding process_transaction_def by (rule attempts_ready) (simp_all add: OK_def)

end

text \<open>A backend for which generated input is valid.\<close>

locale direct_backend = atomic_backend dbc durable idle working down valid effect same
  for dbc :: "'s db_context" and durable :: "'s \<Rightarrow> 'd" and idle working down valid effect same +
  fixes d :: driver
  assumes load: "transaction_ok (dr_cardinality d) (mode_altered d) w x \<Longrightarrow> driver_ok d \<Longrightarrow> valid td t \<Longrightarrow> valid (load_input x td) t"
begin

definition ready :: "(rte_direct, 's) direct_loop \<Rightarrow> bool" where
  "ready s \<longleftrightarrow> idle (database s) \<and> (\<forall>t \<in> set (rte s). valid (rte_td t) (durable (database s)) \<and> at_home d t \<and>
     (kt t \<noteq> None \<longrightarrow> keyed_ok d t))"

lemma thinking_ready:
  assumes "driver_ok d" "ready s" "k < length (rte s)"
  shows "ready (thinking_time_cb_direct d k s) \<and> database (thinking_time_cb_direct d k s) = database s"
proof -
  let ?t = "rte s ! k"
  obtain w n tr ktime mean x r where run: "run_state (round_input d (rte_w_id ?t) (rte_d_id ?t)) (loop_rng s) =
      ((w, n, (tr, ktime, mean), x), r)" by (metis surj_pair)
  have t: "valid (rte_td ?t) (durable (database s))" "at_home d ?t" using assms(2,3) by (auto simp: ready_def)
  then have home: "w_id_min d \<le> rte_w_id ?t" "rte_w_id ?t \<le> w_id_max d" by (simp_all add: at_home_def)
  have ok: "home_ok d w n" "\<exists>y. x = Some y \<and> transaction_ok (dr_cardinality d) (mode_altered d) w y"
    using yieldsD [OF round_input_ok [OF assms(1) home], of "rte_d_id ?t" "loop_rng s"] run by simp_all
  define t1 where "t1 = ?t\<lparr>tt := None, kt := Some ktime, rte_w_id := w, rte_d_id := n, mean_think_time := mean,
    rte_transaction := tr, rte_data := x\<rparr>"
  have t1: "valid (rte_td t1) (durable (database s))" "at_home d t1" "keyed_ok d t1"
    using t ok by (simp_all add: t1_def at_home_def keyed_ok_def home_ok_def)
  have eq: "thinking_time_cb_direct d k s = s\<lparr>loop_rng := r, rte := (rte s)[k := t1], happened := happened s @ [(k, Key ktime)]\<rparr>"
    by (simp add: thinking_time_cb_direct_def thinking_time_cb_def run t1_def Let_def)
  show ?thesis unfolding eq using assms(2) t1
    by (auto simp: ready_def dest!: set_update_subset_insert [THEN subsetD])
qed

lemma go_on_fields:
  assumes "go_on_thinking log_c d now t r = (t1, r1)"
  shows "kt t1 = kt t" "rte_w_id t1 = rte_w_id t" "rte_td (t1 :: rte_direct) = rte_td t"
  using assms by (auto simp: go_on_thinking_def split: if_splits prod.splits)

lemma keying_ready:
  assumes "driver_ok d" "ready s" "k < length (rte s)" "kt (rte s ! k) \<noteq> None"
    and "keying_time_cb_direct log_c dbc d k rt now s = Some ((st, td), s')"
  shows "serial effect same [request_of (rte s ! k)] [(Some st, td)] (durable (database s)) (durable (database s')) \<and>
    (\<forall>td. valid td (durable (database s)) \<longrightarrow> valid td (durable (database s'))) \<and> (st \<noteq> ERROR \<longrightarrow> ready s')"
proof -
  let ?t = "rte s ! k"
  obtain tr tdr where rq: "request_of ?t = (tr, tdr)" by (cases "request_of ?t")
  have t: "valid (rte_td ?t) (durable (database s))" "at_home d ?t" "keyed_ok d ?t" "idle (database s)"
    using assms(2-4) by (auto simp: ready_def)
  then have v: "valid tdr (durable (database s))"
    using load [OF _ assms(1)] rq by (auto simp: keyed_ok_def request_of_def)
  obtain b where P: "process_transaction dbc tr tdr (database s) = Some ((Some st, td), b)"
    and b: "database s' = b" "\<exists>t1 r. go_on_thinking log_c d now (?t\<lparr>kt := None, rte_status := st, rte_td := td\<rparr>) (loop_rng s) = (t1, r) \<and>
      rte s' = (rte s)[k := t1]"
    using assms(5) rq by (auto simp: keying_time_cb_direct_def Let_def split: option.splits prod.splits)
  have o: "outcome tr tdr (database s) (Some st) b" by (rule process_atomic [OF t(4) v P])
  have p: "valid td (durable (database s))" "st \<noteq> ERROR \<longrightarrow> idle b" using process_ready [OF t(4) v P] by blast+
  have kept: "\<forall>td. valid td (durable (database s)) \<longrightarrow> valid td (durable b)" using outcome_kept [OF o] by blast
  obtain t1 r where g: "go_on_thinking log_c d now (?t\<lparr>kt := None, rte_status := st, rte_td := td\<rparr>) (loop_rng s) = (t1, r)"
    "rte s' = (rte s)[k := t1]" using b(2) by blast
  have "valid (rte_td t1) (durable b) \<and> at_home d t1 \<and> kt t1 = None"
    using go_on_fields [OF g(1)] t(2) p(1) kept by (simp add: at_home_def)
  then have "st \<noteq> ERROR \<longrightarrow> ready s'"
    using assms(2) p(2) kept b(1) g(2) by (auto simp: ready_def dest!: set_update_subset_insert [THEN subsetD])
  moreover have "serial effect same [(tr, tdr)] [(Some st, td)] (durable (database s)) (durable b)"
    by (rule serial_step [OF o]) simp_all
  ultimately show ?thesis using rq b(1) kept by simp
qed

lemma run_serial:
  "direct_run log_c dbc d s cbs s' \<Longrightarrow> driver_ok d \<Longrightarrow> ready s \<Longrightarrow> \<forall>(request, st, td) \<in> set (processed cbs). st \<noteq> ERROR \<Longrightarrow>
    serial effect same (requests_made cbs) (answers_given cbs) (durable (database s)) (durable (database s')) \<and>
    (\<forall>td. valid td (durable (database s)) \<longrightarrow> valid td (durable (database s'))) \<and> ready s'"
proof (induction rule: direct_run.induct)
  case (direct_none s)
  then show ?case by (simp add: requests_made_def answers_given_def)
next
  case (direct_more s cbs s1 cb s2)
  have IH: "serial effect same (requests_made cbs) (answers_given cbs) (durable (database s)) (durable (database s1))"
    "\<forall>td. valid td (durable (database s)) \<longrightarrow> valid td (durable (database s1))" "ready s1"
    using direct_more by auto
  from direct_more(2) show ?case
  proof (rule direct_stepE)
    fix k y assume c: "cb = Thought_over k" "s2 = thinking_time_cb_direct d k s1" "k < length (rte s1)" "tt (rte s1 ! k) = Some y"
    show ?thesis using thinking_ready [OF direct_more(4) IH(3) c(3)] IH unfolding c(1,2)
      by (simp add: requests_made_def answers_given_def)
  next
    fix k rt now answer y
    assume c: "cb = Processed k (request_of (rte s1 ! k)) answer rt now" "k < length (rte s1)" "kt (rte s1 ! k) = Some y"
      "keying_time_cb_direct log_c dbc d k rt now s1 = Some (answer, s2)"
    obtain st td where a: "answer = (st, td)" by (cases answer)
    have "kt (rte s1 ! k) \<noteq> None" using c(3) by simp
    note one = keying_ready [OF direct_more(4) IH(3) c(2) this c(4) [unfolded a]]
    have "st \<noteq> ERROR" using direct_more(6) c(1) a by simp
    moreover have "\<forall>a \<in> set (answers_given cbs). fst a \<noteq> None" by (auto simp: answers_given_def)
    ultimately show ?thesis using serial_snoc [OF IH(1) _ conjunct1 [OF one]] IH(2) one c(1) a
      by (auto simp: requests_made_def answers_given_def)
  qed
qed

end

section \<open>Processes with a limit\<close>

text \<open>Also with a limit the processes together emulate every terminal once, but all parts except the last
  keep the size that they would have without it, and the last process gets all that remains.\<close>

theorem limited_parts:
  assumes "0 < nprocs * fork_per_processor" "w_id_min d \<le> w_id_max d" "warehouse_count d < 2 ^ 31" "spread d = 1" "\<And>l. fork_ok l"
  defines "m \<equiv> max_fork nprocs fork_per_processor d"
  shows "\<exists>children p tss. direct_fork_loop fork_ok nprocs fork_per_processor d = (children, Some p) \<and>
    length children + 1 = nat (limited_fork d m) \<and>
    part_min p = mymin d (partition_size d m) (limited_fork d m - 1) \<and> part_max p = w_id_max d \<and>
    map (start_all direct_terminal d) (children @ [p]) = map Started tss \<and>
    mset (map home_of (concat tss)) = mset (List.product [w_id_min d..w_id_max d] [1..terminals_per_warehouse d])"
proof -
  have m: "0 < m" "m \<le> warehouse_count d" using max_fork_bounds [OF assms(1)] assms(2) by (simp_all add: m_def warehouse_count_def)
  have l: "0 < limited_fork d m" "limited_fork d m \<le> m" using m(1) by (simp_all add: limited_fork_def)
  have "\<exists>t. direct_terminal k w n = Some t \<and> home_of t = (w, n)" for k w n by (simp add: direct_terminal_def home_of_def)
  then show ?thesis
    using processes_terminals [where mk = direct_terminal and fork_ok = fork_ok, OF l m(2) assms(3,4,5)]
    unfolding direct_fork_loop_def Let_def m_def by blast
qed

section \<open>The backends\<close>

lemma load_request_ok:
  assumes "transaction_ok tc m w x" "request_ok e td t"
  shows "request_ok e (load_input x td) t"
  using assms by (cases x) (simp_all add: request_ok_def load_input_def transaction_ok_def new_order_ok_def)

interpretation direct_sqlite: direct_backend "db_init_sqlite e stop" committed conn_idle conn_working conn_down
  "request_ok e" "transaction_done e" same_request d for e stop d
  by unfold_locales (rule load_request_ok)

lemma new_order_int32:
  assumes "new_order_ok tc m w x" "warehouses tc < 2 ^ 31" "items tc < 2 ^ 31"
  shows "order_in_range x"
proof -
  have "int32 (ol_i_id l) \<and> int32 (ol_supply_w_id l) \<and> int32 (ol_quantity l)" if l: "l \<in> set (no_order_line x)" for l
  proof -
    obtain i where i: "i < 15" "l = no_order_line x ! i"
      using l assms(1) by (auto simp: in_set_conv_nth new_order_ok_def O_OL_CNT_MAX_def)
    then have "line_ok tc w l \<or> ol_i_id l = 0 \<and> line_ok tc w (l\<lparr>ol_i_id := 1\<rparr>) \<or> l = no_line"
      using assms(1) by (auto simp: new_order_ok_def Let_def split: if_splits)
    then show ?thesis using assms(2,3) by (auto simp: line_ok_def no_line_def int32_def)
  qed
  then show ?thesis by (simp add: order_in_range_def)
qed

lemma load_pg_request_ok:
  assumes "transaction_ok (dr_cardinality d) m w x" "driver_ok d" "pg_request_ok e td t"
  shows "pg_request_ok e (load_input x td) t"
proof (cases x)
  case (New_order y)
  then have "order_in_range y"
    using assms(1,2) by (intro new_order_int32 [of "dr_cardinality d" m w]) (auto simp: transaction_ok_def driver_ok_def)
  then show ?thesis using assms(3) New_order by (simp add: pg_request_ok_def load_input_def)
qed (use assms(3) in \<open>simp_all add: pg_request_ok_def load_input_def\<close>)

interpretation direct_libpq: direct_backend "db_init_libpq e stop" pg_committed "pg_idle e" "pg_working e" "pg_idle e"
  "pg_request_ok e" "pg_transaction_done (pg_types e)" same_request d for e stop d
  by unfold_locales (rule load_pg_request_ok)

lemma direct_terminals:
  assumes "start_all direct_terminal d p = Started ts" "0 < spread d" "w_id_min d \<le> part_min p" "part_max p \<le> w_id_max d"
    and "t \<in> set ts"
  shows "kt t = None \<and> rte_td t = zero_union \<and> at_home d t"
proof -
  have "\<exists>w. (kt t = None \<and> rte_td t = zero_union \<and> rte_w_id t = w) \<and> part_min p \<le> w \<and> w \<le> part_max p"
    by (rule start_all_homes [where P = "\<lambda>w t. kt t = None \<and> rte_td t = zero_union \<and> rte_w_id t = w", OF _ assms(2,1,5)])
      (auto simp: direct_terminal_def)
  then show ?thesis using assms(3,4) by (auto simp: at_home_def)
qed

section \<open>Properties\<close>


text \<open>The example: one terminal that only has Stock-Level transactions, on the small database.\<close>

lemma sample_round_input:
  "Dbt2_Prelude.yields (\<lambda>x. \<exists>ktime mean th. x = (1, 1, (STOCK_LEVEL, ktime, mean), Some (Stock_level \<lparr>sl_w_id = 1, sl_d_id = 1, sl_threshold = th\<rparr>)))
    (round_input sample_stations 1 1)"
proof -
  have c: "fst (choose_transaction sample_stations p) = STOCK_LEVEL" if "0 \<le> p" for p
    using that by (simp add: choose_transaction_def sample_stations_def sample_driver_def driver_globals_def)
  have g: "Dbt2_Prelude.yields (\<lambda>x. \<exists>th. x = (OK, Some (Stock_level \<lparr>sl_w_id = 1, sl_d_id = 1, sl_threshold = th\<rparr>))) (generate_input_data2 STOCK_LEVEL 1 1)"
    by (simp add: generate_input_data2_def generate_stock_level_data_def Dbt2_Prelude.yields_def run_bind split: prod.split)
  have m: "mode_altered sample_stations \<noteq> 1" by (simp add: sample_stations_def sample_driver_def driver_globals_def)
  show ?thesis unfolding round_input_def Let_def if_not_P [OF m]
    by (rule Dbt2_Prelude.yields_bind [OF Dbt2_Prelude.yields_return [where P = "\<lambda>h. h = (1, 1)"]], simp, rule Dbt2_Prelude.yields_bind [OF get_percentage_range],
        simp add: c, rule Dbt2_Prelude.yields_bind [OF g]) (auto intro!: Dbt2_Prelude.yields_return simp: prod_eq_iff c)
qed

lemma sample_stock_level_done:
  assumes "un_stock_level td = (\<lparr>sl_w_id = 1, sl_d_id = 1, sl_threshold = th\<rparr>, low)"
  shows "\<exists>td1 c. process_transaction (db_init_sqlite (sample_env (\<lambda>_. False) r) stop) STOCK_LEVEL td (sample_conn sample_tables\<lparr>calls := n\<rparr>)
    = Some ((Some OK, td1), c)"
  by (simp add: run_simps sample_defs process_transaction_def numeral_2_eq_2 execute_transaction_def db_init_sqlite_def
      execute_stock_level_nonsp_def stock_level_nonsp_def some_status_def assms)

lemma sample_direct_start: "start_all direct_terminal sample_stations sample_part = Started [the (direct_terminal 0 1 1)]"
  by (simp add: start_all_def sample_stations_def sample_driver_def driver_globals_def sample_part_def start_row.simps direct_terminal_def)

lemma sample_direct_run:
  "\<exists>s request td. direct_run id (db_init_sqlite (sample_env (\<lambda>_. False) (\<lambda>_. 0)) 100) sample_stations
     (initial_direct 5 [the (direct_terminal 0 1 1)] (sample_conn sample_tables\<lparr>calls := 2\<rparr>))
     [Thought_over 0, Processed 0 request (OK, td) 1 100] s"
proof -
  let ?dbc = "db_init_sqlite (sample_env (\<lambda>_. False) (\<lambda>_. 0)) 100" and ?d = sample_stations
  let ?s0 = "initial_direct 5 [the (direct_terminal 0 1 1)] (sample_conn sample_tables\<lparr>calls := 2\<rparr>)"
  define s1 where "s1 = thinking_time_cb_direct ?d 0 ?s0"
  obtain ktime mean th r where run: "run_state (round_input ?d 1 1) (loop_rng ?s0) =
      ((1, 1, (STOCK_LEVEL, ktime, mean), Some (Stock_level \<lparr>sl_w_id = 1, sl_d_id = 1, sl_threshold = th\<rparr>)), r)"
    using yieldsD [OF sample_round_input, of "loop_rng ?s0"] by (cases "run_state (round_input ?d 1 1) (loop_rng ?s0)") auto
  have a: "direct_step id ?dbc ?d ?s0 (Thought_over 0) s1" unfolding s1_def
    by (rule direct_thought) (simp_all add: initial_direct_def direct_terminal_def)
  have s1: "length (rte s1) = 1" "kt (rte s1 ! 0) \<noteq> None" "rte_transaction (rte s1 ! 0) = STOCK_LEVEL"
    "rte_data (rte s1 ! 0) = Some (Stock_level \<lparr>sl_w_id = 1, sl_d_id = 1, sl_threshold = th\<rparr>)"
    "database s1 = sample_conn sample_tables\<lparr>calls := 2\<rparr>"
    using run by (simp_all add: s1_def thinking_time_cb_direct_def thinking_time_cb_def initial_direct_def direct_terminal_def)
  obtain tdr where rq: "request_of (rte s1 ! 0) = (STOCK_LEVEL, tdr)" "un_stock_level tdr = (\<lparr>sl_w_id = 1, sl_d_id = 1, sl_threshold = th\<rparr>, snd (un_stock_level (rte_td (rte s1 ! 0))))"
    by (simp add: request_of_def s1 load_input_def)
  obtain td1 c where P: "process_transaction ?dbc STOCK_LEVEL tdr (database s1) = Some ((Some OK, td1), c)"
    using sample_stock_level_done [OF rq(2)] s1(5) by metis
  then have "\<exists>s2. keying_time_cb_direct id ?dbc ?d 0 1 100 s1 = Some ((OK, td1), s2)"
    using rq by (simp add: keying_time_cb_direct_def Let_def split: prod.split)
  then obtain s2 where k: "keying_time_cb_direct id ?dbc ?d 0 1 100 s1 = Some ((OK, td1), s2)" by blast
  have "direct_step id ?dbc ?d s1 (Processed 0 (request_of (rte s1 ! 0)) (OK, td1) 1 100) s2"
    by (rule direct_keyed [OF _ s1(2) k]) (simp add: s1)
  from direct_more [OF direct_more [OF direct_none a] this] show ?thesis by (intro exI) simp
qed


theorem direct_driver_serial_libpq:
  assumes "driver_ok d" "0 < spread d" "w_id_min d \<le> part_min p" "part_max p \<le> w_id_max d"
    and "start_all direct_terminal d p = Started ts"
    and "pg_idle e c" "types_ok (pg_types e)" "consistent (pg_committed c)" "ids_ok (pg_committed c)"
    and "connect_to_db (db_init_libpq e (driver.stop_time d)) c = Some (OK, c1)"
    and "direct_run log_c (db_init_libpq e (driver.stop_time d)) d (initial_direct local_seed ts c1) cbs s"
    and "\<forall>(request, st, td) \<in> set (processed cbs). st \<noteq> ERROR"
  shows "serial (pg_transaction_done (pg_types e)) same_request (requests_made cbs) (answers_given cbs) (pg_committed c) (pg_committed (database s)) \<and>
    consistent (pg_committed (database s))"
proof -
  let ?stop = "driver.stop_time d"
  have c1: "pg_committed c1 = pg_committed c" "pg_idle e c1" using libpq.connect_down [OF assms(10,6)] by simp_all
  have z: "pg_request_ok e zero_union (pg_committed c)"
    using assms(7-9) by (simp add: pg_request_ok_def zero_union_def order_in_range_def int32_def)
  have "direct_libpq.ready e d (initial_direct local_seed ts c1)"
    using c1 z direct_terminals [OF assms(5,2-4)] by (auto simp: direct_libpq.ready_def initial_direct_def)
  from direct_libpq.run_serial [OF assms(11,1) this assms(12)] z c1 show ?thesis
    by (auto simp: initial_direct_def pg_request_ok_def)
qed

text \<open>On a handle that is not connected every transaction fails without a command.\<close>

lemma unconnected:
  assumes "pg_link c \<noteq> Connected"
  shows "run_state (pq_begin e) c = (Some No_connection, c)" "run_state (begin_and_call e f) c = (Inl No_connection, c)"
    "run_state (rollback_transaction_libpq e) c = (RECONNECT, c)"
  using assms
  by (simp_all add: pq_begin_def begin_and_call_def rollback_transaction_libpq_def pq_rollback_def connection_bad_def run_command run_bind)

lemma execute_unconnected:
  assumes "pg_link c \<noteq> Connected" "tr \<in> {DELIVERY, NEW_ORDER, ORDER_STATUS, PAYMENT, STOCK_LEVEL}"
  shows "\<exists>rc td1. run_state (execute_transaction (db_init_libpq e stop) tr td) c = (Inl (Some rc, td1), c) \<and> rc \<in> {RECONNECT, ERROR}"
proof -
  note u = unconnected [OF assms(1), of e]
  from assms(2) consider "tr = DELIVERY" | "tr = NEW_ORDER" | "tr = ORDER_STATUS" | "tr = PAYMENT" | "tr = STOCK_LEVEL" by blast
  then show ?thesis
    by cases (simp_all add: execute_transaction_def db_init_libpq_def some_rc_def run_bind execute_delivery_libpq_def
      execute_new_order_libpq_def execute_order_status_libpq_def execute_payment_libpq_def execute_stock_level_libpq_def
      transaction_defs error_status_def u Let_def split: prod.split)
qed

lemma process_unconnected:
  assumes "pg_link c \<noteq> Connected" "tr \<in> {DELIVERY, NEW_ORDER, ORDER_STATUS, PAYMENT, STOCK_LEVEL}"
    and "stop \<noteq> 0" "\<forall>n. stop < pg_clock e n"
  shows "\<exists>td1 c1. process_transaction (db_init_libpq e stop) tr td c = Some ((Some ERROR, td1), c1) \<and> pg_link c1 = No_handle"
proof -
  let ?dbc = "db_init_libpq e stop"
  obtain rc td1 where x: "run_state (execute_transaction ?dbc tr td) c = (Inl (Some rc, td1), c)" "rc \<in> {RECONNECT, ERROR}"
    using execute_unconnected [OF assms(1,2)] by blast
  define c2 where "c2 = (end_block c)\<lparr>pg_link := No_handle, pg_plans := []\<rparr>"
  have d: "run_state (disconnect_from_db ?dbc) c = (OK, c2)"
    by (simp add: disconnect_from_db_def disconnect_from_db_libpq_def run_bind c2_def)
  have r: "reconnect ?dbc c2 = Some (False, c2\<lparr>pg_calls := pg_calls c2 + 1\<rparr>)"
    using assms(3,4) by (subst reconnect.simps) (simp add: read_pg_clock_def past_stop_def)
  have "attempts ?dbc tr (Suc n) st td c = Some ((Some ERROR, td1), c2\<lparr>pg_calls := pg_calls c2 + 1\<rparr>)" if "st \<noteq> OK" for n st
    using x d r unconnected(3) [OF assms(1), of e] by (auto simp: Let_def RECONNECT_def status_defs)
  then have "process_transaction ?dbc tr td c = Some ((Some ERROR, td1), c2\<lparr>pg_calls := pg_calls c2 + 1\<rparr>)"
    unfolding process_transaction_def numeral_2_eq_2 by (simp add: OK_def)
  then show ?thesis by (simp add: c2_def)
qed

text \<open>C13: When the connection to PostgreSQL is lost and the stop time is over, the transaction of a terminal
  ends with an error and leaves a handle that has been freed, without a new one. The loop does not
  notice: every other terminal whose keying time is running still has its callback, and this callback
  then processes a transaction with the freed handle.\<close>
theorem freed_handle_used:
  assumes "k < length (rte s)" "k' < length (rte s)" "k \<noteq> k'" "kt (rte s ! k) \<noteq> None" "kt (rte s ! k') \<noteq> None"
    and "rte_transaction (rte s ! k) \<in> {DELIVERY, NEW_ORDER, ORDER_STATUS, PAYMENT, STOCK_LEVEL}"
    and "rte_transaction (rte s ! k') \<in> {DELIVERY, NEW_ORDER, ORDER_STATUS, PAYMENT, STOCK_LEVEL}"
    and "pg_link (database s) \<noteq> Connected" "driver.stop_time d \<noteq> 0" "\<forall>n. driver.stop_time d < pg_clock e n"
  shows "\<exists>s' td s'' td'. direct_step log_c (db_init_libpq e (driver.stop_time d)) d s
      (Processed k (request_of (rte s ! k)) (ERROR, td) rt now) s' \<and> pg_link (database s') = No_handle \<and>
    direct_step log_c (db_init_libpq e (driver.stop_time d)) d s'
      (Processed k' (request_of (rte s ! k')) (ERROR, td') rt now) s''"
proof -
  let ?dbc = "db_init_libpq e (driver.stop_time d)"
  have one: "\<exists>s' td. keying_time_cb_direct log_c ?dbc d k rt now s = Some ((ERROR, td), s') \<and> pg_link (database s') = No_handle \<and>
      length (rte s') = length (rte s) \<and> (\<forall>k' \<noteq> k. rte s' ! k' = rte s ! k')"
    if broken: "pg_link (database s) \<noteq> Connected" and known: "rte_transaction (rte s ! k) \<in> {DELIVERY, NEW_ORDER, ORDER_STATUS, PAYMENT, STOCK_LEVEL}"
    for k and s :: "(rte_direct, pg_conn) direct_loop"
  proof -
    obtain tr tdr where rq: "request_of (rte s ! k) = (tr, tdr)" by (cases "request_of (rte s ! k)")
    then have tr: "tr \<in> {DELIVERY, NEW_ORDER, ORDER_STATUS, PAYMENT, STOCK_LEVEL}" using known by (simp add: request_of_def)
    obtain td1 c1 where "process_transaction ?dbc tr tdr (database s) = Some ((Some ERROR, td1), c1)" "pg_link c1 = No_handle"
      using process_unconnected [OF broken tr assms(9,10)] by blast
    then show ?thesis using rq by (auto simp: keying_time_cb_direct_def Let_def split: prod.split)
  qed
  obtain s' td where a: "keying_time_cb_direct log_c ?dbc d k rt now s = Some ((ERROR, td), s')" "pg_link (database s') = No_handle"
    "length (rte s') = length (rte s)" "\<forall>k' \<noteq> k. rte s' ! k' = rte s ! k'" using one [OF assms(8,6)] by blast
  have same: "rte s' ! k' = rte s ! k'" using a(4) assms(3) by simp
  have "pg_link (database s') \<noteq> Connected" using a(2) by simp
  moreover have "rte_transaction (rte s' ! k') \<in> {DELIVERY, NEW_ORDER, ORDER_STATUS, PAYMENT, STOCK_LEVEL}" using assms(7) same by simp
  ultimately obtain s'' td' where b: "keying_time_cb_direct log_c ?dbc d k' rt now s' = Some ((ERROR, td'), s'')" using one by blast
  have "direct_step log_c ?dbc d s (Processed k (request_of (rte s ! k)) (ERROR, td) rt now) s'"
    by (rule direct_keyed [OF assms(1,4) a(1)])
  moreover have "direct_step log_c ?dbc d s' (Processed k' (request_of (rte s' ! k')) (ERROR, td') rt now) s''"
    by (rule direct_keyed [OF _ _ b]) (use assms(2,5) a(3) same in simp_all)
  ultimately show ?thesis using a(2) same by auto
qed

theorem freed_handle_used_witness:
  "\<exists>s s' td s'' td' request request'. direct_step id (db_init_libpq ((sample_pg None)\<lparr>pg_clock := \<lambda>_. 200\<rparr>) 100) sample_stations s
      (Processed 0 request (ERROR, td) 1 200) s' \<and> pg_link (database s') = No_handle \<and>
    direct_step id (db_init_libpq ((sample_pg None)\<lparr>pg_clock := \<lambda>_. 200\<rparr>) 100) sample_stations s'
      (Processed 1 request' (ERROR, td') 1 200) s''"
proof -
  define t where "t = (the (direct_terminal 0 1 1))\<lparr>tt := None, kt := Some 2, rte_transaction := STOCK_LEVEL,
    rte_data := Some (Stock_level \<lparr>sl_w_id = 1, sl_d_id = 1, sl_threshold = 15\<rparr>)\<rparr>"
  define s where "s = initial_direct 5 [t, t] (sample_pg_conn sample_tables\<lparr>pg_link := Broken\<rparr>)"
  have "\<exists>s' td s'' td'. direct_step id (db_init_libpq ((sample_pg None)\<lparr>pg_clock := \<lambda>_. 200\<rparr>) (driver.stop_time sample_stations)) sample_stations s
      (Processed 0 (request_of (rte s ! 0)) (ERROR, td) 1 200) s' \<and> pg_link (database s') = No_handle \<and>
    direct_step id (db_init_libpq ((sample_pg None)\<lparr>pg_clock := \<lambda>_. 200\<rparr>) (driver.stop_time sample_stations)) sample_stations s'
      (Processed 1 (request_of (rte s ! 1)) (ERROR, td') 1 200) s''"
    by (rule freed_handle_used) (simp_all add: s_def t_def initial_direct_def direct_terminal_def sample_stations_ok sample_pg_conn_def)
  then show ?thesis unfolding sample_stations_ok(5) by (elim exE, intro exI)
qed

end
