(* ===== verification/Cr_Sql.thy ===== *)
theory Cr_Sql
  imports Pg_Procs
begin

text \<open>
  The SQL statements of the transactions for CockroachDB (\<open>src/src/cockroach\<close>), their texts and what
  they mean. The client sends a statement with its parameters as texts, which the server reads as
  numbers of the columns' types; a text that is none is an error. Integers have 64 bits, an amount is
  a decimal number in millionths, and in ascending order NULL comes first. Apart from that a statement
  means what the one of \<open>Pg_Sql\<close> does.
\<close>

section \<open>Statements\<close>

text \<open>The parameters in the order of their use, each the text that the client sends.\<close>

datatype cr_statement =
    Cr_delivery_1 bytes bytes
  | Cr_delivery_2 bytes bytes bytes
  | Cr_delivery_3 bytes bytes bytes bytes
  | Cr_delivery_4 bytes bytes bytes
  | Cr_delivery_5 bytes bytes bytes
  | Cr_delivery_6 bytes bytes bytes bytes
  | Cr_new_order_1 bytes
  | Cr_new_order_2 bytes bytes
  | Cr_new_order_3 bytes bytes bytes
  | Cr_new_order_4 bytes bytes bytes
  | Cr_new_order_5 bytes bytes bytes bytes bytes bytes
  | Cr_new_order_6 bytes
  | Cr_new_order_7 bytes bytes bytes
  | Cr_new_order_8 bytes bytes bytes bytes bytes
  | Cr_new_order_9 bytes bytes bytes bytes bytes bytes bytes bytes bytes
  | Cr_order_status_1 bytes bytes bytes
  | Cr_order_status_2 bytes bytes bytes
  | Cr_order_status_3 bytes bytes bytes
  | Cr_order_status_4 bytes bytes bytes
  | Cr_payment_1 bytes bytes
  | Cr_payment_2 bytes bytes bytes
  | Cr_payment_3 bytes bytes bytes
  | Cr_payment_4 bytes bytes bytes
  | Cr_payment_5_gc bytes bytes bytes bytes
  | Cr_payment_5_bc bytes bytes bytes bytes bytes
  | Cr_payment_6 bytes bytes bytes bytes bytes bytes bytes bytes
  | Cr_stock_level_1 bytes bytes
  | Cr_stock_level_2 bytes bytes bytes bytes bytes

text \<open>The lines of a statement; only the statement that reads the stock depends on an argument.\<close>

definition cr_delivery_text :: "cr_statement \<Rightarrow> bytes list" where
  "cr_delivery_text s = (case s of
     Cr_delivery_1 _ _ \<Rightarrow> [''SELECT no_o_id'', ''FROM new_order'', ''WHERE no_w_id = $1'', ''  AND no_d_id = $2'',
       ''ORDER BY no_o_id ASC'', ''LIMIT 1'']
   | Cr_delivery_2 _ _ _ \<Rightarrow> [''DELETE FROM new_order'', ''WHERE no_o_id = $1'', ''  AND no_w_id = $2'', ''  AND no_d_id = $3'']
   | Cr_delivery_3 _ _ _ _ \<Rightarrow> [''UPDATE orders'', ''SET o_carrier_id = $1'', ''WHERE o_id = $2'', ''  AND o_w_id = $3'',
       ''  AND o_d_id = $4'', ''RETURNING o_c_id'']
   | Cr_delivery_4 _ _ _ \<Rightarrow> [''UPDATE order_line'', ''SET ol_delivery_d = current_timestamp'', ''WHERE ol_o_id = $1'',
       ''  AND ol_w_id = $2'', ''  AND ol_d_id = $3'']
   | Cr_delivery_5 _ _ _ \<Rightarrow> [''SELECT SUM(ol_amount)'', ''FROM order_line'', ''WHERE ol_o_id = $1'', ''  AND ol_w_id = $2'',
       ''  AND ol_d_id = $3'']
   | Cr_delivery_6 _ _ _ _ \<Rightarrow> [''UPDATE customer'', ''SET c_delivery_cnt = c_delivery_cnt + 1,'', ''    c_balance = c_balance + $1'',
       ''WHERE c_id = $2'', ''  AND c_w_id = $3'', ''  AND c_d_id = $4'']
   | _ \<Rightarrow> [])"

definition cr_new_order_text :: "cr_statement \<Rightarrow> bytes list" where
  "cr_new_order_text s = (case s of
     Cr_new_order_1 _ \<Rightarrow> [''SELECT w_tax'', ''FROM warehouse'', ''WHERE w_id = $1'']
   | Cr_new_order_2 _ _ \<Rightarrow> [''UPDATE district'', ''SET d_next_o_id = d_next_o_id + 1'', ''WHERE d_w_id = $1'', ''  AND d_id = $2'',
       ''RETURNING d_tax, d_next_o_id - 1'']
   | Cr_new_order_3 _ _ _ \<Rightarrow> [''SELECT c_discount, c_last, c_credit'', ''FROM customer'', ''WHERE c_w_id = $1'',
       ''  AND c_d_id = $2'', ''  AND c_id = $3'']
   | Cr_new_order_4 _ _ _ \<Rightarrow> [''INSERT INTO new_order (no_o_id, no_w_id, no_d_id)'', ''VALUES ($1, $2, $3)'']
   | Cr_new_order_5 _ _ _ _ _ _ \<Rightarrow> [''INSERT INTO orders (o_id, o_d_id, o_w_id, o_c_id, o_entry_d,'',
       [CHR 0x09, CHR 0x09] @ ''    o_carrier_id, o_ol_cnt, o_all_local)'',
       ''VALUES ($1, $2, $3, $4, current_timestamp, NULL, $5, $6)'']
   | Cr_new_order_6 _ \<Rightarrow> [''SELECT i_price, i_name, i_data'', ''FROM item'', ''WHERE i_id = $1'']
   | Cr_new_order_7 col _ _ \<Rightarrow> [''SELECT s_quantity, '' @ col @ '', s_data'', ''FROM stock'', ''WHERE s_i_id = $1'', ''  AND s_w_id = $2'']
   | Cr_new_order_8 _ _ _ _ _ \<Rightarrow> [''UPDATE stock'', ''SET s_quantity = s_quantity - $1,'', ''    s_ytd = s_ytd + $2,'',
       ''    s_order_cnt = s_order_cnt + 1,'', ''    s_remote_cnt = s_remote_cnt + $3'', ''WHERE s_i_id = $4'', ''  AND s_w_id = $5'']
   | Cr_new_order_9 _ _ _ _ _ _ _ _ _ \<Rightarrow> [''INSERT INTO order_line (ol_o_id, ol_d_id, ol_w_id, ol_number,'',
       [CHR 0x09, CHR 0x09, CHR 0x09] @ ''ol_i_id, ol_supply_w_id, ol_delivery_d,'',
       [CHR 0x09, CHR 0x09, CHR 0x09] @ ''ol_quantity, ol_amount, ol_dist_info)'',
       ''VALUES ($1, $2, $3, $4, $5, $6, NULL, $7, $8, $9)'']
   | _ \<Rightarrow> [])"

definition cr_order_status_text :: "cr_statement \<Rightarrow> bytes list" where
  "cr_order_status_text s = (case s of
     Cr_order_status_1 _ _ _ \<Rightarrow> [''SELECT c_id'', ''FROM customer'', ''WHERE c_w_id = $1'', ''  AND c_d_id = $2'',
       ''  AND c_last = $3'', ''ORDER BY c_first ASC'']
   | Cr_order_status_2 _ _ _ \<Rightarrow> [''SELECT c_first, c_middle, c_last, c_balance'', ''FROM customer'', ''WHERE c_w_id = $1'',
       ''  AND c_d_id = $2'', ''  AND c_id = $3'']
   | Cr_order_status_3 _ _ _ \<Rightarrow> [''SELECT o_id, o_carrier_id, o_entry_d, o_ol_cnt'', ''FROM orders'', ''WHERE o_w_id = $1'',
       ''  AND o_d_id = $2'', ''  AND o_c_id = $3'', ''ORDER BY o_id DESC'', ''LIMIT 1'']
   | Cr_order_status_4 _ _ _ \<Rightarrow> [''SELECT ol_i_id, ol_supply_w_id, ol_quantity, ol_amount,'', CHR 0x09 # ''ol_delivery_d'',
       ''FROM order_line'', ''WHERE ol_w_id = $1'', ''  AND ol_d_id = $2'', ''  AND ol_o_id = $3'']
   | _ \<Rightarrow> [])"

definition cr_payment_text :: "cr_statement \<Rightarrow> bytes list" where
  "cr_payment_text s = (case s of
     Cr_payment_1 _ _ \<Rightarrow> [''UPDATE warehouse'', ''SET w_ytd = w_ytd + $1'', ''WHERE w_id = $2'',
       ''RETURNING w_name, w_street_1, w_street_2, w_city, w_state, w_zip'']
   | Cr_payment_2 _ _ _ \<Rightarrow> [''UPDATE district'', ''SET d_ytd = d_ytd + $1'', ''WHERE d_id = $2'', ''  AND d_w_id = $3'',
       ''RETURNING d_name, d_street_1, d_street_2, d_city, d_state, d_zip'']
   | Cr_payment_3 _ _ _ \<Rightarrow> [''SELECT c_id'', ''FROM customer'', ''WHERE c_w_id = $1'', ''  AND c_d_id = $2'', ''  AND c_last = $3'',
       ''ORDER BY c_first ASC'']
   | Cr_payment_4 _ _ _ \<Rightarrow> [''SELECT c_first, c_middle, c_last, c_street_1, c_street_2, c_city,'',
       ''       c_state, c_zip, c_phone, c_since, c_credit, c_credit_lim,'', ''       c_discount, c_balance'', ''FROM customer'',
       ''WHERE c_w_id = $1'', ''  AND c_d_id = $2'', ''  AND c_id = $3'']
   | Cr_payment_5_gc _ _ _ _ \<Rightarrow> [''UPDATE customer'', ''SET c_balance = c_balance - $1,'', ''    c_ytd_payment = c_ytd_payment + 1'',
       ''WHERE c_id = $2'', ''  AND c_w_id = $3'', ''  AND c_d_id = $4'']
   | Cr_payment_5_bc _ _ _ _ _ \<Rightarrow> [''UPDATE customer'', ''SET c_balance = c_balance - $1,'', ''    c_ytd_payment = c_ytd_payment + 1,'',
       ''    c_data = substring($2 || c_data, 1, 500)'', ''WHERE c_id = $3'', ''  AND c_w_id = $4'', ''  AND c_d_id = $5'',
       ''RETURNING substring(c_data, 1, 200)'']
   | Cr_payment_6 _ _ _ _ _ _ _ _ \<Rightarrow> [''INSERT INTO history (h_c_id, h_c_d_id, h_c_w_id, h_d_id, h_w_id,'',
       ''                     h_date, h_amount, h_data)'', ''VALUES ($1, $2, $3, $4, $5, CURRENT_TIMESTAMP, $6,'',
       ''        $7 || '' @ [CHR 0x27] @ ''    '' @ [CHR 0x27] @ '' || $8)'', ''RETURNING h_date'']
   | _ \<Rightarrow> [])"

definition cr_stock_level_text :: "cr_statement \<Rightarrow> bytes list" where
  "cr_stock_level_text s = (case s of
     Cr_stock_level_1 _ _ \<Rightarrow> [''SELECT d_next_o_id'', ''FROM district'', ''WHERE d_w_id = $1'', ''AND d_id = $2'']
   | Cr_stock_level_2 _ _ _ _ _ \<Rightarrow> [''WITH'', ''ol AS ('', ''    SELECT DISTINCT ol_i_id'', ''    FROM order_line'',
       ''    WHERE ol_w_id = $1'', ''      AND ol_d_id = $2'', ''      AND ol_o_id BETWEEN ($4)'',
       ''                      AND ($5)'', '')'', ''SELECT count(*)'', ''FROM ol, stock'', ''WHERE s_w_id = $1'',
       ''  AND s_i_id = ol_i_id'', ''  AND s_quantity < $3'']
   | _ \<Rightarrow> [])"

section \<open>Meaning\<close>

text \<open>
  The server reads the parameters with the input functions of \<open>spi_env\<close>, \<open>int4_in\<close> for a column of type
  INTEGER and \<open>numeric_in\<close> for an amount.
\<close>

definition CR_INVALID_TEXT :: bytes where
  "CR_INVALID_TEXT = ''22P02''"

definition with_int :: "spi_env \<Rightarrow> bytes \<Rightarrow> (int \<Rightarrow> bytes + 'a) \<Rightarrow> bytes + 'a" where
  "with_int e s k = (case int4_in e s of None \<Rightarrow> Inl CR_INVALID_TEXT | Some n \<Rightarrow> k n)"

definition with_decimal :: "spi_env \<Rightarrow> bytes \<Rightarrow> (int \<Rightarrow> bytes + 'a) \<Rightarrow> bytes + 'a" where
  "with_decimal e s k = (case numeric_in e s of None \<Rightarrow> Inl CR_INVALID_TEXT | Some x \<Rightarrow> k x)"

definition int64 :: "int \<Rightarrow> bool" where
  "int64 n \<longleftrightarrow> - (2 ^ 63) \<le> n \<and> n < 2 ^ 63"

text \<open>The customer pays \<open>x\<close>; one is added to his payments of the year.\<close>

definition pay_cr :: "int \<Rightarrow> bytes option \<Rightarrow> customer_r \<Rightarrow> customer_r" where
  "pay_cr x note r = r\<lparr>C_BALANCE := C_BALANCE r - x, C_YTD_PAYMENT := C_YTD_PAYMENT r + 10 ^ 6,
     C_DATA := (case note of None \<Rightarrow> C_DATA r | Some u \<Rightarrow> map_option (\<lambda>v. take_chars 500 (u @ v)) (C_DATA r))\<rparr>"

text \<open>The columns that are read of a stock; an unknown column is an error.\<close>

definition cr_stock_rows :: "bytes \<Rightarrow> stock_r list \<Rightarrow> bytes + cell list list" where
  "cr_stock_rows col rs = (case those (map (\<lambda>r. map_option (\<lambda>v. [Decimal (10 ^ 6 * S_QUANTITY r), text_cell v, text_cell (S_DATA r)])
     (dist_column col r)) rs) of None \<Rightarrow> Inl ''42703'' | Some rows \<Rightarrow> Inr rows)"

text \<open>A decimal parameter is exact: it takes the place of the conversion of \<open>Pg_Sql\<close>.\<close>

fun run_cr :: "spi_env \<Rightarrow> bytes \<Rightarrow> cr_statement \<Rightarrow> tables \<Rightarrow> bytes + cell list list \<times> tables" where
  "run_cr e now (Cr_delivery_1 w d) t = with_int e w (\<lambda>w. with_int e d (\<lambda>d. run_pg (\<lambda>_. 0) now (Pg_delivery_1 w d) t))"
| "run_cr e now (Cr_delivery_2 k w d) t =
     with_int e k (\<lambda>k. with_int e w (\<lambda>w. with_int e d (\<lambda>d. run_pg (\<lambda>_. 0) now (Pg_delivery_2 k w d) t)))"
| "run_cr e now (Cr_delivery_3 c k w d) t = with_int e c (\<lambda>c. with_int e k (\<lambda>k. with_int e w (\<lambda>w. with_int e d (\<lambda>d.
     run_pg (\<lambda>_. 0) now (Pg_delivery_3 c k w d) t))))"
| "run_cr e now (Cr_delivery_4 k w d) t =
     with_int e k (\<lambda>k. with_int e w (\<lambda>w. with_int e d (\<lambda>d. run_pg (\<lambda>_. 0) now (Pg_delivery_5 k w d) t)))"
| "run_cr e now (Cr_delivery_5 k w d) t =
     with_int e k (\<lambda>k. with_int e w (\<lambda>w. with_int e d (\<lambda>d. run_pg (\<lambda>_. 0) now (Pg_delivery_6 k w d) t)))"
| "run_cr e now (Cr_delivery_6 x c w d) t = with_decimal e x (\<lambda>x. with_int e c (\<lambda>c. with_int e w (\<lambda>w. with_int e d (\<lambda>d.
     run_pg (\<lambda>_. 0) now (Pg_delivery_7 x c w d) t))))"
| "run_cr e now (Cr_new_order_1 w) t = with_int e w (\<lambda>w. run_pg (\<lambda>_. 0) now (Pg_new_order_1 w) t)"
| "run_cr e now (Cr_new_order_2 w d) t = with_int e w (\<lambda>w. with_int e d (\<lambda>d.
     if list_ex (\<lambda>r. in_district w d r \<and> \<not> int64 (D_NEXT_O_ID r + 1)) (district_t t) then Inl ERRCODE_NUMERIC_VALUE_OUT_OF_RANGE
     else Inr (map (\<lambda>r. [Decimal (D_TAX r), Whole (D_NEXT_O_ID r - 1)])
         (updated_rows (in_district w d) (\<lambda>r. r\<lparr>D_NEXT_O_ID := D_NEXT_O_ID r + 1\<rparr>) (district_t t)),
       t\<lparr>district_t := update_rows (in_district w d) (\<lambda>r. r\<lparr>D_NEXT_O_ID := D_NEXT_O_ID r + 1\<rparr>) (district_t t)\<rparr>)))"
| "run_cr e now (Cr_new_order_3 w d c) t =
     with_int e w (\<lambda>w. with_int e d (\<lambda>d. with_int e c (\<lambda>c. run_pg (\<lambda>_. 0) now (Pg_new_order_4 w d c) t)))"
| "run_cr e now (Cr_new_order_4 k w d) t =
     with_int e k (\<lambda>k. with_int e w (\<lambda>w. with_int e d (\<lambda>d. run_pg (\<lambda>_. 0) now (Pg_new_order_5 k w d) t)))"
| "run_cr e now (Cr_new_order_5 k d w c cnt all_local) t =
     with_int e k (\<lambda>k. with_int e d (\<lambda>d. with_int e w (\<lambda>w. with_int e c (\<lambda>c. with_int e cnt (\<lambda>cnt. with_int e all_local (\<lambda>l.
     run_pg (\<lambda>_. 0) now (Pg_new_order_6 k d w c cnt l) t))))))"
| "run_cr e now (Cr_new_order_6 i) t = with_int e i (\<lambda>i. run_pg (\<lambda>_. 0) now (Pg_new_order_7 i) t)"
| "run_cr e now (Cr_new_order_7 col i w) t = with_int e i (\<lambda>i. with_int e w (\<lambda>w.
     case cr_stock_rows col (filter (is_stock w i) (stock_t t)) of Inl c \<Rightarrow> Inl c | Inr rows \<Rightarrow> Inr (rows, t)))"
| "run_cr e now (Cr_new_order_8 dq q remote i w) t =
     with_int e dq (\<lambda>dq. with_int e q (\<lambda>q. with_int e remote (\<lambda>r. with_int e i (\<lambda>i. with_int e w (\<lambda>w.
     run_pg (\<lambda>_. 0) now (Pg_new_order_9 dq q r i w) t)))))"
| "run_cr e now (Cr_new_order_9 k d w n i supply q amount info) t =
     with_int e k (\<lambda>k. with_int e d (\<lambda>d. with_int e w (\<lambda>w. with_int e n (\<lambda>n. with_int e i (\<lambda>i. with_int e supply (\<lambda>s.
     with_int e q (\<lambda>q. with_decimal e amount (\<lambda>x. run_pg (\<lambda>_. x) now (Pg_new_order_10 k d w n i s q 0 info) t))))))))"
| "run_cr e now (Cr_order_status_1 w d nm) t =
     with_int e w (\<lambda>w. with_int e d (\<lambda>d. Inr (map (\<lambda>r. [Whole (C_ID r)]) (customers_named w d nm t), t)))"
| "run_cr e now (Cr_order_status_2 w d c) t =
     with_int e w (\<lambda>w. with_int e d (\<lambda>d. with_int e c (\<lambda>c. run_pg (\<lambda>_. 0) now (Pg_order_status_2 w d c) t)))"
| "run_cr e now (Cr_order_status_3 w d c) t =
     with_int e w (\<lambda>w. with_int e d (\<lambda>d. with_int e c (\<lambda>c. run_pg (\<lambda>_. 0) now (Pg_order_status_3 w d c) t)))"
| "run_cr e now (Cr_order_status_4 w d k) t =
     with_int e w (\<lambda>w. with_int e d (\<lambda>d. with_int e k (\<lambda>k. run_pg (\<lambda>_. 0) now (Pg_order_status_4 w d k) t)))"
| "run_cr e now (Cr_payment_1 h w) t = with_decimal e h (\<lambda>x. with_int e w (\<lambda>w. run_pg (\<lambda>_. x) now (Pg_payment_1 0 w) t))"
| "run_cr e now (Cr_payment_2 h d w) t =
     with_decimal e h (\<lambda>x. with_int e d (\<lambda>d. with_int e w (\<lambda>w. run_pg (\<lambda>_. x) now (Pg_payment_3 0 d w) t)))"
| "run_cr e now (Cr_payment_3 w d nm) t =
     with_int e w (\<lambda>w. with_int e d (\<lambda>d. Inr (map (\<lambda>r. [Whole (C_ID r)]) (customers_named w d nm t), t)))"
| "run_cr e now (Cr_payment_4 w d c) t =
     with_int e w (\<lambda>w. with_int e d (\<lambda>d. with_int e c (\<lambda>c. run_pg (\<lambda>_. 0) now (Pg_payment_6 w d c) t)))"
| "run_cr e now (Cr_payment_5_gc h c w d) t = with_decimal e h (\<lambda>x. with_int e c (\<lambda>c. with_int e w (\<lambda>w. with_int e d (\<lambda>d.
     Inr ([], t\<lparr>customer_t := update_rows (is_customer w d c) (pay_cr x None) (customer_t t)\<rparr>)))))"
| "run_cr e now (Cr_payment_5_bc h s c w d) t = with_decimal e h (\<lambda>x. with_int e c (\<lambda>c. with_int e w (\<lambda>w. with_int e d (\<lambda>d.
     Inr (map (\<lambda>r. [text_cell (map_option (take_chars 200) (C_DATA r))])
         (updated_rows (is_customer w d c) (pay_cr x (Some s)) (customer_t t)),
       t\<lparr>customer_t := update_rows (is_customer w d c) (pay_cr x (Some s)) (customer_t t)\<rparr>)))))"
| "run_cr e now (Cr_payment_6 c c_d c_w d w h w_name d_name) t =
     with_int e c (\<lambda>c. with_int e c_d (\<lambda>c_d. with_int e c_w (\<lambda>c_w. with_int e d (\<lambda>d. with_int e w (\<lambda>w. with_decimal e h (\<lambda>x.
     run_pg (\<lambda>_. x) now (Pg_payment_8 c c_d c_w d w 0 w_name d_name) t))))))"
| "run_cr e now (Cr_stock_level_1 w d) t = with_int e w (\<lambda>w. with_int e d (\<lambda>d. run_pg (\<lambda>_. 0) now (Pg_stock_level_1 w d) t))"
| "run_cr e now (Cr_stock_level_2 w d threshold low high) t =
     with_int e w (\<lambda>w. with_int e d (\<lambda>d. with_int e threshold (\<lambda>n. with_int e low (\<lambda>low. with_int e high (\<lambda>high.
     run_pg (\<lambda>_. 0) now (Pg_stock_level_2 w d n low high) t)))))"

end
