(* ===== verification/Cockroach.thy ===== *)
theory Cockroach
  imports Cr_Sql Libpq
begin

text \<open>
  The backend for CockroachDB (\<open>src/src/cockroach\<close>): the client executes the statements of a
  transaction one by one in a block of its own, through the same library as the backend of \<open>Libpq\<close>
  and on the same connections. Numbers are sent and received as texts in buffers of fixed size. What
  follows a statement is its continuation, since a statement that fails leaves the function with
  ERROR; the results that were copied before remain. The result None is undefined behaviour.
\<close>

section \<open>Connections\<close>

definition commit_transaction_cockroach :: "pg_env \<Rightarrow> (pg_conn, int) state" where
  "commit_transaction_cockroach e = do {
     err \<leftarrow> pq_commit e;
     bad \<leftarrow> connection_bad;
     State_Monad.return (if err = None then OK else if bad then RECONNECT else ERROR)
   }"

text \<open>The handle is freed when connecting fails.\<close>

definition connect_to_db_cockroach :: "pg_env \<Rightarrow> (pg_conn, int) state" where
  "connect_to_db_cockroach e = State (\<lambda>c.
     let c1 = (end_block c)\<lparr>pg_calls := pg_calls c + 1, pg_plans := []\<rparr>
     in if connects e (pg_calls c) then (OK, c1\<lparr>pg_link := Connected\<rparr>) else (ERROR, c1\<lparr>pg_link := No_handle\<rparr>))"

definition disconnect_from_db_cockroach :: "(pg_conn, int) state" where
  "disconnect_from_db_cockroach = State (\<lambda>c. (OK, (end_block c)\<lparr>pg_link := No_handle, pg_plans := []\<rparr>))"

text \<open>The answer does not depend on what became of \<open>ROLLBACK\<close>.\<close>

definition rollback_transaction_cockroach :: "pg_env \<Rightarrow> (pg_conn, int) state" where
  "rollback_transaction_cockroach e = do {
     err \<leftarrow> pq_rollback e;
     State_Monad.return STATUS_ROLLBACK
   }"

section \<open>Statements\<close>

text \<open>\<open>PQexecParams\<close>: the server reads the parameters and executes the statement in the block.\<close>

definition run_statement :: "pg_env \<Rightarrow> cr_statement \<Rightarrow> pg_conn \<Rightarrow> (pq_error + cell list list) \<times> pg_conn" where
  "run_statement e s c =
     (if pg_aborted c then (Inl (Server IN_FAILED_TRANSACTION), c)
      else case run_cr (pg_types e) (pg_started c) s (pg_view c) of
          Inl sqlstate \<Rightarrow> (Inl (Server sqlstate), abort_block c)
        | Inr (rows, t) \<Rightarrow> (Inr rows, if pg_block c = None then c\<lparr>pg_committed := t\<rparr> else c\<lparr>pg_block := Some t\<rparr>))"

definition pq_exec_params :: "pg_env \<Rightarrow> cr_statement \<Rightarrow> (pg_conn, pq_error + cell list list) state" where
  "pq_exec_params e s = pq_command (call_fate e) (run_statement e s) Inl abort_block id"

text \<open>\<open>BEGIN\<close>, a statement, a statement that has to give rows: when it fails the function returns \<open>ret\<close>.\<close>

definition begin_or :: "pg_env \<Rightarrow> 'a \<Rightarrow> (pg_conn, 'a) state \<Rightarrow> (pg_conn, 'a) state" where
  "begin_or e ret k = do {
     err \<leftarrow> pq_begin e;
     if err \<noteq> None then State_Monad.return ret else k
   }"

definition command :: "pg_env \<Rightarrow> cr_statement \<Rightarrow> 'a \<Rightarrow> (cell list list \<Rightarrow> (pg_conn, 'a) state) \<Rightarrow> (pg_conn, 'a) state" where
  "command e s ret k = do {
     r \<leftarrow> pq_exec_params e s;
     case r of Inl _ \<Rightarrow> State_Monad.return ret | Inr rows \<Rightarrow> k rows
   }"

definition query :: "pg_env \<Rightarrow> cr_statement \<Rightarrow> 'a \<Rightarrow> (cell list list \<Rightarrow> (pg_conn, 'a) state) \<Rightarrow> (pg_conn, 'a) state" where
  "query e s ret k = command e s ret (\<lambda>rows. if rows = [] then State_Monad.return ret else k rows)"

text \<open>\<open>PQgetvalue\<close> in text format is empty for NULL; \<open>snprintf\<close> of a text and of a number into \<open>n\<close> bytes.\<close>

definition pq_getvalue :: "pg_env \<Rightarrow> cell list \<Rightarrow> nat \<Rightarrow> bytes" where
  "pq_getvalue e row i = (if row ! i = Null then [] else spi_text (pg_types e) (row ! i))"

definition put_text :: "nat \<Rightarrow> bytes \<Rightarrow> bytes" where
  "put_text n s = take (n - 1) s"

definition put_int :: "nat \<Rightarrow> int \<Rightarrow> bytes" where
  "put_int n x = take (n - 1) (fmt_d x)"

definition put_amount :: "nat \<Rightarrow> rat \<Rightarrow> bytes" where
  "put_amount n x = take (n - 1) (fmt_f 6 x)"

section \<open>Delivery\<close>

text \<open>The districts one after the other; one without a new order is skipped.\<close>

fun cr_districts :: "pg_env \<Rightarrow> bytes \<Rightarrow> bytes \<Rightarrow> int list \<Rightarrow> (pg_conn, int) state" where
  "cr_districts e w_id o_carrier_id [] = State_Monad.return OK"
| "cr_districts e w_id o_carrier_id (d # ds) = (let d_id = put_int 11 d in
     command e (Cr_delivery_1 w_id d_id) ERROR (\<lambda>rows.
     if rows = [] then cr_districts e w_id o_carrier_id ds
     else let o_id = put_text 11 (pq_getvalue e (hd rows) 0) in
     command e (Cr_delivery_2 o_id w_id d_id) ERROR (\<lambda>_.
     command e (Cr_delivery_3 o_carrier_id o_id w_id d_id) ERROR (\<lambda>rows.
     if length rows \<noteq> 1 then State_Monad.return ERROR
     else let o_c_id = put_text 11 (pq_getvalue e (hd rows) 0) in
     command e (Cr_delivery_4 o_id w_id d_id) ERROR (\<lambda>_.
     command e (Cr_delivery_5 o_id w_id d_id) ERROR (\<lambda>rows.
     let ol_amount = put_text 64 (pq_getvalue e (hd rows) 0) in
     command e (Cr_delivery_6 ol_amount o_c_id w_id d_id) ERROR (\<lambda>_.
     cr_districts e w_id o_carrier_id ds)))))))"

definition execute_delivery_cockroach :: "pg_env \<Rightarrow> delivery_t \<Rightarrow> (pg_conn, int) state" where
  "execute_delivery_cockroach e data =
     begin_or e ERROR (cr_districts e (put_int 11 (dl_w_id data)) (put_int 11 (dl_o_carrier_id data)) [1..10])"

definition execute_integrity_cockroach :: "integrity_t \<Rightarrow> (pg_conn, int) state" where
  "execute_integrity_cockroach data = State_Monad.return OK"

section \<open>New-Order\<close>

definition set_line :: "nat \<Rightarrow> (new_order_line_out \<Rightarrow> new_order_line_out) \<Rightarrow> new_order_out \<Rightarrow> new_order_out" where
  "set_line i f out = out\<lparr>nw_lines := (nw_lines out)[i := f (nw_lines out ! i)]\<rparr>"

text \<open>What the loop copies from the item and from the stock.\<close>

definition item_copied :: "pg_env \<Rightarrow> nat \<Rightarrow> rat \<Rightarrow> cell list \<Rightarrow> new_order_out \<Rightarrow> new_order_out" where
  "item_copied e i amount item out = (set_line i (\<lambda>l. l\<lparr>nl_i_price := atof (pq_getvalue e item 0),
       nl_i_name := put_text 388 (pq_getvalue e item 1), nl_ol_amount := amount\<rparr>) out)\<lparr>
     nw_total_amount := fl (nw_total_amount out + amount)\<rparr>"

definition stock_copied :: "pg_env \<Rightarrow> nat \<Rightarrow> bytes \<Rightarrow> cell list \<Rightarrow> new_order_out \<Rightarrow> new_order_out" where
  "stock_copied e i i_data stock out = set_line i (\<lambda>l. l\<lparr>nl_s_quantity := atoi (pq_getvalue e stock 0),
     nl_brand_generic := (if has_substring ''ORIGINAL'' i_data \<and> has_substring ''ORIGINAL'' (pq_getvalue e stock 2)
       then CHR ''B'' else CHR ''G'')\<rparr>) out"

text \<open>
  The line \<open>i\<close> of an order. The stock is the one of the home warehouse; the texts \<open>my_s_dist\<close> and
  \<open>i_data\<close> are cut to the sizes of their buffers.
\<close>

definition cr_order_line :: "pg_env \<Rightarrow> new_order_t \<Rightarrow> bytes \<Rightarrow> nat \<Rightarrow> new_order_out \<Rightarrow>
    (new_order_out \<Rightarrow> (pg_conn, int option \<times> new_order_out) state) \<Rightarrow> (pg_conn, int option \<times> new_order_out) state" where
  "cr_order_line e data d_next_o_id i out k =
     (if 15 \<le> i \<or> length (no_order_line data) \<le> i then State_Monad.return (None, out)
      else let ln = no_order_line data ! i; q = ol_quantity ln; w_id = put_int 11 (no_w_id data); d_id = put_int 11 (no_d_id data);
        ol_i_id = put_int 11 (ol_i_id ln) in
      command e (Cr_new_order_6 ol_i_id) (Some ERROR, out) (\<lambda>rows.
      if rows = [] then State_Monad.return (Some ERROR, out\<lparr>nw_rollback := 1\<rparr>)
      else let item = hd rows; amount = fl32 (fl (atof (pq_getvalue e item 0) * fl32 (of_int q)));
        ol_amount = put_amount 64 amount; out = item_copied e i amount item out; i_data = put_text 51 (pq_getvalue e item 2) in
      if no_d_id data < 1 \<or> 10 < no_d_id data then State_Monad.return (None, out)
      else
      query e (Cr_new_order_7 (s_dist ! nat (no_d_id data - 1)) ol_i_id w_id) (Some ERROR, out) (\<lambda>rows.
      let stock = hd rows; decr_quantity = (if q + 10 \<le> atoi (pq_getvalue e stock 0) then q else q - 91);
        my_s_dist = put_text 16 (pq_getvalue e stock 1); out = stock_copied e i i_data stock out;
        decr_qty = put_int 11 decr_quantity; qty = put_int 11 q;
        remote_cnt = put_int 2 (if ol_supply_w_id ln \<noteq> no_w_id data then 1 else 0) in
      command e (Cr_new_order_8 decr_qty qty remote_cnt ol_i_id w_id) (Some ERROR, out) (\<lambda>_.
      let ol_number = put_int 4 (int i + 1); ol_supply_w_id = put_int 11 (ol_supply_w_id ln) in
      command e (Cr_new_order_9 d_next_o_id d_id w_id ol_number ol_i_id ol_supply_w_id qty ol_amount my_s_dist)
        (Some ERROR, out) (\<lambda>_. k out)))))"

fun cr_order_lines :: "pg_env \<Rightarrow> new_order_t \<Rightarrow> bytes \<Rightarrow> nat list \<Rightarrow> new_order_out \<Rightarrow> (pg_conn, int option \<times> new_order_out) state" where
  "cr_order_lines e data d_next_o_id [] out = State_Monad.return (Some OK, out)"
| "cr_order_lines e data d_next_o_id (i # is) out =
     cr_order_line e data d_next_o_id i out (cr_order_lines e data d_next_o_id is)"

text \<open>The statements after \<open>BEGIN\<close>.\<close>

definition new_order_statements :: "pg_env \<Rightarrow> new_order_t \<Rightarrow> new_order_out \<Rightarrow> (pg_conn, int option \<times> new_order_out) state" where
  "new_order_statements e data out =
     (let c_id = put_int 11 (no_c_id data); d_id = put_int 11 (no_d_id data); o_ol_cnt = put_int 4 (no_o_ol_cnt data);
        o_all_local = put_int 3 (no_o_all_local data); w_id = put_int 11 (no_w_id data) in
      query e (Cr_new_order_1 w_id) (Some ERROR, out) (\<lambda>rows.
      let out = out\<lparr>nw_w_tax := atof (pq_getvalue e (hd rows) 0)\<rparr> in
      query e (Cr_new_order_2 w_id d_id) (Some ERROR, out) (\<lambda>rows.
      let d_next_o_id = put_text 11 (pq_getvalue e (hd rows) 1);
        out = out\<lparr>nw_d_tax := atof (pq_getvalue e (hd rows) 0), nw_o_id := atoi (pq_getvalue e (hd rows) 1)\<rparr> in
      query e (Cr_new_order_3 w_id d_id c_id) (Some ERROR, out) (\<lambda>rows.
      let out = out\<lparr>nw_c_discount := atof (pq_getvalue e (hd rows) 0), nw_c_last := put_text 68 (pq_getvalue e (hd rows) 1),
        nw_c_credit := put_text 3 (pq_getvalue e (hd rows) 2)\<rparr> in
      command e (Cr_new_order_4 d_next_o_id w_id d_id) (Some ERROR, out) (\<lambda>_.
      command e (Cr_new_order_5 d_next_o_id d_id w_id c_id o_ol_cnt o_all_local) (Some ERROR, out) (\<lambda>_.
      cr_order_lines e data d_next_o_id [0..<nat (no_o_ol_cnt data)] out))))))"

definition new_order_cockroach :: "pg_env \<Rightarrow> new_order_t \<Rightarrow> new_order_out \<Rightarrow> (pg_conn, int option \<times> new_order_out) state" where
  "new_order_cockroach e data out0 = (let out = out0\<lparr>nw_rollback := 0, nw_total_amount := 0\<rparr> in
     begin_or e (Some ERROR, out) (new_order_statements e data out))"

definition execute_new_order_cockroach ::
    "pg_env \<Rightarrow> new_order_t \<times> new_order_out \<Rightarrow> (pg_conn, int option \<times> new_order_t \<times> new_order_out) state" where
  "execute_new_order_cockroach e x = do {
     (rc, out) \<leftarrow> new_order_cockroach e (fst x) (snd x);
     State_Monad.return (rc, fst x, out)
   }"

section \<open>The customer\<close>

text \<open>The number of the customer as a text: the middle one of those with the name, or the given one.\<close>

definition cr_customer :: "pg_env \<Rightarrow> cr_statement \<Rightarrow> int \<Rightarrow> 'a \<Rightarrow> (bytes \<Rightarrow> (pg_conn, 'a) state) \<Rightarrow> (pg_conn, 'a) state" where
  "cr_customer e by_name c_id ret k =
     (if c_id = 0
      then query e by_name ret (\<lambda>rows. k (put_text 11 (pq_getvalue e (rows ! ((length rows - 1) div 2)) 0)))
      else k (put_int 11 c_id))"

section \<open>Payment\<close>

definition address_copied :: "pg_env \<Rightarrow> cell list \<Rightarrow> address_out" where
  "address_copied e row = \<lparr>ao_name = put_text 164 (pq_getvalue e row 0), ao_street_1 = put_text 324 (pq_getvalue e row 1),
     ao_street_2 = put_text 324 (pq_getvalue e row 2), ao_city = put_text 324 (pq_getvalue e row 3),
     ao_state = put_text 36 (pq_getvalue e row 4), ao_zip = put_text 40 (pq_getvalue e row 5)\<rparr>"

definition customer_copied :: "pg_env \<Rightarrow> payment_t \<Rightarrow> bytes \<Rightarrow> cell list \<Rightarrow> payment_out \<Rightarrow> payment_out" where
  "customer_copied e data c_id row out = out\<lparr>
     pa_c_id := atoi c_id,
     pa_c_first := put_text 260 (pq_getvalue e row 0), pa_c_middle := put_text 3 (pq_getvalue e row 1),
     pa_c_last := mbstowcs (pa_c_last out) (C_LAST_LEN + 1) (pq_getvalue e row 2),
     pa_c_street_1 := put_text 324 (pq_getvalue e row 3), pa_c_street_2 := put_text 324 (pq_getvalue e row 4),
     pa_c_city := put_text 324 (pq_getvalue e row 5), pa_c_state := put_text 36 (pq_getvalue e row 6),
     pa_c_zip := put_text 40 (pq_getvalue e row 7), pa_c_phone := put_text 68 (pq_getvalue e row 8),
     pa_c_since := put_text 29 (pq_getvalue e row 9), pa_c_credit := put_text 3 (pq_getvalue e row 10),
     pa_c_credit_lim := atof (pq_getvalue e row 11), pa_c_discount := atof (pq_getvalue e row 12),
     pa_c_balance := fl (atof (pq_getvalue e row 13) - py_h_amount data)\<rparr>"

text \<open>The update of the customer; the data are shown if his credit is not good.\<close>

definition cr_pay :: "pg_env \<Rightarrow> payment_t \<Rightarrow> bytes \<Rightarrow> bytes \<Rightarrow> bytes \<Rightarrow> payment_out \<Rightarrow>
    (payment_out \<Rightarrow> (pg_conn, int option \<times> payment_out) state) \<Rightarrow> (pg_conn, int option \<times> payment_out) state" where
  "cr_pay e data credit h_amount c_id out k =
     (let c_w_id = put_int 11 (py_c_w_id data); c_d_id = put_int 11 (py_c_d_id data) in
      if take 1 credit = ''G''
      then command e (Cr_payment_5_gc h_amount c_id c_w_id c_d_id) (Some ERROR, out) (\<lambda>_. k (out\<lparr>pa_c_data := []\<rparr>))
      else let c_data = put_text 2001 (c_id @ '' '' @ fmt_d (py_c_d_id data) @ '' '' @ fmt_d (py_c_w_id data) @ '' ''
             @ fmt_d (py_d_id data) @ '' '' @ fmt_d (py_w_id data) @ '' '' @ fmt_f 6 (py_h_amount data) @ '' '') in
        query e (Cr_payment_5_bc h_amount c_data c_id c_w_id c_d_id) (Some ERROR, out) (\<lambda>rows.
        k (out\<lparr>pa_c_data := put_text 8004 (pq_getvalue e (hd rows) 0)\<rparr>)))"

definition cr_history :: "pg_env \<Rightarrow> payment_t \<Rightarrow> bytes \<Rightarrow> bytes \<Rightarrow> bytes \<Rightarrow> bytes \<Rightarrow> payment_out \<Rightarrow>
    (pg_conn, int option \<times> payment_out) state" where
  "cr_history e data c_id h_amount w_name d_name out =
     query e (Cr_payment_6 c_id (put_int 11 (py_c_d_id data)) (put_int 11 (py_c_w_id data)) (put_int 11 (py_d_id data))
       (put_int 11 (py_w_id data)) h_amount w_name d_name) (Some ERROR, out) (\<lambda>rows.
     State_Monad.return (Some OK, out\<lparr>pa_h_date := put_text 29 (pq_getvalue e (hd rows) 0)\<rparr>))"

definition payment_statements :: "pg_env \<Rightarrow> payment_t \<Rightarrow> payment_out \<Rightarrow> (pg_conn, int option \<times> payment_out) state" where
  "payment_statements e data out =
     (let c_last = wcstombs 68 (py_c_last data); c_d_id = put_int 11 (py_c_d_id data); c_w_id = put_int 11 (py_c_w_id data);
        d_id = put_int 11 (py_d_id data); w_id = put_int 11 (py_w_id data); h_amount = put_amount 64 (py_h_amount data) in
      query e (Cr_payment_1 h_amount w_id) (Some ERROR, out) (\<lambda>rows.
      let w_name = put_text 41 (pq_getvalue e (hd rows) 0); out = out\<lparr>pa_warehouse := address_copied e (hd rows)\<rparr> in
      query e (Cr_payment_2 h_amount d_id w_id) (Some ERROR, out) (\<lambda>rows.
      let d_name = put_text 41 (pq_getvalue e (hd rows) 0); out = out\<lparr>pa_district := address_copied e (hd rows)\<rparr> in
      cr_customer e (Cr_payment_3 c_w_id c_d_id c_last) (py_c_id data) (Some ERROR, out) (\<lambda>c_id.
      query e (Cr_payment_4 c_w_id c_d_id c_id) (Some ERROR, out) (\<lambda>rows.
      let out = customer_copied e data c_id (hd rows) out in
      cr_pay e data (pq_getvalue e (hd rows) 10) h_amount c_id out (\<lambda>out.
      cr_history e data c_id h_amount w_name d_name out))))))"

definition payment_cockroach :: "pg_env \<Rightarrow> payment_t \<Rightarrow> payment_out \<Rightarrow> (pg_conn, int option \<times> payment_out) state" where
  "payment_cockroach e data out = begin_or e (Some ERROR, out) (payment_statements e data out)"

text \<open>The number and the name of the customer are input and output.\<close>

definition execute_payment_cockroach ::
    "pg_env \<Rightarrow> payment_t \<times> payment_out \<Rightarrow> (pg_conn, int option \<times> payment_t \<times> payment_out) state" where
  "execute_payment_cockroach e x = (let data = fst x in do {
     (rc, out) \<leftarrow> payment_cockroach e data ((snd x)\<lparr>pa_c_id := py_c_id data, pa_c_last := py_c_last data\<rparr>);
     State_Monad.return (rc, data\<lparr>py_c_id := pa_c_id out, py_c_last := pa_c_last out\<rparr>, out)
   })"

section \<open>Order-Status\<close>

definition cr_line_copied :: "pg_env \<Rightarrow> cell list \<Rightarrow> order_line_out" where
  "cr_line_copied e row = \<lparr>oo_ol_i_id = atoi (pq_getvalue e row 0), oo_ol_supply_w_id = atoi (pq_getvalue e row 1),
     oo_ol_quantity = atoi (pq_getvalue e row 2), oo_ol_amount = atof (pq_getvalue e row 3),
     oo_ol_delivery_d = put_text 29 (pq_getvalue e row 4)\<rparr>"

definition cr_lines_copied :: "pg_env \<Rightarrow> cell list list \<Rightarrow> order_status_out \<Rightarrow> order_status_out" where
  "cr_lines_copied e rows out = (let rs = take 15 rows in
     out\<lparr>ou_o_ol_cnt := int (length rs), ou_lines := map (cr_line_copied e) rs @ drop (length rs) (ou_lines out)\<rparr>)"

definition order_status_statements :: "pg_env \<Rightarrow> order_status_t \<Rightarrow> order_status_out \<Rightarrow> (pg_conn, int option \<times> order_status_out) state" where
  "order_status_statements e data out =
     (let c_d_id = put_int 11 (os_c_d_id data); c_last = wcstombs 68 (os_c_last data); c_w_id = put_int 11 (os_c_w_id data) in
      cr_customer e (Cr_order_status_1 c_w_id c_d_id c_last) (os_c_id data) (Some ERROR, out) (\<lambda>c_id.
      let out = out\<lparr>ou_c_id := atoi c_id\<rparr> in
      query e (Cr_order_status_2 c_w_id c_d_id c_id) (Some ERROR, out) (\<lambda>rows.
      let out = out\<lparr>ou_c_first := put_text 260 (pq_getvalue e (hd rows) 0), ou_c_middle := put_text 3 (pq_getvalue e (hd rows) 1),
        ou_c_last := mbstowcs (ou_c_last out) (C_LAST_LEN + 1) (pq_getvalue e (hd rows) 2),
        ou_c_balance := atof (pq_getvalue e (hd rows) 3)\<rparr> in
      query e (Cr_order_status_3 c_w_id c_d_id c_id) (Some ERROR, out) (\<lambda>rows.
      let o_id = put_text 11 (pq_getvalue e (hd rows) 0);
        out = out\<lparr>ou_o_id := atoi (pq_getvalue e (hd rows) 0), ou_o_carrier_id := atoi (pq_getvalue e (hd rows) 1),
          ou_o_entry_d := put_text 29 (pq_getvalue e (hd rows) 2)\<rparr> in
      query e (Cr_order_status_4 c_w_id c_d_id o_id) (Some ERROR, out) (\<lambda>rows.
      State_Monad.return (Some OK, cr_lines_copied e rows out))))))"

definition order_status_cockroach :: "pg_env \<Rightarrow> order_status_t \<Rightarrow> order_status_out \<Rightarrow> (pg_conn, int option \<times> order_status_out) state" where
  "order_status_cockroach e data out = begin_or e (Some ERROR, out) (order_status_statements e data out)"

definition execute_order_status_cockroach ::
    "pg_env \<Rightarrow> order_status_t \<times> order_status_out \<Rightarrow> (pg_conn, int option \<times> order_status_t \<times> order_status_out) state" where
  "execute_order_status_cockroach e x = (let data = fst x in do {
     (rc, out) \<leftarrow> order_status_cockroach e data ((snd x)\<lparr>ou_c_id := os_c_id data, ou_c_last := os_c_last data\<rparr>);
     State_Monad.return (rc, data\<lparr>os_c_id := ou_c_id out, os_c_last := ou_c_last out\<rparr>, out)
   })"

section \<open>Stock-Level\<close>

definition stock_level_statements :: "pg_env \<Rightarrow> stock_level_t \<Rightarrow> int \<Rightarrow> (pg_conn, int option \<times> int) state" where
  "stock_level_statements e data low_stock =
     (let d_w_id = put_int 11 (sl_w_id data); d_id = put_int 11 (sl_d_id data); threshold = put_int 11 (sl_threshold data) in
      query e (Cr_stock_level_1 d_w_id d_id) (Some ERROR, low_stock) (\<lambda>rows.
      let next = atoi (pq_getvalue e (hd rows) 0); ol_o_id1 = put_int 12 (next - 20); ol_o_id2 = put_int 12 (next - 1) in
      query e (Cr_stock_level_2 d_w_id d_id threshold ol_o_id1 ol_o_id2) (Some ERROR, low_stock) (\<lambda>rows.
      State_Monad.return (Some OK, atoi (pq_getvalue e (hd rows) 0)))))"

definition execute_stock_level_cockroach :: "pg_env \<Rightarrow> stock_level_t \<times> int \<Rightarrow> (pg_conn, int option \<times> int) state" where
  "execute_stock_level_cockroach e x =
     begin_or e (Some ERROR, snd x) (stock_level_statements e (fst x) (snd x))"

section \<open>The context\<close>

definition db_init_cockroach :: "pg_env \<Rightarrow> int \<Rightarrow> pg_conn db_context" where
  "db_init_cockroach e stop = \<lparr>
     stop_time = stop,
     db_connect = connect_to_db_cockroach e,
     db_commit = commit_transaction_cockroach e,
     db_disconnect = disconnect_from_db_cockroach,
     db_rollback = rollback_transaction_cockroach e,
     db_delivery = (\<lambda>d. some_rc (execute_delivery_cockroach e d)),
     db_integrity = (\<lambda>d. some_rc (execute_integrity_cockroach d)),
     db_new_order = execute_new_order_cockroach e,
     db_order_status = execute_order_status_cockroach e,
     db_payment = execute_payment_cockroach e,
     db_stock_level = execute_stock_level_cockroach e,
     read_time = read_pg_clock e,
     nano_sleep = pg_sleep_once e\<rparr>"

end
