(* ===== verification/Cr_Effects.thy ===== *)
theory Cr_Effects
  imports Cockroach Db_Libpq
begin

text \<open>
  What the transactions for CockroachDB do to the tables. \<open>does now t m Q\<close> speaks about what a client
  does in a block that was begun at the time \<open>now\<close> and in which the tables are \<open>t\<close>: whatever
  statements fail, nothing is committed, and \<open>Q\<close> holds of its result and of the tables that a
  \<open>COMMIT\<close> would make permanent. Numbers that go through the client are what the server reads of the
  text in the client's buffer.
\<close>

section \<open>Reasoning about clients\<close>

definition does :: "bytes \<Rightarrow> tables \<Rightarrow> (pg_conn, 'a) state \<Rightarrow> ('a \<Rightarrow> tables \<Rightarrow> bool) \<Rightarrow> bool" where
  "does now t m Q \<longleftrightarrow> (\<forall>c x c1. pg_wf c \<longrightarrow> pg_block c = Some t \<longrightarrow> \<not> pg_aborted c \<longrightarrow> pg_started c = now \<longrightarrow>
     run_state m c = (x, c1) \<longrightarrow> pg_committed c1 = pg_committed c \<and> pg_wf c1 \<and> Q x (pg_target c1))"

lemma doesD:
  "does now t m Q \<Longrightarrow> run_state m c = (x, c1) \<Longrightarrow> pg_wf c \<Longrightarrow> pg_block c = Some t \<Longrightarrow> \<not> pg_aborted c \<Longrightarrow> pg_started c = now \<Longrightarrow>
    pg_committed c1 = pg_committed c \<and> pg_wf c1 \<and> Q x (pg_target c1)"
  unfolding does_def by blast

lemma does_return: "Q x t \<Longrightarrow> does now t (State_Monad.return x) Q"
  by (simp add: does_def State_Monad.return_def pg_target_def pg_view_def)

lemma does_if: "(b \<Longrightarrow> does now t m Q) \<Longrightarrow> (\<not> b \<Longrightarrow> does now t n Q) \<Longrightarrow> does now t (if b then m else n) Q"
  by simp

lemma does_let: "does now t (f x) Q \<Longrightarrow> does now t (let v = x in f v) Q"
  by simp

text \<open>A statement: it is executed, or the block is aborted or lost.\<close>

lemma statement_cases:
  assumes "pg_wf c" "pg_block c = Some t" "\<not> pg_aborted c" "run_state (pq_exec_params e s) c = (r, c1)"
  obtains (executed) rows t1 where "run_cr (pg_types e) (pg_started c) s t = Inr (rows, t1)" "r = Inr rows"
      "c1 = c\<lparr>pg_calls := pg_calls c + 1, pg_block := Some t1\<rparr>"
    | (failed) err where "r = Inl err" "pg_committed c1 = pg_committed c" "pg_wf c1"
proof -
  have link: "pg_link c = Connected" using assms(1,2) by (auto simp: pg_wf_def)
  define c2 where "c2 = c\<lparr>pg_calls := pg_calls c + 1\<rparr>"
  have view: "pg_view c2 = t" "pg_block c2 = Some t" "\<not> pg_aborted c2" "pg_committed c2 = pg_committed c" "pg_started c2 = pg_started c"
    "pg_link c2 = Connected"
    using assms(2,3) link by (simp_all add: c2_def pg_view_def)
  have run: "(r, c1) = (case call_fate e (pg_calls c) of
      Fine \<Rightarrow> run_statement e s c2 | Refused \<Rightarrow> (Inl (Server ''XX000''), abort_block c2)
    | Lost_before \<Rightarrow> (Inl Connection_lost, lose c2) | Lost_after \<Rightarrow> (Inl Connection_lost, lose (id c2)))"
    unfolding assms(4) [symmetric] pq_exec_params_def run_command c2_def [symmetric] using link by simp
  have refused: thesis if "r = Inl err" "c1 = abort_block c2 \<or> c1 = lose c2" for err
  proof (rule failed [OF that(1)])
    show "pg_committed c1 = pg_committed c" "pg_wf c1" using that(2) view by (elim disjE; simp add: pg_state_defs)+
  qed
  show thesis
  proof (cases "call_fate e (pg_calls c) = Fine")
    case False
    then have "(\<exists>err. r = Inl err) \<and> (c1 = abort_block c2 \<or> c1 = lose c2)"
      using run by (cases "call_fate e (pg_calls c)") simp_all
    then show thesis using refused by blast
  next
    case True
    show thesis
    proof (cases "run_cr (pg_types e) (pg_started c) s t")
      case (Inl code)
      then show thesis using run True view by (intro refused [of "Server code"]) (simp_all add: run_statement_def)
    next
      case (Inr p)
      obtain rows t1 where p: "p = (rows, t1)" by (cases p)
      have "r = Inr rows" "c1 = c2\<lparr>pg_block := Some t1\<rparr>" using run True view Inr p by (simp_all add: run_statement_def)
      then show thesis using executed Inr p by (simp add: c2_def)
    qed
  qed
qed

lemma does_command:
  assumes ret: "\<And>t1. Q ret t1"
    and k: "\<And>rows t1. run_cr (pg_types e) now s t = Inr (rows, t1) \<Longrightarrow> does now t1 (k rows) Q"
  shows "does now t (command e s ret k) Q"
  unfolding does_def
proof (intro allI impI)
  fix c x c1
  assume c: "pg_wf c" "pg_block c = Some t" "\<not> pg_aborted c" "pg_started c = now" and run: "run_state (command e s ret k) c = (x, c1)"
  obtain r c2 where S: "run_state (pq_exec_params e s) c = (r, c2)" by (cases "run_state (pq_exec_params e s) c")
  from c(1-3) S show "pg_committed c1 = pg_committed c \<and> pg_wf c1 \<and> Q x (pg_target c1)"
  proof (cases rule: statement_cases)
    case (executed rows t1)
    have "run_state (k rows) c2 = (x, c1)" using run S executed(2) by (simp add: command_def run_bind)
    from doesD [OF k [OF executed(1) [unfolded c(4)]] this] show ?thesis
      using c by (simp add: executed(3) pg_wf_def)
  next
    case (failed err)
    then have "x = ret" "c1 = c2" using run S by (simp_all add: command_def run_bind State_Monad.return_def)
    then show ?thesis using failed ret by simp
  qed
qed

lemma does_query:
  assumes "\<And>t1. Q ret t1"
    and "\<And>r rs t1. run_cr (pg_types e) now s t = Inr (r # rs, t1) \<Longrightarrow> does now t1 (k (r # rs)) Q"
  shows "does now t (query e s ret k) Q"
  unfolding query_def
proof (rule does_command, rule assms(1))
  fix rows t1
  assume "run_cr (pg_types e) now s t = Inr (rows, t1)"
  then show "does now t1 (if rows = [] then State_Monad.return ret else k rows) Q"
    using assms by (cases rows) (auto intro: does_return)
qed

lemma begin_law_cr:
  assumes c: "pg_idle e c" and run: "run_state (begin_or e ret k) c = (x, c1)"
    and ret: "\<And>t now. Q now ret t" and k: "\<And>now. does now (pg_committed c) k (Q now)"
  shows "pg_committed c1 = pg_committed c \<and> pg_wf c1 \<and> (\<exists>now. Q now x (pg_target c1))"
proof -
  obtain err c2 where B: "run_state (pq_begin e) c = (err, c2)" by (cases "run_state (pq_begin e) c")
  note b = begin_law [OF c B]
  show ?thesis
  proof (cases err)
    case None
    then have "run_state k c2 = (x, c1)" using run B by (simp add: begin_or_def run_bind)
    from doesD [OF k this] b None show ?thesis by auto
  next
    case (Some err1)
    then have "x = ret" "c1 = c2" using run B by (simp_all add: begin_or_def run_bind State_Monad.return_def)
    then show ?thesis using b ret by simp
  qed
qed

lemmas does_intros = does_let does_query does_command does_return

section \<open>Numbers and texts\<close>

text \<open>What the texts of the server have to satisfy; the empty text is no number.\<close>

definition cr_types_ok :: "spi_env \<Rightarrow> bool" where
  "cr_types_ok e \<longleftrightarrow> spi_text_ok e \<and> (\<forall>n. int64 n \<longrightarrow> int4_in e (fmt_d n) = Some n) \<and> numeric_in e [] = None \<and>
     (\<forall>x. numeric_in e (fmt_f 6 x) = Some (rne (x * 10 ^ 6)))"

text \<open>Numbers whose texts fit the buffers.\<close>

definition fits :: "int \<Rightarrow> bool" where
  "fits n \<longleftrightarrow> - (10 ^ 9) < n \<and> n < 2 ^ 31"

text \<open>A column as the client gets it.\<close>

definition opt_text :: "bytes option \<Rightarrow> bytes" where
  "opt_text v = (case v of None \<Rightarrow> [] | Some s \<Rightarrow> s)"

text \<open>What the server reads of a number that the client has copied.\<close>

definition read_back :: "spi_env \<Rightarrow> int \<Rightarrow> int option" where
  "read_back e n = int4_in e (take 10 (fmt_d n))"

lemma put_int_fits:
  assumes "fits n"
  shows "put_int 11 n = fmt_d n"
proof -
  have "length (fmt_d n) \<le> 10"
    using assms length_digits_le [of "nat n" 10] length_digits_le [of "nat (- n)" 9]
    by (cases "n < 0") (auto simp: fmt_d_def fits_def)
  then show ?thesis by (simp add: put_int_def)
qed

lemma read_fits:
  assumes "cr_types_ok e" "fits n"
  shows "int4_in e (put_int 11 n) = Some n"
  using assms by (simp add: put_int_fits cr_types_ok_def int64_def fits_def)

lemma read_small:
  assumes "cr_types_ok e" "0 \<le> x" "x < 10 ^ (n - 1)" "1 < n" "n \<le> 10"
  shows "int4_in e (put_int n x) = Some x"
proof -
  have "length (digits (nat x)) \<le> n - 1" using assms by (intro length_digits_le) (auto simp: nat_less_iff)
  then have "put_int n x = fmt_d x" using assms(2) by (simp add: put_int_def fmt_d_def)
  moreover have "(10 :: int) ^ (n - 1) \<le> 10 ^ 9" using assms(5) by (intro power_increasing) auto
  then have "int64 x" using assms(2,3) by (simp add: int64_def)
  ultimately show ?thesis using assms(1) by (simp add: cr_types_ok_def)
qed

text \<open>Numbers of rows and amounts, as texts of the server that the client copies.\<close>

lemma copied_number: "cr_types_ok (pg_types e) \<Longrightarrow> int4_in (pg_types e) (put_text 11 (pq_getvalue e [Whole n] 0)) = read_back (pg_types e) n"
  by (simp add: pq_getvalue_def put_text_def read_back_def cr_types_ok_def spi_text_ok_def)

lemma with_int_Inr [simp]: "with_int e s k = Inr r \<longleftrightarrow> (\<exists>n. int4_in e s = Some n \<and> k n = Inr r)"
  by (simp add: with_int_def split: option.split)

lemma with_decimal_Inr [simp]: "with_decimal e s k = Inr r \<longleftrightarrow> (\<exists>x. numeric_in e s = Some x \<and> k x = Inr r)"
  by (simp add: with_decimal_def split: option.split)

section \<open>New-Order\<close>

definition cr_order_fits :: "new_order_t \<Rightarrow> bool" where
  "cr_order_fits d \<longleftrightarrow> fits (no_w_id d) \<and> fits (no_d_id d) \<and> fits (no_c_id d) \<and> 0 \<le> no_o_ol_cnt d \<and> no_o_all_local d \<in> {0, 1} \<and>
     (\<forall>l \<in> set (no_order_line d). fits (ol_i_id l) \<and> fits (ol_supply_w_id l) \<and> fits (ol_quantity l) \<and> fits (ol_quantity l - 91))"

text \<open>
  One line: the stock of the home warehouse falls, whatever warehouse supplies the line, and 15
  characters of the district information enter the line.
\<close>

definition cr_line_done :: "spi_env \<Rightarrow> new_order_t \<Rightarrow> int \<Rightarrow> nat \<Rightarrow> tables \<Rightarrow> tables \<Rightarrow> bool" where
  "cr_line_done e data k i t t1 \<longleftrightarrow> i < 15 \<and> i < length (no_order_line data) \<and>
     (let ln = no_order_line data ! i; q = ol_quantity ln; w = no_w_id data; d = no_d_id data in
     \<exists>item stock info x.
       item \<in> set (item_t t) \<and> I_ID item = ol_i_id ln \<and>
       stock \<in> set (stock_t t) \<and> is_stock w (ol_i_id ln) stock \<and> 1 \<le> d \<and> d \<le> 10 \<and>
       dist_column (s_dist ! nat (d - 1)) stock = Some info \<and>
       numeric_in e (put_amount 64 (float_amount (spi_text e) (I_PRICE item) q)) = Some x \<and>
       \<not> (\<exists>r \<in> set (order_line_t t). is_line_of w d k r \<and> OL_NUMBER r = int i + 1) \<and>
       t1 = t\<lparr>stock_t := update_rows (is_stock w (ol_i_id ln)) (taken (stock_read (spi_text e) stock) q (ol_supply_w_id ln \<noteq> w)) (stock_t t),
              order_line_t := order_line_t t @ [\<lparr>OL_O_ID = k, OL_D_ID = d, OL_W_ID = w, OL_NUMBER = int i + 1,
                OL_I_ID = ol_i_id ln, OL_SUPPLY_W_ID = ol_supply_w_id ln, OL_DELIVERY_D = None, OL_QUANTITY = q,
                OL_AMOUNT = x, OL_DIST_INFO = Some (take 15 (opt_text info))\<rparr>]\<rparr>)"

fun cr_lines_done :: "spi_env \<Rightarrow> new_order_t \<Rightarrow> int \<Rightarrow> nat list \<Rightarrow> tables \<Rightarrow> tables \<Rightarrow> bool" where
  "cr_lines_done e data k [] t t1 = (t1 = t)"
| "cr_lines_done e data k (i # is) t t1 = (\<exists>t2. cr_line_done e data k i t t2 \<and> cr_lines_done e data k is t2 t1)"

text \<open>The order gets the number \<open>k\<close> that the server reads of the next number of the district.\<close>

definition cr_new_order_done :: "spi_env \<Rightarrow> bytes \<Rightarrow> new_order_t \<Rightarrow> tables \<Rightarrow> tables \<Rightarrow> bool" where
  "cr_new_order_done e now data t t1 \<longleftrightarrow> (\<exists>dr k.
     dr \<in> set (district_t t) \<and> in_district (no_w_id data) (no_d_id data) dr \<and> read_back e (D_NEXT_O_ID dr) = Some k \<and>
     (\<exists>r \<in> set (warehouse_t t). W_ID r = no_w_id data) \<and>
     (\<exists>r \<in> set (customer_t t). is_customer (no_w_id data) (no_d_id data) (no_c_id data) r) \<and>
     \<not> (\<exists>r \<in> set (new_order_t t). is_new_order (no_w_id data) (no_d_id data) k r) \<and>
     \<not> (\<exists>r \<in> set (orders_t t). is_order (no_w_id data) (no_d_id data) k r) \<and>
     cr_lines_done e data k [0..<nat (no_o_ol_cnt data)] (order_entered data k now t) t1)"

lemma stock_by_statement:
  assumes "run_cr (pg_types e) now (Cr_new_order_7 col i_text w_text) t = Inr (r # rs, t1)"
    and "int4_in (pg_types e) i_text = Some i" "int4_in (pg_types e) w_text = Some w"
  obtains stock info where "t1 = t" "stock \<in> set (stock_t t)" "is_stock w i stock" "dist_column col stock = Some info"
    "r = [Decimal (10 ^ 6 * S_QUANTITY stock), text_cell info, text_cell (S_DATA stock)]"
proof -
  have m: "map (\<lambda>r. map_option (\<lambda>v. [Decimal (10 ^ 6 * S_QUANTITY r), text_cell v, text_cell (S_DATA r)]) (dist_column col r))
      (filter (is_stock w i) (stock_t t)) = map Some (r # rs)" and t: "t1 = t"
    using assms by (auto simp: cr_stock_rows_def those_Some split: option.splits sum.splits)
  then obtain stock where "stock \<in> set (filter (is_stock w i) (stock_t t))"
    "map_option (\<lambda>v. [Decimal (10 ^ 6 * S_QUANTITY stock), text_cell v, text_cell (S_DATA stock)]) (dist_column col stock) = Some r"
    by (cases "filter (is_stock w i) (stock_t t)") auto
  with t show thesis by (auto simp: map_option_eq_Some intro: that)
qed

lemma copied_text: "cr_types_ok (pg_types e) \<Longrightarrow> i < length row \<Longrightarrow> row ! i = text_cell v \<Longrightarrow> pq_getvalue e row i = opt_text v"
  by (simp add: pq_getvalue_def cr_types_ok_def spi_text_ok_def text_cell_def opt_text_def split: option.split)

lemma cr_line_by_statements:
  assumes ty: "cr_types_ok (pg_types e)" and fits: "cr_order_fits data" and i: "i < 15" "i < length (no_order_line data)"
    and d: "1 \<le> no_d_id data" "no_d_id data \<le> 10" and ol: "ol = no_order_line data ! i" and k: "int4_in (pg_types e) k_text = Some k"
    and item: "run_cr (pg_types e) now (Cr_new_order_6 (put_int 11 (ol_i_id ol))) t = Inr (found, ta)" "found \<noteq> []"
    and stock: "run_cr (pg_types e) now (Cr_new_order_7 (s_dist ! nat (no_d_id data - 1)) (put_int 11 (ol_i_id ol)) (put_int 11 (no_w_id data))) ta
      = Inr (s # ss, tb)"
    and upd: "run_cr (pg_types e) now (Cr_new_order_8 (put_int 11 (if ol_quantity ol + 10 \<le> atoi (pq_getvalue e s 0) then ol_quantity ol
        else ol_quantity ol - 91)) (put_int 11 (ol_quantity ol)) (put_int 2 (if ol_supply_w_id ol \<noteq> no_w_id data then 1 else 0))
        (put_int 11 (ol_i_id ol)) (put_int 11 (no_w_id data))) tb = Inr (r8, tc)"
    and ins: "run_cr (pg_types e) now (Cr_new_order_9 k_text (put_int 11 (no_d_id data)) (put_int 11 (no_w_id data)) (put_int 4 (int i + 1))
        (put_int 11 (ol_i_id ol)) (put_int 11 (ol_supply_w_id ol)) (put_int 11 (ol_quantity ol))
        (put_amount 64 (fl32 (fl (atof (pq_getvalue e (hd found) 0) * fl32 (of_int (ol_quantity ol)))))) (put_text 16 (pq_getvalue e s 1))) tc
      = Inr (r9, td)"
  shows "cr_line_done (pg_types e) data k i t td"
proof -
  define q where "q = ol_quantity ol"
  have mem: "ol \<in> set (no_order_line data)" using i(2) ol by simp
  have f: "fits (ol_i_id ol)" "fits (ol_supply_w_id ol)" "fits q" "fits (q - 91)" "fits (no_w_id data)" "fits (no_d_id data)"
    using fits mem by (auto simp: cr_order_fits_def q_def)
  note rd = read_fits [OF ty f(1)] read_fits [OF ty f(2)] read_fits [OF ty f(3)] read_fits [OF ty f(4)] read_fits [OF ty f(5)] read_fits [OF ty f(6)]
  have rem: "int4_in (pg_types e) (put_int 2 (if b then 1 else 0)) = Some (if b then 1 else 0)" for b
    using read_small [OF ty, of "if b then 1 else 0" 2] by auto
  have num: "int4_in (pg_types e) (put_int 4 (int i + 1)) = Some (int i + 1)" using i(1) by (intro read_small [OF ty]) auto
  define cells where "cells = (\<lambda>r :: item_r. [Decimal (I_PRICE r), text_cell (I_NAME r), text_cell (I_DATA r)])"
  have "map cells (filter (\<lambda>r. I_ID r = ol_i_id ol) (item_t t)) = found \<and> ta = t" using item(1) rd(1) unfolding cells_def by auto
  then have found: "map cells (filter (\<lambda>r. I_ID r = ol_i_id ol) (item_t t)) = hd found # tl found" and ta: "ta = t"
    using item(2) by simp_all
  from first_row [OF found] obtain ir where ir: "ir \<in> set (item_t t)" "I_ID ir = ol_i_id ol"
      "hd found = [Decimal (I_PRICE ir), text_cell (I_NAME ir), text_cell (I_DATA ir)]" by (auto simp: cells_def)
  have price: "pq_getvalue e (hd found) 0 = spi_text (pg_types e) (Decimal (I_PRICE ir))" by (simp add: pq_getvalue_def ir(3))
  obtain sr info where sr: "tb = t" "sr \<in> set (stock_t t)" "is_stock (no_w_id data) (ol_i_id ol) sr"
      "dist_column (s_dist ! nat (no_d_id data - 1)) sr = Some info"
      "s = [Decimal (10 ^ 6 * S_QUANTITY sr), text_cell info, text_cell (S_DATA sr)]"
    using stock_by_statement [OF stock [unfolded ta] rd(1) rd(5)] by blast
  have qty: "atoi (pq_getvalue e s 0) = stock_read (spi_text (pg_types e)) sr" by (simp add: sr(5) pq_getvalue_def stock_read_def)
  have "int4_in (pg_types e) (put_int 11 (if q + 10 \<le> atoi (pq_getvalue e s 0) then q else q - 91)) =
      Some (if q + 10 \<le> atoi (pq_getvalue e s 0) then q else q - 91)" using rd(3,4) by simp
  then have tc: "tc = t\<lparr>stock_t := update_rows (is_stock (no_w_id data) (ol_i_id ol))
      (taken (stock_read (spi_text (pg_types e)) sr) q (ol_supply_w_id ol \<noteq> no_w_id data)) (stock_t t)\<rparr>"
    using upd rd rem by (auto simp: q_def sr(1) qty taken_def [abs_def])
  have info: "put_text 16 (pq_getvalue e s 1) = take 15 (opt_text info)"
    using copied_text [OF ty, of 1 s] by (simp add: sr(5) put_text_def)
  show ?thesis
    unfolding cr_line_done_def Let_def ol [symmetric]
    by (intro conjI i exI [of _ ir] exI [of _ sr] exI [of _ info])
      (use ir(1,2) sr(2-4) d ins [unfolded info] rd num k in \<open>auto simp: tc price float_amount_def list_ex_iff q_def split: if_splits\<close>)
qed

lemma cr_line_does:
  assumes ty: "cr_types_ok (pg_types e)" "cr_order_fits data" "int4_in (pg_types e) k_text = Some k"
    and c: "\<And>out t1. cr_line_done (pg_types e) data k i t t1 \<Longrightarrow> does now t1 (c out) (\<lambda>x t1. fst x = Some OK \<longrightarrow> P t1)"
  shows "does now t (cr_order_line e data k_text i out c) (\<lambda>x t1. fst x = Some OK \<longrightarrow> P t1)"
  unfolding cr_order_line_def list.sel
  by (intro does_intros does_if; (simp add: OK_def ERROR_def; fail)?; unfold list.sel de_Morgan_disj not_le not_less; elim conjE; rule c,
      rule cr_line_by_statements [OF ty(1,2) _ _ _ _ refl ty(3)]; assumption)

lemma cr_lines_do:
  assumes ty: "cr_types_ok (pg_types e)" "cr_order_fits data" "int4_in (pg_types e) k_text = Some k"
    and "\<And>t1. cr_lines_done (pg_types e) data k is t t1 \<Longrightarrow> P t1"
  shows "does now t (cr_order_lines e data k_text is out) (\<lambda>x t1. fst x = Some OK \<longrightarrow> P t1)"
  using assms(4)
proof (induction "is" arbitrary: t out)
  case (Cons i "is")
  show ?case unfolding cr_order_lines.simps
    by (rule cr_line_does [OF ty], rule Cons.IH, rule Cons.prems) auto
qed (auto intro: does_return)

lemma cr_lines_bound: "cr_lines_done e data k is t t1 \<Longrightarrow> \<forall>i \<in> set is. i < 15"
  by (induction "is" arbitrary: t) (auto simp: cr_line_done_def)

lemma cr_order_by_statements:
  assumes ty: "cr_types_ok (pg_types e)" and fits: "cr_order_fits data" and k: "int4_in (pg_types e) k_text = Some k"
    and w: "run_cr (pg_types e) now (Cr_new_order_1 (put_int 11 (no_w_id data))) t = Inr (r1 # rs1, ta)"
    and d: "run_cr (pg_types e) now (Cr_new_order_2 (put_int 11 (no_w_id data)) (put_int 11 (no_d_id data))) ta = Inr (r2 # rs2, tb)"
      "k_text = put_text 11 (pq_getvalue e r2 1)"
    and c: "run_cr (pg_types e) now (Cr_new_order_3 (put_int 11 (no_w_id data)) (put_int 11 (no_d_id data)) (put_int 11 (no_c_id data))) tb
      = Inr (r3 # rs3, tc)"
    and no: "run_cr (pg_types e) now (Cr_new_order_4 k_text (put_int 11 (no_w_id data)) (put_int 11 (no_d_id data))) tc = Inr (r4, td)"
    and o': "run_cr (pg_types e) now (Cr_new_order_5 k_text (put_int 11 (no_d_id data)) (put_int 11 (no_w_id data)) (put_int 11 (no_c_id data))
        (put_int 4 (no_o_ol_cnt data)) (put_int 3 (no_o_all_local data))) td = Inr (r5, te)"
    and l: "cr_lines_done (pg_types e) data k [0..<nat (no_o_ol_cnt data)] te t1"
  shows "cr_new_order_done (pg_types e) now data t t1"
proof -
  have f: "fits (no_w_id data)" "fits (no_d_id data)" "fits (no_c_id data)" "0 \<le> no_o_ol_cnt data" "no_o_all_local data \<in> {0, 1}"
    using fits by (simp_all add: cr_order_fits_def)
  note rd = read_fits [OF ty f(1)] read_fits [OF ty f(2)] read_fits [OF ty f(3)]
  have "no_o_ol_cnt data \<le> 15"
  proof (rule ccontr)
    assume "\<not> no_o_ol_cnt data \<le> 15"
    then have "15 \<in> set [0..<nat (no_o_ol_cnt data)]" by auto
    then show False using cr_lines_bound [OF l] by blast
  qed
  then have cnt: "int4_in (pg_types e) (put_int 4 (no_o_ol_cnt data)) = Some (no_o_ol_cnt data)" using f(4) by (intro read_small [OF ty]) auto
  have loc: "int4_in (pg_types e) (put_int 3 (no_o_all_local data)) = Some (no_o_all_local data)" using f(5) by (intro read_small [OF ty]) auto
  have W: "ta = t" "map (\<lambda>r. [Decimal (W_TAX r)]) (filter (\<lambda>r. W_ID r = no_w_id data) (warehouse_t t)) = r1 # rs1"
    using w rd by (auto simp: warehouses_with_def)
  have D: "map (\<lambda>r. [Decimal (D_TAX r), Whole (D_NEXT_O_ID r)]) (filter (in_district (no_w_id data) (no_d_id data)) (district_t t)) = r2 # rs2"
      "tb = t\<lparr>district_t := update_rows (in_district (no_w_id data) (no_d_id data)) (\<lambda>r. r\<lparr>D_NEXT_O_ID := D_NEXT_O_ID r + 1\<rparr>) (district_t t)\<rparr>"
    using d(1) rd by (auto simp: W(1) updated_rows_def comp_def split: if_splits)
  have C: "tc = tb" "map (\<lambda>r. [Decimal (C_DISCOUNT r), text_cell (C_LAST r), text_cell (C_CREDIT r)])
      (filter (is_customer (no_w_id data) (no_d_id data) (no_c_id data)) (customer_t t)) = r3 # rs3"
    using c rd by (auto simp: customers_with_def D(2))
  from first_row [OF D(1)] obtain di where di: "di \<in> set (district_t t)" "in_district (no_w_id data) (no_d_id data) di"
    "r2 = [Decimal (D_TAX di), Whole (D_NEXT_O_ID di)]" by auto
  have "read_back (pg_types e) (D_NEXT_O_ID di) = Some k"
    using k ty by (simp add: d(2) di(3) pq_getvalue_def put_text_def read_back_def cr_types_ok_def spi_text_ok_def)
  then show ?thesis
    unfolding cr_new_order_done_def
    by (intro exI [of _ di] exI [of _ k])
      (use di first_row [OF W(2)] first_row [OF C(2)] no o' l rd k cnt loc in \<open>auto simp: C(1) D(2) list_ex_iff order_entered_def Let_def split: if_splits\<close>)
qed

lemma new_order_does:
  assumes ty: "cr_types_ok (pg_types e)" and fits: "cr_order_fits data"
  shows "does now t (new_order_statements e data out)
     (\<lambda>x t1. fst x = Some OK \<longrightarrow> cr_new_order_done (pg_types e) now data t t1)"
proof -
  have lines: "does now te (cr_order_lines e data k_text [0..<nat (no_o_ol_cnt data)] out1)
      (\<lambda>x t1. fst x = Some OK \<longrightarrow> cr_new_order_done (pg_types e) now data t t1)"
    if w: "run_cr (pg_types e) now (Cr_new_order_1 (put_int 11 (no_w_id data))) t = Inr (r1 # rs1, ta)"
    and d: "run_cr (pg_types e) now (Cr_new_order_2 (put_int 11 (no_w_id data)) (put_int 11 (no_d_id data))) ta = Inr (r2 # rs2, tb)"
      "k_text = put_text 11 (pq_getvalue e r2 1)"
    and c: "run_cr (pg_types e) now (Cr_new_order_3 (put_int 11 (no_w_id data)) (put_int 11 (no_d_id data)) (put_int 11 (no_c_id data))) tb
      = Inr (r3 # rs3, tc)"
    and no: "run_cr (pg_types e) now (Cr_new_order_4 k_text (put_int 11 (no_w_id data)) (put_int 11 (no_d_id data))) tc = Inr (r4, td)"
    and o': "run_cr (pg_types e) now (Cr_new_order_5 k_text (put_int 11 (no_d_id data)) (put_int 11 (no_w_id data)) (put_int 11 (no_c_id data))
        (put_int 4 (no_o_ol_cnt data)) (put_int 3 (no_o_all_local data))) td = Inr (r5, te)"
    for r1 rs1 ta r2 rs2 tb k_text r3 rs3 tc r4 td r5 te out1
  proof -
    obtain k where k: "int4_in (pg_types e) k_text = Some k" using no by auto
    show ?thesis by (rule cr_lines_do [OF ty fits k], rule cr_order_by_statements [OF ty fits k w d c no o'])
  qed
  show ?thesis
    unfolding new_order_statements_def Let_def
    by (intro does_intros; (simp add: OK_def ERROR_def; fail)?; unfold list.sel; rule lines; (assumption | rule refl))
qed

section \<open>Delivery\<close>

text \<open>The numbers of the order and of the customer and the amount are read from the texts that were copied.\<close>

definition cr_district_delivered :: "spi_env \<Rightarrow> bytes \<Rightarrow> int \<Rightarrow> int \<Rightarrow> int \<Rightarrow> tables \<Rightarrow> tables \<Rightarrow> bool" where
  "cr_district_delivered e now w carrier d t t1 \<longleftrightarrow> (\<exists>no ord k c x.
     no \<in> set (new_order_t t) \<and> NO_W_ID no = w \<and> NO_D_ID no = d \<and>
     (\<forall>r \<in> set (new_order_t t). NO_W_ID r = w \<and> NO_D_ID r = d \<longrightarrow> NO_O_ID no \<le> NO_O_ID r) \<and>
     read_back e (NO_O_ID no) = Some k \<and>
     filter (is_order w d k) (orders_t t) = [ord] \<and> read_back e (O_C_ID ord) = Some c \<and>
     (\<exists>l \<in> set (order_line_t t). is_line_of w d k l) \<and>
     numeric_in e (put_text 64 (spi_text e (Decimal (sum_list (map OL_AMOUNT (filter (is_line_of w d k) (order_line_t t))))))) = Some x \<and>
     t1 = t\<lparr>new_order_t := filter (\<lambda>r. \<not> is_new_order w d k r) (new_order_t t),
       orders_t := update_rows (is_order w d k) (O_CARRIER_ID_update (\<lambda>_. Some carrier)) (orders_t t),
       order_line_t := update_rows (is_line_of w d k) (OL_DELIVERY_D_update (\<lambda>_. Some now)) (order_line_t t),
       customer_t := update_rows (is_customer w d c) (\<lambda>r. r\<lparr>C_DELIVERY_CNT := C_DELIVERY_CNT r + 1, C_BALANCE := C_BALANCE r + x\<rparr>) (customer_t t)\<rparr>)"

fun cr_all_delivered :: "spi_env \<Rightarrow> bytes \<Rightarrow> int \<Rightarrow> int \<Rightarrow> int list \<Rightarrow> tables \<Rightarrow> tables \<Rightarrow> bool" where
  "cr_all_delivered e now w carrier [] t t1 = (t1 = t)"
| "cr_all_delivered e now w carrier (d # ds) t t1 =
     (\<exists>t2. (if has_new_order w d t then cr_district_delivered e now w carrier d t t2 else t2 = t) \<and>
       cr_all_delivered e now w carrier ds t2 t1)"

lemma cr_delivered_by_statements:
  assumes ty: "cr_types_ok (pg_types e)" and rw: "int4_in (pg_types e) w_text = Some w" and rd: "int4_in (pg_types e) d_text = Some d"
    and rc: "int4_in (pg_types e) c_text = Some carrier"
    and no: "run_cr (pg_types e) now (Cr_delivery_1 w_text d_text) t = Inr (rows, ta)" "rows \<noteq> []" "k_text = put_text 11 (pq_getvalue e (hd rows) 0)"
    and del: "run_cr (pg_types e) now (Cr_delivery_2 k_text w_text d_text) ta = Inr (r2, tb)"
    and cu: "run_cr (pg_types e) now (Cr_delivery_3 c_text k_text w_text d_text) tb = Inr (cs, tc)" "length cs = 1"
      "o_text = put_text 11 (pq_getvalue e (hd cs) 0)"
    and lin: "run_cr (pg_types e) now (Cr_delivery_4 k_text w_text d_text) tc = Inr (r4, td)"
    and am: "run_cr (pg_types e) now (Cr_delivery_5 k_text w_text d_text) td = Inr (as, te)"
    and bal: "run_cr (pg_types e) now (Cr_delivery_6 (put_text 64 (pq_getvalue e (hd as) 0)) o_text w_text d_text) te = Inr (r6, tf)"
  shows "has_new_order w d t \<and> cr_district_delivered (pg_types e) now w carrier d t tf"
proof -
  have "map (\<lambda>r. [Whole (NO_O_ID r)]) (take 1 (sort_key NO_O_ID
       (filter (\<lambda>r. NO_W_ID r = w \<and> NO_D_ID r = d) (new_order_t t)))) = rows \<and> ta = t" using no(1) rw rd by auto
  then have N: "map (\<lambda>r. [Whole (NO_O_ID r)]) (take 1 (sort_key NO_O_ID
       (filter (\<lambda>r. NO_W_ID r = w \<and> NO_D_ID r = d) (new_order_t t)))) = hd rows # tl rows" "ta = t" using no(2) by simp_all
  from first_sorted [OF N(1)] obtain nr where nr: "nr \<in> set (new_order_t t)" "NO_W_ID nr = w" "NO_D_ID nr = d" "hd rows = [Whole (NO_O_ID nr)]"
    "\<forall>r \<in> set (new_order_t t). NO_W_ID r = w \<and> NO_D_ID r = d \<longrightarrow> NO_O_ID nr \<le> NO_O_ID r" by auto
  obtain k where k: "int4_in (pg_types e) k_text = Some k" using del by auto
  then have rk: "read_back (pg_types e) (NO_O_ID nr) = Some k" using copied_number [OF ty] by (simp add: no(3) nr(4))
  have tb: "tb = t\<lparr>new_order_t := filter (\<lambda>r. \<not> is_new_order w d k r) (new_order_t t)\<rparr>" using del k rw rd by (auto simp: N(2))
  have tc: "cs = map (\<lambda>r. [Whole (O_C_ID r)]) (filter (is_order w d k) (orders_t t))"
     "tc = tb\<lparr>orders_t := update_rows (is_order w d k) (O_CARRIER_ID_update (\<lambda>_. Some carrier)) (orders_t t)\<rparr>"
    using cu(1) k rw rd rc by (auto simp: tb)
  then obtain ord where ord: "filter (is_order w d k) (orders_t t) = [ord]" "hd cs = [Whole (O_C_ID ord)]"
    using cu(2) by (auto simp: length_Suc_conv)
  have td: "td = tb\<lparr>orders_t := update_rows (is_order w d k) (O_CARRIER_ID_update (\<lambda>_. Some carrier)) (orders_t t),
     order_line_t := update_rows (is_line_of w d k) (OL_DELIVERY_D_update (\<lambda>_. Some now)) (order_line_t t)\<rparr>"
    using lin k rw rd by (auto simp: tc(2) tb)
  have same: "map OL_AMOUNT (filter (is_line_of w d k) (order_line_t td)) = map OL_AMOUNT (filter (is_line_of w d k) (order_line_t t))"
    by (simp add: td tb filter_update_rows map_update_rows is_line_of_def)
  define xs where "xs = map OL_AMOUNT (filter (is_line_of w d k) (order_line_t t))"
  have a: "hd as = [sum_cell xs]" "te = td" using am same k rw rd by (auto simp: xs_def)
  obtain x c where x: "numeric_in (pg_types e) (put_text 64 (pq_getvalue e [sum_cell xs] 0)) = Some x" "int4_in (pg_types e) o_text = Some c"
    using bal by (auto simp: a(1))
  have rc: "read_back (pg_types e) (O_C_ID ord) = Some c" using x(2) copied_number [OF ty] by (simp add: cu(3) ord(2))
  have xs: "xs \<noteq> []"
  proof
    assume "xs = []"
    then have "put_text 64 (pq_getvalue e [sum_cell xs] 0) = []" by (simp add: pq_getvalue_def sum_cell_def put_text_def)
    then show False using x(1) ty by (simp add: cr_types_ok_def)
  qed
  then have l: "\<exists>l \<in> set (order_line_t t). is_line_of w d k l" by (auto simp: xs_def filter_empty_conv)
  have sum: "numeric_in (pg_types e) (put_text 64 (spi_text (pg_types e) (Decimal (sum_list xs)))) = Some x"
    using x(1) xs by (simp add: pq_getvalue_def sum_cell_def)
  have "tf = t\<lparr>new_order_t := filter (\<lambda>r. \<not> is_new_order w d k r) (new_order_t t),
       orders_t := update_rows (is_order w d k) (O_CARRIER_ID_update (\<lambda>_. Some carrier)) (orders_t t),
       order_line_t := update_rows (is_line_of w d k) (OL_DELIVERY_D_update (\<lambda>_. Some now)) (order_line_t t),
       customer_t := update_rows (is_customer w d c) (\<lambda>r. r\<lparr>C_DELIVERY_CNT := C_DELIVERY_CNT r + 1, C_BALANCE := C_BALANCE r + x\<rparr>) (customer_t t)\<rparr>"
    using bal x k rw rd unfolding a by (simp add: td tb)
  then show ?thesis
    using nr(1-3,5) rk ord(1) rc l sum unfolding has_new_order_def cr_district_delivered_def xs_def by blast
qed

lemma no_new_order:
  assumes "run_cr e now (Cr_delivery_1 w_text d_text) t = Inr ([], t1)" "int4_in e w_text = Some w" "int4_in e d_text = Some d"
  shows "t1 = t \<and> \<not> has_new_order w d t"
proof -
  have "sort_key NO_O_ID (filter (\<lambda>r. NO_W_ID r = w \<and> NO_D_ID r = d) (new_order_t t)) = []" "t1 = t" using assms by auto
  moreover from this(1) have "filter (\<lambda>r. NO_W_ID r = w \<and> NO_D_ID r = d) (new_order_t t) = []" by (metis set_empty set_sort)
  ultimately show ?thesis by (auto simp: has_new_order_def filter_empty_conv)
qed

lemma cr_districts_do:
  assumes ty: "cr_types_ok (pg_types e)" "int4_in (pg_types e) w_text = Some w" "int4_in (pg_types e) c_text = Some carrier"
    and ds: "\<forall>d \<in> set ds. fits d"
    and "\<And>t1. cr_all_delivered (pg_types e) now w carrier ds t t1 \<Longrightarrow> P t1"
  shows "does now t (cr_districts e w_text c_text ds) (\<lambda>x t1. x = OK \<longrightarrow> P t1)"
  using ds assms(5)
proof (induction ds arbitrary: t)
  case (Cons d ds)
  have rd: "int4_in (pg_types e) (put_int 11 d) = Some d" using Cons.prems(1) by (intro read_fits [OF ty(1)]) simp
  have none: "does now ta (cr_districts e w_text c_text ds) (\<lambda>x t1. x = OK \<longrightarrow> P t1)"
    if "run_cr (pg_types e) now (Cr_delivery_1 w_text (put_int 11 d)) t = Inr (rows, ta)" "rows = []" for rows ta
    by (rule Cons.IH) (use Cons.prems no_new_order [OF that(1) [unfolded that(2)] ty(2) rd] in auto)
  have one: "does now tf (cr_districts e w_text c_text ds) (\<lambda>x t1. x = OK \<longrightarrow> P t1)"
    if "has_new_order w d t \<and> cr_district_delivered (pg_types e) now w carrier d t tf" for tf
    by (rule Cons.IH) (use that Cons.prems in auto)
  show ?case unfolding cr_districts.simps Let_def
    by (intro does_intros does_if; (simp add: OK_def ERROR_def; fail)?; (rule none; assumption)?; unfold not_not;
        rule one, rule cr_delivered_by_statements [OF ty(1,2) rd ty(3)]; (assumption | rule refl))
qed (auto intro: does_return)

section \<open>Payment\<close>

text \<open>The number of the customer: the given one, or that of the middle one of those with the name.\<close>

definition cr_customer_number :: "int \<Rightarrow> int \<Rightarrow> int \<Rightarrow> bytes \<Rightarrow> tables \<Rightarrow> int option" where
  "cr_customer_number c_id w d nm t =
     (if c_id \<noteq> 0 then Some c_id
      else let cs = customers_named w d nm t
        in if cs = [] then None else Some (C_ID (cs ! ((length cs - 1) div 2))))"

lemma cr_customer_cong: "customer_t t = customer_t t1 \<Longrightarrow> cr_customer_number c_id w d nm t = cr_customer_number c_id w d nm t1"
  by (simp add: cr_customer_number_def customers_named_def)

lemma cr_customer_does:
  assumes ty: "cr_types_ok (pg_types e)" "int4_in (pg_types e) w_text = Some w" "int4_in (pg_types e) d_text = Some d"
    and s: "s = Cr_payment_3 w_text d_text nm \<or> s = Cr_order_status_1 w_text d_text nm"
    and ret: "\<And>t1. Q ret t1"
    and k: "\<And>n. cr_customer_number c_id w d nm t = Some n \<Longrightarrow> does now t (k (take 10 (fmt_d n))) Q"
  shows "does now t (cr_customer e s c_id ret k) Q"
proof (cases "c_id = 0")
  case False
  then show ?thesis using k by (simp add: cr_customer_def cr_customer_number_def put_int_def)
next
  case True
  define cs where "cs = customers_named w d nm t"
  have found: "does now t1 (k (put_text 11 (pq_getvalue e ((r # rs) ! ((length (r # rs) - 1) div 2)) 0))) Q"
    if r: "run_cr (pg_types e) now s t = Inr (r # rs, t1)" for r rs t1
  proof -
    have rows: "map (\<lambda>r. [Whole (C_ID r)]) cs = r # rs" "t1 = t" using r s ty(2,3) by (auto simp: cs_def)
    then have len: "length (r # rs) = length cs" "cs \<noteq> []" by (metis length_map, auto)
    then have m: "(length cs - 1) div 2 < length cs" by (cases cs) auto
    then have "(r # rs) ! ((length (r # rs) - 1) div 2) = [Whole (C_ID (cs ! ((length cs - 1) div 2)))]"
      unfolding len(1) rows(1) [symmetric] by simp
    then have "put_text 11 (pq_getvalue e ((r # rs) ! ((length (r # rs) - 1) div 2)) 0) = take 10 (fmt_d (C_ID (cs ! ((length cs - 1) div 2))))"
      using ty(1) by (simp add: pq_getvalue_def put_text_def cr_types_ok_def spi_text_ok_def)
    moreover have "cr_customer_number c_id w d nm t = Some (C_ID (cs ! ((length cs - 1) div 2)))"
      using len(2) True by (simp add: cr_customer_number_def cs_def [symmetric])
    ultimately show ?thesis using k rows(2) by simp
  qed
  show ?thesis unfolding cr_customer_def if_P [OF True] by (rule does_query, rule ret, rule found)
qed

definition cr_note :: "payment_t \<Rightarrow> int \<Rightarrow> bytes" where
  "cr_note data n = put_text 2001 (take 10 (fmt_d n) @ '' '' @ fmt_d (py_c_d_id data) @ '' '' @ fmt_d (py_c_w_id data) @ '' ''
     @ fmt_d (py_d_id data) @ '' '' @ fmt_d (py_w_id data) @ '' '' @ fmt_f 6 (py_h_amount data) @ '' '')"

definition cr_payment_done :: "spi_env \<Rightarrow> bytes \<Rightarrow> payment_t \<Rightarrow> tables \<Rightarrow> tables \<Rightarrow> bool" where
  "cr_payment_done e now data t t1 \<longleftrightarrow> (let w = py_w_id data; d = py_d_id data; c_w = py_c_w_id data; c_d = py_c_d_id data in
     \<exists>n c x wr dr cr.
       numeric_in e (put_amount 64 (py_h_amount data)) = Some x \<and>
       wr \<in> set (warehouse_t t) \<and> W_ID wr = w \<and> dr \<in> set (district_t t) \<and> in_district w d dr \<and>
       cr_customer_number (py_c_id data) c_w c_d (wcstombs 68 (py_c_last data)) t = Some n \<and> read_back e n = Some c \<and>
       cr \<in> set (customer_t t) \<and> is_customer c_w c_d c cr \<and>
       t1 = t\<lparr>warehouse_t := update_rows (\<lambda>r. W_ID r = w) (\<lambda>r. r\<lparr>W_YTD := W_YTD r + x\<rparr>) (warehouse_t t),
         district_t := update_rows (in_district w d) (\<lambda>r. r\<lparr>D_YTD := D_YTD r + x\<rparr>) (district_t t),
         customer_t := update_rows (is_customer c_w c_d c)
           (pay_cr x (if take 1 (opt_text (C_CREDIT cr)) = ''G'' then None else Some (cr_note data n))) (customer_t t),
         history_t := history_t t @ [\<lparr>H_C_ID = c, H_C_D_ID = c_d, H_C_W_ID = c_w, H_D_ID = d, H_W_ID = w, H_DATE = now,
           H_AMOUNT = x, H_DATA = take 40 (opt_text (A_NAME (W_ADDRESS wr))) @ ''    '' @ take 40 (opt_text (A_NAME (D_ADDRESS dr)))\<rparr>]\<rparr>)"

lemma cr_pay_does:
  assumes ty: "cr_types_ok (pg_types e)" and f: "fits (py_c_w_id data)" "fits (py_c_d_id data)"
    and n: "c_text = take 10 (fmt_d n)"
    and c: "\<And>out i x t1. read_back (pg_types e) n = Some i \<Longrightarrow> numeric_in (pg_types e) h_text = Some x \<Longrightarrow>
      t1 = t\<lparr>customer_t := update_rows (is_customer (py_c_w_id data) (py_c_d_id data) i) (pay_cr x (if take 1 credit = ''G'' then None
        else Some (cr_note data n))) (customer_t t)\<rparr> \<Longrightarrow> does now t1 (k out) (\<lambda>x t1. fst x = Some OK \<longrightarrow> P t1)"
  shows "does now t (cr_pay e data credit h_text c_text out k) (\<lambda>x t1. fst x = Some OK \<longrightarrow> P t1)"
proof -
  have k: "does now t1 (k out) (\<lambda>x t1. fst x = Some OK \<longrightarrow> P t1)"
    if "int4_in (pg_types e) c_text = Some i" "numeric_in (pg_types e) h_text = Some x"
      "t1 = t\<lparr>customer_t := update_rows (is_customer (py_c_w_id data) (py_c_d_id data) i) (pay_cr x (if take 1 credit = ''G'' then None
        else Some (cr_note data n))) (customer_t t)\<rparr>" for out i x t1
    by (rule c [OF _ that(2,3)]) (use that(1) in \<open>simp add: read_back_def n\<close>)
  have noted: "put_text 2001 (c_text @ '' '' @ fmt_d (py_c_d_id data) @ '' '' @ fmt_d (py_c_w_id data) @ '' ''
             @ fmt_d (py_d_id data) @ '' '' @ fmt_d (py_w_id data) @ '' '' @ fmt_f 6 (py_h_amount data) @ '' '') = cr_note data n"
    by (simp add: cr_note_def n)
  show ?thesis unfolding cr_pay_def Let_def noted
    by (intro does_intros does_if; (simp add: OK_def ERROR_def; fail)?)
      (use read_fits [OF ty f(1)] read_fits [OF ty f(2)] in \<open>auto intro!: k\<close>)
qed

lemma cr_payment_by_statements:
  assumes ty: "cr_types_ok (pg_types e)" and f: "fits (py_w_id data)" "fits (py_d_id data)" "fits (py_c_w_id data)" "fits (py_c_d_id data)"
    and h: "h_text = put_amount 64 (py_h_amount data)"
    and w: "run_cr (pg_types e) now (Cr_payment_1 h_text (put_int 11 (py_w_id data))) t = Inr (r1 # rs1, ta)"
    and d: "run_cr (pg_types e) now (Cr_payment_2 h_text (put_int 11 (py_d_id data)) (put_int 11 (py_w_id data))) ta = Inr (r2 # rs2, tb)"
    and n: "cr_customer_number (py_c_id data) (py_c_w_id data) (py_c_d_id data) (wcstombs 68 (py_c_last data)) tb = Some n"
    and cu: "run_cr (pg_types e) now (Cr_payment_4 (put_int 11 (py_c_w_id data)) (put_int 11 (py_c_d_id data)) (take 10 (fmt_d n))) tb
      = Inr (r4 # rs4, tc)"
    and c: "read_back (pg_types e) n = Some c" "numeric_in (pg_types e) h_text = Some x"
    and u: "td = tc\<lparr>customer_t := update_rows (is_customer (py_c_w_id data) (py_c_d_id data) c)
       (pay_cr x (if take 1 (pq_getvalue e r4 10) = ''G'' then None else Some (cr_note data n))) (customer_t tc)\<rparr>"
    and hi: "run_cr (pg_types e) now (Cr_payment_6 (take 10 (fmt_d n)) (put_int 11 (py_c_d_id data)) (put_int 11 (py_c_w_id data))
        (put_int 11 (py_d_id data)) (put_int 11 (py_w_id data)) h_text (put_text 41 (pq_getvalue e r1 0)) (put_text 41 (pq_getvalue e r2 0))) td
      = Inr (r6 # rs6, te)"
  shows "cr_payment_done (pg_types e) now data t te"
proof -
  note rd = read_fits [OF ty f(1)] read_fits [OF ty f(2)] read_fits [OF ty f(3)] read_fits [OF ty f(4)]
  have rn: "int4_in (pg_types e) (take 10 (fmt_d n)) = Some c" using c(1) by (simp add: read_back_def)
  have W: "map (\<lambda>r. address_cells (W_ADDRESS r)) (filter (\<lambda>r. W_ID r = py_w_id data) (warehouse_t t)) = r1 # rs1"
    "ta = t\<lparr>warehouse_t := update_rows (\<lambda>r. W_ID r = py_w_id data) (\<lambda>r. r\<lparr>W_YTD := W_YTD r + x\<rparr>) (warehouse_t t)\<rparr>"
    using w rd c(2) by (auto simp: updated_rows_def comp_def)
  have D: "map (\<lambda>r. address_cells (D_ADDRESS r)) (filter (in_district (py_w_id data) (py_d_id data)) (district_t t)) = r2 # rs2"
    "tb = ta\<lparr>district_t := update_rows (in_district (py_w_id data) (py_d_id data)) (\<lambda>r. r\<lparr>D_YTD := D_YTD r + x\<rparr>) (district_t t)\<rparr>"
    using d rd c(2) by (auto simp: W(2) updated_rows_def comp_def)
  define cells where "cells = (\<lambda>r :: customer_r. map text_cell [C_FIRST r, C_MIDDLE r, C_LAST r, C_STREET_1 r, C_STREET_2 r, C_CITY r,
         C_STATE r, C_ZIP r, C_PHONE r, C_SINCE r, C_CREDIT r] @ [Decimal (C_CREDIT_LIM r), Decimal (C_DISCOUNT r), Decimal (C_BALANCE r)])"
  have C: "tc = tb" "map cells (filter (is_customer (py_c_w_id data) (py_c_d_id data) c) (customer_t t)) = r4 # rs4"
    using cu rd rn by (auto simp: customers_with_def cells_def D(2) W(2))
  from first_row [OF W(1)] obtain wh where wh: "wh \<in> set (warehouse_t t)" "W_ID wh = py_w_id data" "r1 = address_cells (W_ADDRESS wh)" by auto
  from first_row [OF D(1)] obtain di where di: "di \<in> set (district_t t)" "in_district (py_w_id data) (py_d_id data) di"
    "r2 = address_cells (D_ADDRESS di)" by auto
  from first_row [OF C(2)] obtain cust where cust: "cust \<in> set (customer_t t)" "is_customer (py_c_w_id data) (py_c_d_id data) c cust" "r4 = cells cust"
    by auto
  have names: "put_text 41 (pq_getvalue e r1 0) = take 40 (opt_text (A_NAME (W_ADDRESS wh)))"
    "put_text 41 (pq_getvalue e r2 0) = take 40 (opt_text (A_NAME (D_ADDRESS di)))"
    using copied_text [OF ty, of 0 r1] copied_text [OF ty, of 0 r2] by (simp_all add: put_text_def wh(3) di(3) address_cells_def)
  have credit: "pq_getvalue e r4 10 = opt_text (C_CREDIT cust)" by (rule copied_text [OF ty]) (simp_all add: cust(3) cells_def)
  have cust_n: "cr_customer_number (py_c_id data) (py_c_w_id data) (py_c_d_id data) (wcstombs 68 (py_c_last data)) t = Some n"
    using n cr_customer_cong [of t tb] by (simp add: D(2) W(2))
  have te: "te = td\<lparr>history_t := history_t td @ [\<lparr>H_C_ID = c, H_C_D_ID = py_c_d_id data, H_C_W_ID = py_c_w_id data, H_D_ID = py_d_id data,
     H_W_ID = py_w_id data, H_DATE = now, H_AMOUNT = x,
     H_DATA = take 40 (opt_text (A_NAME (W_ADDRESS wh))) @ ''    '' @ take 40 (opt_text (A_NAME (D_ADDRESS di)))\<rparr>]\<rparr>"
    using hi [unfolded names] rd rn c(2) by auto
  show ?thesis
    unfolding cr_payment_done_def Let_def h [symmetric]
    by (intro exI [of _ n] exI [of _ c] exI [of _ x] exI [of _ wh] exI [of _ di] exI [of _ cust])
      (use wh(1,2) di(1,2) cust(1,2) cust_n c in \<open>simp add: te u credit C(1) D(2) W(2)\<close>)
qed

lemma payment_does:
  assumes ty: "cr_types_ok (pg_types e)" and f: "fits (py_w_id data)" "fits (py_d_id data)" "fits (py_c_w_id data)" "fits (py_c_d_id data)"
  shows "does now t (payment_statements e data out) (\<lambda>x t1. fst x = Some OK \<longrightarrow> cr_payment_done (pg_types e) now data t t1)"
  unfolding payment_statements_def cr_history_def Let_def
  by (intro does_intros cr_customer_does [OF ty read_fits [OF ty f(3)] read_fits [OF ty f(4)] disjI1 [OF refl]] cr_pay_does [OF ty f(3,4) refl];
      (simp add: OK_def ERROR_def; fail)?; unfold list.sel; rule impI; rule cr_payment_by_statements [OF ty f refl]; assumption)

section \<open>Transactions that only read\<close>

lemma order_status_does:
  assumes ty: "cr_types_ok (pg_types e)" and f: "fits (os_c_w_id data)" "fits (os_c_d_id data)"
  shows "does now t (order_status_statements e data out) (\<lambda>x t1. fst x = Some OK \<longrightarrow> t1 = t)"
  unfolding order_status_statements_def Let_def
  by (intro does_intros cr_customer_does [OF ty read_fits [OF ty f(1)] read_fits [OF ty f(2)] disjI2 [OF refl]]; (simp add: OK_def ERROR_def; fail)?)
    auto

lemma stock_level_does:
  assumes ty: "cr_types_ok (pg_types e)"
  shows "does now t (stock_level_statements e data l) (\<lambda>x t1. fst x = Some OK \<longrightarrow> t1 = t)"
  unfolding stock_level_statements_def Let_def by (intro does_intros; (simp add: OK_def ERROR_def; fail)?) auto

end
