(* ===== verification/Db_Cockroach.thy ===== *)
theory Db_Cockroach
  imports Cr_Effects
begin

text \<open>
  The database context of CockroachDB satisfies the interface of \<open>Db\<close> under the same proviso as that
  of PostgreSQL. Consistent tables stay consistent as long as the order numbers have at most ten digits,
  which is what the client copies of them.
\<close>

section \<open>The laws of the interface\<close>

lemma cr_commit: "commit_transaction_cockroach e = commit_transaction_libpq e"
  by (simp add: commit_transaction_cockroach_def commit_transaction_libpq_def)

lemma cr_rollback_law:
  assumes "pg_working e c t" "run_state (rollback_transaction_cockroach e) c = (st, c1)"
  shows "st = STATUS_ROLLBACK \<and> pg_committed c1 = pg_committed c \<and> pg_idle e c1"
  using assms
  by (auto simp: rollback_transaction_cockroach_def pq_rollback_def run_command run_bind State_Monad.return_def
      pg_state_defs acknowledged_def split: if_splits fate.splits)

lemma cr_disconnect: "disconnect_from_db_cockroach = disconnect_from_db_libpq"
  by (simp add: disconnect_from_db_cockroach_def disconnect_from_db_libpq_def)

lemma cr_connect: "connect_to_db_cockroach e = connect_to_db_libpq e"
  by (simp add: connect_to_db_cockroach_def connect_to_db_libpq_def)

text \<open>The numbers of a request fit the buffers of the client.\<close>

definition cr_request_ok :: "pg_env \<Rightarrow> transaction_union \<Rightarrow> bool" where
  "cr_request_ok e td \<longleftrightarrow> cr_types_ok (pg_types e) \<and> cr_order_fits (set_all_local (fst (un_new_order td))) \<and>
     (let d = un_delivery td; p = fst (un_payment td); s = fst (un_order_status td) in
      fits (dl_w_id d) \<and> fits (dl_o_carrier_id d) \<and> fits (py_w_id p) \<and> fits (py_d_id p) \<and> fits (py_c_w_id p) \<and> fits (py_c_d_id p) \<and>
      fits (os_c_w_id s) \<and> fits (os_c_d_id s))"

text \<open>What a transaction does to the tables, at the time \<open>now\<close>.\<close>

definition cr_transaction_done :: "spi_env \<Rightarrow> int \<Rightarrow> transaction_union \<Rightarrow> tables \<Rightarrow> tables \<Rightarrow> bool" where
  "cr_transaction_done se tr td t t1 \<longleftrightarrow> (\<exists>now.
     if tr = NEW_ORDER then cr_new_order_done se now (set_all_local (fst (un_new_order td))) t t1
     else if tr = PAYMENT then cr_payment_done se now (fst (un_payment td)) t t1
     else if tr = DELIVERY then cr_all_delivered se now (dl_w_id (un_delivery td)) (dl_o_carrier_id (un_delivery td)) [1..10] t t1
     else t1 = t)"

lemma cr_execute_law:
  assumes c: "pg_idle e c" and ok: "cr_request_ok e td"
    and run: "run_state (execute_transaction (db_init_cockroach e stop) tr td) c = (Inl (rc, td1), c1)"
  shows "pg_committed c1 = pg_committed c \<and> same_request td td1 \<and> cr_request_ok e td1 \<and>
    (\<exists>t. pg_working e c1 t \<and> (rc = Some OK \<longrightarrow> cr_transaction_done (pg_types e) tr td (pg_committed c) t))"
proof -
  have ack: "acknowledged e" using c by (simp add: pg_idle_def)
  have k: "cr_types_ok (pg_types e)" "cr_order_fits (set_all_local (fst (un_new_order td)))"
      "fits (dl_w_id (un_delivery td))" "fits (dl_o_carrier_id (un_delivery td))"
      "fits (py_w_id (fst (un_payment td)))" "fits (py_d_id (fst (un_payment td)))"
      "fits (py_c_w_id (fst (un_payment td)))" "fits (py_c_d_id (fst (un_payment td)))"
      "fits (os_c_w_id (fst (un_order_status td)))" "fits (os_c_d_id (fst (un_order_status td)))"
    using ok by (simp_all add: cr_request_ok_def Let_def)
  have "pg_committed c1 = pg_committed c \<and> pg_wf c1 \<and> same_request td td1 \<and> cr_request_ok e td1 \<and>
      (rc = Some OK \<longrightarrow> cr_transaction_done (pg_types e) tr td (pg_committed c) (pg_target c1))"
  proof -
    consider "tr = INTEGRITY" | "tr = DELIVERY" | "tr = NEW_ORDER" | "tr = ORDER_STATUS" | "tr = PAYMENT" | "tr = STOCK_LEVEL"
      | "tr \<notin> {INTEGRITY, DELIVERY, NEW_ORDER, ORDER_STATUS, PAYMENT, STOCK_LEVEL}" by blast
    then show ?thesis
    proof cases
      case 1
      then show ?thesis using run c ok
        by (auto simp: execute_transaction_def db_init_cockroach_def some_rc_def execute_integrity_cockroach_def run_bind State_Monad.return_def
            same_request_def cr_transaction_done_def pg_state_defs)
    next
      case 2
      obtain r c2 where R: "run_state (execute_delivery_cockroach e (un_delivery td)) c = (r, c2)"
        by (cases "run_state (execute_delivery_cockroach e (un_delivery td)) c")
      then have eq: "rc = Some r" "td1 = td" "c1 = c2" using run 2
        by (simp_all add: execute_transaction_def db_init_cockroach_def some_rc_def run_bind State_Monad.return_def)
      have "does now (pg_committed c) (cr_districts e (put_int 11 (dl_w_id (un_delivery td))) (put_int 11 (dl_o_carrier_id (un_delivery td))) [1..10])
          (\<lambda>x t1. x = OK \<longrightarrow> cr_all_delivered (pg_types e) now (dl_w_id (un_delivery td)) (dl_o_carrier_id (un_delivery td)) [1..10] (pg_committed c) t1)"
        for now by (rule cr_districts_do [OF k(1) read_fits [OF k(1,3)] read_fits [OF k(1,4)]]) (auto simp: fits_def)
      from begin_law_cr [OF c R [unfolded execute_delivery_cockroach_def] _ this] show ?thesis
        using eq 2 ok by (auto simp: same_request_def cr_transaction_done_def OK_def ERROR_def)
    next
      case 3
      define d where "d = set_all_local (fst (un_new_order td))"
      obtain r o1 c2 where R: "run_state (new_order_cockroach e d (snd (un_new_order td))) c = ((r, o1), c2)"
        by (cases "run_state (new_order_cockroach e d (snd (un_new_order td))) c") auto
      have eq: "c1 = c2" "rc = Some OK \<longrightarrow> r = Some OK" "\<exists>o2. td1 = td\<lparr>un_new_order := (d, o2)\<rparr>" using run 3 R
        by (auto simp: execute_transaction_def db_init_cockroach_def execute_new_order_cockroach_def run_bind State_Monad.return_def
            d_def [symmetric] Let_def OK_def ERROR_def split: option.splits if_splits)
      from begin_law_cr [OF c R [unfolded new_order_cockroach_def Let_def] _ new_order_does [OF k(1) k(2) [folded d_def]]] show ?thesis
        using eq 3 ok by (auto simp: same_request_def cr_transaction_done_def cr_request_ok_def Let_def d_def OK_def ERROR_def)
    next
      case 4
      define d where "d = fst (un_order_status td)"
      define o0 where "o0 = (snd (un_order_status td))\<lparr>ou_c_id := os_c_id d, ou_c_last := os_c_last d\<rparr>"
      obtain r o1 c2 where R: "run_state (order_status_cockroach e d o0) c = ((r, o1), c2)"
        by (cases "run_state (order_status_cockroach e d o0) c") auto
      then have eq: "rc = r" "td1 = td\<lparr>un_order_status := (d\<lparr>os_c_id := ou_c_id o1, os_c_last := ou_c_last o1\<rparr>, o1)\<rparr>" "c1 = c2" using run 4
        by (auto simp: execute_transaction_def db_init_cockroach_def execute_order_status_cockroach_def run_bind State_Monad.return_def
            d_def [symmetric] o0_def [symmetric] Let_def)
      from begin_law_cr [OF c R [unfolded order_status_cockroach_def] _ order_status_does [OF k(1) k(9,10) [folded d_def]]] show ?thesis
        using eq 4 ok by (auto simp: same_request_def cr_transaction_done_def cr_request_ok_def Let_def d_def OK_def ERROR_def)
    next
      case 5
      define d where "d = fst (un_payment td)"
      define o0 where "o0 = (snd (un_payment td))\<lparr>pa_c_id := py_c_id d, pa_c_last := py_c_last d\<rparr>"
      obtain r o1 c2 where R: "run_state (payment_cockroach e d o0) c = ((r, o1), c2)"
        by (cases "run_state (payment_cockroach e d o0) c") auto
      then have eq: "rc = r" "td1 = td\<lparr>un_payment := (d\<lparr>py_c_id := pa_c_id o1, py_c_last := pa_c_last o1\<rparr>, o1)\<rparr>" "c1 = c2" using run 5
        by (auto simp: execute_transaction_def db_init_cockroach_def execute_payment_cockroach_def run_bind State_Monad.return_def
            d_def [symmetric] o0_def [symmetric] Let_def)
      from begin_law_cr [OF c R [unfolded payment_cockroach_def] _ payment_does [OF k(1) k(5-8) [folded d_def]]] show ?thesis
        using eq 5 ok by (auto simp: same_request_def cr_transaction_done_def cr_request_ok_def Let_def d_def OK_def ERROR_def)
    next
      case 6
      obtain r n c2 where R: "run_state (execute_stock_level_cockroach e (un_stock_level td)) c = ((r, n), c2)"
        by (cases "run_state (execute_stock_level_cockroach e (un_stock_level td)) c") auto
      then have eq: "rc = r" "td1 = td\<lparr>un_stock_level := (fst (un_stock_level td), n)\<rparr>" "c1 = c2" using run 6
        by (auto simp: execute_transaction_def db_init_cockroach_def run_bind State_Monad.return_def)
      from begin_law_cr [OF c R [unfolded execute_stock_level_cockroach_def] _ stock_level_does [OF k(1)]] show ?thesis
        using eq 6 ok by (auto simp: same_request_def cr_transaction_done_def cr_request_ok_def Let_def OK_def ERROR_def)
    next
      case 7
      then show ?thesis using run by (auto simp: execute_transaction_def State_Monad.return_def)
    qed
  qed
  then show ?thesis using ack by (auto simp: pg_working_def)
qed

lemma db_init_cockroach_sel [simp]:
  "db_commit (db_init_cockroach e stop) = commit_transaction_cockroach e"
  "db_rollback (db_init_cockroach e stop) = rollback_transaction_cockroach e"
  "db_connect (db_init_cockroach e stop) = connect_to_db_cockroach e"
  "db_disconnect (db_init_cockroach e stop) = disconnect_from_db_cockroach"
  "read_time (db_init_cockroach e stop) = read_pg_clock e"
  "nano_sleep (db_init_cockroach e stop) = pg_sleep_once e"
  "stop_time (db_init_cockroach e stop) = stop"
  by (simp_all add: db_init_cockroach_def)

interpretation cockroach: atomic_backend "db_init_cockroach e stop" pg_committed "pg_idle e" "pg_working e" "pg_idle e"
  "\<lambda>td _. cr_request_ok e td" "cr_transaction_done (pg_types e)" same_request for e stop
proof (unfold_locales, goal_cases)
  case 1 then show ?case by (rule cr_execute_law)
next
  case (2 s t st s1) then show ?case using pg_commit_law [of e s t st s1] by (simp add: cr_commit)
next
  case (3 s t st s1) then show ?case using cr_rollback_law [of e s t st s1] by (simp add: OK_def STATUS_ROLLBACK_def)
next
  case (4 s t st s1) then show ?case using pg_disconnect_law [of e s t st s1] by (simp add: cr_disconnect)
next
  case (5 s st s1) then show ?case using pg_connect_law [of e s st s1] by (simp add: cr_connect)
next
  case 6 then show ?case by (auto simp: read_pg_clock_def pg_state_defs)
next
  case 7 then show ?case by (auto simp: pg_sleep_once_def pg_state_defs)
next
  case 8 then show ?case by simp
next
  case 9 then show ?case by (auto simp: pg_state_defs)
next
  case 10 then show ?case by (simp add: same_request_def)
next
  case 11 then show ?case by (simp add: same_request_def)
qed

interpretation cockroach_waiting: settling_backend "db_init_cockroach e stop" pg_calls "pg_settled e stop" for e stop
proof (unfold_locales, goal_cases)
  case 1 then show ?case by (auto simp: pg_sleep_once_def pg_settled_def)
next
  case 2 then show ?case by (auto simp: read_pg_clock_def pg_settled_def)
next
  case 3 then show ?case by (auto simp: cr_connect connect_to_db_libpq_def pg_settled_def end_block_def Let_def split: if_splits)
next
  case 4 then show ?case by (auto simp: pg_settled_def)
qed

end
