(* ===== verification/Cr_Properties.thy ===== *)
theory Cr_Properties
  imports Db_Cockroach Pg_Properties
begin

text \<open>
  What the database interface guarantees on CockroachDB, and where the backend differs from what it is
  meant to do: the stock that an order lowers, the payments that it counts, and what a worker does
  after its connection was lost.
\<close>

section \<open>Consistency\<close>

text \<open>The client copies ten digits of a number.\<close>

definition short_numbers :: "tables \<Rightarrow> bool" where
  "short_numbers t \<longleftrightarrow> (\<forall>r \<in> set (district_t t). 0 \<le> D_NEXT_O_ID r \<and> D_NEXT_O_ID r < 10 ^ 10) \<and>
     (\<forall>r \<in> set (new_order_t t). 0 \<le> NO_O_ID r \<and> NO_O_ID r < 10 ^ 10)"

lemma read_back_short:
  assumes "cr_types_ok e" "0 \<le> n" "n < 10 ^ 10"
  shows "read_back e n = Some n"
proof -
  have "length (fmt_d n) \<le> 10" using assms(2,3) length_digits_le [of "nat n" 10] by (simp add: fmt_d_def nat_less_iff)
  then show ?thesis using assms by (simp add: read_back_def cr_types_ok_def int64_def)
qed

lemma consistent_customers [simp]: "consistent (t\<lparr>customer_t := cs\<rparr>) = consistent t"
  by (simp add: consistent_def consistency_defs lines_of_def)

lemma cr_lines_effect:
  "cr_lines_done e data k is t t1 \<Longrightarrow> \<exists>ss ls. t1 = t\<lparr>stock_t := ss, order_line_t := order_line_t t @ ls\<rparr> \<and>
     length ls = length is \<and> (\<forall>l \<in> set ls. is_line_of (no_w_id data) (no_d_id data) k l \<and> length (opt_text (OL_DIST_INFO l)) \<le> 15) \<and>
     filter (\<lambda>s. S_W_ID s \<noteq> no_w_id data) ss = filter (\<lambda>s. S_W_ID s \<noteq> no_w_id data) (stock_t t)"
proof (induction "is" arbitrary: t)
  case Nil
  show ?case by (rule exI [of _ "stock_t t"], rule exI [of _ "[]"]) (use Nil in simp)
next
  case (Cons i "is")
  define w where "w = no_w_id data"
  have others: "filter (\<lambda>s. S_W_ID s \<noteq> w) (update_rows (is_stock w j) (taken a b c) rs) = filter (\<lambda>s. S_W_ID s \<noteq> w) rs" for j a b c rs
    by (induction rs) (auto simp: update_rows_def is_stock_def taken_def)
  obtain t2 where t2: "cr_line_done e data k i t t2" "cr_lines_done e data k is t2 t1" using Cons.prems by auto
  obtain ss l where l: "t2 = t\<lparr>stock_t := ss, order_line_t := order_line_t t @ [l]\<rparr>" "is_line_of w (no_d_id data) k l"
    "length (opt_text (OL_DIST_INFO l)) \<le> 15" "filter (\<lambda>s. S_W_ID s \<noteq> w) ss = filter (\<lambda>s. S_W_ID s \<noteq> w) (stock_t t)"
    using t2(1) unfolding cr_line_done_def Let_def w_def [symmetric] by (elim conjE exE) (auto simp: is_line_of_def others opt_text_def)
  obtain ss' ls where "t1 = t2\<lparr>stock_t := ss', order_line_t := order_line_t t2 @ ls\<rparr>"
     "length ls = length is" "\<forall>l \<in> set ls. is_line_of w (no_d_id data) k l \<and> length (opt_text (OL_DIST_INFO l)) \<le> 15"
     "filter (\<lambda>s. S_W_ID s \<noteq> w) ss' = filter (\<lambda>s. S_W_ID s \<noteq> w) (stock_t t2)"
    using Cons.IH [OF t2(2)] unfolding w_def by blast
  then show ?case using l unfolding w_def by (intro exI [of _ ss'] exI [of _ "l # ls"]) simp
qed

lemma cr_new_order_consistent:
  assumes "cr_types_ok e" "cr_order_fits data" "cr_new_order_done e now data t t1" "consistent t" "short_numbers t"
  shows "consistent t1"
proof -
  obtain dr k where D: "dr \<in> set (district_t t)" "in_district (no_w_id data) (no_d_id data) dr" "read_back e (D_NEXT_O_ID dr) = Some k"
      "\<not> (\<exists>r \<in> set (new_order_t t). is_new_order (no_w_id data) (no_d_id data) k r)"
      "\<not> (\<exists>r \<in> set (orders_t t). is_order (no_w_id data) (no_d_id data) k r)"
    and L: "cr_lines_done e data k [0..<nat (no_o_ol_cnt data)] (order_entered data k now t) t1"
    using assms(3) unfolding cr_new_order_done_def by blast
  have k: "k = D_NEXT_O_ID dr"
    using read_back_short [OF assms(1), of "D_NEXT_O_ID dr"] D(1,3) assms(5) by (auto simp: short_numbers_def)
  from cr_lines_effect [OF L] obtain ss ls where ls: "t1 = (order_entered data k now t)\<lparr>stock_t := ss,
       order_line_t := order_line_t (order_entered data k now t) @ ls\<rparr>"
    "length ls = nat (no_o_ol_cnt data)" "\<forall>l \<in> set ls. is_line_of (no_w_id data) (no_d_id data) k l" by auto
  have "0 \<le> no_o_ol_cnt data" using assms(2) by (simp add: cr_order_fits_def)
  moreover have "nat (no_o_ol_cnt data) \<le> 15"
  proof (rule ccontr)
    assume "\<not> nat (no_o_ol_cnt data) \<le> 15"
    then have "15 \<in> set [0..<nat (no_o_ol_cnt data)]" by auto
    then show False using cr_lines_bound [OF L] by blast
  qed
  ultimately show ?thesis
    by (intro entered_consistent [OF assms(4) D(1,2,4,5) [unfolded k] ls(1,3) [unfolded k]]) (simp_all add: ls(2))
qed

lemma cr_payment_consistent:
  assumes "cr_payment_done e now data t t1" "consistent t"
  shows "consistent t1"
proof -
  have c: "keys_ok t" "money_ok t" "numbering_ok t" "carriers_ok t" "lines_ok t" using assms(2) by (simp_all add: consistent_def)
  obtain wr dr cs h x where t1: "t1 = t\<lparr>warehouse_t := update_rows (\<lambda>r. W_ID r = py_w_id data) (\<lambda>r. r\<lparr>W_YTD := W_YTD r + x\<rparr>) (warehouse_t t),
         district_t := update_rows (in_district (py_w_id data) (py_d_id data)) (\<lambda>r. r\<lparr>D_YTD := D_YTD r + x\<rparr>) (district_t t),
         customer_t := cs, history_t := history_t t @ [h]\<rparr>"
    and wd: "wr \<in> set (warehouse_t t)" "W_ID wr = py_w_id data" "dr \<in> set (district_t t)" "in_district (py_w_id data) (py_d_id data) dr"
      "H_W_ID h = py_w_id data" "H_D_ID h = py_d_id data" "H_AMOUNT h = x"
    using assms(1) unfolding cr_payment_done_def Let_def by fastforce
  show ?thesis unfolding consistent_def
    using payment_keeps_rest [OF t1] c payment_keeps_money [OF c(1,2) wd] t1 by blast
qed

lemma cr_district_consistent:
  assumes "cr_types_ok e" "cr_district_delivered e now w carrier d t t1" "consistent t" "short_numbers t"
  shows "consistent t1 \<and> short_numbers t1"
proof -
  obtain no ord k c x where N: "no \<in> set (new_order_t t)" "NO_W_ID no = w" "NO_D_ID no = d"
     "\<forall>r \<in> set (new_order_t t). NO_W_ID r = w \<and> NO_D_ID r = d \<longrightarrow> NO_O_ID no \<le> NO_O_ID r"
     "read_back e (NO_O_ID no) = Some k" "filter (is_order w d k) (orders_t t) = [ord]" "\<exists>l \<in> set (order_line_t t). is_line_of w d k l"
     "t1 = t\<lparr>new_order_t := filter (\<lambda>r. \<not> is_new_order w d k r) (new_order_t t),
       orders_t := update_rows (is_order w d k) (O_CARRIER_ID_update (\<lambda>_. Some carrier)) (orders_t t),
       order_line_t := update_rows (is_line_of w d k) (OL_DELIVERY_D_update (\<lambda>_. Some now)) (order_line_t t),
       customer_t := update_rows (is_customer w d c) (\<lambda>r. r\<lparr>C_DELIVERY_CNT := C_DELIVERY_CNT r + 1, C_BALANCE := C_BALANCE r + x\<rparr>) (customer_t t)\<rparr>"
    using assms(2) unfolding cr_district_delivered_def by blast
  have k: "k = NO_O_ID no" using read_back_short [OF assms(1), of "NO_O_ID no"] N(1,5) assms(4) by (auto simp: short_numbers_def)
  have ord: "ord \<in> set (orders_t t)" "is_order w d k ord" using arg_cong [OF N(6), of set] by auto
  define t2 where "t2 = order_delivered w d carrier k (O_C_ID ord) now t"
  have "district_delivered w carrier d t t2"
    unfolding district_delivered_def t2_def using N(1-4,7) ord unfolding k by blast
  then have "consistent t2" by (rule delivery_consistent [OF _ assms(3)])
  moreover have "t1 = t2\<lparr>customer_t := customer_t t1\<rparr>" by (simp add: N(8) t2_def order_delivered_def)
  ultimately have "consistent t1" by (metis consistent_customers)
  moreover have "short_numbers t1" using assms(4) by (simp add: short_numbers_def N(8))
  ultimately show ?thesis by simp
qed

lemma cr_deliveries_consistent:
  "cr_types_ok e \<Longrightarrow> cr_all_delivered e now w carrier ds t t1 \<Longrightarrow> consistent t \<Longrightarrow> short_numbers t \<Longrightarrow> consistent t1"
  by (induction ds arbitrary: t) (auto split: if_splits dest: cr_district_consistent)

lemma cr_done_consistent:
  assumes "cr_request_ok e td" "cr_transaction_done (pg_types e) tr td t t1" "consistent t" "short_numbers t"
  shows "consistent t1"
proof -
  have ty: "cr_types_ok (pg_types e)" "cr_order_fits (set_all_local (fst (un_new_order td)))" using assms(1) by (simp_all add: cr_request_ok_def)
  show ?thesis
    using assms(2-4) cr_new_order_consistent [OF ty] cr_payment_consistent cr_deliveries_consistent [OF ty(1)]
    unfolding cr_transaction_done_def by (auto split: if_splits)
qed

section \<open>A lost connection\<close>

definition sends_statements :: "int \<Rightarrow> bool" where
  "sends_statements tr \<longleftrightarrow> tr \<in> {DELIVERY, NEW_ORDER, ORDER_STATUS, PAYMENT, STOCK_LEVEL}"

lemma begin_failed: "run_state (pq_begin e) c = (Some err, c1) \<Longrightarrow> run_state (begin_or e ret k) c = (ret, c1)"
  by (simp add: begin_or_def run_bind State_Monad.return_def)

lemma broken_begin: "pg_link c = Broken \<Longrightarrow> run_state (pq_begin e) c = (Some No_connection, c)"
  by (simp add: pq_begin_def run_command)

lemma lost_begin:
  assumes "pg_ready c" "begin_fate e (pg_calls c) = Lost_before \<or> begin_fate e (pg_calls c) = Lost_after"
  shows "run_state (pq_begin e) c = (Some Connection_lost, lose (c\<lparr>pg_calls := pg_calls c + 1\<rparr>))"
  using assms by (auto simp: pq_begin_def run_command pg_ready_def)

lemma failed_begin_rolled_back:
  assumes "run_state (pq_begin e) c = (Some err, c1)" and link: "pg_link c1 = Broken" and tr: "sends_statements tr"
  shows "\<exists>td1. process_transaction (db_init_cockroach e stop) tr td c = Some ((Some STATUS_ROLLBACK, td1), c1)"
proof -
  have ex: "\<exists>td1. run_state (execute_transaction (db_init_cockroach e stop) tr td) c = (Inl (Some ERROR, td1), c1)"
    using tr
    by (auto simp: sends_statements_def execute_transaction_def db_init_cockroach_def some_rc_def execute_delivery_cockroach_def
        execute_new_order_cockroach_def new_order_cockroach_def execute_order_status_cockroach_def order_status_cockroach_def
        execute_payment_cockroach_def payment_cockroach_def execute_stock_level_cockroach_def run_bind State_Monad.return_def
        begin_failed [OF assms(1)] Let_def)
  have rb: "run_state (rollback_transaction_cockroach e) c1 = (STATUS_ROLLBACK, c1)"
    using link by (simp add: rollback_transaction_cockroach_def pq_rollback_def run_command run_bind State_Monad.return_def)
  show ?thesis using ex rb by (auto simp: process_transaction_def numeral_2_eq_2 OK_def ERROR_def)
qed

lemma broken_answers:
  assumes "pg_link c = Broken" "\<forall>n \<in> set nodes. sends_statements (fst n)"
  shows "\<exists>answers. worker_transactions (db_init_cockroach e stop) nodes c = Some (answers, c) \<and>
    map fst answers = replicate (length nodes) (Some STATUS_ROLLBACK)"
  using assms(2)
proof (induction nodes)
  case (Cons n nodes)
  obtain tr td where n: "n = (tr, td)" by (cases n)
  obtain td1 where "process_transaction (db_init_cockroach e stop) tr td c = Some ((Some STATUS_ROLLBACK, td1), c)"
    using failed_begin_rolled_back [OF broken_begin [OF assms(1)] assms(1), of tr e stop td] Cons.prems n by auto
  moreover obtain answers where "worker_transactions (db_init_cockroach e stop) nodes c = Some (answers, c)"
    "map fst answers = replicate (length nodes) (Some STATUS_ROLLBACK)" using Cons by auto
  ultimately show ?case by (simp add: n)
qed simp

section \<open>Transactions in which nothing fails\<close>

definition in_block :: "bytes \<Rightarrow> tables \<Rightarrow> pg_conn \<Rightarrow> bool" where
  "in_block now t c \<longleftrightarrow> pg_link c = Connected \<and> pg_block c = Some t \<and> \<not> pg_aborted c \<and> pg_started c = now"

definition gets :: "bytes \<Rightarrow> tables \<Rightarrow> (pg_conn, 'a) state \<Rightarrow> ('a \<Rightarrow> tables \<Rightarrow> bool) \<Rightarrow> bool" where
  "gets now t m Q \<longleftrightarrow> (\<forall>c. in_block now t c \<longrightarrow> (\<exists>x t1 c1. run_state m c = (x, c1) \<and> in_block now t1 c1 \<and> Q x t1))"

lemma gets_return: "Q x t \<Longrightarrow> gets now t (State_Monad.return x) Q"
  by (auto simp: gets_def State_Monad.return_def)

lemma gets_command:
  assumes e: "pg_fine e" and s: "run_cr (pg_types e) now s t = Inr (rows, t1)" and k: "gets now t1 (k rows) Q"
  shows "gets now t (command e s ret k) Q"
  unfolding gets_def
proof (intro allI impI)
  fix c
  assume c: "in_block now t c"
  define c2 where "c2 = c\<lparr>pg_calls := pg_calls c + 1, pg_block := Some t1\<rparr>"
  have "run_state (pq_exec_params e s) c = (Inr rows, c2)"
    using c e s by (simp add: pq_exec_params_def run_command run_statement_def in_block_def pg_fine_def pg_view_def c2_def)
  then have "run_state (command e s ret k) c = run_state (k rows) c2" by (simp add: command_def run_bind)
  moreover have "in_block now t1 c2" using c by (simp add: in_block_def c2_def)
  ultimately show "\<exists>x t1 c1. run_state (command e s ret k) c = (x, c1) \<and> in_block now t1 c1 \<and> Q x t1"
    using k by (simp add: gets_def)
qed

text \<open>For evaluation: the statement gives rows.\<close>

lemma gets_next:
  assumes "pg_fine e" "case run_cr (pg_types e) now s t of Inl _ \<Rightarrow> False | Inr (rows, t1) \<Rightarrow> gets now t1 (k rows) Q"
  shows "gets now t (command e s ret k) Q"
  using assms gets_command [OF assms(1)] by (auto split: sum.splits)

lemma gets_row:
  assumes "pg_fine e" "case run_cr (pg_types e) now s t of Inl _ \<Rightarrow> False | Inr (rows, t1) \<Rightarrow> rows \<noteq> [] \<and> gets now t1 (k rows) Q"
  shows "gets now t (query e s ret k) Q"
  unfolding query_def using assms by (intro gets_next) (auto split: sum.splits)

lemma begin_gets:
  assumes e: "pg_fine e" and c: "pg_ready c" and m: "\<And>now. gets now (pg_committed c) m Q"
  shows "\<exists>x t1 c1 now. run_state (begin_or e ret m) c = (x, c1) \<and> in_block now t1 c1 \<and> Q x t1"
proof -
  define c2 where "c2 = c\<lparr>pg_calls := pg_calls c + 1, pg_block := Some (pg_committed c), pg_started := start_time e (pg_calls c + 1)\<rparr>"
  have "run_state (pq_begin e) c = (None, c2)"
    using e c by (simp add: pq_begin_def run_command pg_fine_def pg_ready_def c2_def)
  then have "run_state (begin_or e ret m) c = run_state m c2" by (simp add: begin_or_def run_bind)
  moreover have "in_block (start_time e (pg_calls c + 1)) (pg_committed c) c2" using c by (simp add: in_block_def c2_def pg_ready_def)
  ultimately show ?thesis using m by (fastforce simp: gets_def)
qed

lemma commit_gets:
  assumes "in_block now t c" "\<forall>n. commit_fate e n = Fine"
  shows "\<exists>c1. run_state (commit_transaction_cockroach e) c = (OK, c1) \<and> pg_committed c1 = t"
  using assms by (simp add: commit_transaction_cockroach_def connection_bad_def pq_commit_def run_command run_bind State_Monad.return_def
      in_block_def pg_state_defs)

lemma order_gets:
  assumes e: "pg_fine e" "\<forall>n. commit_fate e n = Fine" and c: "pg_ready c"
    and m: "\<And>now out. nw_rollback out = 0 \<Longrightarrow> gets now (pg_committed c) (new_order_statements e (set_all_local (fst (un_new_order td))) out)
      (\<lambda>x t1. fst x = Some OK \<and> nw_rollback (snd x) = 0 \<and> P t1)"
  shows "\<exists>td1 c1. process_transaction (db_init_cockroach e stop) NEW_ORDER td c = Some ((Some OK, td1), c1) \<and> P (pg_committed c1)"
proof -
  define d where "d = set_all_local (fst (un_new_order td))"
  define o0 where "o0 = (snd (un_new_order td))\<lparr>nw_rollback := 0, nw_total_amount := 0\<rparr>"
  have "nw_rollback o0 = 0" by (simp add: o0_def)
  from begin_gets [OF e(1) c m [OF this], folded d_def, of "(Some ERROR, o0)"] obtain out t1 c1 now
    where R: "run_state (new_order_cockroach e d (snd (un_new_order td))) c = ((Some OK, out), c1)" "nw_rollback out = 0" "P t1"
      and B: "in_block now t1 c1"
    by (auto simp: new_order_cockroach_def o0_def [symmetric])
  obtain c2 where "run_state (commit_transaction_cockroach e) c1 = (OK, c2)" "pg_committed c2 = t1" using commit_gets [OF B e(2)] by blast
  then show ?thesis using R
    by (simp add: process_transaction_def numeral_2_eq_2 execute_transaction_def db_init_cockroach_def execute_new_order_cockroach_def
        run_bind State_Monad.return_def d_def [symmetric] Let_def OK_def ERROR_def)
qed

lemma payment_gets:
  assumes e: "pg_fine e" "\<forall>n. commit_fate e n = Fine" and c: "pg_ready c"
    and m: "\<And>now out. gets now (pg_committed c) (payment_statements e (fst (un_payment td)) out) (\<lambda>x t1. fst x = Some OK \<and> P t1)"
  shows "\<exists>td1 c1. process_transaction (db_init_cockroach e stop) PAYMENT td c = Some ((Some OK, td1), c1) \<and> P (pg_committed c1)"
proof -
  define d where "d = fst (un_payment td)"
  define o0 where "o0 = (snd (un_payment td))\<lparr>pa_c_id := py_c_id d, pa_c_last := py_c_last d\<rparr>"
  from begin_gets [OF e(1) c m, folded d_def, of "(Some ERROR, o0)" o0] obtain out t1 c1 now
    where R: "run_state (payment_cockroach e d o0) c = ((Some OK, out), c1)" "P t1" and B: "in_block now t1 c1"
    by (auto simp: payment_cockroach_def)
  obtain c2 where "run_state (commit_transaction_cockroach e) c1 = (OK, c2)" "pg_committed c2 = t1" using commit_gets [OF B e(2)] by blast
  then show ?thesis using R
    by (simp add: process_transaction_def numeral_2_eq_2 execute_transaction_def db_init_cockroach_def execute_payment_cockroach_def
        run_bind State_Monad.return_def d_def [symmetric] o0_def [symmetric] Let_def OK_def ERROR_def PAYMENT_def DELIVERY_def NEW_ORDER_def ORDER_STATUS_def INTEGRITY_def)
qed

section \<open>The small database on CockroachDB\<close>

text \<open>The types of the example, with integers of 64 bits.\<close>

definition cr_sample :: "nat option \<Rightarrow> pg_env" where
  "cr_sample lost = (sample_pg None)\<lparr>begin_fate := (\<lambda>n. if lost = Some n then Lost_before else Fine),
     pg_types := sample_types\<lparr>int4_in := (\<lambda>s. case signed_value s of (neg, v) \<Rightarrow> if s = [] then None else Some (if neg then - v else v))\<rparr>\<rparr>"

lemma fmt_d_nonempty [simp]: "fmt_d n \<noteq> []"
  by (simp add: fmt_d_def)

lemma cr_sample_types: "cr_types_ok (pg_types (cr_sample l))"
proof -
  have "rne (of_int m / 10 ^ 6 * 10 ^ 6 :: rat) = m" for m using rne_of_int [of m] by simp
  then have "sql_number (fmt_f 6 (of_int m / 10 ^ 6)) = Some m" for m by (simp only: sql_number_fmt_f)
  then show ?thesis
    by (simp add: cr_types_ok_def spi_text_ok_def cr_sample_def sample_types_def signed_value_fmt_d sql_number_fmt_f)
      (simp add: sql_number_def)
qed

lemma cr_sample_fine: "pg_fine (cr_sample None)" "\<forall>n. commit_fate (cr_sample None) n = Fine" "acknowledged (cr_sample l)"
  "pg_idle (cr_sample l) (sample_pg_conn t)"
  by (simp_all add: cr_sample_def sample_pg_def pg_fine_def acknowledged_def pg_idle_def pg_wf_def sample_pg_conn_def)

lemma cr_sample_texts:
  "spi_text (pg_types (cr_sample l)) (Decimal m) = fmt_f 6 (of_int m / 10 ^ 6)" "spi_text (pg_types (cr_sample l)) (Text s) = s"
  "numeric_in (pg_types (cr_sample l)) = sql_number"
  by (simp_all add: cr_sample_def sample_types_def)

lemma fmt10: "fmt_f 6 10 = ''10.000000''"
proof -
  have "rne (\<bar>10\<bar> * 10 ^ 6) = 10000000" using rne_of_int [of 10000000] by simp
  moreover have "digits 10 = ''10''" "zero_fill 6 [digit 0] = ''000000''" by code_simp+
  ultimately show ?thesis by (simp add: fmt_f_def digits_single)
qed

lemma amount10: "sql_number (put_amount 64 10) = Some 10000000"
proof -
  have "put_amount 64 10 = fmt_f 6 10" by (simp add: put_amount_def fmt10)
  then show ?thesis using rne_of_int [of 10000000] by (simp add: sql_number_fmt_f)
qed

lemmas cr_reads = read_fits [OF cr_sample_types] read_small [OF cr_sample_types]

lemma small_fits [simp]: "\<bar>n\<bar> < 10 ^ 9 \<Longrightarrow> fits n"
  by (auto simp: fits_def)

lemma copied_one: "put_text 11 (pq_getvalue (cr_sample l) [a, Whole 1] 1) = put_int 11 1"
  using cr_sample_types [of l] by (simp add: pq_getvalue_def put_text_def put_int_def cr_types_ok_def spi_text_ok_def)

lemmas cr_evals = cr_reads sample_defs set_all_local_def warehouses_with_def in_district_def int64_def updated_rows_def update_rows_def
  with_int_def with_decimal_def customers_with_def is_customer_def copied_one [simplified] is_new_order_def is_order_def

lemma cr_sample_gets:
  assumes "nw_rollback out = 0"
  shows "gets now sample_tables (new_order_statements (cr_sample None) (set_all_local (fst (un_new_order sample_request))) out)
    (\<lambda>x t1. fst x = Some OK \<and> nw_rollback (snd x) = 0 \<and> True)"
  unfolding new_order_statements_def Let_def
  apply (rule gets_row [OF cr_sample_fine(1)])
  apply (simp add: cr_evals)
  apply (rule gets_row [OF cr_sample_fine(1)])
  apply (simp add: cr_evals)
  apply (rule gets_row [OF cr_sample_fine(1)])
  apply (simp add: cr_evals)
  apply (rule gets_next [OF cr_sample_fine(1)])
  apply (simp add: cr_evals)
  apply (rule gets_next [OF cr_sample_fine(1)])
  apply (simp add: cr_evals)
  apply (simp only: cr_order_lines.simps upt_small cr_order_line_def Let_def)
  apply (simp add: cr_evals)
  apply (rule gets_next [OF cr_sample_fine(1)])
  apply (simp add: cr_evals cr_sample_texts pq_getvalue_def s_dist_def)
  apply (rule gets_row [OF cr_sample_fine(1)])
  apply (simp add: cr_evals cr_stock_rows_def dist_column_def s_dist_def is_stock_def replicate_10)
  apply (simp add: pq_getvalue_def cr_sample_texts atoi_fmt_f [of 50, simplified])
  apply (rule gets_next [OF cr_sample_fine(1)])
  apply (simp add: cr_evals is_stock_def)
  apply (rule gets_next [OF cr_sample_fine(1)])
  apply (simp add: cr_evals put_text_def text_cell_def cr_sample_texts fmt5 atof5 fls fl32s amount10)
  apply (rule gets_return)
  apply (simp add: stock_copied_def item_copied_def set_line_def assms)
  done

lemma amount12: "sql_number (put_amount 64 12) = Some 12000000"
proof -
  have "rne (\<bar>12\<bar> * 10 ^ 6) = 12000000" using rne_of_int [of 12000000] by simp
  moreover have "digits 12 = ''12''" "zero_fill 6 [digit 0] = ''000000''" by code_simp+
  ultimately have "fmt_f 6 12 = ''12.000000''" by (simp add: fmt_f_def digits_single)
  then have "put_amount 64 12 = fmt_f 6 12" by (simp add: put_amount_def)
  then show ?thesis using rne_of_int [of 12000000] by (simp add: sql_number_fmt_f)
qed

lemma cr_sample_pays:
  "gets now sample_tables (payment_statements (cr_sample None) (fst (un_payment sample_request)) out) (\<lambda>x t1. fst x = Some OK \<and> True)"
  unfolding payment_statements_def cr_history_def Let_def cr_customer_def cr_pay_def
  apply (rule gets_row [OF cr_sample_fine(1)])
  apply (simp add: cr_evals cr_sample_texts amount12)
  apply (rule gets_row [OF cr_sample_fine(1)])
  apply (simp add: cr_evals cr_sample_texts amount12)
  apply (rule gets_row [OF cr_sample_fine(1)])
  apply (simp add: cr_evals)
  apply (simp add: pq_getvalue_def text_cell_def cr_sample_texts address_cells_def)
  apply (rule gets_next [OF cr_sample_fine(1)])
  apply (simp add: cr_evals cr_sample_texts amount12)
  apply (rule gets_row [OF cr_sample_fine(1)])
  apply (simp add: cr_evals cr_sample_texts amount12 gets_return)
  done

lemma cr_sample_request: "cr_request_ok (cr_sample l) sample_request"
  by (simp add: cr_request_ok_def cr_sample_types cr_order_fits_def sample_request_def sample_order_def set_all_local_def Let_def)

lemma cr_sample_ordered:
  "\<exists>td1 c1. process_transaction (db_init_cockroach (cr_sample None) stop) NEW_ORDER sample_request (sample_pg_conn sample_tables) =
     Some ((Some OK, td1), c1)"
  using order_gets [OF cr_sample_fine(1,2) sample_pg_ready(1), of sample_tables sample_request "\<lambda>_. True" stop] cr_sample_gets
  by (simp add: sample_pg_ready(2))

lemma cr_sample_paid:
  "\<exists>td1 c1. process_transaction (db_init_cockroach (cr_sample None) stop) PAYMENT sample_request (sample_pg_conn sample_tables) =
     Some ((Some OK, td1), c1)"
  using payment_gets [OF cr_sample_fine(1,2) sample_pg_ready(1), of sample_tables sample_request "\<lambda>_. True" stop] cr_sample_pays
  by (simp add: sample_pg_ready(2))

section \<open>Properties\<close>



text \<open>C10: With CockroachDB an order lowers the stock of its home warehouse only: although each line names the
  warehouse that supplies it, the stock of every other warehouse is left as it was; and of the 24
  characters of district information at most 15 enter a line.\<close>
theorem home_stock_only:
  assumes "pg_idle e c" "cr_request_ok e td" "process_transaction (db_init_cockroach e stop) NEW_ORDER td c = Some ((Some OK, td1), c1)"
    and "w = no_w_id (fst (un_new_order td))"
  shows "filter (\<lambda>s. S_W_ID s \<noteq> w) (stock_t (pg_committed c1)) = filter (\<lambda>s. S_W_ID s \<noteq> w) (stock_t (pg_committed c)) \<and>
    (\<exists>ls. order_line_t (pg_committed c1) = order_line_t (pg_committed c) @ ls \<and>
       length ls = nat (no_o_ol_cnt (fst (un_new_order td))) \<and> (\<forall>l \<in> set ls. length (opt_text (OL_DIST_INFO l)) \<le> 15))"
proof -
  define d where "d = set_all_local (fst (un_new_order td))"
  obtain td0 where "same_request td td0" "cr_transaction_done (pg_types e) NEW_ORDER td0 (pg_committed c) (pg_committed c1)"
    using cockroach.process_atomic [OF assms(1-3)] by (auto simp: cockroach.outcome_def)
  then obtain now where "cr_new_order_done (pg_types e) now d (pg_committed c) (pg_committed c1)"
    by (auto simp: same_request_def cr_transaction_done_def d_def)
  then obtain k where L: "cr_lines_done (pg_types e) d k [0..<nat (no_o_ol_cnt d)] (order_entered d k now (pg_committed c)) (pg_committed c1)"
    unfolding cr_new_order_done_def by blast
  have d: "no_w_id d = w" "no_o_ol_cnt d = no_o_ol_cnt (fst (un_new_order td))" by (simp_all add: d_def set_all_local_def assms(4))
  show ?thesis using cr_lines_effect [OF L] by (auto simp: d order_entered_def Let_def)
qed

theorem home_stock_only_witness:
  "\<exists>td1 c1. process_transaction (db_init_cockroach (cr_sample None) 0) NEW_ORDER sample_request (sample_pg_conn sample_tables) =
      Some ((Some OK, td1), c1) \<and> length (order_line_t (pg_committed c1)) = 1"
proof -
  obtain td1 c1 where P: "process_transaction (db_init_cockroach (cr_sample None) 0) NEW_ORDER sample_request (sample_pg_conn sample_tables) =
      Some ((Some OK, td1), c1)" using cr_sample_ordered by blast
  from home_stock_only [OF cr_sample_fine(4) cr_sample_request P refl, unfolded sample_pg_ready(2)] P show ?thesis
    by (auto simp: sample_tables_def sample_request_def sample_order_def)
qed

text \<open>C11: With CockroachDB a payment is booked in the history and taken from the customer's balance with its
  amount, but his payments of the year grow by one whatever the amount is, and their number is not
  raised.\<close>
theorem payment_counts_one:
  assumes "pg_idle e c" "cr_request_ok e td" "process_transaction (db_init_cockroach e stop) PAYMENT td c = Some ((Some OK, td1), c1)"
  shows "\<exists>x h r r1. numeric_in (pg_types e) (put_amount 64 (py_h_amount (fst (un_payment td)))) = Some x \<and>
    history_t (pg_committed c1) = history_t (pg_committed c) @ [h] \<and> H_AMOUNT h = x \<and>
    r \<in> set (customer_t (pg_committed c)) \<and> r1 \<in> set (customer_t (pg_committed c1)) \<and>
    is_customer (H_C_W_ID h) (H_C_D_ID h) (H_C_ID h) r \<and> is_customer (H_C_W_ID h) (H_C_D_ID h) (H_C_ID h) r1 \<and>
    C_BALANCE r1 = C_BALANCE r - x \<and> C_YTD_PAYMENT r1 = C_YTD_PAYMENT r + 10 ^ 6 \<and> C_PAYMENT_CNT r1 = C_PAYMENT_CNT r"
proof -
  obtain td0 where T: "same_request td td0" "cr_transaction_done (pg_types e) PAYMENT td0 (pg_committed c) (pg_committed c1)"
    using cockroach.process_atomic [OF assms] by (auto simp: cockroach.outcome_def)
  have amount: "py_h_amount (fst (un_payment td0)) = py_h_amount (fst (un_payment td))"
    using arg_cong [of _ _ py_h_amount, OF T(1) [unfolded same_request_def, THEN conjunct2, THEN conjunct2, THEN conjunct2]] by simp
  obtain now x w c_d c_w u cr h where E: "numeric_in (pg_types e) (put_amount 64 (py_h_amount (fst (un_payment td0)))) = Some x"
      "cr \<in> set (customer_t (pg_committed c))" "is_customer c_w c_d w cr"
      "customer_t (pg_committed c1) = update_rows (is_customer c_w c_d w) (pay_cr x u) (customer_t (pg_committed c))"
      "history_t (pg_committed c1) = history_t (pg_committed c) @ [h]" "H_AMOUNT h = x" "H_C_W_ID h = c_w" "H_C_D_ID h = c_d" "H_C_ID h = w"
    using T(2) unfolding cr_transaction_done_def cr_payment_done_def Let_def by (auto simp: PAYMENT_def NEW_ORDER_def)
  have "pay_cr x u cr \<in> set (customer_t (pg_committed c1))" using E(2,3) by (auto simp: E(4) update_rows_def)
  moreover have "is_customer c_w c_d w (pay_cr x u cr)" using E(3) by (simp add: is_customer_def pay_cr_def)
  ultimately show ?thesis using E amount
    by (intro exI [of _ x] exI [of _ h] exI [of _ cr] exI [of _ "pay_cr x u cr"]) (simp add: pay_cr_def)
qed

theorem payment_counts_one_witness:
  "\<exists>td1 c1 h. process_transaction (db_init_cockroach (cr_sample None) 0) PAYMENT sample_request (sample_pg_conn sample_tables) =
      Some ((Some OK, td1), c1) \<and> history_t (pg_committed c1) = [h] \<and> H_AMOUNT h = 12000000 \<and>
    (\<exists>r \<in> set (customer_t (pg_committed c1)). C_BALANCE r = - 12000000 \<and> C_YTD_PAYMENT r = 1000000)"
proof -
  obtain td1 c1 where P: "process_transaction (db_init_cockroach (cr_sample None) 0) PAYMENT sample_request (sample_pg_conn sample_tables) =
      Some ((Some OK, td1), c1)" using cr_sample_paid by blast
  from payment_counts_one [OF cr_sample_fine(4) cr_sample_request P, unfolded sample_pg_ready(2)] P show ?thesis
    by (auto simp: sample_tables_def sample_customer_def sample_request_def cr_sample_texts amount12)
qed

text \<open>C8: With CockroachDB a worker does not survive the loss of its connection: if the connection is lost
  at the beginning of a transaction, this transaction and all the following ones are answered as rolled
  back, no further statement is sent, nothing is committed, and the worker never connects again.\<close>
theorem lost_connection_never_renewed:
  assumes "pg_ready c" "begin_fate e (pg_calls c) = Lost_before \<or> begin_fate e (pg_calls c) = Lost_after"
    and "nodes \<noteq> []" "\<forall>n \<in> set nodes. sends_statements (fst n)"
  shows "\<exists>answers c1. worker_transactions (db_init_cockroach e stop) nodes c = Some (answers, c1) \<and>
    map fst answers = replicate (length nodes) (Some STATUS_ROLLBACK) \<and>
    pg_link c1 = Broken \<and> pg_calls c1 = pg_calls c + 1 \<and> pg_committed c1 = pg_committed c"
proof -
  define c1 where "c1 = lose (c\<lparr>pg_calls := pg_calls c + 1\<rparr>)"
  have link: "pg_link c1 = Broken" by (simp add: c1_def lose_def)
  obtain tr td ns where n: "nodes = (tr, td) # ns" using assms(3) by (cases nodes) auto
  obtain td1 where "process_transaction (db_init_cockroach e stop) tr td c = Some ((Some STATUS_ROLLBACK, td1), c1)"
    using failed_begin_rolled_back [OF lost_begin [OF assms(1,2)] link [unfolded c1_def], of tr stop td] assms(4) n c1_def by auto
  moreover obtain answers where "worker_transactions (db_init_cockroach e stop) ns c1 = Some (answers, c1)"
    "map fst answers = replicate (length ns) (Some STATUS_ROLLBACK)"
    using broken_answers [OF link, of ns e stop] assms(4) n by auto
  ultimately show ?thesis using link by (simp add: n c1_def lose_def end_block_def)
qed

theorem lost_connection_never_renewed_witness:
  "\<exists>answers c1. worker_transactions (db_init_cockroach (cr_sample (Some 0)) 0) [(NEW_ORDER, sample_request), (PAYMENT, sample_request)]
      (sample_pg_conn sample_tables) = Some (answers, c1) \<and>
    map fst answers = [Some STATUS_ROLLBACK, Some STATUS_ROLLBACK] \<and> pg_link c1 = Broken \<and> pg_committed c1 = sample_tables"
proof -
  have "begin_fate (cr_sample (Some 0)) (pg_calls (sample_pg_conn sample_tables)) = Lost_before" by (simp add: cr_sample_def sample_pg_ready(3))
  moreover have "sends_statements NEW_ORDER" "sends_statements PAYMENT" by (simp_all add: sends_statements_def)
  ultimately show ?thesis
    using lost_connection_never_renewed [OF sample_pg_ready(1), of "cr_sample (Some 0)" sample_tables
        "[(NEW_ORDER, sample_request), (PAYMENT, sample_request)]" 0]
    by (auto simp: sample_pg_ready(2) numeral_2_eq_2)
qed

end
