(* ===== verification/Spec2Isabelle.thy ===== *)
theory Spec2Isabelle
  imports Datagen_Main Datagen_Format Driver Client_Liveness Sockets Transactions Pg_Properties Pg_Types Driver_Main
    Event_Driver Direct_Driver Cr_Properties
begin

text \<open>
  DBT-2 is a load test for databases in the manner of TPC-C. This development models its C
  programs under \<open>src/src\<close>: the data generator, which writes the initial tables; the driver, whose
  terminals choose transactions, generate their input and send it; and the client, which queues
  the requests of the terminals and has a pool of workers execute them on a database.

  \<^bold>\<open>Theories.\<close>
  \<^item> \<open>Dbt2_Prelude\<close>: C division and casts, decimal printing, loops in the state monad, and the
    logic \<open>yields\<close>/\<open>advances\<close>/\<open>draws\<close> about results and about how far a computation moves the
    random generator. \<open>Float64\<close>: rounding of rationals to doubles, \<open>round\<close>, truncation, \<open>%f\<close>.
  \<^item> \<open>Pcg\<close>: the variant \<open>pcg64f\<close> of the vendored generator (\<open>pcg/pcg_variants.h\<close>,
    \<open>pcg/pcg-advance-128.c\<close>): its step, output, seeding and logarithmic jump.
  \<^item> \<open>Common\<close>: \<open>common.c\<close>, that is random numbers, strings and last names, think times, default
    cardinalities, byte order. \<open>Command_Line\<close>: \<open>atoi\<close> and \<open>strtoull\<close>.
  \<^item> \<open>Datagen_Base\<close>, \<open>Datagen_Tables\<close>, \<open>Datagen_Orders\<close>, \<open>Datagen_Main\<close>: \<open>datagen.c\<close>. The record
    \<open>datagen\<close> holds the global variables. A generator maps the settings and an environment (which
    files and pipes can be opened, the clock) to an outcome: what it printed and what it wrote to
    each stream, undefined behaviour, or an exit. The frame that all tables share is \<open>write_table\<close>;
    a row is a computation in the state monad over the generator. The orders use a linked list of
    customers on the explicit heap of \<open>Linked_List\<close>. \<open>Datagen_Format\<close> reads the files back.
  \<^item> \<open>Input_Data\<close>: \<open>input_data_generator.c\<close> with the input parts of the structures of
    \<open>transaction_data.h\<close>.
  \<^item> \<open>Driver\<close>: \<open>driver_common.c\<close> and \<open>driver.c\<close>. The record \<open>driver\<close> holds the globals. A terminal is
    a loop over rounds; the environment of a round gives the readings of the clock and the reply.
    Starting the threads is modelled with the failures of the calls as parameters; loops whose step
    comes from the command line are partial functions, with None for a loop that does not end.
    \<open>Driver_Main\<close>: \<open>driver_main.c\<close>, the arguments, their checks and the exit status.
  \<^item> \<open>Event_Driver\<close>: \<open>driver2.c\<close>, the driver with an event loop in each process: the parts of the
    processes, and the loop as a step relation whose steps are the callbacks. \<open>Direct_Driver\<close>:
    \<open>driver3.c\<close>, where the callbacks process the transactions on a connection of the process, with
    any \<open>db_context\<close>.
  \<^item> \<open>Transaction_Queue\<close>: \<open>transaction_queue.c\<close> and the pool of nodes of \<open>listener.c\<close> on the heap.
    \<open>Client_System\<close>: listeners (\<open>listener.c\<close>) and database workers (\<open>db_threadpool.c\<close>) as a
    transition system whose steps are the critical sections of the code; \<open>Client_Invariant\<close>
    and \<open>Client_Liveness\<close>: what holds in its reachable states and where it comes to rest.
  \<^item> \<open>Sockets\<close>: \<open>_socket.c\<close> and \<open>client_interface.c\<close>, with \<open>recv\<close>, \<open>send\<close> and the calls that open
    connections as parameters.
  \<^item> \<open>Sql_Tables\<close>: the statements of \<open>nonsp_common.h\<close> as a datatype, their texts, and their meaning
    on tables that are lists of rows. \<open>Sqlite_Db\<close>: \<open>sqlite/dbc_common.c\<close> on a connection with
    committed tables, those of the open transaction and the prepared statements, and the logic \<open>works\<close>
    of computations inside a transaction. \<open>Nonsp\<close>: the transactions of \<open>nonsp/\<close>.
    \<open>Nonsp_Effects\<close>: what each of them does to the tables. \<open>Consistency\<close>: the consistency conditions
    of the benchmark.
  \<^item> \<open>Db\<close>: \<open>db.c\<close> over the record \<open>db_context\<close> of operations (\<open>db.h\<close>), and what \<open>db_worker\<close> of
    \<open>db_threadpool.c\<close> does on its connection. \<open>Db_Sqlite\<close>: the context of SQLite.
    \<open>Db_Properties\<close>, \<open>Transactions\<close>: what follows for processing and for each transaction.
  \<^item> \<open>Pg_Sql\<close>, \<open>Pg_Procs\<close>: the stored procedures in C for PostgreSQL (\<open>src/storedproc/pgsql/c\<close>): their
    statements and the procedures as computations on a backend of the server, through SPI.
    \<open>Pg_Effects\<close>: the logics \<open>yields\<close> (what holds when a result is given) and \<open>ends\<close> (what holds of any
    outcome when SPI raises no error), and what each procedure does to the tables. \<open>Pg_Types\<close>: the types
    of the rows that they return. \<open>Libpq\<close>: the
    backend \<open>libpq/\<close> on a connection with committed tables and an open block, where commands may be
    refused or lose the connection. \<open>Db_Libpq\<close>: its context. \<open>Pg_Success\<close>, \<open>Pg_Properties\<close>: what
    follows for processing, with orders that are placed, rolled back, or placed twice.
  \<^item> \<open>Cr_Sql\<close>: the statements of the transactions for CockroachDB, with texts as parameters. \<open>Cockroach\<close>: the
    backend \<open>cockroach/\<close>, which executes them one by one on the connections of \<open>Libpq\<close>; the buffers for
    numbers and texts have their sizes. \<open>Cr_Effects\<close>: the logic \<open>does\<close> of what a client does in a block,
    and what each transaction does to the tables. \<open>Db_Cockroach\<close>: its context. \<open>Cr_Properties\<close>: what
    follows for processing, and where the backend does not do what it means to.

  \<^bold>\<open>Interfaces.\<close> \<open>seekable_sequence\<close> and \<open>partitioned_body\<close> (in \<open>Datagen_Base\<close>) state what skipping
  ahead in a generator promises to a loop that is split into parts, \<open>table_generator\<close> what a
  generator promises about its parts; they are interpreted by the generator and by every table.
  \<open>first_in_first_out\<close> states the contract of a queue and is interpreted by the transaction queue
  and by the pool of nodes. \<open>atomic_backend\<close> (in \<open>Db\<close>) states what \<open>process_transaction\<close> needs of a
  database backend, and \<open>settling_backend\<close> when its waiting loops end; both are interpreted by the
  contexts of SQLite, PostgreSQL and CockroachDB. \<open>direct_backend\<close> (in \<open>Direct_Driver\<close>) extends the first
  with what generated input satisfies, for SQLite and PostgreSQL.

  \<^bold>\<open>What is shown.\<close> Splitting a table into parts and concatenating the parts gives the file that is
  generated at once, for every table. The files read back have one well-formed row per key; orders
  and order lines agree. The list of customers is a permutation and is freed. The random values are
  in range and cost the number of draws that the skipping assumes; jumping equals drawing. The input
  of transactions is valid for the settings of the driver. The driver starts and joins the threads
  it should, and what it logs is what it sent. The command line of the driver is read back as it was
  written. The processes of the event drivers divide the terminals among them; an event loop keeps each
  terminal waiting for one thing and ends after the stop time; without a client, the interleaved
  terminals execute their transactions one after the other. The queue and the pool of nodes are first in, first
  out; in every reachable state of the client each node has one owner and the counters are exact, and
  the client, left alone, answers every request to its sender and comes to rest. A transaction
  arrives over a socket as it was sent. Whatever calls of the SQLite library fail, processing a
  transaction executes it once or not at all, each transaction that reports success has its specified
  effect, a worker executes its requests in order, and the tables stay consistent; processing ends once
  the environment allows it. With PostgreSQL the same holds as long as no acknowledgement of a commit gets
  lost; if one does, a transaction can be executed twice. An order for which everything is present is
  placed, and one with an item that does not exist is rolled back. With CockroachDB processing is atomic
  and keeps the tables consistent too, but a worker that has lost its connection never connects again, the
  stock of other warehouses is not touched, and payments are counted instead of summed. Where the code does not do what it means to, that is shown as well.

  \<^bold>\<open>Bounds.\<close> The freeing of the list of customers has fuel, the number of customers, which is shown
  to be enough; so has reading the rows of a query, with \<open>rows_left\<close>. The values of the C type \<open>int\<close> are integers with \<open>cast_int\<close> where a value is
  converted to it; the theorems assume settings within 32 bits where that matters. Doubles are
  rationals rounded to nearest even without overflow and with gradual underflow.

  \<^bold>\<open>Assumptions on SQLite.\<close> A call fails or has its documented effect; a statement that fails
  changes nothing and does not end the transaction; numbers are exact decimals in millionths where the
  database may use doubles; numeric columns are not NULL; the text of a decimal is read back as its
  value. One connection is looked at: other connections do not change the tables meanwhile.

  \<^bold>\<open>Assumptions on PostgreSQL.\<close> A command or a statement is executed, is refused with an error, or the
  connection is lost before or after it takes effect; an error aborts the block, and a lost connection
  rolls it back. Whole numbers and texts are printed and read back as they are; the other types are
  parameters, in \<open>spi_env\<close>. CockroachDB is taken to do the same, with integers of 64 bits and with NULL
  before other values in ascending order; the empty text is no number.

  \<^bold>\<open>Not modelled.\<close> Locale set-up, process ids, the text of usage messages, the limit of the buffer of
  DELIVERY_7, the path of MySQL to the middle customer, and so far the command line of the
  client, its alternative with processes, the semaphore emulation, the backends for MySQL, ODBC and Oracle, and the stored
  procedures in SQL.
\<close>

end
